(* ===== verification/Prelude.thy ===== *)
theory Prelude
  imports Main "HOL-Library.Multiset" "HOL-Library.Char_ord" "HOL-Library.List_Lexorder"
begin

section \<open>Shared vocabulary: Go integers, byte strings, results and stateful operations\<close>

text \<open>
  What every component of the development uses: the arithmetic of Go's \<open>int64\<close> with its
  wrap-around, byte strings (Go's \<open>string\<close> and \<open>[]byte\<close> are both lists of bytes and are both
  the type \<^typ>\<open>string\<close> here), the three ways a Go function of this program ends (a value, an
  \<open>sdk.Error\<close>, a panic), operations that read and write the state of the chain, and the rules
  by which an invariant is carried through a composition of operations.
\<close>

named_theorems op_simps \<open>unfolding of the operation combinators\<close>
named_theorems keeps \<open>rules for invariants kept by an operation whatever it returns\<close>
named_theorems keeps_ok \<open>rules for invariants kept by an operation that succeeds\<close>

subsection \<open>Machine integers\<close>

text \<open>
  An \<open>int64\<close> is an \<^typ>\<open>int\<close> in the range below; every addition, subtraction and
  multiplication of the source at that type is followed by \<open>i64\<close>, the wrap-around of two's
  complement.
\<close>

definition in_i64 :: "int \<Rightarrow> bool" where
  "in_i64 x \<longleftrightarrow> - (2 ^ 63) \<le> x \<and> x < 2 ^ 63"

definition i64 :: "int \<Rightarrow> int" where
  "i64 x = (x + 2 ^ 63) mod 2 ^ 64 - 2 ^ 63"

lemma i64_id: "- (2 ^ 63) \<le> x \<Longrightarrow> x < 2 ^ 63 \<Longrightarrow> i64 x = x"
  by (simp add: i64_def)

lemma i64_in: "in_i64 x \<Longrightarrow> i64 x = x"
  by (simp add: in_i64_def i64_id)

lemma in_i64_i64: "in_i64 (i64 x)"
proof -
  have "0 \<le> (x + 2 ^ 63) mod 2 ^ 64" "(x + 2 ^ 63) mod 2 ^ 64 < (2 :: int) ^ 64"
    by (rule pos_mod_sign, simp) (rule pos_mod_bound, simp)
  then show ?thesis by (simp add: in_i64_def i64_def)
qed

lemma i64_between: "0 \<le> x \<Longrightarrow> x \<le> y \<Longrightarrow> in_i64 y \<Longrightarrow> i64 x = x"
  by (simp add: in_i64_def i64_id)

text \<open>Go's integer division and remainder truncate towards zero.\<close>

definition go_quo :: "int \<Rightarrow> int \<Rightarrow> int" where
  "go_quo a b = sgn a * sgn b * (\<bar>a\<bar> div \<bar>b\<bar>)"

definition go_rem :: "int \<Rightarrow> int \<Rightarrow> int" where
  "go_rem a b = a - b * go_quo a b"

lemma go_quo_pos: "0 \<le> a \<Longrightarrow> 0 < b \<Longrightarrow> go_quo a b = a div b"
  by (cases "a = 0") (simp_all add: go_quo_def)

lemma go_rem_pos: "0 \<le> a \<Longrightarrow> 0 < b \<Longrightarrow> go_rem a b = a mod b"
  by (simp add: go_rem_def go_quo_pos minus_mult_div_eq_mod)

text \<open>
  \<open>int64(math.Pow10(n))\<close>: exact up to \<open>10 ^ 18\<close>; the conversion of a larger float overflows,
  which on amd64 gives the least \<open>int64\<close>.
\<close>

definition pow10_i64 :: "nat \<Rightarrow> int" where
  "pow10_i64 n = (if n \<le> 18 then 10 ^ n else - (2 ^ 63))"

lemma pow10_i64_pos: "n \<le> 18 \<Longrightarrow> 0 < pow10_i64 n"
  by (simp add: pow10_i64_def)

subsection \<open>Byte strings\<close>

text \<open>
  A byte is a \<^typ>\<open>char\<close>; \<open>bytes.Compare\<close> and the order of keys in a store are the
  lexicographic order that \<^theory_text>\<open>HOL-Library.List_Lexorder\<close> puts on \<^typ>\<open>string\<close>.
\<close>

definition byte :: "nat \<Rightarrow> char" where
  "byte n = char_of n"

lemma byte_less: "a < 256 \<Longrightarrow> b < 256 \<Longrightarrow> byte a < byte b \<longleftrightarrow> a < b"
  by (simp add: byte_def less_char_def)

lemma byte_eq: "a < 256 \<Longrightarrow> b < 256 \<Longrightarrow> byte a = byte b \<longleftrightarrow> a = b"
  by (metis byte_less nat_neq_iff order_less_irrefl)

text \<open>\<open>strconv.Itoa\<close>, \<open>strconv.FormatInt(n, 10)\<close> and the decimal form of a big integer.\<close>

fun digits :: "nat \<Rightarrow> string" where
  "digits n = (if n < 10 then [byte (48 + n)] else digits (n div 10) @ [byte (48 + n mod 10)])"

declare digits.simps [simp del]

definition itoa :: "int \<Rightarrow> string" where
  "itoa n = (if n < 0 then CHR ''-'' # digits (nat (- n)) else digits (nat n))"

lemma digits_not_Nil: "digits n \<noteq> []"
  by (subst digits.simps) simp

lemma digit_byte_eq: "a < 10 \<Longrightarrow> b < 10 \<Longrightarrow> byte (48 + a) = byte (48 + b) \<longleftrightarrow> a = b"
  by (simp add: byte_eq)

lemma digits_step: "\<not> n < 10 \<Longrightarrow> digits n = digits (n div 10) @ [byte (48 + n mod 10)]"
  by (subst digits.simps) simp

lemma digits_small: "n < 10 \<Longrightarrow> digits n = [byte (48 + n)]"
  by (subst digits.simps) simp

lemma digits_long: "\<not> n < 10 \<Longrightarrow> length (digits n) \<ge> 2"
proof -
  assume "\<not> n < 10"
  moreover have "length (digits (n div 10)) \<ge> 1"
    using digits_not_Nil [of "n div 10"] by (cases "digits (n div 10)") auto
  ultimately show ?thesis by (simp add: digits_step)
qed

lemma digits_inj: "digits m = digits n \<Longrightarrow> m = n"
proof (induction m arbitrary: n rule: digits.induct)
  case (1 m)
  show ?case
  proof (cases "m < 10")
    case True
    then have "length (digits n) = 1"
      using "1.prems" digits_small [of m] by (metis One_nat_def length_Cons list.size(3))
    then have "n < 10"
      using digits_long [of n] by linarith
    with True "1.prems" show ?thesis by (simp add: digits_small digit_byte_eq)
  next
    case False
    then have n: "\<not> n < 10"
      using "1.prems" digits_long [of m] digits_small [of n] by force
    from "1.prems" have "digits (m div 10) = digits (n div 10)"
      and "byte (48 + m mod 10) = byte (48 + n mod 10)"
      using False n by (simp_all add: digits_step)
    then have "m div 10 = n div 10" and "m mod 10 = n mod 10"
      using "1.IH" False by (auto simp: digit_byte_eq)
    then show ?thesis by (metis div_mult_mod_eq)
  qed
qed

lemma itoa_nonneg_inj: "0 \<le> a \<Longrightarrow> 0 \<le> b \<Longrightarrow> itoa a = itoa b \<Longrightarrow> a = b"
  by (auto simp: itoa_def dest: digits_inj)

lemma digits_no_dash: "CHR ''-'' \<notin> set (digits n)"
proof (induction n rule: digits.induct)
  case (1 n)
  have d: "byte (48 + k) \<noteq> CHR ''-''" if "k < 10" for k
  proof
    assume "byte (48 + k) = CHR ''-''"
    then have "of_char (byte (48 + k)) = (of_char CHR ''-'' :: nat)" by simp
    with that show False by (simp add: byte_def)
  qed
  show ?case
  proof (cases "n < 10")
    case True
    then show ?thesis using d [of n] by (simp add: digits_small)
  next
    case False
    then show ?thesis using 1 d [of "n mod 10"] by (auto simp: digits_step)
  qed
qed

text \<open>\<open>strings.Split(s, sep)\<close> for a separator of one byte.\<close>

fun split_on :: "char \<Rightarrow> string \<Rightarrow> string list" where
  "split_on c [] = [[]]"
| "split_on c (x # xs) =
     (if x = c then [] # split_on c xs
      else (case split_on c xs of [] \<Rightarrow> [[x]] | y # ys \<Rightarrow> (x # y) # ys))"

lemma split_on_none: "c \<notin> set xs \<Longrightarrow> split_on c xs = [xs]"
  by (induction xs) auto

lemma split_on_append: "c \<notin> set xs \<Longrightarrow> split_on c (xs @ c # ys) = xs # split_on c ys"
  by (induction xs) auto

lemma append_sep_inj:
  "c \<notin> set xs \<Longrightarrow> c \<notin> set xs' \<Longrightarrow> xs @ c # ys = xs' @ c # ys' \<Longrightarrow> xs = xs' \<and> ys = ys'"
  by (induction xs arbitrary: xs') (auto simp: Cons_eq_append_conv append_eq_Cons_conv)

text \<open>
  The \<open>n\<close> low bytes of a number, most significant first: \<open>binary.BigEndian.PutUint64\<close> for
  \<open>n = 8\<close>. On numbers that fit, the byte order of the results is the order of the numbers.
\<close>

fun be_bytes :: "nat \<Rightarrow> nat \<Rightarrow> string" where
  "be_bytes 0 x = []"
| "be_bytes (Suc n) x = be_bytes n (x div 256) @ [byte (x mod 256)]"

lemma length_be_bytes [simp]: "length (be_bytes n x) = n"
  by (induction n arbitrary: x) auto

lemma less_append_same_length:
  fixes xs ys us vs :: string
  shows "length xs = length ys \<Longrightarrow> xs @ us < ys @ vs \<longleftrightarrow> xs < ys \<or> (xs = ys \<and> us < vs)"
  by (induction xs ys rule: list_induct2) auto

lemma less_eq_append_same_length:
  fixes xs ys us vs :: string
  shows "length xs = length ys \<Longrightarrow> xs @ us \<le> ys @ vs \<longleftrightarrow> xs < ys \<or> (xs = ys \<and> us \<le> vs)"
  by (induction xs ys rule: list_induct2) auto

lemma div_mod_less:
  fixes x y k :: nat
  assumes "0 < k"
  shows "x div k < y div k \<or> (x div k = y div k \<and> x mod k < y mod k) \<longleftrightarrow> x < y"
proof -
  have eqs: "x = x div k * k + x mod k" "y = y div k * k + y mod k" by simp_all
  have bounds: "x mod k < k" "y mod k < k" using assms by simp_all
  consider "x div k < y div k" | "x div k = y div k" | "y div k < x div k" by linarith
  then show ?thesis
  proof cases
    case 1
    then have "Suc (x div k) * k \<le> y div k * k" by (intro mult_le_mono1) simp
    then have "x < y" using eqs bounds unfolding mult_Suc by linarith
    with 1 show ?thesis by simp
  next
    case 2
    with eqs show ?thesis by (metis nat_add_left_cancel_less nat_neq_iff)
  next
    case 3
    then have "Suc (y div k) * k \<le> x div k * k" by (intro mult_le_mono1) simp
    then have "y < x" using eqs bounds unfolding mult_Suc by linarith
    with 3 show ?thesis by simp
  qed
qed

lemma be_bytes_less:
  "x < 256 ^ n \<Longrightarrow> y < 256 ^ n \<Longrightarrow> be_bytes n x < be_bytes n y \<longleftrightarrow> x < y"
  and be_bytes_eq: "x < 256 ^ n \<Longrightarrow> y < 256 ^ n \<Longrightarrow> be_bytes n x = be_bytes n y \<longleftrightarrow> x = y"
proof (induction n arbitrary: x y)
  case 0
  { case 1 then show ?case by simp }
  { case 2 then show ?case by simp }
next
  case (Suc n)
  have small: "z div 256 < 256 ^ n" if "z < 256 ^ Suc n" for z :: nat
    using that by (simp add: less_mult_imp_div_less mult.commute)
  have eq: "be_bytes (Suc n) x = be_bytes (Suc n) y \<longleftrightarrow> x = y"
    if "x < 256 ^ Suc n" "y < 256 ^ Suc n" for x y
  proof -
    have "be_bytes (Suc n) x = be_bytes (Suc n) y \<longleftrightarrow> x div 256 = y div 256 \<and> x mod 256 = y mod 256"
      using Suc.IH(2) [OF small [OF that(1)] small [OF that(2)]] by (simp add: byte_eq)
    also have "\<dots> \<longleftrightarrow> x = y" by (metis div_mult_mod_eq)
    finally show ?thesis .
  qed
  { case 1
    have "be_bytes (Suc n) x < be_bytes (Suc n) y \<longleftrightarrow>
        x div 256 < y div 256 \<or> (x div 256 = y div 256 \<and> x mod 256 < y mod 256)"
      using Suc.IH [OF small [OF 1(1)] small [OF 1(2)]]
      by (simp add: less_append_same_length byte_less)
    also have "\<dots> \<longleftrightarrow> x < y"
      by (rule div_mod_less) simp
    finally show ?case . }
  { case 2 then show ?case by (rule eq) }
qed

subsection \<open>Results and operations\<close>

text \<open>
  An \<open>sdk.Error\<close> made by a module is its codespace and its code (the log text is not
  consensus data and is left out); one made by a constructor of the SDK, such as
  \<open>sdk.ErrUnknownAddress\<close>, is the name of that constructor; \<open>PlainErr\<close> is a Go \<open>error\<close>
  that only carries a text. A function of the program returns a value, an error, or panics.
\<close>

datatype err = ModErr string nat | SdkErr string | PlainErr

datatype 'a ret = Ok 'a | Err err | Panic

text \<open>A pure computation that may fail, followed by another.\<close>

fun ret_bind :: "'a ret \<Rightarrow> ('a \<Rightarrow> 'b ret) \<Rightarrow> 'b ret" where
  "ret_bind (Ok a) f = f a"
| "ret_bind (Err e) f = Err e"
| "ret_bind Panic f = Panic"

fun ret_map :: "('a \<Rightarrow> 'b) \<Rightarrow> 'a ret \<Rightarrow> 'b ret" where
  "ret_map f (Ok a) = Ok (f a)"
| "ret_map f (Err e) = Err e"
| "ret_map f Panic = Panic"

lemma ret_bind_Ok: "ret_bind r f = Ok b \<longleftrightarrow> (\<exists>a. r = Ok a \<and> f a = Ok b)"
  by (cases r) auto

lemma ret_map_Ok: "ret_map f r = Ok b \<longleftrightarrow> (\<exists>a. r = Ok a \<and> b = f a)"
  by (cases r) auto

type_synonym ('s, 'a) op = "'s \<Rightarrow> 'a ret \<times> 's"

definition return :: "'a \<Rightarrow> ('s, 'a) op" where
  "return a = (\<lambda>s. (Ok a, s))"

definition fail :: "err \<Rightarrow> ('s, 'a) op" where
  "fail e = (\<lambda>s. (Err e, s))"

definition panic :: "('s, 'a) op" where
  "panic = (\<lambda>s. (Panic, s))"

definition and_then :: "('s, 'a) op \<Rightarrow> ('a \<Rightarrow> ('s, 'b) op) \<Rightarrow> ('s, 'b) op" where
  "and_then m f = (\<lambda>s. case m s of
      (Ok a, s') \<Rightarrow> f a s'
    | (Err e, s') \<Rightarrow> (Err e, s')
    | (Panic, s') \<Rightarrow> (Panic, s'))"

definition lift :: "'a ret \<Rightarrow> ('s, 'a) op" where
  "lift r = (\<lambda>s. (r, s))"

definition gets :: "('s \<Rightarrow> 'a) \<Rightarrow> ('s, 'a) op" where
  "gets f = (\<lambda>s. (Ok (f s), s))"

definition modify :: "('s \<Rightarrow> 's) \<Rightarrow> ('s, unit) op" where
  "modify f = (\<lambda>s. (Ok (), f s))"

text \<open>\<open>if cond { return err }\<close>, and \<open>if err := m; err != nil { log }\<close>, which goes on.\<close>

definition guard :: "bool \<Rightarrow> err \<Rightarrow> ('s, unit) op" where
  "guard b e = (if b then return () else fail e)"

definition ignore_err :: "('s, 'a) op \<Rightarrow> ('s, unit) op" where
  "ignore_err m = (\<lambda>s. case m s of
      (Ok a, s') \<Rightarrow> (Ok (), s')
    | (Err e, s') \<Rightarrow> (Ok (), s')
    | (Panic, s') \<Rightarrow> (Panic, s'))"

definition whenever :: "bool \<Rightarrow> ('s, unit) op \<Rightarrow> ('s, unit) op" where
  "whenever b m = (if b then m else return ())"

fun foreach :: "('a \<Rightarrow> ('s, unit) op) \<Rightarrow> 'a list \<Rightarrow> ('s, unit) op" where
  "foreach f [] = return ()"
| "foreach f (x # xs) = and_then (f x) (\<lambda>_. foreach f xs)"

lemmas op_defs [op_simps] =
  return_def fail_def panic_def and_then_def lift_def gets_def modify_def guard_def
  ignore_err_def whenever_def

subsection \<open>Invariants of operations\<close>

text \<open>
  \<open>keep I m\<close>: the invariant is kept whether the operation succeeds or returns an error (the
  begin and end blockers go on after most errors); \<open>keep_ok I m\<close>: it is kept when the operation
  succeeds (a failed transaction is rolled back by the framework). A panic aborts the block or
  the transaction in both.
\<close>

definition keep :: "('s \<Rightarrow> bool) \<Rightarrow> ('s, 'a) op \<Rightarrow> bool" where
  "keep I m \<longleftrightarrow> (\<forall>s. I s \<longrightarrow> (case m s of (Panic, s') \<Rightarrow> True | (_, s') \<Rightarrow> I s'))"

definition keep_ok :: "('s \<Rightarrow> bool) \<Rightarrow> ('s, 'a) op \<Rightarrow> bool" where
  "keep_ok I m \<longleftrightarrow> (\<forall>s. I s \<longrightarrow> (case m s of (Ok a, s') \<Rightarrow> I s' | _ \<Rightarrow> True))"

lemma keep_okD: "keep_ok I m \<Longrightarrow> I s \<Longrightarrow> m s = (Ok a, s') \<Longrightarrow> I s'"
  by (auto simp: keep_ok_def split: prod.splits ret.splits)

lemma keepD:
  assumes "keep I m" and "I s" and "m s = (r, s')" and "r \<noteq> Panic"
  shows "I s'"
proof -
  from assms(1,2) have "case m s of (Panic, s') \<Rightarrow> True | (_, s') \<Rightarrow> I s'"
    by (simp add: keep_def)
  with assms(3,4) show ?thesis by (cases r) auto
qed

lemma keepI:
  assumes "\<And>s r s'. I s \<Longrightarrow> m s = (r, s') \<Longrightarrow> r \<noteq> Panic \<Longrightarrow> I s'"
  shows "keep I m"
  unfolding keep_def using assms by (fastforce split: prod.splits ret.splits)

lemma keep_okI: "(\<And>s a s'. I s \<Longrightarrow> m s = (Ok a, s') \<Longrightarrow> I s') \<Longrightarrow> keep_ok I m"
  unfolding keep_ok_def by (auto split: prod.splits ret.splits)

lemma keep_imp_keep_ok: "keep I m \<Longrightarrow> keep_ok I m"
  unfolding keep_ok_def by (auto split: prod.splits ret.splits dest: keepD)

lemma keep_return [keeps]: "keep I (return a)"
  and keep_fail [keeps]: "keep I (fail e)"
  and keep_panic [keeps]: "keep I panic"
  and keep_lift [keeps]: "keep I (lift r)"
  and keep_gets [keeps]: "keep I (gets f)"
  and keep_guard [keeps]: "keep I (guard b e)"
  by (auto simp: keep_def op_simps split: ret.splits)

lemma keep_modify [keeps]: "(\<And>s. I s \<Longrightarrow> I (f s)) \<Longrightarrow> keep I (modify f)"
  by (auto simp: keep_def op_simps)

lemma keep_and_then [keeps]:
  assumes "keep I m" and "\<And>a. keep I (f a)"
  shows "keep I (and_then m f)"
  unfolding keep_def and_then_def
proof (intro allI impI)
  fix s
  assume s: "I s"
  obtain r s' where m: "m s = (r, s')" by (cases "m s")
  show "case case m s of (Ok a, s') \<Rightarrow> f a s' | (Err e, s') \<Rightarrow> (Err e, s') | (Panic, s') \<Rightarrow> (Panic, s')
      of (Panic, s') \<Rightarrow> True | (_, s') \<Rightarrow> I s'"
  proof (cases r)
    case (Ok a)
    then have "I s'" using assms(1) s m by (auto elim: keepD)
    then show ?thesis using assms(2) [of a] m Ok by (auto simp: keep_def)
  next
    case (Err e)
    then have "I s'" using assms(1) s m by (auto elim: keepD)
    then show ?thesis using m Err by simp
  next
    case Panic
    then show ?thesis using m by simp
  qed
qed

lemma keep_ignore_err [keeps]: "keep I m \<Longrightarrow> keep I (ignore_err m)"
  by (rule keepI) (auto simp: ignore_err_def split: prod.splits ret.splits dest: keepD)

lemma keep_whenever [keeps]: "(b \<Longrightarrow> keep I m) \<Longrightarrow> keep I (whenever b m)"
  by (simp add: whenever_def keep_return)

lemma keep_foreach [keeps]: "(\<And>x. x \<in> set xs \<Longrightarrow> keep I (f x)) \<Longrightarrow> keep I (foreach f xs)"
  by (induction xs) (auto intro: keeps)

lemma keep_if [keeps]: "(b \<Longrightarrow> keep I m) \<Longrightarrow> (\<not> b \<Longrightarrow> keep I n) \<Longrightarrow> keep I (if b then m else n)"
  by simp

lemma keep_option [keeps]:
  "(x = None \<Longrightarrow> keep I m) \<Longrightarrow> (\<And>a. x = Some a \<Longrightarrow> keep I (f a)) \<Longrightarrow>
    keep I (case x of None \<Rightarrow> m | Some a \<Rightarrow> f a)"
  by (cases x) auto

lemma keep_ok_fail [keeps_ok]: "keep_ok I (fail e)"
  and keep_ok_panic [keeps_ok]: "keep_ok I panic"
  by (auto simp: keep_ok_def op_simps)

lemma keep_ok_and_then [keeps_ok]:
  assumes "keep_ok I m" and "\<And>a. keep_ok I (f a)"
  shows "keep_ok I (and_then m f)"
  unfolding keep_ok_def and_then_def
proof (intro allI impI)
  fix s
  assume s: "I s"
  obtain r s' where m: "m s = (r, s')" by (cases "m s")
  show "case case m s of (Ok a, s') \<Rightarrow> f a s' | (Err e, s') \<Rightarrow> (Err e, s') | (Panic, s') \<Rightarrow> (Panic, s')
      of (Ok a, s') \<Rightarrow> I s' | _ \<Rightarrow> True"
  proof (cases r)
    case (Ok a)
    then have "I s'" using assms(1) s m by (auto elim: keep_okD)
    then show ?thesis using assms(2) [of a] m Ok by (auto simp: keep_ok_def)
  qed (use m in auto)
qed

lemma keep_ok_if [keeps_ok]:
  "(b \<Longrightarrow> keep_ok I m) \<Longrightarrow> (\<not> b \<Longrightarrow> keep_ok I n) \<Longrightarrow> keep_ok I (if b then m else n)"
  by simp

lemma keep_ok_option [keeps_ok]:
  "(x = None \<Longrightarrow> keep_ok I m) \<Longrightarrow> (\<And>a. x = Some a \<Longrightarrow> keep_ok I (f a)) \<Longrightarrow>
    keep_ok I (case x of None \<Rightarrow> m | Some a \<Rightarrow> f a)"
  by (cases x) auto

lemma keep_ok_whenever [keeps_ok]: "(b \<Longrightarrow> keep_ok I m) \<Longrightarrow> keep_ok I (whenever b m)"
  by (simp add: whenever_def keep_imp_keep_ok keep_return)

lemma keep_ok_foreach [keeps_ok]:
  "(\<And>x. x \<in> set xs \<Longrightarrow> keep_ok I (f x)) \<Longrightarrow> keep_ok I (foreach f xs)"
  by (induction xs) (auto intro: keeps_ok keep_imp_keep_ok keep_return)

text \<open>Inversion of a successful composition.\<close>

lemma and_then_Ok:
  "and_then m f s = (Ok b, s'') \<longleftrightarrow> (\<exists>a s'. m s = (Ok a, s') \<and> f a s' = (Ok b, s''))"
  by (auto simp: and_then_def split: prod.splits ret.splits)

lemma guard_Ok: "guard b e s = (Ok u, s') \<longleftrightarrow> b \<and> s' = s"
  by (auto simp: op_simps)

lemma gets_Ok: "gets f s = (Ok a, s') \<longleftrightarrow> a = f s \<and> s' = s"
  by (auto simp: op_simps)

lemma return_Ok: "return a s = (Ok b, s') \<longleftrightarrow> b = a \<and> s' = s"
  by (auto simp: op_simps)

lemma fail_Ok: "\<not> fail e s = (Ok b, s')"
  and panic_Ok: "\<not> panic s = (Ok b, s')"
  by (simp_all add: op_simps)

lemma lift_Ok: "lift r s = (Ok a, s') \<longleftrightarrow> r = Ok a \<and> s' = s"
  by (auto simp: op_simps)

lemma modify_Ok: "modify f s = (Ok u, s') \<longleftrightarrow> s' = f s"
  by (auto simp: op_simps)

lemmas Ok_simps = ret_bind_Ok ret_map_Ok and_then_Ok guard_Ok gets_Ok return_Ok fail_Ok panic_Ok lift_Ok modify_Ok

end
