(* ===== verification/GoSort.thy ===== *)
theory GoSort
  imports Prelude
begin

section \<open>\<open>sort.Slice\<close>\<close>

text \<open>
  \<open>sort.Slice(x, less)\<close> of Go's standard library permutes a slice so that no element is less
  than an earlier one, for a \<open>less\<close> that is a strict weak order; it is not stable, so the result
  is not determined where \<open>less\<close> does not tell elements apart. The modules' definitions take the
  sorting function as an argument, and their theorems hold for every function that meets
  \<open>slice_sort\<close>. \<open>sort_by\<close> is one such function, which the witnesses use.
\<close>

definition strict_weak :: "('a \<Rightarrow> 'a \<Rightarrow> bool) \<Rightarrow> 'a set \<Rightarrow> bool" where
  "strict_weak lt A \<longleftrightarrow>
     (\<forall>x \<in> A. \<not> lt x x) \<and>
     (\<forall>x \<in> A. \<forall>y \<in> A. \<forall>z \<in> A. lt x y \<longrightarrow> lt y z \<longrightarrow> lt x z) \<and>
     (\<forall>x \<in> A. \<forall>y \<in> A. \<forall>z \<in> A. \<not> lt x y \<longrightarrow> \<not> lt y z \<longrightarrow> \<not> lt x z)"

definition slice_sort :: "(('a \<Rightarrow> 'a \<Rightarrow> bool) \<Rightarrow> 'a list \<Rightarrow> 'a list) \<Rightarrow> bool" where
  "slice_sort srt \<longleftrightarrow> (\<forall>lt xs. strict_weak lt (set xs) \<longrightarrow>
     mset (srt lt xs) = mset xs \<and> sorted_wrt (\<lambda>a b. \<not> lt b a) (srt lt xs))"

fun insert_by :: "('a \<Rightarrow> 'a \<Rightarrow> bool) \<Rightarrow> 'a \<Rightarrow> 'a list \<Rightarrow> 'a list" where
  "insert_by lt x [] = [x]"
| "insert_by lt x (y # ys) = (if lt y x then y # insert_by lt x ys else x # y # ys)"

fun sort_by :: "('a \<Rightarrow> 'a \<Rightarrow> bool) \<Rightarrow> 'a list \<Rightarrow> 'a list" where
  "sort_by lt [] = []"
| "sort_by lt (x # xs) = insert_by lt x (sort_by lt xs)"

lemma strict_weak_key:
  fixes f :: "'a \<Rightarrow> 'k::linorder"
  assumes "\<And>x y. x \<in> A \<Longrightarrow> y \<in> A \<Longrightarrow> lt x y \<longleftrightarrow> f x < f y"
  shows "strict_weak lt A"
  using assms unfolding strict_weak_def by (auto intro: less_trans)

lemma strict_weak_subset: "strict_weak lt A \<Longrightarrow> B \<subseteq> A \<Longrightarrow> strict_weak lt B"
  unfolding strict_weak_def by (meson subsetD)

lemma strict_weak_asym: "strict_weak lt A \<Longrightarrow> x \<in> A \<Longrightarrow> y \<in> A \<Longrightarrow> lt x y \<Longrightarrow> \<not> lt y x"
  unfolding strict_weak_def by blast

lemma strict_weak_negtrans:
  "strict_weak lt A \<Longrightarrow> x \<in> A \<Longrightarrow> y \<in> A \<Longrightarrow> z \<in> A \<Longrightarrow>
     \<not> lt x y \<Longrightarrow> \<not> lt y z \<Longrightarrow> \<not> lt x z"
  unfolding strict_weak_def by blast

lemma mset_insert_by: "mset (insert_by lt x ys) = add_mset x (mset ys)"
  by (induction ys) auto

lemma mset_sort_by: "mset (sort_by lt xs) = mset xs"
  by (induction xs) (auto simp: mset_insert_by)

lemma set_sort_by [simp]: "set (sort_by lt xs) = set xs"
  by (metis mset_sort_by set_mset_mset)

lemma set_insert_by [simp]: "set (insert_by lt x ys) = insert x (set ys)"
  by (induction ys) auto

lemma sorted_insert_by:
  "strict_weak lt (insert x (set ys)) \<Longrightarrow> sorted_wrt (\<lambda>a b. \<not> lt b a) ys \<Longrightarrow>
     sorted_wrt (\<lambda>a b. \<not> lt b a) (insert_by lt x ys)"
proof (induction ys)
  case Nil
  then show ?case by simp
next
  case (Cons y ys)
  have sub: "strict_weak lt (insert x (set ys))"
    using Cons.prems(1) by (rule strict_weak_subset) auto
  show ?case
  proof (cases "lt y x")
    case True
    then have "\<not> lt x y" using strict_weak_asym [OF Cons.prems(1), of y x] by auto
    then show ?thesis using True Cons.IH [OF sub] Cons.prems(2) by auto
  next
    case False
    have "\<not> lt z x" if "z \<in> set ys" for z
      by (rule strict_weak_negtrans [OF Cons.prems(1), of z y x])
        (use that Cons.prems(2) False in auto)
    then show ?thesis using False Cons.prems(2) by auto
  qed
qed

lemma sort_by_slice_sort: "slice_sort sort_by"
proof -
  have "strict_weak lt (set xs) \<Longrightarrow> sorted_wrt (\<lambda>a b. \<not> lt b a) (sort_by lt xs)" for lt and xs :: "'a list"
  proof (induction xs)
    case Nil
    then show ?case by simp
  next
    case (Cons x xs)
    have "strict_weak lt (set xs)" using Cons.prems by (rule strict_weak_subset) auto
    then show ?case using Cons by (auto intro: sorted_insert_by)
  qed
  then show ?thesis by (simp add: slice_sort_def mset_sort_by)
qed

lemma slice_sortD:
  assumes "slice_sort srt" and "strict_weak lt (set xs)"
  shows "mset (srt lt xs) = mset xs" and "set (srt lt xs) = set xs"
    and "sorted_wrt (\<lambda>a b. \<not> lt b a) (srt lt xs)"
    and "length (srt lt xs) = length xs"
    and "distinct (srt lt xs) = distinct xs"
proof -
  show m: "mset (srt lt xs) = mset xs" and "sorted_wrt (\<lambda>a b. \<not> lt b a) (srt lt xs)"
    using assms by (auto simp: slice_sort_def)
  show "set (srt lt xs) = set xs" using m by (metis set_mset_mset)
  show "length (srt lt xs) = length xs" using m by (metis size_mset)
  show "distinct (srt lt xs) = distinct xs" using m by (rule mset_eq_imp_distinct_iff)
qed

end
