(* ===== verification/Sdk.thy ===== *)
theory Sdk
  imports Prelude
begin

section \<open>The framework the program is built on, as parameters\<close>

text \<open>
  The modules call the Cosmos SDK (a fork that is not part of the repository): decimals and coin
  lists, the account, bank and supply keepers. That code is a parameter here. The record \<open>sdk\<close>
  has one field per stateless function the modules call and \<open>cosmos\<close> adds the keepers, over an
  abstract type \<open>'b\<close> of what the account, bank and supply stores hold. The modules' definitions
  take such a record; the theorems that need to know something of it assume \<open>sdk_ok\<close> or
  \<open>cosmos_ok\<close>, which state documented behaviour only.

  An \<open>sdk.Int\<close> and an \<open>sdk.Dec\<close> are structs around a \<open>*big.Int\<close> of the standard library, and
  the modules read that field (\<open>d.Int.Bytes()\<close>); both are the \<^typ>\<open>int\<close> in that field (for a
  \<open>Dec\<close> the value times \<open>10 ^ 18\<close>). \<open>Neg\<close> and the comparisons are the ones of \<open>big.Int\<close>;
  everything that rounds, scales or converts is a field of the record. \<open>Add\<close> and \<open>Sub\<close> of an
  \<open>sdk.Int\<close> panic beyond 255 bits: where the operands are not bounded by the type \<open>int64\<close> they
  are the fields \<open>int_Add\<close> and \<open>int_Sub\<close>.
\<close>

type_synonym addr = string
type_synonym dec = int

record coin =
  Denom :: string
  Amount :: int

type_synonym coins = "coin list"

record sdk =
  addr_String :: "addr \<Rightarrow> string"
  addr_FromBech32 :: "string \<Rightarrow> addr option"
  addr_Verify :: "addr \<Rightarrow> bool"
  format_time :: "int \<Rightarrow> string"
  PrefixEndBytes :: "string \<Rightarrow> string"
  denom_valid :: "string \<Rightarrow> bool"
  int_Add :: "int \<Rightarrow> int \<Rightarrow> int ret"
  int_Sub :: "int \<Rightarrow> int \<Rightarrow> int ret"
  NewIntFromString :: "string \<Rightarrow> int option"
  NewCoin :: "string \<Rightarrow> int \<Rightarrow> coin ret"
  NewCoins :: "coin list \<Rightarrow> coins ret"
  coin_IsEqual :: "coin \<Rightarrow> coin \<Rightarrow> bool"
  coins_Add :: "coins \<Rightarrow> coins \<Rightarrow> coins"
  coins_SafeSub :: "coins \<Rightarrow> coins \<Rightarrow> coins \<times> bool"
  coins_AmountOf :: "coins \<Rightarrow> string \<Rightarrow> int"
  coins_IsAllGTE :: "coins \<Rightarrow> coins \<Rightarrow> bool"
  coins_IsValid :: "coins \<Rightarrow> bool"
  coins_IsAllPositive :: "coins \<Rightarrow> bool"
  coin_IsValid :: "coin \<Rightarrow> bool"
  input_ValidateBasic :: "addr \<times> coins \<Rightarrow> unit ret"
  output_ValidateBasic :: "addr \<times> coins \<Rightarrow> unit ret"
  coins_IsEqual :: "coins \<Rightarrow> coins \<Rightarrow> bool"
  coins_Sort :: "coins \<Rightarrow> coins"
  coin_String :: "coin \<Rightarrow> string"
  coins_String :: "coins \<Rightarrow> string"
  NewDec :: "int \<Rightarrow> dec"
  dec_Mul :: "dec \<Rightarrow> dec \<Rightarrow> dec"
  dec_Quo :: "dec \<Rightarrow> dec \<Rightarrow> dec"
  dec_MulInt :: "dec \<Rightarrow> int \<Rightarrow> dec"
  dec_QuoInt :: "dec \<Rightarrow> int \<Rightarrow> dec"
  dec_Ceil :: "dec \<Rightarrow> dec"
  dec_RoundInt :: "dec \<Rightarrow> int"
  dec_TruncateInt :: "dec \<Rightarrow> int"
  dec_String :: "dec \<Rightarrow> string"

text \<open>\<open>x.Int64()\<close> panics outside the range, so \<open>RoundInt64\<close> and \<open>TruncateInt64\<close> do.\<close>

definition to_Int64 :: "int \<Rightarrow> int ret" where
  "to_Int64 x = (if in_i64 x then Ok x else Panic)"

definition dec_RoundInt64 :: "'z sdk_scheme \<Rightarrow> dec \<Rightarrow> int ret" where
  "dec_RoundInt64 S d = to_Int64 (dec_RoundInt S d)"

definition dec_TruncateInt64 :: "'z sdk_scheme \<Rightarrow> dec \<Rightarrow> int ret" where
  "dec_TruncateInt64 S d = to_Int64 (dec_TruncateInt S d)"

text \<open>A division by zero panics in \<open>big.Int\<close>.\<close>

definition dec_Quo_ret :: "'z sdk_scheme \<Rightarrow> dec \<Rightarrow> dec \<Rightarrow> dec ret" where
  "dec_Quo_ret S a b = (if b = 0 then Panic else Ok (dec_Quo S a b))"

definition dec_QuoInt_ret :: "'z sdk_scheme \<Rightarrow> dec \<Rightarrow> int \<Rightarrow> dec ret" where
  "dec_QuoInt_ret S d n = (if n = 0 then Panic else Ok (dec_QuoInt S d n))"

text \<open>A list of coins in the form the SDK keeps: strictly increasing denominations.\<close>

definition coins_sorted :: "coins \<Rightarrow> bool" where
  "coins_sorted cs \<longleftrightarrow> sorted_wrt (\<lambda>a b. Denom a < Denom b) cs"

abbreviation dec_one :: int where
  "dec_one \<equiv> 10 ^ 18"

record 'b cosmos = sdk +
  acc_exists :: "'b \<Rightarrow> addr \<Rightarrow> bool"
  acc_Sequence :: "'b \<Rightarrow> addr \<Rightarrow> nat"
  acc_Spendable :: "'b \<Rightarrow> addr \<Rightarrow> int \<Rightarrow> coins"
  acc_Coins :: "'b \<Rightarrow> addr \<Rightarrow> coins"
  acc_SetCoins :: "addr \<Rightarrow> coins \<Rightarrow> 'b \<Rightarrow> 'b"
  bank_SendCoins :: "addr \<Rightarrow> addr \<Rightarrow> coins \<Rightarrow> ('b, unit) op"
  bank_SubtractCoins :: "addr \<Rightarrow> coins \<Rightarrow> ('b, unit) op"
  bank_AddCoins :: "addr \<Rightarrow> coins \<Rightarrow> ('b, unit) op"
  bank_InputOutputCoins :: "(addr \<times> coins) list \<Rightarrow> (addr \<times> coins) list \<Rightarrow> ('b, unit) op"
  bank_Blacklisted :: "addr \<Rightarrow> bool"
  bank_SendEnabled :: "'b \<Rightarrow> bool"
  supply_AccToModule :: "addr \<Rightarrow> string \<Rightarrow> coins \<Rightarrow> ('b, unit) op"
  supply_ModuleToAcc :: "string \<Rightarrow> addr \<Rightarrow> coins \<Rightarrow> ('b, unit) op"
  supply_MintCoins :: "string \<Rightarrow> coins \<Rightarrow> ('b, unit) op"
  supply_BurnCoins :: "string \<Rightarrow> coins \<Rightarrow> ('b, unit) op"
  supply_SetModuleCoins :: "string \<Rightarrow> coins \<Rightarrow> 'b \<Rightarrow> 'b"

subsection \<open>What is assumed of the parameters\<close>

text \<open>
  Addresses: the Bech32 text of an address determines it and holds no dash. Decimals: the
  precision is 18 digits, a product with an integer is exact, a quotient is off by less than
  its last digit, \<open>Ceil\<close> rounds up, \<open>TruncateInt\<close> towards zero, \<open>RoundInt\<close> to a nearest
  integer. Coins: \<open>NewCoin\<close> panics on a negative amount or an ill-formed denomination, and the
  operations on sorted lists add and subtract denomination by denomination.
\<close>

definition addr_ok :: "'z sdk_scheme \<Rightarrow> bool" where
  "addr_ok S \<longleftrightarrow> inj (addr_String S) \<and> (\<forall>a. CHR ''-'' \<notin> set (addr_String S a))"

definition dec_ok :: "'z sdk_scheme \<Rightarrow> bool" where
  "dec_ok S \<longleftrightarrow>
     (\<forall>n. NewDec S n = n * dec_one) \<and>
     (\<forall>d n. dec_Mul S d (n * dec_one) = d * n \<and> dec_Mul S (n * dec_one) d = d * n) \<and>
     (\<forall>a b. 0 \<le> a \<longrightarrow> 0 \<le> b \<longrightarrow> 0 \<le> dec_Mul S a b) \<and>
     (\<forall>d n. dec_MulInt S d n = d * n) \<and>
     (\<forall>a b. 0 \<le> a \<longrightarrow> 0 < b \<longrightarrow>
        0 \<le> dec_Quo S a b \<and> \<bar>dec_Quo S a b * b - a * dec_one\<bar> \<le> b) \<and>
     (\<forall>a b q. 0 < b \<longrightarrow> a * dec_one = q * b \<longrightarrow> dec_Quo S a b = q) \<and>
     (\<forall>d n. 0 < n \<longrightarrow> dec_QuoInt S d n = go_quo d n) \<and>
     (\<forall>d. dec_Ceil S d = - ((- d) div dec_one) * dec_one) \<and>
     (\<forall>d. dec_TruncateInt S d = go_quo d dec_one) \<and>
     (\<forall>d. 2 * \<bar>dec_RoundInt S d * dec_one - d\<bar> \<le> dec_one)"

text \<open>
  \<open>format_time t\<close> is \<open>sdk.FormatTimeBytes(time.Unix(t, 0))\<close>: a text of fixed width whose order is the
  order of time, up to the year 9999. \<open>PrefixEndBytes p\<close> is the end of the range of the keys with
  prefix \<open>p\<close>.
\<close>

definition time_fits :: "int \<Rightarrow> bool" where
  "time_fits t \<longleftrightarrow> 0 \<le> t \<and> t < 253402300800"

definition keys_ok :: "'z sdk_scheme \<Rightarrow> bool" where
  "keys_ok S \<longleftrightarrow>
     (\<forall>t u. time_fits t \<longrightarrow> time_fits u \<longrightarrow>
        length (format_time S t) = length (format_time S u) \<and>
        (format_time S t < format_time S u \<longleftrightarrow> t < u)) \<and>
     (\<forall>t. time_fits t \<longrightarrow> format_time S t \<noteq> [] \<and> last (format_time S t) \<noteq> byte 255) \<and>
     (\<forall>p k. p \<noteq> [] \<longrightarrow> last p \<noteq> byte 255 \<longrightarrow>
        (k < PrefixEndBytes S p \<longleftrightarrow> k < p \<or> take (length p) k = p))"

lemma keys_okD:
  assumes "keys_ok S"
  shows "time_fits t \<Longrightarrow> time_fits u \<Longrightarrow> length (format_time S t) = length (format_time S u)"
    and "time_fits t \<Longrightarrow> time_fits u \<Longrightarrow> format_time S t < format_time S u \<longleftrightarrow> t < u"
    and "time_fits t \<Longrightarrow> format_time S t \<noteq> [] \<and> last (format_time S t) \<noteq> byte 255"
    and "p \<noteq> [] \<Longrightarrow> last p \<noteq> byte 255 \<Longrightarrow>
      k < PrefixEndBytes S p \<longleftrightarrow> k < p \<or> take (length p) k = p"
  using assms unfolding keys_ok_def by blast+

definition int_ok :: "'z sdk_scheme \<Rightarrow> bool" where
  "int_ok S \<longleftrightarrow>
     (\<forall>a b. int_Add S a b = (if \<bar>a + b\<bar> < 2 ^ 255 then Ok (a + b) else Panic)) \<and>
     (\<forall>a b. int_Sub S a b = (if \<bar>a - b\<bar> < 2 ^ 255 then Ok (a - b) else Panic))"

text \<open>How much a list of coins holds of a denomination.\<close>

definition coin_sum :: "coins \<Rightarrow> string \<Rightarrow> int" where
  "coin_sum cs d = sum_list (map (\<lambda>c. if Denom c = d then Amount c else 0) cs)"

definition coins_ok :: "'z sdk_scheme \<Rightarrow> bool" where
  "coins_ok S \<longleftrightarrow>
     (\<forall>d a. NewCoin S d a =
        (if 0 \<le> a \<and> denom_valid S d then Ok \<lparr>Denom = d, Amount = a\<rparr> else Panic)) \<and>
     (\<forall>c. 0 \<le> Amount c \<longrightarrow> NewCoins S [c] = Ok (if Amount c = 0 then [] else [c])) \<and>
     (\<forall>cs d. coins_sorted cs \<longrightarrow> coins_AmountOf S cs d = coin_sum cs d) \<and>
     (\<forall>c c'. coin_IsEqual S c c' = (c = c')) \<and>
     (\<forall>a b. coins_sorted a \<longrightarrow> coins_sorted b \<longrightarrow> coins_sorted (coins_Add S a b)) \<and>
     (\<forall>a b d. coins_sorted a \<longrightarrow> coins_sorted b \<longrightarrow>
        coins_AmountOf S (coins_Add S a b) d = coins_AmountOf S a d + coins_AmountOf S b d) \<and>
     (\<forall>a b. coins_sorted a \<longrightarrow> coins_sorted b \<longrightarrow> coins_sorted (fst (coins_SafeSub S a b))) \<and>
     (\<forall>a b d. coins_sorted a \<longrightarrow> coins_sorted b \<longrightarrow>
        coins_AmountOf S (fst (coins_SafeSub S a b)) d =
          coins_AmountOf S a d - coins_AmountOf S b d) \<and>
     (\<forall>a b. coins_sorted a \<longrightarrow> coins_sorted b \<longrightarrow>
        snd (coins_SafeSub S a b) =
          (\<exists>d. coins_AmountOf S a d < coins_AmountOf S b d)) \<and>
     (\<forall>cs. coins_sorted cs \<longrightarrow> coins_Sort S cs = cs) \<and>
     (\<forall>cs. coins_IsValid S cs \<longrightarrow> coins_sorted cs \<and> (\<forall>d. 0 \<le> coins_AmountOf S cs d)) \<and>
     (\<forall>c. coins_IsValid S [c] = (denom_valid S (Denom c) \<and> 0 < Amount c)) \<and>
     coins_IsValid S [] \<and>
     (\<forall>cs c. coins_IsValid S cs \<longrightarrow> c \<in> set cs \<longrightarrow> 0 < Amount c \<and> denom_valid S (Denom c))"

lemma coin_sum_simps [simp]:
  "coin_sum [] d = 0"
  "coin_sum (c # cs) d = (if Denom c = d then Amount c else 0) + coin_sum cs d"
  by (simp_all add: coin_sum_def)

text \<open>
  The keepers, for a measure \<open>tot\<close> of how much of a denomination the accounts hold in all:
  transfers keep it, adding and subtracting change it by the amount, a call that returns an
  error changes nothing, and coins in valid form can always be added to an account. \<open>SetCoins\<close>
  replaces what an existing account holds.
\<close>

definition moves :: "('b \<Rightarrow> string \<Rightarrow> int) \<Rightarrow> (string \<Rightarrow> int) \<Rightarrow> ('b, unit) op \<Rightarrow> bool" where
  "moves tot delta m \<longleftrightarrow> (\<forall>b r b'. m b = (r, b') \<longrightarrow>
     (r = Ok () \<longrightarrow> (\<forall>d. tot b' d = tot b d + delta d)) \<and>
     ((\<exists>e. r = Err e) \<longrightarrow> b' = b))"

definition bank_ok :: "('b, 'z) cosmos_scheme \<Rightarrow> ('b \<Rightarrow> string \<Rightarrow> int) \<Rightarrow> bool" where
  "bank_ok C tot \<longleftrightarrow>
     (\<forall>a b amt. moves tot (\<lambda>d. 0) (bank_SendCoins C a b amt)) \<and>
     (\<forall>a amt. moves tot (\<lambda>d. - coins_AmountOf C amt d) (bank_SubtractCoins C a amt)) \<and>
     (\<forall>a amt. moves tot (\<lambda>d. coins_AmountOf C amt d) (bank_AddCoins C a amt)) \<and>
     (\<forall>a amt b. coins_IsValid C amt \<longrightarrow> (\<exists>b'. bank_AddCoins C a amt b = (Ok (), b'))) \<and>
     (\<forall>a amt b u b'. bank_SubtractCoins C a amt b = (Ok u, b') \<longrightarrow> coins_IsValid C amt) \<and>
     (\<forall>i outs. moves tot (\<lambda>d. 0) (bank_InputOutputCoins C i outs)) \<and>
     (\<forall>a m amt. moves tot (\<lambda>d. 0) (supply_AccToModule C a m amt)) \<and>
     (\<forall>m a amt. moves tot (\<lambda>d. 0) (supply_ModuleToAcc C m a amt)) \<and>
     (\<forall>b a. coins_sorted (acc_Coins C b a)) \<and>
     (\<forall>a cs b d. acc_exists C b a \<longrightarrow>
        tot (acc_SetCoins C a cs b) d =
          tot b d - coins_AmountOf C (acc_Coins C b a) d + coins_AmountOf C cs d) \<and>
     (\<forall>a cs b x. acc_exists C (acc_SetCoins C a cs b) x = acc_exists C b x)"

text \<open>
  Balances: what each operation does to what an account holds of a denomination. No operation
  removes an account; adding coins to an address, or taking coins from it, makes its account exist
  (the bank writes the account back).
\<close>

definition balance :: "('b, 'z) cosmos_scheme \<Rightarrow> 'b \<Rightarrow> addr \<Rightarrow> string \<Rightarrow> int" where
  "balance C b a d = coins_AmountOf C (acc_Coins C b a) d"

definition grows :: "('b, 'z) cosmos_scheme \<Rightarrow> ('b, unit) op \<Rightarrow> bool" where
  "grows C m \<longleftrightarrow> (\<forall>b r b' x. m b = (r, b') \<longrightarrow> acc_exists C b x \<longrightarrow> acc_exists C b' x)"

definition balance_ok :: "('b, 'z) cosmos_scheme \<Rightarrow> bool" where
  "balance_ok C \<longleftrightarrow>
     (\<forall>a amt b u b' x d. bank_AddCoins C a amt b = (Ok u, b') \<longrightarrow>
        balance C b' x d = balance C b x d + (if x = a then coins_AmountOf C amt d else 0)) \<and>
     (\<forall>a amt b u b' x d. bank_SubtractCoins C a amt b = (Ok u, b') \<longrightarrow>
        balance C b' x d = balance C b x d - (if x = a then coins_AmountOf C amt d else 0)) \<and>
     (\<forall>a c amt b u b' x d. bank_SendCoins C a c amt b = (Ok u, b') \<longrightarrow>
        balance C b' x d = balance C b x d - (if x = a then coins_AmountOf C amt d else 0)
          + (if x = c then coins_AmountOf C amt d else 0)) \<and>
     (\<forall>a cs b x. coins_sorted cs \<longrightarrow> acc_exists C b a \<longrightarrow>
        acc_Coins C (acc_SetCoins C a cs b) x = (if x = a then cs else acc_Coins C b x)) \<and>
     (\<forall>a amt. grows C (bank_AddCoins C a amt)) \<and>
     (\<forall>a amt. grows C (bank_SubtractCoins C a amt)) \<and>
     (\<forall>a c amt. grows C (bank_SendCoins C a c amt)) \<and>
     (\<forall>i outs. grows C (bank_InputOutputCoins C i outs)) \<and>
     (\<forall>a m amt. grows C (supply_AccToModule C a m amt)) \<and>
     (\<forall>m a amt. grows C (supply_ModuleToAcc C m a amt)) \<and>
     (\<forall>a amt b u b'. bank_AddCoins C a amt b = (Ok u, b') \<longrightarrow> acc_exists C b' a) \<and>
     (\<forall>a amt b u b'. bank_SubtractCoins C a amt b = (Ok u, b') \<longrightarrow> acc_exists C b' a)"

lemma balance_okD:
  assumes "balance_ok C"
  shows "bank_AddCoins C a amt b = (Ok u, b') \<Longrightarrow>
      balance C b' x d = balance C b x d + (if x = a then coins_AmountOf C amt d else 0)"
    and "bank_SubtractCoins C a amt b = (Ok u, b') \<Longrightarrow>
      balance C b' x d = balance C b x d - (if x = a then coins_AmountOf C amt d else 0)"
    and "bank_SendCoins C a c amt b = (Ok u, b') \<Longrightarrow>
      balance C b' x d = balance C b x d - (if x = a then coins_AmountOf C amt d else 0)
        + (if x = c then coins_AmountOf C amt d else 0)"
    and "coins_sorted cs \<Longrightarrow> acc_exists C b a \<Longrightarrow>
      acc_Coins C (acc_SetCoins C a cs b) x = (if x = a then cs else acc_Coins C b x)"
    and "grows C (bank_AddCoins C a amt)"
    and "grows C (bank_SubtractCoins C a amt)"
    and "grows C (bank_SendCoins C a c amt)"
    and "grows C (bank_InputOutputCoins C i outs)"
    and "grows C (supply_AccToModule C a m amt)"
    and "grows C (supply_ModuleToAcc C m a amt)"
    and "bank_AddCoins C a amt b = (Ok u, b') \<Longrightarrow> acc_exists C b' a"
    and "bank_SubtractCoins C a amt b = (Ok u, b') \<Longrightarrow> acc_exists C b' a"
  using assms unfolding balance_ok_def by metis+

definition cosmos_ok :: "('b, 'z) cosmos_scheme \<Rightarrow> ('b \<Rightarrow> string \<Rightarrow> int) \<Rightarrow> bool" where
  "cosmos_ok C tot \<longleftrightarrow> addr_ok C \<and> keys_ok C \<and> int_ok C \<and> dec_ok C \<and> coins_ok C \<and> bank_ok C tot \<and> balance_ok C"

lemma cosmos_okD:
  "cosmos_ok C tot \<Longrightarrow> addr_ok C"
  "cosmos_ok C tot \<Longrightarrow> keys_ok C"
  "cosmos_ok C tot \<Longrightarrow> int_ok C"
  "cosmos_ok C tot \<Longrightarrow> dec_ok C"
  "cosmos_ok C tot \<Longrightarrow> coins_ok C"
  "cosmos_ok C tot \<Longrightarrow> bank_ok C tot"
  "cosmos_ok C tot \<Longrightarrow> balance_ok C"
  by (simp_all add: cosmos_ok_def)

lemma int_okD:
  "int_ok S \<Longrightarrow> int_Add S a b = (if \<bar>a + b\<bar> < 2 ^ 255 then Ok (a + b) else Panic)"
  "int_ok S \<Longrightarrow> int_Sub S a b = (if \<bar>a - b\<bar> < 2 ^ 255 then Ok (a - b) else Panic)"
  by (simp_all add: int_ok_def)

lemma dec_okD:
  assumes "dec_ok S"
  shows "NewDec S n = n * dec_one"
    and "dec_Mul S d (n * dec_one) = d * n"
    and "dec_Mul S (n * dec_one) d = d * n"
    and "0 \<le> a \<Longrightarrow> 0 \<le> b \<Longrightarrow> 0 \<le> dec_Mul S a b"
    and "dec_MulInt S d n = d * n"
    and "0 \<le> a \<Longrightarrow> 0 < b \<Longrightarrow> 0 \<le> dec_Quo S a b"
    and "0 \<le> a \<Longrightarrow> 0 < b \<Longrightarrow> \<bar>dec_Quo S a b * b - a * dec_one\<bar> \<le> b"
    and "0 < b \<Longrightarrow> a * dec_one = q * b \<Longrightarrow> dec_Quo S a b = q"
    and "0 < n \<Longrightarrow> dec_QuoInt S d n = go_quo d n"
    and "dec_Ceil S d = - ((- d) div dec_one) * dec_one"
    and "dec_TruncateInt S d = go_quo d dec_one"
    and "2 * \<bar>dec_RoundInt S d * dec_one - d\<bar> \<le> dec_one"
  using assms unfolding dec_ok_def by blast+

lemma coins_okD:
  assumes "coins_ok S"
  shows "NewCoin S d x = (if 0 \<le> x \<and> denom_valid S d then Ok \<lparr>Denom = d, Amount = x\<rparr> else Panic)"
    and "0 \<le> Amount c \<Longrightarrow> NewCoins S [c] = Ok (if Amount c = 0 then [] else [c])"
    and "coins_sorted a \<Longrightarrow> coins_sorted b \<Longrightarrow> coins_sorted (coins_Add S a b)"
    and "coins_sorted a \<Longrightarrow> coins_sorted b \<Longrightarrow>
      coins_AmountOf S (coins_Add S a b) d = coins_AmountOf S a d + coins_AmountOf S b d"
    and "coins_sorted a \<Longrightarrow> coins_sorted b \<Longrightarrow> coins_sorted (fst (coins_SafeSub S a b))"
    and "coins_sorted a \<Longrightarrow> coins_sorted b \<Longrightarrow>
      coins_AmountOf S (fst (coins_SafeSub S a b)) d = coins_AmountOf S a d - coins_AmountOf S b d"
    and "coins_sorted a \<Longrightarrow> coins_sorted b \<Longrightarrow>
      snd (coins_SafeSub S a b) = (\<exists>d. coins_AmountOf S a d < coins_AmountOf S b d)"
    and "coins_sorted a \<Longrightarrow> coins_Sort S a = a"
    and "coins_IsValid S a \<Longrightarrow> coins_sorted a"
    and "coins_IsValid S a \<Longrightarrow> 0 \<le> coins_AmountOf S a d"
    and "coins_IsValid S [c] = (denom_valid S (Denom c) \<and> 0 < Amount c)"
    and "coins_IsValid S []"
    and "coins_sorted cs \<Longrightarrow> coins_AmountOf S cs d = coin_sum cs d"
    and "coin_IsEqual S c c' = (c = c')"
    and "coins_IsValid S cs \<Longrightarrow> c \<in> set cs \<Longrightarrow> 0 < Amount c \<and> denom_valid S (Denom c)"
proof -
  note laws = assms [unfolded coins_ok_def]
  show "NewCoin S d x = (if 0 \<le> x \<and> denom_valid S d then Ok \<lparr>Denom = d, Amount = x\<rparr> else Panic)"
    using laws by simp
  show "0 \<le> Amount c \<Longrightarrow> NewCoins S [c] = Ok (if Amount c = 0 then [] else [c])"
    using laws by simp
qed (use assms in \<open>unfold coins_ok_def, metis+\<close>)

lemma coins_AmountOf_simps:
  assumes "coins_ok S"
  shows "coins_AmountOf S [] d = 0"
    and "coins_AmountOf S [c] d = (if Denom c = d then Amount c else 0)"
  using coins_okD(13) [OF assms, of "[]" d] coins_okD(13) [OF assms, of "[c]" d]
  by (simp_all add: coins_sorted_def)

lemma coins_sorted_simps [simp]: "coins_sorted []" "coins_sorted [c]"
  by (simp_all add: coins_sorted_def)

lemma movesD_Ok: "moves tot delta m \<Longrightarrow> m b = (Ok u, b') \<Longrightarrow> tot b' d = tot b d + delta d"
  by (cases u) (auto simp: moves_def)

lemma movesD_Err: "moves tot delta m \<Longrightarrow> m b = (Err e, b') \<Longrightarrow> b' = b"
  by (auto simp: moves_def)

lemma bank_okD:
  assumes "bank_ok C tot"
  shows "moves tot (\<lambda>d. 0) (bank_SendCoins C x y amt)"
    and "moves tot (\<lambda>d. - coins_AmountOf C amt d) (bank_SubtractCoins C x amt)"
    and "moves tot (\<lambda>d. coins_AmountOf C amt d) (bank_AddCoins C x amt)"
    and "coins_IsValid C amt \<Longrightarrow> \<exists>b'. bank_AddCoins C x amt b = (Ok (), b')"
    and "bank_SubtractCoins C x amt b = (Ok u, b') \<Longrightarrow> coins_IsValid C amt"
    and "moves tot (\<lambda>d. 0) (bank_InputOutputCoins C i outs)"
    and "moves tot (\<lambda>d. 0) (supply_AccToModule C x m amt)"
    and "moves tot (\<lambda>d. 0) (supply_ModuleToAcc C m x amt)"
    and "coins_sorted (acc_Coins C b x)"
    and "acc_exists C b x \<Longrightarrow> tot (acc_SetCoins C x cs b) d =
      tot b d - coins_AmountOf C (acc_Coins C b x) d + coins_AmountOf C cs d"
    and "acc_exists C (acc_SetCoins C x cs b) y = acc_exists C b y"
proof -
  note A = assms [unfolded bank_ok_def]
  note B1 = A [THEN conjunct2] note B2 = B1 [THEN conjunct2] note B3 = B2 [THEN conjunct2]
  note B4 = B3 [THEN conjunct2] note B5 = B4 [THEN conjunct2] note B6 = B5 [THEN conjunct2]
  note B7 = B6 [THEN conjunct2] note B8 = B7 [THEN conjunct2] note B9 = B8 [THEN conjunct2]
  show "moves tot (\<lambda>d. 0) (bank_SendCoins C x y amt)"
    by (rule A [THEN conjunct1, rule_format])
  show "moves tot (\<lambda>d. - coins_AmountOf C amt d) (bank_SubtractCoins C x amt)"
    by (rule B1 [THEN conjunct1, rule_format])
  show "moves tot (\<lambda>d. coins_AmountOf C amt d) (bank_AddCoins C x amt)"
    by (rule B2 [THEN conjunct1, rule_format])
  show "coins_IsValid C amt \<Longrightarrow> \<exists>b'. bank_AddCoins C x amt b = (Ok (), b')"
    by (rule B3 [THEN conjunct1, rule_format])
  show "bank_SubtractCoins C x amt b = (Ok u, b') \<Longrightarrow> coins_IsValid C amt"
    by (rule B4 [THEN conjunct1, rule_format])
  show "moves tot (\<lambda>d. 0) (bank_InputOutputCoins C i outs)"
    by (rule B5 [THEN conjunct1, rule_format])
  show "moves tot (\<lambda>d. 0) (supply_AccToModule C x m amt)"
    by (rule B6 [THEN conjunct1, rule_format])
  show "moves tot (\<lambda>d. 0) (supply_ModuleToAcc C m x amt)"
    by (rule B7 [THEN conjunct1, rule_format])
  show "coins_sorted (acc_Coins C b x)"
    by (rule B8 [THEN conjunct1, rule_format])
  show "acc_exists C b x \<Longrightarrow> tot (acc_SetCoins C x cs b) d =
      tot b d - coins_AmountOf C (acc_Coins C b x) d + coins_AmountOf C cs d"
    by (rule B9 [THEN conjunct1, rule_format])
  show "acc_exists C (acc_SetCoins C x cs b) y = acc_exists C b y"
    by (rule B9 [THEN conjunct2, rule_format])
qed

subsection \<open>Context, events and the state every module shares\<close>

text \<open>
  \<open>sdk.Context\<close>: the parts of the block header the modules read, with the time in nanoseconds
  since the epoch. \<open>Unix\<close> and \<open>UnixNano\<close> are the methods of \<open>time.Time\<close>.
\<close>

record ctx =
  BlockHeight :: int
  BlockTime :: int
  ChainID :: string
  DataHash :: string

definition Unix :: "ctx \<Rightarrow> int" where
  "Unix ctx = BlockTime ctx div 1000000000"

definition UnixNano :: "ctx \<Rightarrow> int" where
  "UnixNano ctx = BlockTime ctx"

text \<open>
  Events: a type and attributes. The attribute of a message-queue event is the JSON text of a
  struct, kept here as the JSON value (with the field names of the struct's tags); the JSON of an
  address, coins or a decimal, which the framework's marshallers write, is left as the value.
\<close>

datatype json = JNull | JStr string | JInt int | JBool bool | JArr "json list"
  | JObj "(string \<times> json) list" | JAddr addr | JCoin coin | JCoins coins | JDec dec

datatype attr = AStr string | AJson json

datatype event = Event string "(string \<times> attr) list"

text \<open>The state under all modules: the SDK's own stores and the event manager's list.\<close>

record 'b base_state =
  bank :: 'b
  events :: "event list"

definition on_bank :: "('b, 'a) op \<Rightarrow> (('b, 'z) base_state_scheme, 'a) op" where
  "on_bank m = (\<lambda>s. case m (bank s) of (r, b) \<Rightarrow> (r, s\<lparr>bank := b\<rparr>))"

definition emit :: "event list \<Rightarrow> (('b, 'z) base_state_scheme, unit) op" where
  "emit es = modify (\<lambda>s. s\<lparr>events := events s @ es\<rparr>)"

definition new_event_manager :: "(('b, 'z) base_state_scheme, unit) op" where
  "new_event_manager = modify (\<lambda>s. s\<lparr>events := []\<rparr>)"

lemma on_bank_Ok:
  "on_bank m s = (Ok a, s') \<longleftrightarrow> (\<exists>b. m (bank s) = (Ok a, b) \<and> s' = s\<lparr>bank := b\<rparr>)"
  by (auto simp: on_bank_def split: prod.splits)

lemma emit_Ok: "emit es s = (Ok u, s') \<longleftrightarrow> s' = s\<lparr>events := events s @ es\<rparr>"
  by (auto simp: emit_def modify_Ok)

lemma new_event_manager_Ok: "new_event_manager s = (Ok u, s') \<longleftrightarrow> s' = s\<lparr>events := []\<rparr>"
  by (auto simp: new_event_manager_def modify_Ok)

end
