(* ===== verification/DexTypes.thy ===== *)
theory DexTypes
  imports Sdk
begin

section \<open>The shared package \<open>types\<close> and the message queue's event\<close>

text \<open>
  \<open>src/types\<close>: the native token CET, trading-pair symbols, store keys; and \<open>FillMsgs\<close> of
  \<open>src/msgqueue/utils.go\<close>, through which every module reports to the message queue.
\<close>

subsection \<open>Coins of the native token (\<open>cet.go\<close>)\<close>

definition CET :: string where
  "CET = ''cet''"

definition E8 :: int where
  "E8 = 100000000"

definition NewCetCoin :: "'z sdk_scheme \<Rightarrow> int \<Rightarrow> coin ret" where
  "NewCetCoin S x = NewCoin S CET x"

definition NewCetCoinE8 :: "'z sdk_scheme \<Rightarrow> int \<Rightarrow> coin ret" where
  "NewCetCoinE8 S x = NewCoin S CET (i64 (x * E8))"

definition NewCetCoins :: "'z sdk_scheme \<Rightarrow> int \<Rightarrow> coins ret" where
  "NewCetCoins S x = ret_bind (NewCetCoin S x) (\<lambda>c. NewCoins S [c])"

definition NewCetCoinsE8 :: "'z sdk_scheme \<Rightarrow> int \<Rightarrow> coins ret" where
  "NewCetCoinsE8 S x = ret_bind (NewCetCoin S (i64 (x * E8))) (\<lambda>c. NewCoins S [c])"

definition dex_NewCoins :: "'z sdk_scheme \<Rightarrow> string \<Rightarrow> int \<Rightarrow> coins ret" where
  "dex_NewCoins S d x = ret_bind (NewCoin S d x) (\<lambda>c. NewCoins S [c])"

definition IsCET :: "coin \<Rightarrow> bool" where
  "IsCET c = (Denom c = CET)"

lemma dex_NewCoins_Ok:
  assumes "coins_ok S" and "dex_NewCoins S d x = Ok cs"
  shows "coins_AmountOf S cs d' = (if d = d' then x else 0) \<and> coins_sorted cs \<and> coins_IsValid S cs \<and> 0 \<le> x"
  using assms by (auto simp: dex_NewCoins_def coins_okD ret_bind_Ok split: if_splits)

lemma NewCetCoins_dex: "NewCetCoins S x = dex_NewCoins S CET x"
  by (simp add: NewCetCoins_def dex_NewCoins_def NewCetCoin_def)

subsection \<open>Symbols (\<open>symbol.go\<close>)\<close>

definition SymbolSeparator :: char where
  "SymbolSeparator = CHR ''/''"

definition GetSymbol :: "string \<Rightarrow> string \<Rightarrow> string" where
  "GetSymbol stock money = stock @ [SymbolSeparator] @ money"

text \<open>A symbol without a separator makes the index expression \<open>values[1]\<close> panic.\<close>

definition SplitSymbol :: "string \<Rightarrow> (string \<times> string) ret" where
  "SplitSymbol symbol = (case split_on SymbolSeparator symbol of
      stock # money # _ \<Rightarrow> Ok (stock, money)
    | _ \<Rightarrow> Panic)"

lemma Split_GetSymbol:
  "SymbolSeparator \<notin> set stock \<Longrightarrow> SymbolSeparator \<notin> set money \<Longrightarrow>
     SplitSymbol (GetSymbol stock money) = Ok (stock, money)"
  by (simp add: SplitSymbol_def GetSymbol_def split_on_append split_on_none)

subsection \<open>Store keys (\<open>utils.go\<close>)\<close>

definition ConcatKeys :: "string list \<Rightarrow> string" where
  "ConcatKeys keys = concat keys"

subsection \<open>The message queue's event (\<open>msgqueue/utils.go\<close>)\<close>

definition EventTypeMsgQueue :: string where
  "EventTypeMsgQueue = ''kafka''"

definition FillMsgs :: "string \<Rightarrow> json \<Rightarrow> (('b, 'z) base_state_scheme, unit) op" where
  "FillMsgs key msg = emit [Event EventTypeMsgQueue [(key, AJson msg)]]"

end
