(* ===== verification/MarketTypes.thy ===== *)
theory MarketTypes
  imports DexTypes
begin

section \<open>The data of the market module\<close>

text \<open>
  \<open>src/modules/market/internal/types\<close>: orders and what they cost, market records, parameters,
  the byte form of prices, and the errors of the module. A field of type \<open>byte\<close> or \<open>uint64\<close> is
  a \<^typ>\<open>nat\<close>, one of type \<open>int64\<close> an \<^typ>\<open>int\<close> in the range \<open>in_i64\<close>.
\<close>

subsection \<open>Constants (\<open>const_value.go\<close>, \<open>keys.go\<close>)\<close>

definition ModuleName_market :: string where
  "ModuleName_market = ''market''"

abbreviation BID :: nat where "BID \<equiv> 1"
abbreviation BUY :: nat where "BUY \<equiv> 1"
abbreviation ASK :: nat where "ASK \<equiv> 2"
abbreviation SELL :: nat where "SELL \<equiv> 2"
abbreviation GTE :: int where "GTE \<equiv> 3"
abbreviation IOC :: int where "IOC \<equiv> 4"
abbreviation LimitOrder :: nat where "LimitOrder \<equiv> 2"
abbreviation MaxTokenPricePrecision :: nat where "MaxTokenPricePrecision \<equiv> 18"
abbreviation MaxOrderPrecision :: nat where "MaxOrderPrecision \<equiv> 8"
abbreviation ExtraFrozenMoney :: int where "ExtraFrozenMoney \<equiv> 0"
abbreviation DecByteCount :: nat where "DecByteCount \<equiv> 40"

definition MaxOrderAmount :: int where
  "MaxOrderAmount = 10 ^ 18"

definition OrderIDSeparator :: char where
  "OrderIDSeparator = CHR ''-''"

definition IntegrationNetSubString :: string where
  "IntegrationNetSubString = ''coinex-integrationtest''"

subsection \<open>Errors (\<open>errors.go\<close>)\<close>

definition MarketErrFailedParseParam :: err where "MarketErrFailedParseParam = ModErr ModuleName_market 614"
definition MarketErrFailedMarshal :: err where "MarketErrFailedMarshal = ModErr ModuleName_market 614"
definition MarketErrInvalidExistBlocks :: err where "MarketErrInvalidExistBlocks = ModErr ModuleName_market 626"
definition MarketErrInvalidTimeInForce :: err where "MarketErrInvalidTimeInForce = ModErr ModuleName_market 627"
definition MarketErrDelistNotAllowed :: err where "MarketErrDelistNotAllowed = ModErr ModuleName_market 623"
definition MarketErrInvalidMarket :: err where "MarketErrInvalidMarket = ModErr ModuleName_market 633"
definition MarketErrInvalidCancelTime :: err where "MarketErrInvalidCancelTime = ModErr ModuleName_market 618"
definition MarketErrNotMatchSender :: err where "MarketErrNotMatchSender = ModErr ModuleName_market 617"
definition MarketErrOrderNotFound :: err where "MarketErrOrderNotFound = ModErr ModuleName_market 616"
definition MarketErrAddressForbidByIssuer :: err where "MarketErrAddressForbidByIssuer = ModErr ModuleName_market 619"
definition MarketErrOrderAlreadyExist :: err where "MarketErrOrderAlreadyExist = ModErr ModuleName_market 630"
definition MarketErrInvalidOrderAmount :: err where "MarketErrInvalidOrderAmount = ModErr ModuleName_market 624"
definition MarketErrNotListedAgainstCet :: err where "MarketErrNotListedAgainstCet = ModErr ModuleName_market 621"
definition MarketErrRepeatTradingPair :: err where "MarketErrRepeatTradingPair = ModErr ModuleName_market 622"
definition MarketErrTokenNoExist :: err where "MarketErrTokenNoExist = ModErr ModuleName_market 601"
definition MarketErrInvalidOrderID :: err where "MarketErrInvalidOrderID = ModErr ModuleName_market 613"
definition MarketErrInvalidPricePrecision :: err where "MarketErrInvalidPricePrecision = ModErr ModuleName_market 602"
definition MarketErrInvalidPrice :: err where "MarketErrInvalidPrice = ModErr ModuleName_market 604"
definition MarketErrInvalidTokenIssuer :: err where "MarketErrInvalidTokenIssuer = ModErr ModuleName_market 603"
definition MarketErrInvalidAddress :: err where "MarketErrInvalidAddress = ModErr ModuleName_market 606"
definition MarketErrNoExistKeyInStore :: err where "MarketErrNoExistKeyInStore = ModErr ModuleName_market 607"
definition MarketErrInsufficientCoins :: err where "MarketErrInsufficientCoins = ModErr ModuleName_market 608"
definition MarketErrInvalidTradeSide :: err where "MarketErrInvalidTradeSide = ModErr ModuleName_market 609"
definition MarketErrInvalidOrderType :: err where "MarketErrInvalidOrderType = ModErr ModuleName_market 610"
definition MarketErrInvalidSymbol :: err where "MarketErrInvalidSymbol = ModErr ModuleName_market 611"
definition MarketErrInvalidOrderCommission :: err where "MarketErrInvalidOrderCommission = ModErr ModuleName_market 620"
definition MarketErrStockAndMoneyAreSame :: err where "MarketErrStockAndMoneyAreSame = ModErr ModuleName_market 611"
definition MarketErrTokenForbidByIssuer :: err where "MarketErrTokenForbidByIssuer = ModErr ModuleName_market 612"
definition MarketErrOrderAmountTooSmall :: err where "MarketErrOrderAmountTooSmall = ModErr ModuleName_market 624"
definition MarketErrDelistRequestExist :: err where "MarketErrDelistRequestExist = ModErr ModuleName_market 632"

subsection \<open>Orders (\<open>order.go\<close>)\<close>

record order =
  Sender :: addr
  Sequence :: nat
  Identify :: nat
  TradingPair :: string
  OrderType :: nat
  Price :: dec
  Quantity :: int
  Side :: nat
  TimeInForce :: int
  Height :: int
  FrozenCommission :: int
  ExistBlocks :: int
  FrozenFeatureFee :: int
  FrozenFee :: int
  LeftStock :: int
  Freeze :: int
  DealStock :: int
  DealMoney :: int

definition AssemblyOrderID :: "string \<Rightarrow> nat \<Rightarrow> nat \<Rightarrow> string" where
  "AssemblyOrderID userAddr sq identify =
     (let idI64 = int identify + 256 * int (sq mod 2);
          seqI64 = int (sq div 2)
      in userAddr @ [OrderIDSeparator] @ itoa (seqI64 * 512 + idI64))"

definition OrderID :: "'z sdk_scheme \<Rightarrow> order \<Rightarrow> string" where
  "OrderID S odr = AssemblyOrderID (addr_String S (Sender odr)) (Sequence odr) (Identify odr)"

definition CalActualOrderCommissionInt64 :: "'z sdk_scheme \<Rightarrow> order \<Rightarrow> int \<Rightarrow> int ret" where
  "CalActualOrderCommissionInt64 S odr feeForZeroDeal =
     ret_bind
       (if DealStock odr \<noteq> 0
        then dec_Quo_ret S (dec_Mul S (NewDec S (DealStock odr)) (NewDec S (FrozenCommission odr)))
               (NewDec S (Quantity odr))
        else Ok (NewDec S feeForZeroDeal))
       (\<lambda>actualFee. let moa = NewDec S MaxOrderAmount in
          dec_TruncateInt64 S (if actualFee > moa then moa else actualFee))"

definition CalActualOrderFeatureFeeInt64 :: "'z sdk_scheme \<Rightarrow> ctx \<Rightarrow> order \<Rightarrow> int \<Rightarrow> int ret" where
  "CalActualOrderFeatureFeeInt64 S ctx odr freeTimeBlocks =
     (if ExistBlocks odr \<le> freeTimeBlocks then Ok 0
      else let existTime = i64 (BlockHeight ctx - Height odr + 1) in
        if existTime < freeTimeBlocks then Ok 0
        else let chargeBlocks = i64 (existTime - freeTimeBlocks) in
          ret_bind
            (dec_QuoInt_ret S (dec_MulInt S (NewDec S chargeBlocks) (FrozenFeatureFee odr))
               (i64 (ExistBlocks odr - freeTimeBlocks)))
            (\<lambda>d. ret_map (\<lambda>fee. if fee > FrozenFeatureFee odr then FrozenFeatureFee odr else fee)
               (dec_TruncateInt64 S d)))"

definition GetOrderUsedDenom :: "order \<Rightarrow> string ret" where
  "GetOrderUsedDenom odr =
     ret_map (\<lambda>(frozenToken, money). if Side odr = BUY then money else frozenToken)
       (SplitSymbol (TradingPair odr))"

text \<open>
  \<open>d.Int.Bytes()\<close> is the absolute value, big-endian, without leading zeros; its last bytes, at
  most 40 of them, are copied to the right end of a zeroed array of 40.
\<close>

definition DecToBigEndianBytes :: "dec \<Rightarrow> string" where
  "DecToBigEndianBytes d = be_bytes DecByteCount (nat \<bar>d\<bar>)"

subsection \<open>Markets (\<open>market_info.go\<close>) and parameters (\<open>params.go\<close>)\<close>

record MarketInfo =
  mi_Stock :: string
  mi_Money :: string
  mi_PricePrecision :: nat
  mi_LastExecutedPrice :: dec
  mi_OrderPrecision :: nat

definition GetGranularityOfOrder :: "nat \<Rightarrow> int" where
  "GetGranularityOfOrder orderPrecision =
     pow10_i64 (if orderPrecision > 8 then 0 else orderPrecision)"

definition MarketInfo_GetSymbol :: "MarketInfo \<Rightarrow> string" where
  "MarketInfo_GetSymbol info = GetSymbol (mi_Stock info) (mi_Money info)"

record market_params =
  CreateMarketFee :: int
  MarketMinExpiredTime :: int
  GTEOrderLifetime :: int
  GTEOrderFeatureFeeByBlocks :: int
  MaxExecutedPriceChangeRatio :: int
  MarketFeeRate :: int
  MarketFeeMin :: int
  FeeForZeroDeal :: int

definition market_DefaultParams :: market_params where
  "market_DefaultParams = \<lparr>
     CreateMarketFee = 10000000000,
     MarketMinExpiredTime = 7 * 24 * 3600000000000,
     GTEOrderLifetime = 200000,
     GTEOrderFeatureFeeByBlocks = 10,
     MaxExecutedPriceChangeRatio = 25,
     MarketFeeRate = 10,
     MarketFeeMin = 1000000,
     FeeForZeroDeal = 1000000\<rparr>"

definition market_ValidateGenesis :: "market_params \<Rightarrow> unit ret" where
  "market_ValidateGenesis p =
     (if CreateMarketFee p \<le> 0 then Err PlainErr
      else if FeeForZeroDeal p < MarketFeeMin p then Err PlainErr
      else if MaxExecutedPriceChangeRatio p < 0 \<or> MarketFeeRate p < 0 \<or>
          MarketFeeMin p < 0 \<or> FeeForZeroDeal p < 0 \<or>
          GTEOrderLifetime p < 0 \<or> GTEOrderFeatureFeeByBlocks p < 0 then Err PlainErr
      else Ok ())"

subsection \<open>Order identifiers\<close>

text \<open>The number in an order's identifier is the sequence number and the identify byte together.\<close>

lemma AssemblyOrderID_number:
  "AssemblyOrderID userAddr sq identify = userAddr @ OrderIDSeparator # itoa (256 * int sq + int identify)"
proof -
  have eq: "int (sq div 2) * 512 + (int identify + 256 * int (sq mod 2)) = 256 * int sq + int identify"
    by (simp add: zdiv_int zmod_int) presburger
  show ?thesis by (simp only: AssemblyOrderID_def Let_def eq append_Cons append_Nil)
qed

lemma AssemblyOrderID_inj:
  assumes "OrderIDSeparator \<notin> set a" and "OrderIDSeparator \<notin> set a'"
    and "i < 256" and "i' < 256"
    and "AssemblyOrderID a q i = AssemblyOrderID a' q' i'"
  shows "a = a' \<and> q = q' \<and> i = i'"
proof -
  from assms have "a = a'" and "itoa (256 * int q + int i) = itoa (256 * int q' + int i')"
    using append_sep_inj [of OrderIDSeparator a a'] by (auto simp: AssemblyOrderID_number)
  then have eq: "256 * int q + int i = 256 * int q' + int i'"
    by (intro itoa_nonneg_inj) auto
  then have nat_eq: "256 * q + i = 256 * q' + i'" by linarith
  have "q = (256 * q + i) div 256" "q' = (256 * q' + i') div 256"
    using assms(3,4) by simp_all
  then have "q = q'" using nat_eq by metis
  with nat_eq \<open>a = a'\<close> show ?thesis by simp
qed

lemma OrderID_inj:
  assumes "addr_ok S" and "Identify x < 256" and "Identify y < 256" and "OrderID S x = OrderID S y"
  shows "Sender x = Sender y \<and> Sequence x = Sequence y \<and> Identify x = Identify y"
proof -
  have "addr_String S (Sender x) = addr_String S (Sender y) \<and> Sequence x = Sequence y \<and> Identify x = Identify y"
    using assms by (intro AssemblyOrderID_inj) (auto simp: OrderID_def addr_ok_def OrderIDSeparator_def)
  then show ?thesis using assms(1) unfolding addr_ok_def inj_def by blast
qed

subsection \<open>Prices as bytes\<close>

lemma length_DecToBigEndianBytes [simp]: "length (DecToBigEndianBytes d) = 40"
  by (simp add: DecToBigEndianBytes_def)

text \<open>Prices that the byte form can tell apart and orders: no sign, at most 320 bits.\<close>

definition price_fits :: "dec \<Rightarrow> bool" where
  "price_fits p \<longleftrightarrow> 0 \<le> p \<and> p < 2 ^ 320"

lemma price_nat: "price_fits p \<Longrightarrow> nat \<bar>p\<bar> < 256 ^ 40"
  unfolding price_fits_def by (simp add: nat_less_iff)

lemma DecToBigEndianBytes_less:
  assumes "price_fits p" and "price_fits q"
  shows "DecToBigEndianBytes p < DecToBigEndianBytes q \<longleftrightarrow> p < q"
proof -
  have "DecToBigEndianBytes p < DecToBigEndianBytes q \<longleftrightarrow> nat \<bar>p\<bar> < nat \<bar>q\<bar>"
    unfolding DecToBigEndianBytes_def by (rule be_bytes_less) (use assms price_nat in auto)
  then show ?thesis using assms by (auto simp: price_fits_def)
qed

lemma DecToBigEndianBytes_eq:
  assumes "price_fits p" and "price_fits q"
  shows "DecToBigEndianBytes p = DecToBigEndianBytes q \<longleftrightarrow> p = q"
proof -
  have "DecToBigEndianBytes p = DecToBigEndianBytes q \<longleftrightarrow> nat \<bar>p\<bar> = nat \<bar>q\<bar>"
    unfolding DecToBigEndianBytes_def by (rule be_bytes_eq) (use assms price_nat in auto)
  then show ?thesis using assms by (auto simp: price_fits_def)
qed

end
