(* ===== verification/Match.thy ===== *)
theory Match
  imports GoSort MarketTypes "HOL-Library.Product_Lexorder"
begin

section \<open>The matching engine\<close>

text \<open>
  \<open>src/modules/market/match/match.go\<close>. The engine sees orders through the Go interface
  \<open>OrderForTrade\<close>. Orders are pointers, named by numbers here, into a state \<open>'s\<close> that \<open>Deal\<close>
  changes; the interface is the record \<open>order_iface\<close> of its methods. The two sorts of Go's
  library are the record \<open>go_sorts\<close>.
\<close>

subsection \<open>The interface\<close>

record 's order_iface =
  GetPrice :: "'s \<Rightarrow> nat \<Rightarrow> dec"
  GetAmount :: "'s \<Rightarrow> nat \<Rightarrow> int"
  GetHeight :: "'s \<Rightarrow> nat \<Rightarrow> int"
  GetHash :: "'s \<Rightarrow> nat \<Rightarrow> string"
  GetSide :: "'s \<Rightarrow> nat \<Rightarrow> nat"
  Deal :: "nat \<Rightarrow> nat \<Rightarrow> int \<Rightarrow> dec \<Rightarrow> ('s, unit) op"

record PricePoint =
  pp_price :: dec
  accumulatedAskAmount :: int
  askAmount :: int
  accumulatedBidAmount :: int
  bidAmount :: int
  executionAmount :: int
  imbalance :: int
  absImbalance :: int

record go_sorts =
  sort_orders :: "(nat \<Rightarrow> nat \<Rightarrow> bool) \<Rightarrow> nat list \<Rightarrow> nat list"
  sort_points :: "(PricePoint \<Rightarrow> PricePoint \<Rightarrow> bool) \<Rightarrow> PricePoint list \<Rightarrow> PricePoint list"

definition sorts_ok :: "go_sorts \<Rightarrow> bool" where
  "sorts_ok G \<longleftrightarrow> slice_sort (sort_orders G) \<and> slice_sort (sort_points G)"

subsection \<open>Order of the book\<close>

definition precede :: "'s order_iface \<Rightarrow> 's \<Rightarrow> nat \<Rightarrow> nat \<Rightarrow> bool" where
  "precede I s a b =
     (if (GetSide I s a = ASK \<and> GetPrice I s a < GetPrice I s b) \<or>
         (GetSide I s a = BID \<and> GetPrice I s a > GetPrice I s b) then True
      else if (GetSide I s a = ASK \<and> GetPrice I s a > GetPrice I s b) \<or>
         (GetSide I s a = BID \<and> GetPrice I s a < GetPrice I s b) then False
      else if GetHeight I s a < GetHeight I s b then True
      else if GetHeight I s a > GetHeight I s b then False
      else GetHash I s a < GetHash I s b)"

subsection \<open>Price points\<close>

definition new_point :: "dec \<Rightarrow> PricePoint" where
  "new_point p = \<lparr>pp_price = p, accumulatedAskAmount = 0, askAmount = 0,
     accumulatedBidAmount = 0, bidAmount = 0, executionAmount = 0, imbalance = 0, absImbalance = 0\<rparr>"

definition add_order ::
    "'s order_iface \<Rightarrow> 's \<Rightarrow> PricePoint list \<times> (string \<rightharpoonup> nat) \<Rightarrow> nat \<Rightarrow> PricePoint list \<times> (string \<rightharpoonup> nat)" where
  "add_order I s acc a =
     (let (ppList, ppMap) = acc;
          k = DecToBigEndianBytes (GetPrice I s a);
          (offset, ppList, ppMap) = (case ppMap k of
              Some i \<Rightarrow> (i, ppList, ppMap)
            | None \<Rightarrow> (length ppList, ppList @ [new_point (GetPrice I s a)], ppMap(k \<mapsto> length ppList)));
          pp = ppList ! offset
      in (if GetSide I s a = ASK
          then ppList[offset := pp\<lparr>askAmount := askAmount pp + GetAmount I s a\<rparr>]
          else if GetSide I s a = BID
          then ppList[offset := pp\<lparr>bidAmount := bidAmount pp + GetAmount I s a\<rparr>]
          else ppList, ppMap))"

definition createPricePointList :: "'s order_iface \<Rightarrow> 's \<Rightarrow> nat list \<Rightarrow> PricePoint list" where
  "createPricePointList I s orders = fst (foldl (add_order I s) ([], Map.empty) orders)"

fun scan_bids :: "int \<Rightarrow> PricePoint list \<Rightarrow> PricePoint list" where
  "scan_bids acc [] = []"
| "scan_bids acc (pp # pps) =
     (let acc' = acc + bidAmount pp in pp\<lparr>accumulatedBidAmount := acc'\<rparr> # scan_bids acc' pps)"

fun scan_asks :: "int \<Rightarrow> PricePoint list \<Rightarrow> PricePoint list" where
  "scan_asks acc [] = []"
| "scan_asks acc (pp # pps) =
     (let acc' = acc + askAmount pp in pp\<lparr>accumulatedAskAmount := acc'\<rparr> # scan_asks acc' pps)"

definition fill_point :: "PricePoint \<Rightarrow> PricePoint" where
  "fill_point pp =
     (let ea = (if accumulatedBidAmount pp < accumulatedAskAmount pp
                then accumulatedBidAmount pp else accumulatedAskAmount pp);
          im = accumulatedBidAmount pp - accumulatedAskAmount pp
      in pp\<lparr>executionAmount := ea, imbalance := im, absImbalance := (if im < 0 then - im else im)\<rparr>)"

definition accumulateForPricePointList :: "go_sorts \<Rightarrow> PricePoint list \<Rightarrow> PricePoint list" where
  "accumulateForPricePointList G ppList =
     (let ppList = sort_points G (\<lambda>a b. pp_price a > pp_price b) ppList;
          ppList = scan_bids 0 ppList;
          ppList = rev (scan_asks 0 (rev ppList))
      in map fill_point ppList)"

definition point_precede :: "PricePoint \<Rightarrow> PricePoint \<Rightarrow> bool" where
  "point_precede pp b =
     (if executionAmount pp > executionAmount b then True
      else if executionAmount pp < executionAmount b then False
      else if absImbalance pp < absImbalance b then True
      else if absImbalance pp > absImbalance b then False
      else pp_price pp > pp_price b)"

subsection \<open>The execution price\<close>

text \<open>
  Only called with a non-empty list. The loop over the list clears one of two flags for each
  sign it meets.
\<close>

definition calculateExecutionPriceWithRef :: "dec \<Rightarrow> dec \<Rightarrow> dec \<Rightarrow> PricePoint list \<Rightarrow> dec" where
  "calculateExecutionPriceWithRef highPrice midPrice lowPrice pps =
     (let highest = hd pps;
          lowest = last pps;
          middle = pps ! (length pps div 2);
          midPriceIsZero = (midPrice = 0);
          allPriceLargerThanHigh = (pp_price lowest > highPrice \<and> \<not> midPriceIsZero);
          allPriceSmallerThanHigh = (pp_price highest < highPrice \<and> \<not> midPriceIsZero);
          allPriceLargerThanLow = (pp_price lowest > lowPrice \<and> \<not> midPriceIsZero);
          allPriceSmallerThanLow = (pp_price highest < lowPrice \<and> \<not> midPriceIsZero);
          allImbalanceIsPositive = (\<forall>pp \<in> set pps. \<not> imbalance pp < 0);
          allImbalanceIsNegative = (\<forall>pp \<in> set pps. \<not> imbalance pp > 0)
      in if midPriceIsZero then pp_price middle
         else if allImbalanceIsPositive then
           (if allPriceSmallerThanHigh then pp_price highest
            else if allPriceLargerThanHigh then pp_price lowest
            else highPrice)
         else if allImbalanceIsNegative then
           (if allPriceSmallerThanLow then pp_price highest
            else if allPriceLargerThanLow then pp_price lowest
            else lowPrice)
         else
           (if pp_price highest < midPrice then pp_price highest
            else if pp_price lowest > midPrice then pp_price lowest
            else midPrice))"

fun same_prefix :: "(PricePoint \<Rightarrow> int) \<Rightarrow> PricePoint list \<Rightarrow> PricePoint list" where
  "same_prefix f [] = []"
| "same_prefix f (pp # pps) = pp # takeWhile (\<lambda>q. f q = f pp) pps"

text \<open>An empty list makes \<open>ppList[0]\<close> panic.\<close>

definition calculateExecutionPrice ::
    "go_sorts \<Rightarrow> dec \<Rightarrow> dec \<Rightarrow> dec \<Rightarrow> PricePoint list \<Rightarrow> dec ret" where
  "calculateExecutionPrice G highPrice midPrice lowPrice ppList =
     (let ppList = sort_points G point_precede ppList
      in if ppList = [] then Panic
         else let ppListSameEA = same_prefix executionAmount ppList
           in if length ppListSameEA = 1 then Ok (pp_price (hd ppListSameEA))
              else let sorted = sort_points G (\<lambda>a b. absImbalance a < absImbalance b) ppListSameEA;
                       ppListSameImbalance = same_prefix absImbalance sorted
                in if length ppListSameImbalance = 1 then Ok (pp_price (hd ppListSameImbalance))
                   else Ok (calculateExecutionPriceWithRef highPrice midPrice lowPrice ppListSameImbalance))"

definition GetExecutionPrice ::
    "go_sorts \<Rightarrow> 's order_iface \<Rightarrow> 's \<Rightarrow> dec \<Rightarrow> dec \<Rightarrow> dec \<Rightarrow> nat list \<Rightarrow> dec ret" where
  "GetExecutionPrice G I s highPrice midPrice lowPrice orders =
     calculateExecutionPrice G highPrice midPrice lowPrice
       (accumulateForPricePointList G (createPricePointList I s orders))"

subsection \<open>Execution\<close>

text \<open>
  \<open>ExecuteOrder\<close> counts the orders of the other side that it used up; the loop leaves at the
  first order beyond the price and when the current order is used up.
\<close>

fun ExecuteOrder_loop :: "'s order_iface \<Rightarrow> dec \<Rightarrow> nat \<Rightarrow> nat list \<Rightarrow> nat \<Rightarrow> ('s, nat) op" where
  "ExecuteOrder_loop I price cur [] firstNonZeroIndex s = (Ok firstNonZeroIndex, s)"
| "ExecuteOrder_loop I price cur (otherSide # rest) firstNonZeroIndex s =
     (if (if GetSide I s otherSide = BUY then GetPrice I s otherSide < price
          else GetPrice I s otherSide > price)
      then (Ok firstNonZeroIndex, s)
      else let minAmount = (if GetAmount I s cur < GetAmount I s otherSide
                            then GetAmount I s cur else GetAmount I s otherSide)
        in and_then (Deal I cur otherSide minAmount price)
          (\<lambda>_ s'. let firstNonZeroIndex' =
                (if GetAmount I s' otherSide = 0 then firstNonZeroIndex + 1 else firstNonZeroIndex)
              in if GetAmount I s' cur = 0 then (Ok firstNonZeroIndex', s')
                 else ExecuteOrder_loop I price cur rest firstNonZeroIndex' s') s)"

definition ExecuteOrder :: "'s order_iface \<Rightarrow> dec \<Rightarrow> nat \<Rightarrow> nat list \<Rightarrow> ('s, nat list) op" where
  "ExecuteOrder I price cur orderList =
     and_then (ExecuteOrder_loop I price cur orderList 0) (\<lambda>k. return (drop k orderList))"

definition exec_stop :: "'s order_iface \<Rightarrow> dec \<Rightarrow> nat list \<Rightarrow> nat list \<Rightarrow> 's \<Rightarrow> bool" where
  "exec_stop I price bidList askList s =
     (askList = [] \<or> bidList = [] \<or>
      GetPrice I s (hd bidList) < price \<or> GetPrice I s (hd askList) > price)"

definition drop_filled :: "'s order_iface \<Rightarrow> 's \<Rightarrow> nat list \<Rightarrow> nat list" where
  "drop_filled I s xs = (if GetAmount I s (hd xs) = 0 then tl xs else xs)"

text \<open>One turn of the loop: \<open>Inl\<close> is a \<open>break\<close> with the final lists, \<open>Inr\<close> the next turn.\<close>

definition ExecuteOrderList_body ::
    "'s order_iface \<Rightarrow> dec \<Rightarrow> nat list \<Rightarrow> nat list \<Rightarrow> ('s, (nat list \<times> nat list) + (nat list \<times> nat list)) op" where
  "ExecuteOrderList_body I price bidList askList s =
     (if exec_stop I price bidList askList s then (Ok (Inl (bidList, askList)), s)
      else and_then (ExecuteOrder I price (hd bidList) askList)
        (\<lambda>askList s. let bidList = drop_filled I s bidList
          in if exec_stop I price bidList askList s then (Ok (Inl (bidList, askList)), s)
             else and_then (ExecuteOrder I price (hd askList) bidList)
               (\<lambda>bidList s. (Ok (Inr (bidList, drop_filled I s askList)), s)) s) s)"

partial_function (option) ExecuteOrderList ::
    "'s order_iface \<Rightarrow> dec \<Rightarrow> nat list \<Rightarrow> nat list \<Rightarrow> 's \<Rightarrow> ((nat list \<times> nat list) ret \<times> 's) option" where
  "ExecuteOrderList I price bidList askList s =
     (case ExecuteOrderList_body I price bidList askList s of
        (Ok (Inl r), s') \<Rightarrow> Some (Ok r, s')
      | (Ok (Inr (bidList', askList')), s') \<Rightarrow> ExecuteOrderList I price bidList' askList' s'
      | (Err e, s') \<Rightarrow> Some (Err e, s')
      | (Panic, s') \<Rightarrow> Some (Panic, s'))"

text \<open>
  The loop of \<open>Match\<close>. The function has no result; the two lists it ends with are returned here
  so that theorems can speak about what is left of the book.
\<close>

partial_function (option) Match_loop ::
    "go_sorts \<Rightarrow> 's order_iface \<Rightarrow> dec \<Rightarrow> dec \<Rightarrow> dec \<Rightarrow> nat list \<Rightarrow> nat list \<Rightarrow> 's \<Rightarrow>
       ((nat list \<times> nat list) ret \<times> 's) option" where
  "Match_loop G I highPrice midPrice lowPrice bidList askList s =
     (if bidList \<noteq> [] \<and> askList \<noteq> [] \<and> GetPrice I s (hd askList) \<le> GetPrice I s (hd bidList)
      then (case GetExecutionPrice G I s highPrice midPrice lowPrice (bidList @ askList) of
          Ok price \<Rightarrow> (case ExecuteOrderList I price bidList askList s of
              None \<Rightarrow> None
            | Some (r, s') \<Rightarrow> (case r of
                Ok (bidList', askList') \<Rightarrow> Match_loop G I highPrice midPrice lowPrice bidList' askList' s'
              | Err e \<Rightarrow> Some (Err e, s')
              | Panic \<Rightarrow> Some (Panic, s')))
        | Err e \<Rightarrow> Some (Err e, s)
        | Panic \<Rightarrow> Some (Panic, s))
      else Some (Ok (bidList, askList), s))"

definition Match ::
    "go_sorts \<Rightarrow> 's order_iface \<Rightarrow> dec \<Rightarrow> dec \<Rightarrow> dec \<Rightarrow> nat list \<Rightarrow> nat list \<Rightarrow> 's \<Rightarrow>
       ((nat list \<times> nat list) ret \<times> 's) option" where
  "Match G I highPrice midPrice lowPrice bidList askList s =
     Match_loop G I highPrice midPrice lowPrice
       (sort_orders G (precede I s) bidList) (sort_orders G (precede I s) askList) s"

text \<open>The loops' equations make them executable.\<close>

declare ExecuteOrderList.simps [code] Match_loop.simps [code]

end
