(* ===== verification/MatchPrice.thy ===== *)
theory MatchPrice
  imports Match
begin

section \<open>The execution price\<close>

text \<open>
  What the price points of \<open>match.go\<close> hold and why the price taken from them is right: for any
  outcome of the two unstable sorts, the execution price is one at which the traded volume is the
  largest possible, and among those one at which the imbalance is the smallest.
\<close>

subsection \<open>Demand, supply and volume at a price\<close>

definition demand_at :: "'s order_iface \<Rightarrow> 's \<Rightarrow> nat list \<Rightarrow> dec \<Rightarrow> int" where
  "demand_at I s orders p =
     sum_list (map (\<lambda>a. if GetSide I s a = BID \<and> p \<le> GetPrice I s a then GetAmount I s a else 0) orders)"

definition supply_at :: "'s order_iface \<Rightarrow> 's \<Rightarrow> nat list \<Rightarrow> dec \<Rightarrow> int" where
  "supply_at I s orders p =
     sum_list (map (\<lambda>a. if GetSide I s a = ASK \<and> GetPrice I s a \<le> p then GetAmount I s a else 0) orders)"

definition volume_at :: "'s order_iface \<Rightarrow> 's \<Rightarrow> nat list \<Rightarrow> dec \<Rightarrow> int" where
  "volume_at I s orders p = min (demand_at I s orders p) (supply_at I s orders p)"

lemma sum_list_if_mono:
  fixes f :: "'a \<Rightarrow> int"
  assumes "\<And>x. x \<in> set xs \<Longrightarrow> 0 \<le> f x" and "\<And>x. x \<in> set xs \<Longrightarrow> P x \<Longrightarrow> Q x"
  shows "sum_list (map (\<lambda>x. if P x then f x else 0) xs) \<le> sum_list (map (\<lambda>x. if Q x then f x else 0) xs)"
  using assms by (intro sum_list_mono) auto

lemma sum_list_if_pos:
  fixes f :: "'a \<Rightarrow> int"
  assumes "0 < sum_list (map (\<lambda>x. if P x then f x else 0) xs)"
  shows "\<exists>x \<in> set xs. P x"
proof (rule ccontr)
  assume "\<not> ?thesis"
  then have "map (\<lambda>x. if P x then f x else 0) xs = map (\<lambda>x. 0) xs" by auto
  with assms show False by simp
qed

lemma sum_list_if_ge:
  fixes f :: "'a \<Rightarrow> int"
  assumes "\<And>x. x \<in> set xs \<Longrightarrow> 0 \<le> f x" and "y \<in> set xs" and "P y"
  shows "f y \<le> sum_list (map (\<lambda>x. if P x then f x else 0) xs)"
proof -
  have "(if P y then f y else 0) \<in> set (map (\<lambda>x. if P x then f x else 0) xs)" using assms(2) by auto
  then have "(if P y then f y else 0) \<le> sum_list (map (\<lambda>x. if P x then f x else 0) xs)"
    by (rule member_le_sum_list) (use assms(1) in auto)
  with assms(3) show ?thesis by simp
qed

definition amounts_nonneg :: "'s order_iface \<Rightarrow> 's \<Rightarrow> nat list \<Rightarrow> bool" where
  "amounts_nonneg I s orders \<longleftrightarrow> (\<forall>a \<in> set orders. 0 \<le> GetAmount I s a)"

lemma demand_antimono: "amounts_nonneg I s orders \<Longrightarrow> p \<le> q \<Longrightarrow> demand_at I s orders q \<le> demand_at I s orders p"
  unfolding demand_at_def amounts_nonneg_def by (rule sum_list_if_mono) auto

lemma supply_mono: "amounts_nonneg I s orders \<Longrightarrow> p \<le> q \<Longrightarrow> supply_at I s orders p \<le> supply_at I s orders q"
  unfolding supply_at_def amounts_nonneg_def by (rule sum_list_if_mono) auto

lemma demand_nonneg: "amounts_nonneg I s orders \<Longrightarrow> 0 \<le> demand_at I s orders p"
  unfolding demand_at_def amounts_nonneg_def by (intro sum_list_nonneg) auto

lemma supply_nonneg: "amounts_nonneg I s orders \<Longrightarrow> 0 \<le> supply_at I s orders p"
  unfolding supply_at_def amounts_nonneg_def by (intro sum_list_nonneg) auto

subsection \<open>Price points hold the amounts of their prices\<close>

definition psum :: "(PricePoint \<Rightarrow> int) \<Rightarrow> (dec \<Rightarrow> bool) \<Rightarrow> PricePoint list \<Rightarrow> int" where
  "psum f P pps = sum_list (map (\<lambda>pp. if P (pp_price pp) then f pp else 0) pps)"

lemma psum_simps [simp]:
  "psum f P [] = 0"
  "psum f P (pp # pps) = (if P (pp_price pp) then f pp else 0) + psum f P pps"
  "psum f P (xs @ ys) = psum f P xs + psum f P ys"
  by (simp_all add: psum_def)

lemma psum_update:
  "i < length pps \<Longrightarrow> psum f P (pps[i := x]) =
     psum f P pps - (if P (pp_price (pps ! i)) then f (pps ! i) else 0) + (if P (pp_price x) then f x else 0)"
proof (induction pps arbitrary: i)
  case Nil
  then show ?case by simp
next
  case (Cons pp pps)
  show ?case
  proof (cases i)
    case 0
    then show ?thesis by simp
  next
    case (Suc j)
    then have "j < length pps" using Cons.prems by simp
    from Cons.IH [OF this] Suc show ?thesis by simp
  qed
qed

lemma psum_mset: "mset xs = mset ys \<Longrightarrow> psum f P xs = psum f P ys"
proof -
  assume eq: "mset xs = mset ys"
  have "sum_mset (image_mset g (mset xs)) = sum_mset (image_mset g (mset ys))" for g :: "PricePoint \<Rightarrow> int"
    by (simp only: eq)
  then show ?thesis unfolding psum_def by (simp only: mset_map [symmetric] sum_mset_sum_list)
qed

definition indexed :: "PricePoint list \<Rightarrow> (string \<rightharpoonup> nat) \<Rightarrow> bool" where
  "indexed pps m \<longleftrightarrow>
     (\<forall>i < length pps. m (DecToBigEndianBytes (pp_price (pps ! i))) = Some i) \<and>
     (\<forall>k i. m k = Some i \<longrightarrow> i < length pps \<and> DecToBigEndianBytes (pp_price (pps ! i)) = k) \<and>
     (\<forall>pp \<in> set pps. price_fits (pp_price pp))"

definition points_hold :: "'s order_iface \<Rightarrow> 's \<Rightarrow> nat list \<Rightarrow> PricePoint list \<Rightarrow> bool" where
  "points_hold I s orders pps \<longleftrightarrow>
     pp_price ` set pps = GetPrice I s ` set orders \<and>
     (\<forall>P. psum bidAmount P pps =
       sum_list (map (\<lambda>a. if GetSide I s a = BID \<and> P (GetPrice I s a) then GetAmount I s a else 0) orders)) \<and>
     (\<forall>P. psum askAmount P pps =
       sum_list (map (\<lambda>a. if GetSide I s a = ASK \<and> P (GetPrice I s a) then GetAmount I s a else 0) orders))"

lemma indexed_update:
  assumes "indexed pps m" and "i < length pps" and "pp_price x = pp_price (pps ! i)"
  shows "indexed (pps[i := x]) m"
proof -
  have price: "pp_price (pps[i := x] ! j) = pp_price (pps ! j)" if "j < length pps" for j
    using that assms(3) by (cases "j = i") auto
  have "price_fits (pp_price y)" if "y \<in> set (pps[i := x])" for y
  proof -
    from that obtain j where j: "j < length pps" "y = pps[i := x] ! j"
      by (metis in_set_conv_nth length_list_update)
    with price [OF j(1)] assms(1) show ?thesis by (simp add: indexed_def)
  qed
  then show ?thesis using assms(1) price by (auto simp: indexed_def)
qed

lemma indexed_snoc:
  assumes "indexed pps m" and "m (DecToBigEndianBytes p) = None" and "price_fits p"
  shows "indexed (pps @ [new_point p]) (m(DecToBigEndianBytes p \<mapsto> length pps))"
proof -
  let ?k = "DecToBigEndianBytes p"
  let ?m = "m(?k \<mapsto> length pps)"
  let ?qs = "pps @ [new_point p]"
  have at_key: "m (DecToBigEndianBytes (pp_price (pps ! i))) = Some i" if "i < length pps" for i
    using assms(1) that by (simp add: indexed_def)
  have back_at: "i < length pps \<and> DecToBigEndianBytes (pp_price (pps ! i)) = k" if "m k = Some i" for k i
    using assms(1) that by (simp add: indexed_def)
  have fits: "price_fits (pp_price pp)" if "pp \<in> set pps" for pp
    using assms(1) that by (simp add: indexed_def)
  have nth: "pp_price (?qs ! i) = (if i < length pps then pp_price (pps ! i) else p)"
    if "i < Suc (length pps)" for i
    using that by (auto simp: nth_append new_point_def less_Suc_eq)
  have "?m (DecToBigEndianBytes (pp_price (?qs ! i))) = Some i" if "i < length ?qs" for i
  proof (cases "i < length pps")
    case True
    then have "DecToBigEndianBytes (pp_price (pps ! i)) \<noteq> ?k" using at_key [OF True] assms(2) by auto
    with True nth [of i] at_key [OF True] show ?thesis by simp
  next
    case False
    with that have "i = length pps" by simp
    with nth [of i] show ?thesis by simp
  qed
  moreover have "i < length ?qs \<and> DecToBigEndianBytes (pp_price (?qs ! i)) = k" if "?m k = Some i" for k i
  proof (cases "k = ?k")
    case True
    with that have "i = length pps" by simp
    with True nth [of i] show ?thesis by simp
  next
    case False
    with that back_at [of k i] nth [of i] show ?thesis by simp
  qed
  moreover have "\<forall>pp \<in> set ?qs. price_fits (pp_price pp)"
    using fits assms(3) by (auto simp: new_point_def)
  ultimately show ?thesis unfolding indexed_def by blast
qed

lemma price_update:
  assumes "i < length pps" and "pp_price x = pp_price (pps ! i)"
  shows "pp_price ` set (pps[i := x]) = pp_price ` set pps"
proof -
  have "map pp_price (pps[i := x]) = map pp_price pps"
    using assms by (intro nth_equalityI) (auto simp: nth_list_update)
  then have "set (map pp_price (pps[i := x])) = set (map pp_price pps)" by (rule arg_cong)
  then show ?thesis by (simp only: set_map)
qed

text \<open>Adding an order to the point of its price.\<close>

lemma add_order_at:
  assumes "i < length pps" and "pp_price (pps ! i) = GetPrice I s a"
    and "pp_price ` set pps = insert (GetPrice I s a) (GetPrice I s ` set orders)"
    and bid: "\<And>P. psum bidAmount P pps =
       sum_list (map (\<lambda>a. if GetSide I s a = BID \<and> P (GetPrice I s a) then GetAmount I s a else 0) orders)"
    and ask: "\<And>P. psum askAmount P pps =
       sum_list (map (\<lambda>a. if GetSide I s a = ASK \<and> P (GetPrice I s a) then GetAmount I s a else 0) orders)"
  shows "points_hold I s (orders @ [a])
     (if GetSide I s a = ASK
      then pps[i := (pps ! i)\<lparr>askAmount := askAmount (pps ! i) + GetAmount I s a\<rparr>]
      else if GetSide I s a = BID
      then pps[i := (pps ! i)\<lparr>bidAmount := bidAmount (pps ! i) + GetAmount I s a\<rparr>]
      else pps)"
proof -
  have "pp_price ` set (pps[i := x]) = insert (GetPrice I s a) (GetPrice I s ` set orders)"
    if "pp_price x = pp_price (pps ! i)" for x
    using price_update [OF assms(1) that] assms(3) by simp
  then show ?thesis
    using assms(1-3) by (simp add: points_hold_def psum_update bid ask)
qed

lemma add_order_step:
  assumes inv: "indexed pps m" "points_hold I s orders pps" and fits: "price_fits (GetPrice I s a)"
    and run: "add_order I s (pps, m) a = (pps', m')"
  shows "indexed pps' m' \<and> points_hold I s (orders @ [a]) pps'"
proof (cases "m (DecToBigEndianBytes (GetPrice I s a))")
  case None
  define qs where "qs = pps @ [new_point (GetPrice I s a)]"
  have q: "length pps < length qs" "pp_price (qs ! length pps) = GetPrice I s a"
    by (simp_all add: qs_def new_point_def)
  have hold: "psum bidAmount P qs = psum bidAmount P pps" "psum askAmount P qs = psum askAmount P pps" for P
    by (simp_all add: qs_def new_point_def)
  have idx: "indexed qs (m(DecToBigEndianBytes (GetPrice I s a) \<mapsto> length pps))"
    unfolding qs_def by (rule indexed_snoc [OF inv(1) None fits])
  have pts: "points_hold I s (orders @ [a])
     (if GetSide I s a = ASK
      then qs[length pps := (qs ! length pps)\<lparr>askAmount := askAmount (qs ! length pps) + GetAmount I s a\<rparr>]
      else if GetSide I s a = BID
      then qs[length pps := (qs ! length pps)\<lparr>bidAmount := bidAmount (qs ! length pps) + GetAmount I s a\<rparr>]
      else qs)"
    by (rule add_order_at [OF q]) (use inv(2) in \<open>simp_all add: hold points_hold_def\<close>,
        simp add: qs_def new_point_def)
  from run None have "m' = m(DecToBigEndianBytes (GetPrice I s a) \<mapsto> length pps)"
    and "pps' = (if GetSide I s a = ASK
      then qs[length pps := (qs ! length pps)\<lparr>askAmount := askAmount (qs ! length pps) + GetAmount I s a\<rparr>]
      else if GetSide I s a = BID
      then qs[length pps := (qs ! length pps)\<lparr>bidAmount := bidAmount (qs ! length pps) + GetAmount I s a\<rparr>]
      else qs)"
    by (auto simp: add_order_def qs_def Let_def)
  with pts indexed_update [OF idx q(1)] idx show ?thesis by auto
next
  case (Some i)
  then have i: "i < length pps"
    "DecToBigEndianBytes (pp_price (pps ! i)) = DecToBigEndianBytes (GetPrice I s a)"
    using inv(1) by (auto simp: indexed_def)
  then have p: "pp_price (pps ! i) = GetPrice I s a"
    using inv(1) fits by (simp add: indexed_def DecToBigEndianBytes_eq)
  have "GetPrice I s a \<in> pp_price ` set pps" using i(1) p by (metis image_eqI nth_mem)
  then have set: "pp_price ` set pps = insert (GetPrice I s a) (GetPrice I s ` set orders)"
    using inv(2) by (auto simp: points_hold_def)
  note pts = add_order_at [OF i(1) p set]
  from run Some have "m' = m"
    and "pps' = (if GetSide I s a = ASK
      then pps[i := (pps ! i)\<lparr>askAmount := askAmount (pps ! i) + GetAmount I s a\<rparr>]
      else if GetSide I s a = BID
      then pps[i := (pps ! i)\<lparr>bidAmount := bidAmount (pps ! i) + GetAmount I s a\<rparr>]
      else pps)"
    by (auto simp: add_order_def Let_def)
  with pts indexed_update [OF inv(1) i(1)] inv show ?thesis by (auto simp: points_hold_def)
qed

lemma createPricePointList_holds:
  assumes "\<forall>a \<in> set orders. price_fits (GetPrice I s a)"
  shows "points_hold I s orders (createPricePointList I s orders) \<and>
    distinct (map pp_price (createPricePointList I s orders))"
proof -
  have "\<exists>pps m. foldl (add_order I s) ([], Map.empty) orders = (pps, m) \<and>
      indexed pps m \<and> points_hold I s orders pps"
    using assms
  proof (induction orders rule: rev_induct)
    case Nil
    show ?case by (simp add: indexed_def points_hold_def)
  next
    case (snoc a orders)
    then obtain pps m where "foldl (add_order I s) ([], Map.empty) orders = (pps, m)"
      "indexed pps m" "points_hold I s orders pps" by auto
    then show ?case using add_order_step [of pps m I s orders a] snoc.prems
      by (cases "add_order I s (pps, m) a") auto
  qed
  then obtain pps m where run: "createPricePointList I s orders = pps"
    and inv: "indexed pps m" "points_hold I s orders pps"
    by (auto simp: createPricePointList_def)
  have "distinct (map pp_price pps)"
    unfolding distinct_conv_nth length_map
  proof (intro allI impI)
    fix i j assume "i < length pps" "j < length pps" "i \<noteq> j"
    then show "map pp_price pps ! i \<noteq> map pp_price pps ! j"
      using inv(1) unfolding indexed_def by (metis nth_map option.inject)
  qed
  with run inv show ?thesis by simp
qed

subsection \<open>The running sums\<close>

lemma psum_none: "\<forall>pp \<in> set pps. \<not> P (pp_price pp) \<Longrightarrow> psum f P pps = 0"
  by (induction pps) auto

lemma scan_bids_sums:
  "sorted_wrt (\<lambda>a b. pp_price a > pp_price b) pps \<Longrightarrow>
     scan_bids acc pps = map (\<lambda>pp. pp\<lparr>accumulatedBidAmount :=
       acc + psum bidAmount (\<lambda>q. pp_price pp \<le> q) pps\<rparr>) pps"
proof (induction pps arbitrary: acc)
  case Nil
  then show ?case by simp
next
  case (Cons x pps)
  then have "psum bidAmount (\<lambda>q. pp_price x \<le> q) pps = 0" by (intro psum_none) auto
  moreover have "pp_price pp \<le> pp_price x" if "pp \<in> set pps" for pp
    using Cons.prems that by auto
  ultimately show ?case using Cons by (simp add: Let_def add.assoc)
qed

lemma scan_asks_sums:
  "sorted_wrt (\<lambda>a b. pp_price a < pp_price b) pps \<Longrightarrow>
     scan_asks acc pps = map (\<lambda>pp. pp\<lparr>accumulatedAskAmount :=
       acc + psum askAmount (\<lambda>q. q \<le> pp_price pp) pps\<rparr>) pps"
proof (induction pps arbitrary: acc)
  case Nil
  then show ?case by simp
next
  case (Cons x pps)
  then have "psum askAmount (\<lambda>q. q \<le> pp_price x) pps = 0" by (intro psum_none) auto
  moreover have "pp_price x \<le> pp_price pp" if "pp \<in> set pps" for pp
    using Cons.prems that by auto
  ultimately show ?case using Cons by (simp add: Let_def add.assoc)
qed

lemma sorted_prices_strict:
  assumes "sorted_wrt (\<lambda>a b. \<not> pp_price b > pp_price a) pps" and "distinct (map pp_price pps)"
  shows "sorted_wrt (\<lambda>a b. pp_price a > pp_price b) pps"
  using assms
proof (induction pps)
  case Nil
  then show ?case by simp
next
  case (Cons x pps)
  have "pp_price y < pp_price x" if "y \<in> set pps" for y
  proof -
    have "\<not> pp_price x < pp_price y" using Cons.prems(1) that by simp
    moreover have "pp_price x \<noteq> pp_price y" using Cons.prems(2) that by auto
    ultimately show ?thesis by simp
  qed
  with Cons show ?case by simp
qed

definition fill_from :: "PricePoint list \<Rightarrow> PricePoint \<Rightarrow> PricePoint" where
  "fill_from pps pp = fill_point (pp
     \<lparr>accumulatedBidAmount := psum bidAmount (\<lambda>q. pp_price pp \<le> q) pps,
      accumulatedAskAmount := psum askAmount (\<lambda>q. q \<le> pp_price pp) pps\<rparr>)"

lemma psum_map: "(\<And>pp. f (g pp) = f pp) \<Longrightarrow> (\<And>pp. pp_price (g pp) = pp_price pp) \<Longrightarrow>
    psum f P (map g pps) = psum f P pps"
  by (induction pps) simp_all

lemma accumulate_sums:
  assumes "sorts_ok G" and "distinct (map pp_price pps)"
  obtains qs where "mset qs = mset pps"
    and "accumulateForPricePointList G pps = map (fill_from pps) qs"
proof -
  define qs where "qs = sort_points G (\<lambda>a b. pp_price a > pp_price b) pps"
  have weak: "strict_weak (\<lambda>a b. pp_price a > pp_price b) (set pps)"
    by (rule strict_weak_key [where f = "\<lambda>x. - pp_price x"]) auto
  have sorts: "slice_sort (sort_points G)" using assms(1) by (simp add: sorts_ok_def)
  note sorted = slice_sortD [OF sorts weak, folded qs_def]
  have "mset (map pp_price qs) = mset (map pp_price pps)"
    by (simp only: mset_map sorted(1))
  then have dist: "distinct (map pp_price qs)"
    using assms(2) mset_eq_imp_distinct_iff by blast
  have desc: "sorted_wrt (\<lambda>a b. pp_price a > pp_price b) qs"
    using sorted(3) dist by (intro sorted_prices_strict) auto
  define bid :: "PricePoint \<Rightarrow> PricePoint" where "bid = (\<lambda>pp. pp\<lparr>accumulatedBidAmount := psum bidAmount (\<lambda>q. pp_price pp \<le> q) pps\<rparr>)"
  have bids: "scan_bids 0 qs = map bid qs"
    unfolding scan_bids_sums [OF desc] bid_def by (simp add: psum_mset [OF sorted(1)])
  have asc: "sorted_wrt (\<lambda>a b. pp_price a < pp_price b) (rev (map bid qs))"
    using desc by (simp add: sorted_wrt_rev sorted_wrt_map bid_def)
  have mrev: "mset (rev (map bid qs)) = mset (map bid qs)" by simp
  have "psum askAmount P (rev (map bid qs)) = psum askAmount P pps" for P
    using psum_map [of askAmount bid P qs] psum_mset [OF mrev] psum_mset [OF sorted(1)]
    by (simp add: bid_def)
  then have "rev (scan_asks 0 (rev (map bid qs))) =
      map (\<lambda>pp. pp\<lparr>accumulatedAskAmount := psum askAmount (\<lambda>q. q \<le> pp_price pp) pps\<rparr>) (map bid qs)"
    unfolding scan_asks_sums [OF asc] by (simp add: rev_map)
  then have "accumulateForPricePointList G pps = map (fill_from pps) qs"
    by (simp add: accumulateForPricePointList_def qs_def [symmetric] bids Let_def bid_def
        fill_from_def comp_def)
  with that sorted(1) show thesis by blast
qed

text \<open>Every point holds demand, supply, volume and imbalance at its price.\<close>

definition points_exact :: "'s order_iface \<Rightarrow> 's \<Rightarrow> nat list \<Rightarrow> PricePoint list \<Rightarrow> bool" where
  "points_exact I s orders pps \<longleftrightarrow>
     pp_price ` set pps = GetPrice I s ` set orders \<and>
     (\<forall>pp \<in> set pps.
       executionAmount pp = volume_at I s orders (pp_price pp) \<and>
       imbalance pp = demand_at I s orders (pp_price pp) - supply_at I s orders (pp_price pp) \<and>
       absImbalance pp = \<bar>demand_at I s orders (pp_price pp) - supply_at I s orders (pp_price pp)\<bar>)"

lemma points_exact_accumulate:
  assumes "sorts_ok G" and "\<forall>a \<in> set orders. price_fits (GetPrice I s a)"
  shows "points_exact I s orders (accumulateForPricePointList G (createPricePointList I s orders))"
proof -
  define pps where "pps = createPricePointList I s orders"
  have hold: "points_hold I s orders pps" and dist: "distinct (map pp_price pps)"
    using createPricePointList_holds [OF assms(2)] by (simp_all add: pps_def)
  obtain qs where qs: "mset qs = mset pps" "accumulateForPricePointList G pps = map (fill_from pps) qs"
    using accumulate_sums [OF assms(1) dist] .
  have price: "pp_price (fill_from pps pp) = pp_price pp" for pp
    by (simp add: fill_from_def fill_point_def Let_def)
  have bid: "psum bidAmount (\<lambda>q. p \<le> q) pps = demand_at I s orders p" for p
    using hold by (simp add: points_hold_def demand_at_def)
  have ask: "psum askAmount (\<lambda>q. q \<le> p) pps = supply_at I s orders p" for p
    using hold by (simp add: points_hold_def supply_at_def)
  have "set qs = set pps" using qs(1) by (metis set_mset_mset)
  then have "pp_price ` set (map (fill_from pps) qs) = GetPrice I s ` set orders"
    using hold by (simp add: points_hold_def image_image price)
  moreover have "executionAmount (fill_from pps pp) = volume_at I s orders (pp_price pp) \<and>
      imbalance (fill_from pps pp) = demand_at I s orders (pp_price pp) - supply_at I s orders (pp_price pp) \<and>
      absImbalance (fill_from pps pp) =
        \<bar>demand_at I s orders (pp_price pp) - supply_at I s orders (pp_price pp)\<bar>" for pp
    by (simp add: fill_from_def fill_point_def Let_def bid ask volume_at_def min_def)
  ultimately show ?thesis unfolding points_exact_def pps_def [symmetric] qs(2)
    by (auto simp: price)
qed

subsection \<open>The choice among the points\<close>

definition best_points :: "PricePoint list \<Rightarrow> PricePoint set" where
  "best_points pps = {pp \<in> set pps.
     (\<forall>q \<in> set pps. executionAmount q \<le> executionAmount pp) \<and>
     (\<forall>q \<in> set pps. executionAmount q = executionAmount pp \<longrightarrow> absImbalance pp \<le> absImbalance q)}"

lemma same_prefixD:
  assumes "pps \<noteq> []"
  shows "same_prefix f pps \<noteq> []" and "hd (same_prefix f pps) = hd pps"
    and "x \<in> set (same_prefix f pps) \<Longrightarrow> x \<in> set pps \<and> f x = f (hd pps)"
  using assms by (cases pps; auto dest: set_takeWhileD)+

lemma hd_least:
  assumes "sorted_wrt (\<lambda>a b. \<not> lt b a) xs" and "xs \<noteq> []" and "y \<in> set xs" and "y \<noteq> hd xs"
  shows "\<not> lt y (hd xs)"
  using assms by (cases xs) auto

lemma WithRef_between:
  assumes "pps \<noteq> []"
  shows "\<exists>a \<in> set pps. \<exists>b \<in> set pps.
    pp_price b \<le> calculateExecutionPriceWithRef high mid low pps \<and>
    calculateExecutionPriceWithRef high mid low pps \<le> pp_price a"
proof -
  have mem: "hd pps \<in> set pps" "last pps \<in> set pps" "pps ! (length pps div 2) \<in> set pps"
    using assms by simp_all
  define r where "r = calculateExecutionPriceWithRef high mid low pps"
  have "(\<exists>x \<in> {hd pps, last pps, pps ! (length pps div 2)}. r = pp_price x) \<or>
      (pp_price (last pps) \<le> r \<and> r \<le> pp_price (hd pps))"
    unfolding r_def calculateExecutionPriceWithRef_def Let_def by (auto simp: not_less)
  then show ?thesis using mem unfolding r_def [symmetric] by (metis insertE order_refl singletonD)
qed

lemma point_precede_weak: "strict_weak point_precede A"
  by (rule strict_weak_key [where f = "\<lambda>x. (- executionAmount x, absImbalance x, - pp_price x)"])
    (auto simp: point_precede_def)

lemma calculateExecutionPrice_best:
  assumes "sorts_ok G" and "pps \<noteq> []"
  shows "\<exists>p. calculateExecutionPrice G high mid low pps = Ok p \<and>
    (\<exists>a \<in> best_points pps. \<exists>b \<in> best_points pps. pp_price b \<le> p \<and> p \<le> pp_price a)"
proof -
  define ss where "ss = sort_points G point_precede pps"
  have sorts: "slice_sort (sort_points G)" using assms(1) by (simp add: sorts_ok_def)
  note ss = slice_sortD [OF sorts point_precede_weak, of pps, folded ss_def]
  have ss_ne: "ss \<noteq> []" using ss(4) assms(2) by auto
  define es where "es = same_prefix executionAmount ss"
  note es = same_prefixD [OF ss_ne, where f = executionAmount, folded es_def]
  have top: "executionAmount q \<le> executionAmount (hd ss)"
    "executionAmount q = executionAmount (hd ss) \<Longrightarrow> absImbalance (hd ss) \<le> absImbalance q"
    if "q \<in> set pps" for q
  proof -
    have "q = hd ss \<or> \<not> point_precede q (hd ss)"
      using hd_least [OF ss(3) ss_ne, of q] that ss(2) by auto
    then show "executionAmount q \<le> executionAmount (hd ss)"
      "executionAmount q = executionAmount (hd ss) \<Longrightarrow> absImbalance (hd ss) \<le> absImbalance q"
      by (auto simp: point_precede_def split: if_splits)
  qed
  have hd_best: "hd ss \<in> best_points pps"
    using top ss_ne ss(2) by (auto simp: best_points_def)
  show ?thesis
  proof (cases "length es = 1")
    case True
    then have "calculateExecutionPrice G high mid low pps = Ok (pp_price (hd ss))"
      using ss_ne es(2) by (simp add: calculateExecutionPrice_def ss_def es_def)
    with hd_best show ?thesis by auto
  next
    case False
    define ts where "ts = sort_points G (\<lambda>a b. absImbalance a < absImbalance b) es"
    have weak: "strict_weak (\<lambda>a b. absImbalance a < absImbalance b) (set es)"
      by (rule strict_weak_key [where f = absImbalance]) auto
    note ts = slice_sortD [OF sorts weak, folded ts_def]
    have ts_ne: "ts \<noteq> []" using ts(4) es(1) by auto
    define us where "us = same_prefix absImbalance ts"
    note us = same_prefixD [OF ts_ne, where f = absImbalance, folded us_def]
    have "hd ss \<in> set ts" using ts(2) es(1,2) by (metis list.set_sel(1))
    then have least: "absImbalance (hd ts) \<le> absImbalance (hd ss)"
      using hd_least [OF ts(3) ts_ne, of "hd ss"] by (cases "hd ss = hd ts") auto
    have us_best: "x \<in> best_points pps" if "x \<in> set us" for x
    proof -
      have x: "x \<in> set pps" "executionAmount x = executionAmount (hd ss)"
        "absImbalance x \<le> absImbalance (hd ss)"
        using us(3) [OF that] ts(2) es(3) [of x] ss(2) least by auto
      with top show ?thesis by (fastforce simp: best_points_def)
    qed
    have price: "calculateExecutionPrice G high mid low pps =
        Ok (if length us = 1 then pp_price (hd us) else calculateExecutionPriceWithRef high mid low us)"
      using ss_ne False
      by (simp add: calculateExecutionPrice_def Let_def ss_def [symmetric] es_def [symmetric]
          ts_def [symmetric] us_def [symmetric])
    show ?thesis
    proof (cases "length us = 1")
      case True
      have "hd us \<in> best_points pps" using us_best us(1) by simp
      with price True show ?thesis by auto
    next
      case False
      obtain a b where "a \<in> set us" "b \<in> set us"
        "pp_price b \<le> calculateExecutionPriceWithRef high mid low us"
        "calculateExecutionPriceWithRef high mid low us \<le> pp_price a"
        using WithRef_between [OF us(1), of high mid low] by blast
      with price us_best [of a] us_best [of b] False show ?thesis by auto
    qed
  qed
qed

subsection \<open>The price maximises the volume\<close>

lemma volume_at_some_order:
  assumes "amounts_nonneg I s orders" and "orders \<noteq> []"
  shows "\<exists>a \<in> set orders. volume_at I s orders p \<le> volume_at I s orders (GetPrice I s a)"
proof (cases "0 < volume_at I s orders p")
  case False
  obtain a where "a \<in> set orders" using assms(2) by (cases orders) auto
  moreover have "0 \<le> volume_at I s orders (GetPrice I s a)"
    using demand_nonneg [OF assms(1)] supply_nonneg [OF assms(1)] by (simp add: volume_at_def)
  ultimately show ?thesis using False by (intro bexI [of _ a]) simp_all
next
  case True
  define B where "B = {a \<in> set orders. GetSide I s a = BID \<and> p \<le> GetPrice I s a}"
  have "0 < demand_at I s orders p" using True by (simp add: volume_at_def)
  then have "B \<noteq> {}" unfolding demand_at_def B_def by (auto dest: sum_list_if_pos)
  moreover have fin: "finite B" by (simp add: B_def)
  ultimately have "Min (GetPrice I s ` B) \<in> GetPrice I s ` B" by (intro Min_in) auto
  then obtain a where a: "a \<in> B" "GetPrice I s a = Min (GetPrice I s ` B)" by auto
  have "GetPrice I s a \<le> GetPrice I s b" if "b \<in> B" for b
    using that fin a(2) by simp
  then have "demand_at I s orders p \<le> demand_at I s orders (GetPrice I s a)"
    unfolding demand_at_def
    by (intro sum_list_if_mono) (use assms(1) in \<open>auto simp: amounts_nonneg_def B_def\<close>)
  moreover have "supply_at I s orders p \<le> supply_at I s orders (GetPrice I s a)"
    using a(1) by (intro supply_mono [OF assms(1)]) (auto simp: B_def)
  ultimately have "volume_at I s orders p \<le> volume_at I s orders (GetPrice I s a)"
    by (auto simp: volume_at_def)
  with a(1) show ?thesis by (auto simp: B_def)
qed

lemma GetExecutionPrice_between:
  assumes "sorts_ok G" and "\<forall>a \<in> set orders. price_fits (GetPrice I s a)" and "orders \<noteq> []"
  obtains p b a where "GetExecutionPrice G I s high mid low orders = Ok p"
    and "b \<le> p" and "p \<le> a"
    and "\<forall>x \<in> {a, b}. \<forall>c \<in> set orders.
      volume_at I s orders (GetPrice I s c) \<le> volume_at I s orders x"
    and "\<forall>x \<in> {a, b}. \<forall>c \<in> set orders.
      volume_at I s orders (GetPrice I s c) = volume_at I s orders x \<longrightarrow>
      \<bar>demand_at I s orders x - supply_at I s orders x\<bar> \<le>
        \<bar>demand_at I s orders (GetPrice I s c) - supply_at I s orders (GetPrice I s c)\<bar>"
proof -
  define pps where "pps = accumulateForPricePointList G (createPricePointList I s orders)"
  have ex: "points_exact I s orders pps"
    unfolding pps_def by (rule points_exact_accumulate [OF assms(1,2)])
  then have "pps \<noteq> []" using assms(3) by (auto simp: points_exact_def)
  from calculateExecutionPrice_best [OF assms(1) this, of high mid low]
  obtain p a b where p: "GetExecutionPrice G I s high mid low orders = Ok p"
    and ab: "a \<in> best_points pps" "b \<in> best_points pps" "pp_price b \<le> p" "p \<le> pp_price a"
    unfolding GetExecutionPrice_def pps_def by blast
  have point: "\<exists>q \<in> set pps. pp_price q = GetPrice I s c" if "c \<in> set orders" for c
    using ex that unfolding points_exact_def by (metis (no_types, lifting) image_iff)
  have best: "volume_at I s orders (GetPrice I s c) \<le> volume_at I s orders (pp_price x)"
    "volume_at I s orders (GetPrice I s c) = volume_at I s orders (pp_price x) \<Longrightarrow>
      \<bar>demand_at I s orders (pp_price x) - supply_at I s orders (pp_price x)\<bar> \<le>
        \<bar>demand_at I s orders (GetPrice I s c) - supply_at I s orders (GetPrice I s c)\<bar>"
    if mem: "x \<in> best_points pps" "c \<in> set orders" for x c
  proof -
    obtain q where q: "q \<in> set pps" "pp_price q = GetPrice I s c" using point [OF mem(2)] by blast
    have x: "x \<in> set pps" using mem(1) by (simp add: best_points_def)
    note eq = ex [unfolded points_exact_def, THEN conjunct2, rule_format]
    show "volume_at I s orders (GetPrice I s c) \<le> volume_at I s orders (pp_price x)"
      using mem(1) q eq [OF q(1)] eq [OF x] by (auto simp: best_points_def)
    show "volume_at I s orders (GetPrice I s c) = volume_at I s orders (pp_price x) \<Longrightarrow>
      \<bar>demand_at I s orders (pp_price x) - supply_at I s orders (pp_price x)\<bar> \<le>
        \<bar>demand_at I s orders (GetPrice I s c) - supply_at I s orders (GetPrice I s c)\<bar>"
      using mem(1) q eq [OF q(1)] eq [OF x] unfolding best_points_def by auto
  qed
  show thesis
    by (rule that [OF p ab(3,4)]) (use best [OF ab(1)] best [OF ab(2)] in simp_all)
qed

lemma GetExecutionPrice_max_volume:
  assumes "sorts_ok G" and "\<forall>a \<in> set orders. price_fits (GetPrice I s a)"
    and nonneg: "amounts_nonneg I s orders" and "orders \<noteq> []"
  shows "\<exists>p. GetExecutionPrice G I s high mid low orders = Ok p \<and>
    (\<forall>q. volume_at I s orders q \<le> volume_at I s orders p) \<and>
    (\<forall>c \<in> set orders. volume_at I s orders (GetPrice I s c) = volume_at I s orders p \<longrightarrow>
      \<bar>demand_at I s orders p - supply_at I s orders p\<bar> \<le>
        \<bar>demand_at I s orders (GetPrice I s c) - supply_at I s orders (GetPrice I s c)\<bar>)"
proof -
  obtain p b a where p: "GetExecutionPrice G I s high mid low orders = Ok p" "b \<le> p" "p \<le> a"
    and vol: "\<forall>x \<in> {a, b}. \<forall>c \<in> set orders.
      volume_at I s orders (GetPrice I s c) \<le> volume_at I s orders x"
    and imb: "\<forall>x \<in> {a, b}. \<forall>c \<in> set orders.
      volume_at I s orders (GetPrice I s c) = volume_at I s orders x \<longrightarrow>
      \<bar>demand_at I s orders x - supply_at I s orders x\<bar> \<le>
        \<bar>demand_at I s orders (GetPrice I s c) - supply_at I s orders (GetPrice I s c)\<bar>"
    using GetExecutionPrice_between [OF assms(1,2,4), of high mid low] .
  have dem: "demand_at I s orders a \<le> demand_at I s orders p" "demand_at I s orders p \<le> demand_at I s orders b"
    using demand_antimono [OF nonneg] p by auto
  have sup: "supply_at I s orders b \<le> supply_at I s orders p" "supply_at I s orders p \<le> supply_at I s orders a"
    using supply_mono [OF nonneg] p by auto
  have max: "volume_at I s orders q \<le> volume_at I s orders x" if "x = a \<or> x = b" for q x
  proof -
    obtain c where "c \<in> set orders" "volume_at I s orders q \<le> volume_at I s orders (GetPrice I s c)"
      using volume_at_some_order [OF nonneg assms(4)] by blast
    with vol that show ?thesis by fastforce
  qed
  have eq: "volume_at I s orders a = volume_at I s orders b" using max by (intro antisym) auto
  have ge: "volume_at I s orders a \<le> volume_at I s orders p"
    using dem sup eq by (auto simp: volume_at_def)
  have le: "volume_at I s orders p \<le> volume_at I s orders a" by (rule max) simp
  have "\<bar>demand_at I s orders p - supply_at I s orders p\<bar> \<le>
        \<bar>demand_at I s orders (GetPrice I s c) - supply_at I s orders (GetPrice I s c)\<bar>"
    if c: "c \<in> set orders" "volume_at I s orders (GetPrice I s c) = volume_at I s orders p" for c
  proof -
    have "volume_at I s orders (GetPrice I s c) = volume_at I s orders a"
      "volume_at I s orders (GetPrice I s c) = volume_at I s orders b"
      using c(2) eq ge le by simp_all
    then have "\<bar>demand_at I s orders a - supply_at I s orders a\<bar> \<le>
        \<bar>demand_at I s orders (GetPrice I s c) - supply_at I s orders (GetPrice I s c)\<bar>"
      "\<bar>demand_at I s orders b - supply_at I s orders b\<bar> \<le>
        \<bar>demand_at I s orders (GetPrice I s c) - supply_at I s orders (GetPrice I s c)\<bar>"
      using imb c(1) by auto
    with dem sup show ?thesis by linarith
  qed
  moreover have "volume_at I s orders q \<le> volume_at I s orders p" for q
    using max [of a q] ge by simp
  ultimately show ?thesis using p(1) by blast
qed

text \<open>When the book is crossed, the price lies between the best ask and the best bid.\<close>

lemma GetExecutionPrice_in_spread:
  assumes "sorts_ok G" and "\<forall>a \<in> set orders. price_fits (GetPrice I s a)"
    and nonneg: "amounts_nonneg I s orders"
    and bid: "x \<in> set orders" "GetSide I s x = BID" "0 < GetAmount I s x"
    and ask: "y \<in> set orders" "GetSide I s y = ASK" "0 < GetAmount I s y"
    and crossed: "GetPrice I s y \<le> GetPrice I s x"
    and best_bid: "\<And>a. a \<in> set orders \<Longrightarrow> GetSide I s a = BID \<Longrightarrow> GetPrice I s a \<le> GetPrice I s x"
    and best_ask: "\<And>a. a \<in> set orders \<Longrightarrow> GetSide I s a = ASK \<Longrightarrow> GetPrice I s y \<le> GetPrice I s a"
  shows "\<exists>p. GetExecutionPrice G I s high mid low orders = Ok p \<and> GetPrice I s y \<le> p \<and> p \<le> GetPrice I s x"
proof -
  have "orders \<noteq> []" using bid(1) by auto
  from GetExecutionPrice_max_volume [OF assms(1-3) this]
  obtain p where p: "GetExecutionPrice G I s high mid low orders = Ok p"
    and max: "volume_at I s orders (GetPrice I s y) \<le> volume_at I s orders p" by metis
  have "GetAmount I s x \<le> demand_at I s orders (GetPrice I s y)"
    unfolding demand_at_def using nonneg bid crossed
    by (intro sum_list_if_ge) (auto simp: amounts_nonneg_def)
  moreover have "GetAmount I s y \<le> supply_at I s orders (GetPrice I s y)"
    unfolding supply_at_def using nonneg ask
    by (intro sum_list_if_ge) (auto simp: amounts_nonneg_def)
  ultimately have "0 < volume_at I s orders p"
    using max bid(3) ask(3) unfolding volume_at_def by linarith
  then have "0 < demand_at I s orders p" "0 < supply_at I s orders p"
    by (simp_all add: volume_at_def)
  then have "\<exists>a \<in> set orders. GetSide I s a = BID \<and> p \<le> GetPrice I s a"
    "\<exists>a \<in> set orders. GetSide I s a = ASK \<and> GetPrice I s a \<le> p"
    unfolding demand_at_def supply_at_def by (auto dest: sum_list_if_pos)
  with p best_bid best_ask show ?thesis by (meson order_trans)
qed

end
