(* ===== verification/MatchExec.thy ===== *)
theory MatchExec
  imports MatchPrice
begin

section \<open>Execution of a crossed book\<close>

text \<open>
  The interface \<open>OrderForTrade\<close> as a locale: what the engine relies on is that \<open>Deal\<close>, called with
  the smaller of the two amounts and a price both sides accept, takes that amount off both orders
  and touches nothing else the engine looks at. From it: \<open>Match\<close> comes to an end, leaves a book
  that is not crossed, trades the same amount on both sides, and serves orders in their
  precedence.
\<close>

definition accepts :: "'s order_iface \<Rightarrow> 's \<Rightarrow> dec \<Rightarrow> nat \<Rightarrow> bool" where
  "accepts I s p a =
     ((GetSide I s a = BID \<longrightarrow> p \<le> GetPrice I s a) \<and> (GetSide I s a = ASK \<longrightarrow> GetPrice I s a \<le> p))"

definition same_static :: "'s order_iface \<Rightarrow> nat set \<Rightarrow> 's \<Rightarrow> 's \<Rightarrow> bool" where
  "same_static I Os s s' \<longleftrightarrow> (\<forall>a \<in> Os. GetPrice I s' a = GetPrice I s a \<and>
     GetHeight I s' a = GetHeight I s a \<and> GetHash I s' a = GetHash I s a \<and>
     GetSide I s' a = GetSide I s a)"

definition ahead :: "'s order_iface \<Rightarrow> 's \<Rightarrow> nat \<Rightarrow> nat \<Rightarrow> bool" where
  "ahead I s a b =
     (if GetSide I s a = BID then GetPrice I s b \<le> GetPrice I s a else GetPrice I s a \<le> GetPrice I s b)"

definition amount_sum :: "'s order_iface \<Rightarrow> 's \<Rightarrow> nat list \<Rightarrow> int" where
  "amount_sum I s xs = sum_list (map (GetAmount I s) xs)"

text \<open>Orders leave a list from its head when they are filled; only its new head may be filled in part.\<close>

definition used_up :: "'s order_iface \<Rightarrow> 's \<Rightarrow> nat list \<Rightarrow> 's \<Rightarrow> nat list \<Rightarrow> bool" where
  "used_up I s xs s' xs' \<longleftrightarrow> (\<exists>i. xs' = drop i xs \<and>
     (\<forall>x \<in> set (take i xs). GetAmount I s' x = 0) \<and>
     (\<forall>x \<in> set (tl xs'). GetAmount I s' x = GetAmount I s x))"

text \<open>
  The outcome of \<open>Match\<close>: amounts only shrink, and by the same total on both sides; the lists
  that are left hold the orders with something left, and no bid of them reaches an ask; an order
  trades only if every order that precedes it on its side has been filled.
\<close>

definition match_outcome ::
    "'s order_iface \<Rightarrow> nat set \<Rightarrow> 's \<Rightarrow> nat list \<Rightarrow> nat list \<Rightarrow> 's \<Rightarrow> nat list \<Rightarrow> nat list \<Rightarrow> bool" where
  "match_outcome I Os s bl al s' bl' al' \<longleftrightarrow>
     same_static I Os s s' \<and>
     (\<forall>c \<in> Os. 0 \<le> GetAmount I s' c \<and> GetAmount I s' c \<le> GetAmount I s c) \<and>
     (\<forall>c \<in> Os - set (bl @ al). GetAmount I s' c = GetAmount I s c) \<and>
     set bl' = {b \<in> set bl. 0 < GetAmount I s' b} \<and>
     set al' = {a \<in> set al. 0 < GetAmount I s' a} \<and>
     (\<forall>b \<in> set bl'. \<forall>a \<in> set al'. GetPrice I s b < GetPrice I s a) \<and>
     amount_sum I s bl - amount_sum I s' bl = amount_sum I s al - amount_sum I s' al \<and>
     (\<forall>xs \<in> {bl, al}. \<forall>x \<in> set xs. \<forall>y \<in> set xs.
        precede I s x y \<longrightarrow> GetAmount I s' y < GetAmount I s y \<longrightarrow> GetAmount I s' x = 0)"

lemma in_set_tlD: "x \<in> set (tl xs) \<Longrightarrow> x \<in> set xs"
  by (cases xs) auto

locale order_for_trade =
  fixes I :: "'s order_iface"
    and inv :: "nat set \<Rightarrow> 's \<Rightarrow> bool"
  assumes amount_nonneg: "inv Os s \<Longrightarrow> a \<in> Os \<Longrightarrow> 0 \<le> GetAmount I s a"
    and fits: "inv Os s \<Longrightarrow> a \<in> Os \<Longrightarrow> price_fits (GetPrice I s a)"
    and deal: "inv Os s \<Longrightarrow> a \<in> Os \<Longrightarrow> b \<in> Os \<Longrightarrow>
      GetSide I s a \<in> {BID, ASK} \<Longrightarrow> GetSide I s b = 3 - GetSide I s a \<Longrightarrow>
      accepts I s p a \<Longrightarrow> accepts I s p b \<Longrightarrow>
      amt = min (GetAmount I s a) (GetAmount I s b) \<Longrightarrow> 0 < amt \<Longrightarrow>
      Deal I a b amt p s = (r, s') \<Longrightarrow> r \<noteq> Panic \<Longrightarrow>
      r = Ok () \<and> inv Os s' \<and> same_static I Os s s' \<and>
      (\<forall>c \<in> Os. GetAmount I s' c = GetAmount I s c - (if c = a \<or> c = b then amt else 0))"
begin

definition book :: "nat \<Rightarrow> nat set \<Rightarrow> 's \<Rightarrow> nat list \<Rightarrow> nat list \<Rightarrow> bool" where
  "book d Os s xs ys \<longleftrightarrow> d \<in> {BID, ASK} \<and> inv Os s \<and> distinct (xs @ ys) \<and> set (xs @ ys) \<subseteq> Os \<and>
     (\<forall>x \<in> set xs. GetSide I s x = d) \<and> (\<forall>y \<in> set ys. GetSide I s y = 3 - d) \<and>
     (\<forall>x \<in> set (xs @ ys). 0 < GetAmount I s x) \<and>
     sorted_wrt (ahead I s) xs \<and> sorted_wrt (ahead I s) ys"

definition traded :: "nat \<Rightarrow> nat set \<Rightarrow> 's \<Rightarrow> nat list \<Rightarrow> nat list \<Rightarrow> 's \<Rightarrow> nat list \<Rightarrow> nat list \<Rightarrow> bool" where
  "traded d Os s xs ys s' xs' ys' \<longleftrightarrow> book d Os s' xs' ys' \<and> same_static I Os s s' \<and>
     (\<forall>c \<in> Os. GetAmount I s' c \<le> GetAmount I s c) \<and>
     (\<forall>c \<in> Os - set (xs @ ys). GetAmount I s' c = GetAmount I s c) \<and>
     used_up I s xs s' xs' \<and> used_up I s ys s' ys' \<and>
     amount_sum I s xs - amount_sum I s' xs' = amount_sum I s ys - amount_sum I s' ys'"

lemma book_swap: "book d Os s xs ys \<Longrightarrow> book (3 - d) Os s ys xs"
  by (auto simp: book_def)

lemma traded_swap: "traded d Os s xs ys s' xs' ys' \<Longrightarrow> traded (3 - d) Os s ys xs s' ys' xs'"
  by (auto simp: traded_def book_swap Un_commute)

lemma same_static_refl: "same_static I Os s s"
  by (simp add: same_static_def)

lemma same_static_trans: "same_static I Os s s' \<Longrightarrow> same_static I Os s' s'' \<Longrightarrow> same_static I Os s s''"
  by (simp add: same_static_def)

lemma accepts_static: "same_static I Os s s' \<Longrightarrow> a \<in> Os \<Longrightarrow> accepts I s' p a = accepts I s p a"
  by (simp add: same_static_def accepts_def)

lemma ahead_static:
  "same_static I Os s s' \<Longrightarrow> set xs \<subseteq> Os \<Longrightarrow> sorted_wrt (ahead I s') xs = sorted_wrt (ahead I s) xs"
  by (induction xs) (simp_all add: same_static_def ahead_def subset_iff)

lemma traded_refl: "book d Os s xs ys \<Longrightarrow> traded d Os s xs ys s xs ys"
  unfolding traded_def used_up_def by (auto simp: same_static_refl intro!: exI [of _ 0])

lemma used_up_trans:
  assumes "used_up I s xs s' xs'" and "used_up I s' xs' s'' xs''"
    and "\<And>x. x \<in> set xs \<Longrightarrow> 0 \<le> GetAmount I s'' x \<and> GetAmount I s'' x \<le> GetAmount I s' x"
  shows "used_up I s xs s'' xs''"
proof -
  obtain i where i: "xs' = drop i xs" "\<forall>x \<in> set (take i xs). GetAmount I s' x = 0"
    "\<forall>x \<in> set (tl xs'). GetAmount I s' x = GetAmount I s x"
    using assms(1) unfolding used_up_def by blast
  obtain j where j: "xs'' = drop j xs'" "\<forall>x \<in> set (take j xs'). GetAmount I s'' x = 0"
    "\<forall>x \<in> set (tl xs''). GetAmount I s'' x = GetAmount I s' x"
    using assms(2) unfolding used_up_def by blast
  have "GetAmount I s'' x = 0" if "x \<in> set (take i xs)" for x
    using i(2) that assms(3) [of x] in_set_takeD [OF that] by fastforce
  then have zero: "\<forall>x \<in> set (take (i + j) xs). GetAmount I s'' x = 0"
    using j(2) i(1) by (auto simp: take_add)
  have "set (tl xs'') \<subseteq> set (tl xs')"
    unfolding j(1) by (metis drop_Suc set_drop_subset tl_drop)
  then have "\<forall>x \<in> set (tl xs''). GetAmount I s'' x = GetAmount I s x"
    using i(3) j(3) by auto
  with zero i(1) j(1) show ?thesis
    unfolding used_up_def by (intro exI [of _ "i + j"]) (simp add: add.commute)
qed

lemma traded_trans:
  assumes t1: "traded d Os s xs ys s' xs' ys'" and t2: "traded d Os s' xs' ys' s'' xs'' ys''"
    and sub: "set (xs @ ys) \<subseteq> Os"
  shows "traded d Os s xs ys s'' xs'' ys''"
proof -
  have inv'': "inv Os s''" using t2 by (simp add: traded_def book_def)
  have le: "0 \<le> GetAmount I s'' x \<and> GetAmount I s'' x \<le> GetAmount I s' x" if "x \<in> Os" for x
    using t2 amount_nonneg [OF inv'' that] that by (simp add: traded_def)
  have sub': "set xs' \<subseteq> set xs" "set ys' \<subseteq> set ys"
    using t1 by (auto simp: traded_def used_up_def dest: in_set_dropD)
  have "used_up I s xs s'' xs''" "used_up I s ys s'' ys''"
    using t1 t2 le sub by (auto simp: traded_def intro: used_up_trans [of s _ s'])
  moreover have "GetAmount I s'' c = GetAmount I s c" if "c \<in> Os - set (xs @ ys)" for c
  proof -
    have "c \<in> Os - set (xs' @ ys')" using that sub' by auto
    with that t1 t2 have "GetAmount I s'' c = GetAmount I s' c" "GetAmount I s' c = GetAmount I s c"
      by (simp_all add: traded_def)
    then show ?thesis by simp
  qed
  moreover have "GetAmount I s'' c \<le> GetAmount I s c" if "c \<in> Os" for c
    using t1 t2 that by (fastforce simp: traded_def)
  moreover have "same_static I Os s s''"
    using t1 t2 same_static_trans by (auto simp: traded_def)
  ultimately show ?thesis using t1 t2 by (simp add: traded_def)
qed

subsection \<open>\<open>ExecuteOrder\<close>\<close>

lemma ExecuteOrder_loop_spec:
  assumes "inv Os s" and "cur \<in> Os" and "set xs \<subseteq> Os" and "distinct (cur # xs)"
    and "GetSide I s cur \<in> {BID, ASK}" and "\<forall>x \<in> set xs. GetSide I s x = 3 - GetSide I s cur"
    and "accepts I s p cur" and "0 < GetAmount I s cur" and "\<forall>x \<in> set xs. 0 < GetAmount I s x"
    and "ExecuteOrder_loop I p cur xs k s = (r, s')" and "r \<noteq> Panic"
  shows "\<exists>j. r = Ok (k + j) \<and> inv Os s' \<and> same_static I Os s s' \<and>
    (\<forall>c \<in> Os - insert cur (set xs). GetAmount I s' c = GetAmount I s c) \<and>
    (\<forall>x \<in> set (take j xs). GetAmount I s' x = 0) \<and>
    (\<forall>x \<in> set (drop j xs). 0 < GetAmount I s' x \<and> GetAmount I s' x \<le> GetAmount I s x) \<and>
    (\<forall>x \<in> set (tl (drop j xs)). GetAmount I s' x = GetAmount I s x) \<and>
    GetAmount I s' cur \<le> GetAmount I s cur \<and>
    GetAmount I s cur - GetAmount I s' cur = amount_sum I s xs - amount_sum I s' (drop j xs) \<and>
    (xs \<noteq> [] \<and> accepts I s p (hd xs) \<longrightarrow> GetAmount I s' cur < GetAmount I s cur)"
  using assms
proof (induction xs arbitrary: k s)
  case Nil
  then show ?case by (auto simp: same_static_refl amount_sum_def)
next
  case (Cons y ys)
  have side: "GetSide I s y = 3 - GetSide I s cur" using Cons.prems(6) by simp
  show ?case
  proof (cases "accepts I s p y")
    case False
    then have stop: "(if GetSide I s y = BUY then GetPrice I s y < p else GetPrice I s y > p)"
      using Cons.prems(5) side by (auto simp: accepts_def)
    then have "r = Ok k" "s' = s"
      using Cons.prems(10) by (auto split: if_splits)
    with Cons.prems False show ?thesis
      by (intro exI [of _ 0]) (auto simp: same_static_refl)
  next
    case True
    then have go: "\<not> (if GetSide I s y = BUY then GetPrice I s y < p else GetPrice I s y > p)"
      using Cons.prems(5) side by (auto simp: accepts_def)
    define amt where "amt = min (GetAmount I s cur) (GetAmount I s y)"
    have amt: "(if GetAmount I s cur < GetAmount I s y then GetAmount I s cur else GetAmount I s y) = amt"
      by (auto simp: amt_def)
    have pos: "0 < amt" using Cons.prems(8,9) by (simp add: amt_def)
    obtain r1 s1 where d: "Deal I cur y amt p s = (r1, s1)" by (cases "Deal I cur y amt p s")
    have "r1 \<noteq> Panic"
      using Cons.prems(10,11) go d amt by (auto simp: and_then_def Let_def split: if_splits)
    from deal [OF Cons.prems(1,2) _ Cons.prems(5) side Cons.prems(7) True amt_def pos d this] Cons.prems(3)
    have r1: "r1 = Ok ()" and inv1: "inv Os s1" and st1: "same_static I Os s s1"
      and am1: "\<forall>c \<in> Os. GetAmount I s1 c = GetAmount I s c - (if c = cur \<or> c = y then amt else 0)"
      by auto
    define k1 where "k1 = (if GetAmount I s1 y = 0 then k + 1 else k)"
    have ne: "cur \<noteq> y" "y \<notin> set ys" "cur \<notin> set ys" using Cons.prems(4) by auto
    have inO: "y \<in> Os" "set ys \<subseteq> Os" using Cons.prems(3) by auto
    have amy: "GetAmount I s1 y = GetAmount I s y - amt" "GetAmount I s1 cur = GetAmount I s cur - amt"
      using am1 inO Cons.prems(2) by simp_all
    have amys: "GetAmount I s1 c = GetAmount I s c" if "c \<in> set ys" for c
      using am1 that inO(2) ne by auto
    have totys: "amount_sum I s1 ys = amount_sum I s ys"
      unfolding amount_sum_def by (rule arg_cong [where f = sum_list], rule map_cong) (auto simp: amys)
    have run: "(if GetAmount I s1 cur = 0 then (Ok k1, s1) else ExecuteOrder_loop I p cur ys k1 s1) = (r, s')"
      using Cons.prems(10) go d amt r1 by (auto simp: and_then_def Let_def k1_def split: if_splits)
    show ?thesis
    proof (cases "GetAmount I s1 cur = 0")
      case True
      with run have "r = Ok k1" "s' = s1" by simp_all
      then show ?thesis
        using inv1 st1 am1 amy amys totys ne Cons.prems(9) pos min.cobounded2 [of "GetAmount I s cur" "GetAmount I s y", folded amt_def]
        by (intro exI [of _ "if GetAmount I s1 y = 0 then 1 else 0"])
          (auto simp: k1_def amount_sum_def dest: in_set_tlD)
    next
      case False
      then have y0: "GetAmount I s1 y = 0" and cur_pos: "0 < GetAmount I s1 cur"
        using amy Cons.prems(8) by (auto simp: amt_def min_def split: if_splits)
      have static: "GetSide I s1 c = GetSide I s c" if "c \<in> Os" for c
        using st1 that by (simp add: same_static_def)
      have "\<exists>j. r = Ok (k1 + j) \<and> inv Os s' \<and> same_static I Os s1 s' \<and>
        (\<forall>c \<in> Os - insert cur (set ys). GetAmount I s' c = GetAmount I s1 c) \<and>
        (\<forall>x \<in> set (take j ys). GetAmount I s' x = 0) \<and>
        (\<forall>x \<in> set (drop j ys). 0 < GetAmount I s' x \<and> GetAmount I s' x \<le> GetAmount I s1 x) \<and>
        (\<forall>x \<in> set (tl (drop j ys)). GetAmount I s' x = GetAmount I s1 x) \<and>
        GetAmount I s' cur \<le> GetAmount I s1 cur \<and>
        GetAmount I s1 cur - GetAmount I s' cur = amount_sum I s1 ys - amount_sum I s' (drop j ys) \<and>
        (ys \<noteq> [] \<and> accepts I s1 p (hd ys) \<longrightarrow> GetAmount I s' cur < GetAmount I s1 cur)"
      proof (rule Cons.IH)
        show "\<forall>x \<in> set ys. GetSide I s1 x = 3 - GetSide I s1 cur"
          using Cons.prems(2,6) static inO(2) by auto
        show "ExecuteOrder_loop I p cur ys k1 s1 = (r, s')" using run False by simp
        show "accepts I s1 p cur" using accepts_static [OF st1 Cons.prems(2)] Cons.prems(7) by simp
        show "\<forall>x \<in> set ys. 0 < GetAmount I s1 x" using amys Cons.prems(9) by auto
      qed (use inv1 Cons.prems(2,4,5,11) inO static cur_pos in auto)
      then obtain j where j: "r = Ok (k1 + j)" "inv Os s'" "same_static I Os s1 s'"
        "\<forall>c \<in> Os - insert cur (set ys). GetAmount I s' c = GetAmount I s1 c"
        "\<forall>x \<in> set (take j ys). GetAmount I s' x = 0"
        "\<forall>x \<in> set (drop j ys). 0 < GetAmount I s' x \<and> GetAmount I s' x \<le> GetAmount I s1 x"
        "\<forall>x \<in> set (tl (drop j ys)). GetAmount I s' x = GetAmount I s1 x"
        "GetAmount I s' cur \<le> GetAmount I s1 cur"
        "GetAmount I s1 cur - GetAmount I s' cur = amount_sum I s1 ys - amount_sum I s' (drop j ys)"
        by auto
      have mem: "x \<in> set ys" if "x \<in> set (drop j ys)" for x using that by (rule in_set_dropD)
      have y': "GetAmount I s' y = 0" using j(4) inO(1) ne y0 by auto
      show ?thesis
      proof (intro exI [of _ "Suc j"] conjI)
        show "r = Ok (k + Suc j)" using j(1) y0 by (simp add: k1_def)
        show "inv Os s'" by (rule j(2))
        show "same_static I Os s s'" using same_static_trans [OF st1 j(3)] .
        show "\<forall>c \<in> Os - insert cur (set (y # ys)). GetAmount I s' c = GetAmount I s c"
          using j(4) am1 by auto
        show "\<forall>x \<in> set (take (Suc j) (y # ys)). GetAmount I s' x = 0" using j(5) y' by simp
        show "\<forall>x \<in> set (drop (Suc j) (y # ys)). 0 < GetAmount I s' x \<and> GetAmount I s' x \<le> GetAmount I s x"
          using j(6) amys mem by simp
        show "\<forall>x \<in> set (tl (drop (Suc j) (y # ys))). GetAmount I s' x = GetAmount I s x"
          using j(7) amys mem by (auto dest: in_set_tlD)
        show "GetAmount I s' cur \<le> GetAmount I s cur" using j(8) amy pos by simp
        show "GetAmount I s cur - GetAmount I s' cur = amount_sum I s (y # ys) - amount_sum I s' (drop (Suc j) (y # ys))"
          using j(9) amy y0 totys by (simp add: amount_sum_def)
        show "y # ys \<noteq> [] \<and> accepts I s p (hd (y # ys)) \<longrightarrow> GetAmount I s' cur < GetAmount I s cur"
          using j(8) amy pos by simp
      qed
    qed
  qed
qed

text \<open>One order against the other side's list, both lists cut to what is left.\<close>

lemma ExecuteOrder_spec:
  assumes b: "book d Os s (x # xs) ys" and acc: "accepts I s p x"
    and run: "ExecuteOrder I p x ys s = (r, s')" and np: "r \<noteq> Panic"
  shows "\<exists>ys'. r = Ok ys' \<and> traded d Os s (x # xs) ys s' (drop_filled I s' (x # xs)) ys' \<and>
    (ys \<noteq> [] \<and> accepts I s p (hd ys) \<longrightarrow>
      amount_sum I s' (drop_filled I s' (x # xs)) < amount_sum I s (x # xs))"
proof -
  obtain r1 where loop: "ExecuteOrder_loop I p x ys 0 s = (r1, s')" and r1: "r1 \<noteq> Panic"
    and r: "\<And>k. r1 = Ok k \<Longrightarrow> r = Ok (drop k ys)"
    using run np
    by (cases "ExecuteOrder_loop I p x ys 0 s")
      (auto simp: ExecuteOrder_def and_then_def return_def split: ret.splits)
  have sub: "set ys \<subseteq> Os" "x \<in> Os" "set xs \<subseteq> Os" and dist: "distinct (x # ys)"
    and ne: "x \<notin> set xs" "set xs \<inter> set ys = {}"
    using b by (auto simp: book_def)
  have sides: "GetSide I s x \<in> {BID, ASK}" "\<forall>y \<in> set ys. GetSide I s y = 3 - GetSide I s x"
    and pos: "0 < GetAmount I s x" "\<forall>y \<in> set ys. 0 < GetAmount I s y" and inv: "inv Os s"
    using b by (auto simp: book_def)
  obtain j where j: "r1 = Ok j" "inv Os s'" "same_static I Os s s'"
    "\<forall>c \<in> Os - insert x (set ys). GetAmount I s' c = GetAmount I s c"
    "\<forall>y \<in> set (take j ys). GetAmount I s' y = 0"
    "\<forall>y \<in> set (drop j ys). 0 < GetAmount I s' y \<and> GetAmount I s' y \<le> GetAmount I s y"
    "\<forall>y \<in> set (tl (drop j ys)). GetAmount I s' y = GetAmount I s y"
    "GetAmount I s' x \<le> GetAmount I s x"
    "GetAmount I s x - GetAmount I s' x = amount_sum I s ys - amount_sum I s' (drop j ys)"
    "ys \<noteq> [] \<and> accepts I s p (hd ys) \<longrightarrow> GetAmount I s' x < GetAmount I s x"
    using ExecuteOrder_loop_spec [OF inv sub(2,1) dist sides acc pos loop r1] by auto
  define xs' where "xs' = drop_filled I s' (x # xs)"
  have xs': "xs' = (if GetAmount I s' x = 0 then xs else x # xs)"
    by (simp add: xs'_def drop_filled_def)
  have amxs: "GetAmount I s' c = GetAmount I s c" if "c \<in> set xs" for c
    using j(4) that sub(3) ne by auto
  have x0: "0 \<le> GetAmount I s' x" using amount_nonneg [OF j(2) sub(2)] .
  have static: "GetSide I s' c = GetSide I s c" if "c \<in> Os" for c
    using j(3) that by (simp add: same_static_def)
  have memj: "y \<in> set ys" if "y \<in> set (drop j ys)" for y using that by (rule in_set_dropD)
  have "book d Os s' xs' (drop j ys)"
    unfolding book_def
  proof (intro conjI)
    show "d \<in> {BID, ASK}" using b by (simp add: book_def)
    show "inv Os s'" by (rule j(2))
    show "distinct (xs' @ drop j ys)" using b memj by (auto simp: book_def xs')
    show "set (xs' @ drop j ys) \<subseteq> Os" using sub memj by (auto simp: xs')
    show "\<forall>c \<in> set xs'. GetSide I s' c = d" using b static sub by (auto simp: book_def xs')
    have "GetSide I s' c = 3 - d" if "c \<in> set ys" for c
    proof -
      have "GetSide I s c = 3 - d" using b that by (simp add: book_def)
      with static [of c] that sub(1) show ?thesis by auto
    qed
    with memj show "\<forall>c \<in> set (drop j ys). GetSide I s' c = 3 - d" by blast
    show "\<forall>c \<in> set (xs' @ drop j ys). 0 < GetAmount I s' c"
      using b amxs x0 j(6) by (auto simp: book_def xs')
    have "sorted_wrt (ahead I s) xs'" "sorted_wrt (ahead I s) (drop j ys)"
      using b by (auto simp: book_def xs' sorted_wrt_drop)
    moreover have "set xs' \<subseteq> Os" "set (drop j ys) \<subseteq> Os" using sub memj by (auto simp: xs')
    ultimately show "sorted_wrt (ahead I s') xs'" "sorted_wrt (ahead I s') (drop j ys)"
      using ahead_static [OF j(3)] by simp_all
  qed
  moreover have "GetAmount I s' c \<le> GetAmount I s c" if "c \<in> Os" for c
  proof (cases "c \<in> set ys")
    case True
    then have "c \<in> set (take j ys) \<or> c \<in> set (drop j ys)"
      by (metis Un_iff append_take_drop_id set_append)
    then show ?thesis using j(5,6) pos(2) True by fastforce
  next
    case False
    with j(4,8) that show ?thesis by (cases "c = x") auto
  qed
  moreover have "\<forall>c \<in> Os - set ((x # xs) @ ys). GetAmount I s' c = GetAmount I s c"
    using j(4) by auto
  moreover have "used_up I s (x # xs) s' xs'"
    unfolding used_up_def using amxs
    by (intro exI [of _ "if GetAmount I s' x = 0 then 1 else 0"]) (auto simp: xs' dest: in_set_tlD)
  moreover have "used_up I s ys s' (drop j ys)"
    unfolding used_up_def using j(5,7) by blast
  moreover have sums: "amount_sum I s (x # xs) - amount_sum I s' xs' = GetAmount I s x - GetAmount I s' x"
  proof -
    have "amount_sum I s' xs = amount_sum I s xs"
      unfolding amount_sum_def by (rule arg_cong [where f = sum_list], rule map_cong) (auto simp: amxs)
    then show ?thesis by (simp add: xs' amount_sum_def)
  qed
  ultimately have "traded d Os s (x # xs) ys s' xs' (drop j ys)"
    using j(3,9) by (simp add: traded_def)
  moreover have "ys \<noteq> [] \<and> accepts I s p (hd ys) \<longrightarrow> amount_sum I s' xs' < amount_sum I s (x # xs)"
    using j(10) sums by auto
  ultimately show ?thesis using r [OF j(1)] by (auto simp: xs'_def)
qed

subsection \<open>\<open>ExecuteOrderList\<close>\<close>

lemma exec_go:
  assumes "book BID Os s bl al" and "\<not> exec_stop I p bl al s"
  shows "bl \<noteq> []" "al \<noteq> []" "accepts I s p (hd bl)" "accepts I s p (hd al)"
proof -
  show ne: "bl \<noteq> []" "al \<noteq> []" using assms(2) by (auto simp: exec_stop_def)
  have "hd bl \<in> set bl" "hd al \<in> set al" using ne by simp_all
  then have "GetSide I s (hd bl) = BID" "GetSide I s (hd al) = ASK"
    using assms(1) by (auto simp: book_def)
  then show "accepts I s p (hd bl)" "accepts I s p (hd al)"
    using assms(2) by (auto simp: exec_stop_def accepts_def)
qed

lemma amount_sum_nonneg: "book d Os s xs ys \<Longrightarrow> 0 \<le> amount_sum I s xs"
  unfolding amount_sum_def by (intro sum_list_nonneg) (auto simp: book_def less_imp_le)

lemma ExecuteOrderList_body_spec:
  assumes b: "book BID Os s bl al" and run: "ExecuteOrderList_body I p bl al s = (r, s')"
    and np: "r \<noteq> Panic"
  shows "\<exists>bl' al'. traded BID Os s bl al s' bl' al' \<and>
    (\<not> exec_stop I p bl al s \<longrightarrow> amount_sum I s' bl' < amount_sum I s bl) \<and>
    (r = Ok (Inl (bl', al')) \<and> exec_stop I p bl' al' s' \<or>
     r = Ok (Inr (bl', al')) \<and> \<not> exec_stop I p bl al s)"
proof (cases "exec_stop I p bl al s")
  case True
  then show ?thesis using run traded_refl [OF b] by (auto simp: ExecuteOrderList_body_def)
next
  case False
  note go = exec_go [OF b False]
  have bl: "bl = hd bl # tl bl" using go(1) by simp
  obtain r1 s1 where e1: "ExecuteOrder I p (hd bl) al s = (r1, s1)" by (cases "ExecuteOrder I p (hd bl) al s")
  have r1: "r1 \<noteq> Panic" using run np False e1 by (auto simp: ExecuteOrderList_body_def and_then_def)
  obtain al1 where al1: "r1 = Ok al1"
    "traded BID Os s bl al s1 (drop_filled I s1 bl) al1"
    "amount_sum I s1 (drop_filled I s1 bl) < amount_sum I s bl"
    using ExecuteOrder_spec [OF _ go(3) e1 r1, of BID Os "tl bl"] b bl go by auto
  define bl1 where "bl1 = drop_filled I s1 bl"
  have b1: "book BID Os s1 bl1 al1" using al1(2) by (simp add: traded_def bl1_def)
  have sub: "set (bl @ al) \<subseteq> Os" using b by (simp add: book_def)
  show ?thesis
  proof (cases "exec_stop I p bl1 al1 s1")
    case True
    then have "r = Ok (Inl (bl1, al1))" "s' = s1"
      using run False e1 al1(1) by (auto simp: ExecuteOrderList_body_def and_then_def bl1_def Let_def)
    with True al1 show ?thesis by (auto simp: bl1_def)
  next
    case False2: False
    note go1 = exec_go [OF b1 False2]
    have hdtl: "al1 = hd al1 # tl al1" using go1(2) by simp
    obtain r2 s2 where e2: "ExecuteOrder I p (hd al1) bl1 s1 = (r2, s2)"
      by (cases "ExecuteOrder I p (hd al1) bl1 s1")
    have step: "(r, s') = and_then (ExecuteOrder I p (hd al1) bl1)
        (\<lambda>bidList s. (Ok (Inr (bidList, drop_filled I s al1)), s)) s1"
      using run False False2 e1 al1(1) by (simp add: ExecuteOrderList_body_def and_then_def bl1_def Let_def)
    then have r2: "r2 \<noteq> Panic" using e2 np by (auto simp: and_then_def)
    obtain bl2 where bl2: "r2 = Ok bl2"
      "traded ASK Os s1 al1 bl1 s2 (drop_filled I s2 al1) bl2"
      using ExecuteOrder_spec [OF _ go1(4) e2 r2, of ASK Os "tl al1"] book_swap [OF b1] hdtl go1 by auto
    have t2: "traded BID Os s1 bl1 al1 s2 bl2 (drop_filled I s2 al1)"
      using traded_swap [OF bl2(2)] by simp
    have r: "r = Ok (Inr (bl2, drop_filled I s2 al1))" "s' = s2"
      using step e2 bl2(1) by (simp_all add: and_then_def)
    have t: "traded BID Os s bl al s2 bl2 (drop_filled I s2 al1)"
      using traded_trans [OF al1(2) _ sub] t2 by (simp add: bl1_def)
    have "amount_sum I s2 bl2 \<le> amount_sum I s1 bl1"
    proof -
      have "used_up I s1 bl1 s2 bl2" using t2 by (simp add: traded_def)
      then obtain i where i: "bl2 = drop i bl1" by (auto simp: used_up_def)
      have "amount_sum I s2 bl2 \<le> amount_sum I s1 bl2"
        unfolding amount_sum_def using t2 b1
        by (intro sum_list_mono) (auto simp: traded_def book_def subset_iff)
      moreover have "0 \<le> amount_sum I s1 (take i bl1)"
        unfolding amount_sum_def using b1
        by (intro sum_list_nonneg) (auto simp: book_def less_imp_le dest: in_set_takeD)
      moreover have "amount_sum I s1 bl1 = amount_sum I s1 (take i bl1) + amount_sum I s1 bl2"
        unfolding amount_sum_def i by (metis append_take_drop_id map_append sum_list_append)
      ultimately show ?thesis by simp
    qed
    with t r False al1(3) show ?thesis by (auto simp: bl1_def)
  qed
qed

lemma ExecuteOrderList_spec:
  assumes "book BID Os s bl al"
  shows "\<exists>r s'. ExecuteOrderList I p bl al s = Some (r, s') \<and>
    (r = Panic \<or> (\<exists>bl' al'. r = Ok (bl', al') \<and> traded BID Os s bl al s' bl' al' \<and>
      exec_stop I p bl' al' s' \<and>
      (\<not> exec_stop I p bl al s \<longrightarrow> amount_sum I s' bl' < amount_sum I s bl)))"
  using assms
proof (induction "nat (amount_sum I s bl)" arbitrary: s bl al rule: less_induct)
  case less
  note b = less.prems
  obtain r1 s1 where e: "ExecuteOrderList_body I p bl al s = (r1, s1)"
    by (cases "ExecuteOrderList_body I p bl al s")
  show ?case
  proof (cases "r1 = Panic")
    case True
    with e show ?thesis by (subst ExecuteOrderList.simps) simp
  next
    case False
    obtain bl1 al1 where t: "traded BID Os s bl al s1 bl1 al1"
      and dec: "\<not> exec_stop I p bl al s \<longrightarrow> amount_sum I s1 bl1 < amount_sum I s bl"
      and r1: "r1 = Ok (Inl (bl1, al1)) \<and> exec_stop I p bl1 al1 s1 \<or>
        r1 = Ok (Inr (bl1, al1)) \<and> \<not> exec_stop I p bl al s"
      using ExecuteOrderList_body_spec [OF b e False] by blast
    have sub: "set (bl @ al) \<subseteq> Os" using b by (simp add: book_def)
    from r1 show ?thesis
    proof
      assume "r1 = Ok (Inl (bl1, al1)) \<and> exec_stop I p bl1 al1 s1"
      with e t dec show ?thesis by (subst ExecuteOrderList.simps) auto
    next
      assume inr: "r1 = Ok (Inr (bl1, al1)) \<and> \<not> exec_stop I p bl al s"
      have b1: "book BID Os s1 bl1 al1" using t by (simp add: traded_def)
      have "nat (amount_sum I s1 bl1) < nat (amount_sum I s bl)"
        using dec inr amount_sum_nonneg [OF b1] by simp
      from less.hyps [OF this b1]
      obtain r s' where rec: "ExecuteOrderList I p bl1 al1 s1 = Some (r, s')"
        and res: "r = Panic \<or> (\<exists>bl' al'. r = Ok (bl', al') \<and> traded BID Os s1 bl1 al1 s' bl' al' \<and>
          exec_stop I p bl' al' s' \<and>
          (\<not> exec_stop I p bl1 al1 s1 \<longrightarrow> amount_sum I s' bl' < amount_sum I s1 bl1))" by blast
      have eq: "ExecuteOrderList I p bl al s = Some (r, s')"
        using e inr rec by (subst ExecuteOrderList.simps) simp
      show ?thesis
      proof (cases "r = Panic")
        case True
        with eq show ?thesis by simp
      next
        case False
        with res obtain bl' al' where fin: "r = Ok (bl', al')" "traded BID Os s1 bl1 al1 s' bl' al'"
          "exec_stop I p bl' al' s'" by blast
        have t': "traded BID Os s bl al s' bl' al'" by (rule traded_trans [OF t fin(2) sub])
        have "amount_sum I s' bl' \<le> amount_sum I s1 bl1"
        proof (cases "exec_stop I p bl1 al1 s1")
          case True
          then have "ExecuteOrderList I p bl1 al1 s1 = Some (Ok (bl1, al1), s1)"
            by (subst ExecuteOrderList.simps) (simp add: ExecuteOrderList_body_def)
          with rec fin(1) show ?thesis by simp
        next
          case False
          with res fin(1) show ?thesis by auto
        qed
        with t' fin eq dec inr show ?thesis by auto
      qed
    qed
  qed
qed

subsection \<open>\<open>Match\<close>\<close>

lemma best_hd: "sorted_wrt (ahead I s) xs \<Longrightarrow> x \<in> set xs \<Longrightarrow> x = hd xs \<or> ahead I s (hd xs) x"
  by (cases xs) auto

lemma crossed_go:
  assumes b: "book BID Os s bl al" and G: "sorts_ok G" and ne: "bl \<noteq> []" "al \<noteq> []"
    and crossed: "GetPrice I s (hd al) \<le> GetPrice I s (hd bl)"
  shows "\<exists>p. GetExecutionPrice G I s high mid low (bl @ al) = Ok p \<and> \<not> exec_stop I p bl al s"
proof -
  have hd: "hd bl \<in> set bl" "hd al \<in> set al" using ne by simp_all
  have side: "\<And>a. a \<in> set bl \<Longrightarrow> GetSide I s a = BID" "\<And>a. a \<in> set al \<Longrightarrow> GetSide I s a = ASK"
    and pos: "\<And>a. a \<in> set (bl @ al) \<Longrightarrow> 0 < GetAmount I s a" and inv: "inv Os s"
    and sub: "set (bl @ al) \<subseteq> Os"
    and sorted: "sorted_wrt (ahead I s) bl" "sorted_wrt (ahead I s) al"
    using b by (auto simp: book_def)
  have "\<exists>p. GetExecutionPrice G I s high mid low (bl @ al) = Ok p \<and>
      GetPrice I s (hd al) \<le> p \<and> p \<le> GetPrice I s (hd bl)"
  proof (rule GetExecutionPrice_in_spread [OF G])
    show "\<forall>a \<in> set (bl @ al). price_fits (GetPrice I s a)" using fits [OF inv] sub by blast
    show "amounts_nonneg I s (bl @ al)" using pos unfolding amounts_nonneg_def by (meson less_imp_le)
    show "hd bl \<in> set (bl @ al)" "hd al \<in> set (bl @ al)" using hd by simp_all
    show "GetSide I s (hd bl) = BID" "GetSide I s (hd al) = ASK" using side hd by simp_all
    show "0 < GetAmount I s (hd bl)" "0 < GetAmount I s (hd al)" using pos hd by simp_all
    show "GetPrice I s a \<le> GetPrice I s (hd bl)" if "a \<in> set (bl @ al)" "GetSide I s a = BID" for a
    proof -
      have "a \<in> set bl" using that side(2) by fastforce
      with best_hd [OF sorted(1)] side(1) hd(1) show ?thesis by (fastforce simp: ahead_def)
    qed
    show "GetPrice I s (hd al) \<le> GetPrice I s a" if "a \<in> set (bl @ al)" "GetSide I s a = ASK" for a
    proof -
      have "a \<in> set al" using that side(1) by fastforce
      with best_hd [OF sorted(2)] side(2) hd(2) show ?thesis by (fastforce simp: ahead_def)
    qed
  qed (rule crossed)
  then show ?thesis using ne by (fastforce simp: exec_stop_def)
qed

lemma Match_loop_spec:
  assumes "book BID Os s bl al" and G: "sorts_ok G"
  shows "\<exists>r s'. Match_loop G I high mid low bl al s = Some (r, s') \<and>
    (r = Panic \<or> (\<exists>bl' al'. r = Ok (bl', al') \<and> traded BID Os s bl al s' bl' al' \<and>
      (bl' = [] \<or> al' = [] \<or> GetPrice I s' (hd bl') < GetPrice I s' (hd al'))))"
  using assms(1)
proof (induction "nat (amount_sum I s bl)" arbitrary: s bl al rule: less_induct)
  case less
  note b = less.prems
  show ?case
  proof (cases "bl \<noteq> [] \<and> al \<noteq> [] \<and> GetPrice I s (hd al) \<le> GetPrice I s (hd bl)")
    case False
    then show ?thesis using traded_refl [OF b] by (subst Match_loop.simps) (auto simp: not_le)
  next
    case True
    then obtain p where p: "GetExecutionPrice G I s high mid low (bl @ al) = Ok p"
      and go: "\<not> exec_stop I p bl al s"
      using crossed_go [OF b G] by blast
    obtain r1 s1 where e: "ExecuteOrderList I p bl al s = Some (r1, s1)"
      and r1: "r1 = Panic \<or> (\<exists>bl' al'. r1 = Ok (bl', al') \<and> traded BID Os s bl al s1 bl' al' \<and>
        amount_sum I s1 bl' < amount_sum I s bl)"
      using ExecuteOrderList_spec [OF b, of p] go by blast
    have eq: "Match_loop G I high mid low bl al s =
        (case r1 of Ok (bl', al') \<Rightarrow> Match_loop G I high mid low bl' al' s1
         | Err e \<Rightarrow> Some (Err e, s1) | Panic \<Rightarrow> Some (Panic, s1))"
      using True p e by (subst Match_loop.simps) simp
    show ?thesis
    proof (cases "r1 = Panic")
      case True
      with eq show ?thesis by simp
    next
      case False
      with r1 obtain bl1 al1 where r1': "r1 = Ok (bl1, al1)"
        and t: "traded BID Os s bl al s1 bl1 al1" and dec: "amount_sum I s1 bl1 < amount_sum I s bl"
        by blast
      have b1: "book BID Os s1 bl1 al1" using t by (simp add: traded_def)
      have "nat (amount_sum I s1 bl1) < nat (amount_sum I s bl)"
        using dec amount_sum_nonneg [OF b1] by simp
      from less.hyps [OF this b1] eq r1' traded_trans [OF t] b show ?thesis
        by (fastforce simp: book_def)
    qed
  qed
qed

text \<open>From the sorted lists back to the lists given.\<close>

lemma precede_weak:
  assumes "\<forall>x \<in> A. GetSide I s x = d" and "d \<in> {BID, ASK}"
  shows "strict_weak (precede I s) A"
  by (rule strict_weak_key [where f = "\<lambda>x. (if d = BID then - GetPrice I s x else GetPrice I s x,
      GetHeight I s x, GetHash I s x)"])
    (use assms in \<open>auto simp: precede_def\<close>)

lemma sort_orders_facts:
  assumes "sorts_ok G" and "\<forall>x \<in> set xs. GetSide I s x = d" and "d \<in> {BID, ASK}"
  shows "mset (sort_orders G (precede I s) xs) = mset xs"
    and "sorted_wrt (\<lambda>a b. \<not> precede I s b a) (sort_orders G (precede I s) xs)"
    and "sorted_wrt (ahead I s) (sort_orders G (precede I s) xs)"
proof -
  have "slice_sort (sort_orders G)" using assms(1) by (simp add: sorts_ok_def)
  note facts = slice_sortD [OF this precede_weak [OF assms(2,3)]]
  show "mset (sort_orders G (precede I s) xs) = mset xs" by (rule facts(1))
  show sorted: "sorted_wrt (\<lambda>a b. \<not> precede I s b a) (sort_orders G (precede I s) xs)"
    by (rule facts(3))
  show "sorted_wrt (ahead I s) (sort_orders G (precede I s) xs)"
  proof (rule sorted_wrt_mono_rel [OF _ sorted])
    fix a b
    assume "a \<in> set (sort_orders G (precede I s) xs)" "b \<in> set (sort_orders G (precede I s) xs)"
      and "\<not> precede I s b a"
    then show "ahead I s a b"
      using facts(2) assms(2,3) by (auto simp: precede_def ahead_def split: if_splits)
  qed
qed

lemma amount_sum_mset: "mset xs = mset ys \<Longrightarrow> amount_sum I s xs = amount_sum I s ys"
proof -
  assume "mset xs = mset ys"
  then have "sum_mset (image_mset (GetAmount I s) (mset xs)) = sum_mset (image_mset (GetAmount I s) (mset ys))"
    by simp
  then show ?thesis unfolding amount_sum_def by (simp only: mset_map [symmetric] sum_mset_sum_list)
qed

lemma used_up_facts:
  assumes u: "used_up I s xs s' xs'" and sorted: "sorted_wrt (\<lambda>a b. \<not> precede I s b a) xs"
    and pos: "\<forall>x \<in> set xs'. 0 < GetAmount I s' x"
  shows "set xs' = {x \<in> set xs. 0 < GetAmount I s' x}"
    and "amount_sum I s' xs' = amount_sum I s' xs"
    and "x \<in> set xs \<Longrightarrow> y \<in> set xs \<Longrightarrow> precede I s x y \<Longrightarrow> GetAmount I s' y \<noteq> GetAmount I s y \<Longrightarrow>
      GetAmount I s' x = 0"
proof -
  obtain i where i: "xs' = drop i xs" "\<forall>x \<in> set (take i xs). GetAmount I s' x = 0"
    "\<forall>x \<in> set (tl xs'). GetAmount I s' x = GetAmount I s x"
    using u unfolding used_up_def by blast
  have parts: "xs = take i xs @ xs'" using i(1) by simp
  have mem: "x \<in> set xs \<longleftrightarrow> x \<in> set (take i xs) \<or> x \<in> set xs'" for x
    using arg_cong [OF parts, of set] by auto
  show "set xs' = {x \<in> set xs. 0 < GetAmount I s' x}" using mem i(2) pos by force
  have zero: "amount_sum I s' zs = 0" if "\<forall>x \<in> set zs. GetAmount I s' x = 0" for zs
    using that by (induction zs) (simp_all add: amount_sum_def)
  have "amount_sum I s' (take i xs) = 0" using i(2) by (rule zero)
  moreover have "amount_sum I s' xs = amount_sum I s' (take i xs) + amount_sum I s' xs'"
    using arg_cong [OF parts, of "amount_sum I s'"] by (simp add: amount_sum_def)
  ultimately show "amount_sum I s' xs' = amount_sum I s' xs" by simp
  assume x: "x \<in> set xs" and y: "y \<in> set xs" and prec: "precede I s x y"
    and changed: "GetAmount I s' y \<noteq> GetAmount I s y"
  show "GetAmount I s' x = 0"
  proof (rule ccontr)
    assume "GetAmount I s' x \<noteq> 0"
    then have x': "x \<in> set xs'" using x mem i(2) by blast
    have "\<not> precede I s x y"
    proof (cases "y \<in> set (take i xs)")
      case True
      then show ?thesis using sorted x' by (subst (asm) parts) (auto simp: sorted_wrt_append)
    next
      case False
      then have y': "y \<in> set xs'" "y \<notin> set (tl xs')" using y mem i(3) changed by auto
      then have "y = hd xs'" by (cases xs') auto
      moreover have "sorted_wrt (\<lambda>a b. \<not> precede I s b a) xs'"
        using sorted by (subst (asm) parts) (simp add: sorted_wrt_append)
      moreover have "\<not> precede I s y y" by (simp add: precede_def)
      ultimately show ?thesis using x' by (cases xs') auto
    qed
    with prec show False by simp
  qed
qed

lemma Match_spec:
  assumes inv: "inv Os s" and G: "sorts_ok G" and sub: "set (bl @ al) \<subseteq> Os" and dist: "distinct (bl @ al)"
    and bids: "\<forall>x \<in> set bl. GetSide I s x = BID" and asks: "\<forall>x \<in> set al. GetSide I s x = ASK"
    and pos: "\<forall>x \<in> set (bl @ al). 0 < GetAmount I s x"
  shows "\<exists>r s'. Match G I high mid low bl al s = Some (r, s') \<and>
    (r = Panic \<or> (\<exists>bl' al'. r = Ok (bl', al') \<and> inv Os s' \<and> match_outcome I Os s bl al s' bl' al'))"
proof -
  define bs where "bs = sort_orders G (precede I s) bl"
  define as' where "as' = sort_orders G (precede I s) al"
  have "BID \<in> {BID, ASK}" "ASK \<in> {BID, ASK}" by simp_all
  note bs = sort_orders_facts [OF G bids this(1), folded bs_def]
    and as' = sort_orders_facts [OF G asks this(2), folded as'_def]
  have set: "set bs = set bl" "set as' = set al"
    using bs(1) as'(1) by (metis set_mset_mset)+
  have "mset (bs @ as') = mset (bl @ al)" using bs(1) as'(1) by simp
  then have "distinct (bs @ as')" using dist mset_eq_imp_distinct_iff by blast
  then have b: "book BID Os s bs as'"
    using inv sub bids asks pos bs(3) as'(3) by (auto simp: book_def set)
  obtain r s' where m: "Match_loop G I high mid low bs as' s = Some (r, s')"
    and r: "r = Panic \<or> (\<exists>bl' al'. r = Ok (bl', al') \<and> traded BID Os s bs as' s' bl' al' \<and>
      (bl' = [] \<or> al' = [] \<or> GetPrice I s' (hd bl') < GetPrice I s' (hd al')))"
    using Match_loop_spec [OF b G] by blast
  have run: "Match G I high mid low bl al s = Some (r, s')"
    using m by (simp add: Match_def bs_def as'_def)
  show ?thesis
  proof (cases "r = Panic")
    case True
    with run show ?thesis by blast
  next
    case False
    with r obtain bl' al' where res: "r = Ok (bl', al')" and t: "traded BID Os s bs as' s' bl' al'"
      and stop: "bl' = [] \<or> al' = [] \<or> GetPrice I s' (hd bl') < GetPrice I s' (hd al')" by blast
    have b': "book BID Os s' bl' al'" and st: "same_static I Os s s'" using t by (simp_all add: traded_def)
    have inv': "inv Os s'" using b' by (simp add: book_def)
    have posl: "\<forall>x \<in> set bl'. 0 < GetAmount I s' x" "\<forall>x \<in> set al'. 0 < GetAmount I s' x"
      using b' by (auto simp: book_def)
    have ub: "used_up I s bs s' bl'" "used_up I s as' s' al'" using t by (simp_all add: traded_def)
    note fb = used_up_facts [OF ub(1) bs(2) posl(1), unfolded set]
      and fa = used_up_facts [OF ub(2) as'(2) posl(2), unfolded set]
    have price: "GetPrice I s' c = GetPrice I s c" if "c \<in> Os" for c
      using st that by (simp add: same_static_def)
    have inOs: "set bl' \<subseteq> Os" "set al' \<subseteq> Os" using b' by (auto simp: book_def)
    have uncrossed: "GetPrice I s b < GetPrice I s a" if "b \<in> set bl'" "a \<in> set al'" for b a
    proof -
      have "hd bl' \<in> set bl'" "hd al' \<in> set al'" using that by (auto intro: list.set_sel(1))
      then have sides: "GetSide I s' (hd bl') = BID" "GetSide I s' (hd al') = ASK"
        using b' by (simp_all add: book_def)
      have "GetPrice I s' b \<le> GetPrice I s' (hd bl')" "GetPrice I s' (hd al') \<le> GetPrice I s' a"
        using b' that best_hd [of s' bl' b] best_hd [of s' al' a] sides
        by (auto simp: book_def ahead_def)
      moreover have "GetPrice I s' (hd bl') < GetPrice I s' (hd al')" using stop that by auto
      ultimately show ?thesis using price that inOs by (metis le_less_trans less_le_trans subsetD)
    qed
    have eqs: "amount_sum I s bs = amount_sum I s bl" "amount_sum I s as' = amount_sum I s al"
      "amount_sum I s' bs = amount_sum I s' bl" "amount_sum I s' as' = amount_sum I s' al"
      using amount_sum_mset [OF bs(1)] amount_sum_mset [OF as'(1)] by simp_all
    have sums: "amount_sum I s bl - amount_sum I s' bl = amount_sum I s al - amount_sum I s' al"
      using t fb(2) fa(2) by (simp add: traded_def eqs)
    have "match_outcome I Os s bl al s' bl' al'"
      unfolding match_outcome_def
    proof (intro conjI)
      show "\<forall>c \<in> Os. 0 \<le> GetAmount I s' c \<and> GetAmount I s' c \<le> GetAmount I s c"
        using t amount_nonneg [OF inv'] by (simp add: traded_def)
      show "\<forall>c \<in> Os - set (bl @ al). GetAmount I s' c = GetAmount I s c"
        using t by (simp add: traded_def set)
      show "\<forall>xs \<in> {bl, al}. \<forall>x \<in> set xs. \<forall>y \<in> set xs.
        precede I s x y \<longrightarrow> GetAmount I s' y < GetAmount I s y \<longrightarrow> GetAmount I s' x = 0"
        using fb(3) fa(3) by (metis insertE less_irrefl singletonD)
    qed (use st fb(1) fa(1) uncrossed sums in auto)
    with run res inv' show ?thesis by blast
  qed
qed

end

end
