(* ===== verification/RefCosmos.thy ===== *)
theory RefCosmos
  imports Sdk
begin

section \<open>An instance of the framework's parameters\<close>

text \<open>
  A framework that satisfies \<open>cosmos_ok\<close>, so that no theorem assuming it is empty: decimals with
  18 digits and rounding to even, coin lists kept sorted, and a bank that is a list of accounts.
  The witnesses of the properties evaluate the modules' definitions with it.
\<close>

subsection \<open>Addresses and decimals\<close>

definition hex_byte :: "char \<Rightarrow> string" where
  "hex_byte c = [byte (97 + of_char c div 16), byte (97 + of_char c mod 16)]"

fun ref_addr_String :: "addr \<Rightarrow> string" where
  "ref_addr_String [] = []"
| "ref_addr_String (c # cs) = hex_byte c @ ref_addr_String cs"

lemma of_char_less: "of_char c < (256 :: nat)"
  using of_char_mod_256 [of c] by (metis mod_less_divisor zero_less_numeral)

lemma hex_byte_inj: "hex_byte c = hex_byte d \<longleftrightarrow> c = d"
proof
  assume "hex_byte c = hex_byte d"
  then have "of_char c div 16 = (of_char d div 16 :: nat)" "of_char c mod 16 = (of_char d mod 16 :: nat)"
    using of_char_less [of c] of_char_less [of d] by (auto simp: hex_byte_def byte_eq)
  then have "of_char c = (of_char d :: nat)" by (metis div_mult_mod_eq)
  then show "c = d" by simp
qed simp

lemma ref_addr_inj: "ref_addr_String a = ref_addr_String b \<Longrightarrow> a = b"
proof (induction a arbitrary: b)
  case Nil
  then show ?case by (cases b) (auto simp: hex_byte_def)
next
  case (Cons c a)
  then show ?case
  proof (cases b)
    case Nil
    with Cons.prems show ?thesis by (simp add: hex_byte_def)
  next
    case (Cons d b')
    then have "hex_byte c @ ref_addr_String a = hex_byte d @ ref_addr_String b'"
      using Cons.prems by simp
    then have "hex_byte c = hex_byte d" "ref_addr_String a = ref_addr_String b'"
      by (simp_all add: hex_byte_def)
    with Cons.IH Cons show ?thesis by (simp add: hex_byte_inj)
  qed
qed

lemma ref_addr_no_dash: "CHR ''-'' \<notin> set (ref_addr_String a)"
proof (induction a)
  case Nil
  then show ?case by simp
next
  case (Cons c a)
  have "byte (97 + k) \<noteq> CHR ''-''" if "k < 16" for k
  proof
    assume "byte (97 + k) = CHR ''-''"
    then have "of_char (byte (97 + k)) = (of_char CHR ''-'' :: nat)" by simp
    with that show False by (simp add: byte_def)
  qed
  from this [of "of_char c div 16"] this [of "of_char c mod 16"] show ?case
    using Cons of_char_less [of c] by (auto simp: hex_byte_def less_mult_imp_div_less)
qed

definition round_half_even :: "int \<Rightarrow> int" where
  "round_half_even d =
     (let q = \<bar>d\<bar> div dec_one; r = \<bar>d\<bar> mod dec_one
      in sgn d * (if 2 * r < dec_one then q else if 2 * r > dec_one then q + 1
                  else if even q then q else q + 1))"

lemma round_half_even_near: "2 * \<bar>round_half_even d * dec_one - d\<bar> \<le> dec_one"
proof -
  define q r where "q = \<bar>d\<bar> div dec_one" and "r = \<bar>d\<bar> mod dec_one"
  have d: "\<bar>d\<bar> = q * dec_one + r" and r: "0 \<le> r" "r < dec_one"
    unfolding q_def r_def by (simp_all add: div_mult_mod_eq)
  define x where "x = (if 2 * r < dec_one then q else if 2 * r > dec_one then q + 1
                  else if even q then q else q + 1)"
  have "2 * \<bar>x * dec_one - \<bar>d\<bar>\<bar> \<le> dec_one"
    using r by (auto simp: x_def d algebra_simps)
  moreover have "round_half_even d = sgn d * x"
    by (simp add: round_half_even_def x_def q_def r_def Let_def)
  ultimately show ?thesis
    by (cases "d > 0"; cases "d = 0") auto
qed

lemma round_half_even_exact: "round_half_even (n * dec_one) = n"
  by (simp add: round_half_even_def Let_def abs_mult sgn_mult)
     (metis abs_mult_sgn mult.commute)

lemma round_half_even_nonneg: "0 \<le> d \<Longrightarrow> 0 \<le> round_half_even d"
  unfolding round_half_even_def Let_def
  by (intro mult_nonneg_nonneg) (auto simp: sgn_if pos_imp_zdiv_nonneg_iff add_nonneg_nonneg)

definition ref_Quo :: "dec \<Rightarrow> dec \<Rightarrow> dec" where
  "ref_Quo a b = round_half_even (go_quo (a * dec_one * dec_one) b)"

lemma near_bound:
  fixes x eb mb n b :: int
  assumes "x * dec_one = eb + mb - n" and "2 * \<bar>eb\<bar> \<le> dec_one * b"
    and "mb \<le> n" and "n < mb + b" and "0 < b"
  shows "\<bar>x\<bar> \<le> b"
  using assms by (simp add: abs_if split: if_splits)

lemma ref_Quo_near:
  assumes "0 \<le> a" and "0 < b"
  shows "\<bar>ref_Quo a b * b - a * dec_one\<bar> \<le> b"
proof -
  define n where "n = a * dec_one * dec_one"
  define m where "m = n div b"
  have "n = m * b + n mod b" by (simp add: m_def)
  moreover have "0 \<le> n mod b" "n mod b < b" using assms(2) by simp_all
  ultimately have m: "m * b \<le> n" "n < m * b + b" by linarith+
  have q: "ref_Quo a b = round_half_even m"
    using assms by (simp add: ref_Quo_def n_def m_def go_quo_pos)
  define e where "e = round_half_even m * dec_one - m"
  have e: "2 * \<bar>e\<bar> \<le> dec_one" unfolding e_def by (rule round_half_even_near)
  have eb: "\<bar>e * b\<bar> * 2 \<le> dec_one * b"
    using mult_right_mono [OF e, of b] assms(2) by (simp add: abs_mult algebra_simps)
  have "(ref_Quo a b * b - a * dec_one) * dec_one = e * b + m * b - n"
    by (simp add: q e_def n_def algebra_simps)
  moreover have "2 * \<bar>e * b\<bar> \<le> dec_one * b"
    using eb by (simp add: mult.commute)
  ultimately show ?thesis
    using m assms(2) by (intro near_bound) auto
qed

lemma ref_Quo_exact: "0 < b \<Longrightarrow> a * dec_one = q * b \<Longrightarrow> ref_Quo a b = q"
proof -
  assume b: "0 < b" and eq: "a * dec_one = q * b"
  then have n: "a * dec_one * dec_one = (q * dec_one) * b" by (simp add: algebra_simps)
  have "go_quo ((q * dec_one) * b) b = q * dec_one"
    using b by (simp add: go_quo_def abs_mult sgn_mult)
      (metis abs_mult_sgn abs_numeral mult.commute mult.left_commute)
  then show ?thesis by (simp only: ref_Quo_def n round_half_even_exact)
qed

lemma ref_Quo_nonneg: "0 \<le> a \<Longrightarrow> 0 < b \<Longrightarrow> 0 \<le> ref_Quo a b"
  by (simp add: ref_Quo_def go_quo_pos round_half_even_nonneg pos_imp_zdiv_nonneg_iff)

subsection \<open>Coins\<close>

fun coin_insert :: "coin \<Rightarrow> coins \<Rightarrow> coins" where
  "coin_insert c [] = [c]"
| "coin_insert c (d # cs) =
     (if Denom c < Denom d then c # d # cs
      else if Denom c = Denom d then \<lparr>Denom = Denom c, Amount = Amount c + Amount d\<rparr> # cs
      else d # coin_insert c cs)"

definition coins_norm :: "coins \<Rightarrow> coins" where
  "coins_norm cs = foldr coin_insert cs []"

definition ref_AmountOf :: "coins \<Rightarrow> string \<Rightarrow> int" where
  "ref_AmountOf cs d = sum_list (map (\<lambda>c. if Denom c = d then Amount c else 0) cs)"

definition coins_neg :: "coins \<Rightarrow> coins" where
  "coins_neg cs = map (\<lambda>c. \<lparr>Denom = Denom c, Amount = - Amount c\<rparr>) cs"

definition ref_Add :: "coins \<Rightarrow> coins \<Rightarrow> coins" where
  "ref_Add a b = filter (\<lambda>c. Amount c \<noteq> 0) (coins_norm (a @ b))"

definition ref_SafeSub :: "coins \<Rightarrow> coins \<Rightarrow> coins \<times> bool" where
  "ref_SafeSub a b = (let r = ref_Add a (coins_neg b) in (r, \<exists>c \<in> set r. Amount c < 0))"

definition ref_IsValid :: "coins \<Rightarrow> bool" where
  "ref_IsValid cs = (coins_sorted cs \<and> (\<forall>c \<in> set cs. 0 < Amount c \<and> Denom c \<noteq> []))"

definition ref_NewCoin :: "string \<Rightarrow> int \<Rightarrow> coin ret" where
  "ref_NewCoin d a = (if 0 \<le> a \<and> d \<noteq> [] then Ok \<lparr>Denom = d, Amount = a\<rparr> else Panic)"

definition ref_NewCoins :: "coin list \<Rightarrow> coins ret" where
  "ref_NewCoins cs =
     (if (\<forall>c \<in> set cs. 0 \<le> Amount c) \<and> distinct (map Denom cs)
      then Ok (filter (\<lambda>c. Amount c \<noteq> 0) (coins_norm cs)) else Panic)"

definition ref_IsAllGTE :: "coins \<Rightarrow> coins \<Rightarrow> bool" where
  "ref_IsAllGTE a b = (\<forall>c \<in> set b. Amount c \<le> ref_AmountOf a (Denom c))"

lemma coin_insert_denoms: "set (map Denom (coin_insert c cs)) = insert (Denom c) (set (map Denom cs))"
  by (induction cs) auto

lemma coins_sorted_insert: "coins_sorted cs \<Longrightarrow> coins_sorted (coin_insert c cs)"
proof (induction cs)
  case Nil
  then show ?case by simp
next
  case (Cons d cs)
  have cs: "coins_sorted cs" and less: "\<forall>x \<in> set (map Denom cs). Denom d < x"
    using Cons.prems by (auto simp: coins_sorted_def)
  have "\<forall>x \<in> set (map Denom (coin_insert c cs)). Denom d < x" if "Denom d < Denom c"
    using less that unfolding coin_insert_denoms by auto
  then show ?case
    using Cons less by (auto simp: coins_sorted_def not_less intro: less_trans)
qed

lemma coins_sorted_norm: "coins_sorted (coins_norm cs)"
  unfolding coins_norm_def by (induction cs) (auto intro: coins_sorted_insert)

lemma AmountOf_insert: "ref_AmountOf (coin_insert c cs) d = ref_AmountOf (c # cs) d"
  by (induction cs) (auto simp: ref_AmountOf_def)

lemma AmountOf_norm [simp]: "ref_AmountOf (coins_norm cs) d = ref_AmountOf cs d"
proof (induction cs)
  case Nil
  then show ?case by (simp add: coins_norm_def)
next
  case (Cons c cs)
  have "coins_norm (c # cs) = coin_insert c (coins_norm cs)" by (simp add: coins_norm_def)
  then show ?case using Cons AmountOf_insert [of c "coins_norm cs" d] by (simp add: ref_AmountOf_def)
qed

lemma AmountOf_filter [simp]: "ref_AmountOf (filter (\<lambda>c. Amount c \<noteq> 0) cs) d = ref_AmountOf cs d"
  by (induction cs) (auto simp: ref_AmountOf_def)

lemma AmountOf_append [simp]: "ref_AmountOf (a @ b) d = ref_AmountOf a d + ref_AmountOf b d"
  by (simp add: ref_AmountOf_def)

lemma AmountOf_neg [simp]: "ref_AmountOf (coins_neg cs) d = - ref_AmountOf cs d"
  by (induction cs) (auto simp: ref_AmountOf_def coins_neg_def)

lemma coins_sorted_filter: "coins_sorted cs \<Longrightarrow> coins_sorted (filter P cs)"
  by (simp add: coins_sorted_def sorted_wrt_filter)

lemma coins_sorted_Add: "coins_sorted (ref_Add a b)"
  by (simp add: ref_Add_def coins_sorted_filter coins_sorted_norm)

lemma AmountOf_absent: "\<forall>c \<in> set cs. Denom c \<noteq> d \<Longrightarrow> ref_AmountOf cs d = 0"
  by (induction cs) (auto simp: ref_AmountOf_def)

lemma AmountOf_member: "coins_sorted cs \<Longrightarrow> c \<in> set cs \<Longrightarrow> ref_AmountOf cs (Denom c) = Amount c"
proof (induction cs)
  case Nil
  then show ?case by simp
next
  case (Cons a cs)
  then show ?case
  proof (cases "c = a")
    case True
    then have "ref_AmountOf cs (Denom c) = 0"
      using Cons.prems(1) by (intro AmountOf_absent) (auto simp: coins_sorted_def)
    with True show ?thesis by (simp add: ref_AmountOf_def)
  next
    case False
    then have "Denom a \<noteq> Denom c" using Cons.prems by (auto simp: coins_sorted_def)
    with False Cons show ?thesis by (simp add: ref_AmountOf_def coins_sorted_def)
  qed
qed

lemma negative_coin: "coins_sorted cs \<Longrightarrow> (\<exists>c \<in> set cs. Amount c < 0) \<longleftrightarrow> (\<exists>d. ref_AmountOf cs d < 0)"
  by (metis AmountOf_absent AmountOf_member order_less_irrefl)

lemma AmountOf_nonneg: "\<forall>c \<in> set cs. 0 \<le> Amount c \<Longrightarrow> 0 \<le> ref_AmountOf cs d"
  by (induction cs) (auto simp: ref_AmountOf_def)

subsection \<open>The bank\<close>

text \<open>
  Accounts as an association list of coin lists; a module account is the account named after the
  module. The total of a denomination is the sum over the list.
\<close>

record ref_bank =
  accounts :: "(addr \<times> coins) list"
  send_enabled :: bool

fun al_set :: "addr \<Rightarrow> coins \<Rightarrow> (addr \<times> coins) list \<Rightarrow> (addr \<times> coins) list" where
  "al_set a cs [] = [(a, cs)]"
| "al_set a cs ((a', cs') # xs) = (if a = a' then (a, cs) # xs else (a', cs') # al_set a cs xs)"

definition ref_coins :: "ref_bank \<Rightarrow> addr \<Rightarrow> coins" where
  "ref_coins b a = (case map_of (accounts b) a of None \<Rightarrow> [] | Some cs \<Rightarrow> coins_norm cs)"

definition ref_SetCoins :: "addr \<Rightarrow> coins \<Rightarrow> ref_bank \<Rightarrow> ref_bank" where
  "ref_SetCoins a cs b = b\<lparr>accounts := al_set a cs (accounts b)\<rparr>"

definition ref_tot :: "ref_bank \<Rightarrow> string \<Rightarrow> int" where
  "ref_tot b d = sum_list (map (\<lambda>e. ref_AmountOf (snd e) d) (accounts b))"

definition ref_AddCoins :: "addr \<Rightarrow> coins \<Rightarrow> (ref_bank, unit) op" where
  "ref_AddCoins a amt b =
     (if ref_IsValid amt then (Ok (), ref_SetCoins a (ref_Add (ref_coins b a) amt) b)
      else (Err (SdkErr ''InvalidCoins''), b))"

definition ref_SubtractCoins :: "addr \<Rightarrow> coins \<Rightarrow> (ref_bank, unit) op" where
  "ref_SubtractCoins a amt b =
     (if \<not> ref_IsValid amt then (Err (SdkErr ''InvalidCoins''), b)
      else (case ref_SafeSub (ref_coins b a) amt of
          (_, True) \<Rightarrow> (Err (SdkErr ''InsufficientCoins''), b)
        | (cs, False) \<Rightarrow> (Ok (), ref_SetCoins a cs b)))"

definition ref_SendCoins :: "addr \<Rightarrow> addr \<Rightarrow> coins \<Rightarrow> (ref_bank, unit) op" where
  "ref_SendCoins x y amt = and_then (ref_SubtractCoins x amt) (\<lambda>_. ref_AddCoins y amt)"

definition ref_InputOutput :: "(addr \<times> coins) list \<Rightarrow> (addr \<times> coins) list \<Rightarrow> (ref_bank, unit) op" where
  "ref_InputOutput ins outs b =
     (case and_then (foreach (\<lambda>(a, cs). ref_SubtractCoins a cs) ins)
             (\<lambda>_. foreach (\<lambda>(a, cs). ref_AddCoins a cs) outs) b of
        (Ok u, b') \<Rightarrow>
          if (\<forall>d \<in> set (map Denom (concat (map snd (ins @ outs)))).
                sum_list (map (\<lambda>e. ref_AmountOf (snd e) d) ins) =
                sum_list (map (\<lambda>e. ref_AmountOf (snd e) d) outs))
          then (Ok (), b') else (Err (SdkErr ''InvalidCoins''), b)
      | (Err e, _) \<Rightarrow> (Err e, b)
      | (Panic, b') \<Rightarrow> (Panic, b'))"

text \<open>The record is built once as a constant with a characteristic equation for every field.\<close>

definition ref_PrefixEnd :: "string \<Rightarrow> string" where
  "ref_PrefixEnd p = (if p = [] then [] else butlast p @ [byte (of_char (last p) + 1)])"

definition ref_addr_FromBech32 :: "string \<Rightarrow> addr option" where "ref_addr_FromBech32 s = (if s = [] then None else Some s)"
definition ref_addr_Verify :: "addr \<Rightarrow> bool" where "ref_addr_Verify a = (length a = 20)"
definition ref_format_time :: "int \<Rightarrow> string" where "ref_format_time t = (be_bytes 8 (nat t) @ [byte 90])"
definition ref_denom_valid :: "string \<Rightarrow> bool" where "ref_denom_valid d = (d \<noteq> [])"
definition ref_int_Add :: "int \<Rightarrow> int \<Rightarrow> int ret" where "ref_int_Add a b = (if \<bar>a + b\<bar> < 2 ^ 255 then Ok (a + b) else Panic)"
definition ref_int_Sub :: "int \<Rightarrow> int \<Rightarrow> int ret" where "ref_int_Sub a b = (if \<bar>a - b\<bar> < 2 ^ 255 then Ok (a - b) else Panic)"
definition ref_NewIntFromString :: "string \<Rightarrow> int option" where "ref_NewIntFromString s = (if s = ''5'' then Some 5 else None)"
definition ref_coin_IsValid :: "coin \<Rightarrow> bool" where "ref_coin_IsValid c = (Denom c \<noteq> [] \<and> 0 \<le> Amount c)"
definition ref_input_ValidateBasic :: "addr \<times> coins \<Rightarrow> unit ret" where "ref_input_ValidateBasic x = (if ref_IsValid (snd x) then Ok () else Err (SdkErr ''ErrInvalidCoins''))"
definition ref_output_ValidateBasic :: "addr \<times> coins \<Rightarrow> unit ret" where "ref_output_ValidateBasic x = (if ref_IsValid (snd x) then Ok () else Err (SdkErr ''ErrInvalidCoins''))"
definition ref_coin_String :: "coin \<Rightarrow> string" where "ref_coin_String c = (itoa (Amount c) @ Denom c)"
definition ref_coins_String :: "coins \<Rightarrow> string" where "ref_coins_String cs = (concat (map (\<lambda>c. itoa (Amount c) @ Denom c) cs))"
definition ref_NewDec :: "int \<Rightarrow> dec" where "ref_NewDec n = (n * dec_one)"
definition ref_dec_Mul :: "dec \<Rightarrow> dec \<Rightarrow> dec" where "ref_dec_Mul a b = (round_half_even (a * b))"
definition ref_dec_MulInt :: "dec \<Rightarrow> int \<Rightarrow> dec" where "ref_dec_MulInt d n = (d * n)"
definition ref_dec_Ceil :: "dec \<Rightarrow> dec" where "ref_dec_Ceil d = (- ((- d) div dec_one) * dec_one)"
definition ref_dec_TruncateInt :: "dec \<Rightarrow> int" where "ref_dec_TruncateInt d = (go_quo d dec_one)"
definition ref_acc_exists :: "ref_bank \<Rightarrow> addr \<Rightarrow> bool" where "ref_acc_exists b a = (map_of (accounts b) a \<noteq> None)"
definition ref_acc_Sequence :: "ref_bank \<Rightarrow> addr \<Rightarrow> nat" where "ref_acc_Sequence b a = (0)"
definition ref_acc_Spendable :: "ref_bank \<Rightarrow> addr \<Rightarrow> int \<Rightarrow> coins" where "ref_acc_Spendable b a t = (ref_coins b a)"
definition ref_acc_SetCoins :: "addr \<Rightarrow> coins \<Rightarrow> ref_bank \<Rightarrow> ref_bank" where "ref_acc_SetCoins a cs b = (if map_of (accounts b) a = None then b else ref_SetCoins a cs b)"
definition ref_bank_Blacklisted :: "addr \<Rightarrow> bool" where "ref_bank_Blacklisted a = (a = ''fee_collector'')"
definition ref_coins_IsAllPositive :: "coins \<Rightarrow> bool" where "ref_coins_IsAllPositive cs = list_all (\<lambda>c. 0 < Amount c) cs"

lemmas ref_field_defs = ref_addr_FromBech32_def ref_addr_Verify_def ref_format_time_def ref_denom_valid_def ref_int_Add_def ref_int_Sub_def ref_NewIntFromString_def ref_coin_IsValid_def ref_input_ValidateBasic_def ref_output_ValidateBasic_def ref_coin_String_def ref_coins_String_def ref_NewDec_def ref_dec_Mul_def ref_dec_MulInt_def ref_dec_Ceil_def ref_dec_TruncateInt_def ref_acc_exists_def ref_acc_Sequence_def ref_acc_Spendable_def ref_acc_SetCoins_def ref_bank_Blacklisted_def ref_coins_IsAllPositive_def

definition ref_cosmos :: "ref_bank cosmos" where
  "ref_cosmos = \<lparr>
     addr_String = ref_addr_String,
     addr_FromBech32 = ref_addr_FromBech32,
     addr_Verify = ref_addr_Verify,
     format_time = ref_format_time,
     PrefixEndBytes = ref_PrefixEnd,
     denom_valid = ref_denom_valid,
     int_Add = ref_int_Add,
     int_Sub = ref_int_Sub,
     NewIntFromString = ref_NewIntFromString,
     NewCoin = ref_NewCoin,
     NewCoins = ref_NewCoins,
     coin_IsEqual = (=),
     coins_Add = ref_Add,
     coins_SafeSub = ref_SafeSub,
     coins_AmountOf = ref_AmountOf,
     coins_IsAllGTE = ref_IsAllGTE,
     coins_IsValid = ref_IsValid,
     coins_IsAllPositive = ref_coins_IsAllPositive,
     coin_IsValid = ref_coin_IsValid,
     input_ValidateBasic = ref_input_ValidateBasic,
     output_ValidateBasic = ref_output_ValidateBasic,
     coins_IsEqual = (=),
     coins_Sort = coins_norm,
     coin_String = ref_coin_String,
     coins_String = ref_coins_String,
     NewDec = ref_NewDec,
     dec_Mul = ref_dec_Mul,
     dec_Quo = ref_Quo,
     dec_MulInt = ref_dec_MulInt,
     dec_QuoInt = go_quo,
     dec_Ceil = ref_dec_Ceil,
     dec_RoundInt = round_half_even,
     dec_TruncateInt = ref_dec_TruncateInt,
     dec_String = (\<lambda>d. itoa (d div dec_one)),
     acc_exists = ref_acc_exists,
     acc_Sequence = ref_acc_Sequence,
     acc_Spendable = ref_acc_Spendable,
     acc_Coins = ref_coins,
     acc_SetCoins = ref_acc_SetCoins,
     bank_SendCoins = ref_SendCoins,
     bank_SubtractCoins = ref_SubtractCoins,
     bank_AddCoins = ref_AddCoins,
     bank_InputOutputCoins = ref_InputOutput,
     bank_Blacklisted = ref_bank_Blacklisted,
     bank_SendEnabled = send_enabled,
     supply_AccToModule = ref_SendCoins,
     supply_ModuleToAcc = ref_SendCoins,
     supply_MintCoins = ref_AddCoins,
     supply_BurnCoins = ref_SubtractCoins,
     supply_SetModuleCoins = ref_SetCoins\<rparr>"

lemma ref_cosmos_simps [simp]:
  "addr_String ref_cosmos = ref_addr_String"
  "addr_FromBech32 ref_cosmos = (\<lambda>s. if s = [] then None else Some s)"
  "addr_Verify ref_cosmos = (\<lambda>a. length a = 20)"
  "format_time ref_cosmos = (\<lambda>t. be_bytes 8 (nat t) @ [byte 90])"
  "PrefixEndBytes ref_cosmos = ref_PrefixEnd"
  "denom_valid ref_cosmos = (\<lambda>d. d \<noteq> [])"
  "int_Add ref_cosmos = (\<lambda>a b. if \<bar>a + b\<bar> < 2 ^ 255 then Ok (a + b) else Panic)"
  "int_Sub ref_cosmos = (\<lambda>a b. if \<bar>a - b\<bar> < 2 ^ 255 then Ok (a - b) else Panic)"
  "NewIntFromString ref_cosmos = (\<lambda>s. if s = ''5'' then Some 5 else None)"
  "NewCoin ref_cosmos = ref_NewCoin"
  "NewCoins ref_cosmos = ref_NewCoins"
  "coin_IsEqual ref_cosmos = (=)"
  "coins_Add ref_cosmos = ref_Add"
  "coins_SafeSub ref_cosmos = ref_SafeSub"
  "coins_AmountOf ref_cosmos = ref_AmountOf"
  "coins_IsAllGTE ref_cosmos = ref_IsAllGTE"
  "coins_IsValid ref_cosmos = ref_IsValid"
  "coins_IsAllPositive ref_cosmos = list_all (\<lambda>c. 0 < Amount c)"
  "coin_IsValid ref_cosmos = (\<lambda>c. Denom c \<noteq> [] \<and> 0 \<le> Amount c)"
  "input_ValidateBasic ref_cosmos = (\<lambda>x. if ref_IsValid (snd x) then Ok () else Err (SdkErr ''ErrInvalidCoins''))"
  "output_ValidateBasic ref_cosmos = (\<lambda>x. if ref_IsValid (snd x) then Ok () else Err (SdkErr ''ErrInvalidCoins''))"
  "coins_IsEqual ref_cosmos = (=)"
  "coins_Sort ref_cosmos = coins_norm"
  "coin_String ref_cosmos = (\<lambda>c. itoa (Amount c) @ Denom c)"
  "NewDec ref_cosmos = (\<lambda>n. n * dec_one)"
  "dec_Mul ref_cosmos = (\<lambda>a b. round_half_even (a * b))"
  "dec_Quo ref_cosmos = ref_Quo"
  "dec_MulInt ref_cosmos = (\<lambda>d n. d * n)"
  "dec_QuoInt ref_cosmos = go_quo"
  "dec_Ceil ref_cosmos = (\<lambda>d. - ((- d) div dec_one) * dec_one)"
  "dec_RoundInt ref_cosmos = round_half_even"
  "dec_TruncateInt ref_cosmos = (\<lambda>d. go_quo d dec_one)"
  "dec_String ref_cosmos = (\<lambda>d. itoa (d div dec_one))"
  "acc_exists ref_cosmos = (\<lambda>b a. map_of (accounts b) a \<noteq> None)"
  "acc_Sequence ref_cosmos = (\<lambda>b a. 0)"
  "acc_Spendable ref_cosmos = (\<lambda>b a t. ref_coins b a)"
  "acc_Coins ref_cosmos = ref_coins"
  "acc_SetCoins ref_cosmos = (\<lambda>a cs b. if map_of (accounts b) a = None then b else ref_SetCoins a cs b)"
  "bank_SendCoins ref_cosmos = ref_SendCoins"
  "bank_SubtractCoins ref_cosmos = ref_SubtractCoins"
  "bank_AddCoins ref_cosmos = ref_AddCoins"
  "bank_InputOutputCoins ref_cosmos = ref_InputOutput"
  "bank_Blacklisted ref_cosmos = (\<lambda>a. a = ''fee_collector'')"
  "bank_SendEnabled ref_cosmos = send_enabled"
  "supply_AccToModule ref_cosmos = (\<lambda>a m. ref_SendCoins a m)"
  "supply_ModuleToAcc ref_cosmos = (\<lambda>m a. ref_SendCoins m a)"
  "supply_MintCoins ref_cosmos = ref_AddCoins"
  "supply_BurnCoins ref_cosmos = ref_SubtractCoins"
  "supply_SetModuleCoins ref_cosmos = ref_SetCoins"
  by (simp_all add: ref_cosmos_def fun_eq_iff ref_field_defs)

subsection \<open>It meets the assumptions\<close>

lemma ref_tot_SetCoins:
  "ref_tot (ref_SetCoins a cs b) d = ref_tot b d - ref_AmountOf (ref_coins b a) d + ref_AmountOf cs d"
proof -
  have "sum_list (map (\<lambda>e. ref_AmountOf (snd e) d) (al_set a cs xs)) =
      sum_list (map (\<lambda>e. ref_AmountOf (snd e) d) xs)
      - (case map_of xs a of None \<Rightarrow> 0 | Some c \<Rightarrow> ref_AmountOf c d) + ref_AmountOf cs d" for xs
    by (induction xs) (auto split: option.splits)
  moreover have "ref_AmountOf [] d = 0" by (simp add: ref_AmountOf_def)
  ultimately show ?thesis
    by (simp add: ref_tot_def ref_SetCoins_def ref_coins_def split: option.splits)
qed

lemma map_of_al_set: "map_of (al_set a cs xs) x = (if x = a then Some cs else map_of xs x)"
  by (induction xs) auto

lemma ref_Add_AmountOf: "ref_AmountOf (ref_Add a b) d = ref_AmountOf a d + ref_AmountOf b d"
  by (simp add: ref_Add_def)

lemma ref_moves_Add: "moves ref_tot (\<lambda>d. ref_AmountOf amt d) (ref_AddCoins a amt)"
  by (auto simp: moves_def ref_AddCoins_def ref_tot_SetCoins ref_Add_AmountOf split: if_splits)

lemma ref_moves_Subtract: "moves ref_tot (\<lambda>d. - ref_AmountOf amt d) (ref_SubtractCoins a amt)"
  by (auto simp: moves_def ref_SubtractCoins_def ref_SafeSub_def Let_def ref_tot_SetCoins
      ref_Add_AmountOf split: if_splits prod.splits bool.splits)

lemma ref_Subtract_valid: "ref_SubtractCoins a amt b = (Ok u, b') \<Longrightarrow> ref_IsValid amt"
  by (auto simp: ref_SubtractCoins_def split: if_splits)

lemma ref_moves_Send: "moves ref_tot (\<lambda>d. 0) (ref_SendCoins x y amt)"
proof -
  have "(\<forall>d. ref_tot b' d = ref_tot b d)"
    if sub: "ref_SubtractCoins x amt b = (Ok (), c)" and add: "ref_AddCoins y amt c = (Ok (), b')"
    for b c b'
    using movesD_Ok [OF ref_moves_Subtract sub] movesD_Ok [OF ref_moves_Add add] by simp
  moreover have "\<exists>b'. ref_AddCoins y amt c = (Ok (), b')"
    if "ref_SubtractCoins x amt b = (Ok (), c)" for b c
    using ref_Subtract_valid [OF that] by (simp add: ref_AddCoins_def)
  moreover have "b' = b" if "ref_SubtractCoins x amt b = (Err e, b')" for b b' e
    using movesD_Err [OF ref_moves_Subtract that] .
  ultimately show ?thesis
    unfolding moves_def ref_SendCoins_def and_then_def
    by (fastforce split: prod.splits ret.splits)
qed

lemma ref_foreach_Subtract:
  "foreach (\<lambda>(a, cs). ref_SubtractCoins a cs) xs b = (Ok u, b') \<Longrightarrow>
     ref_tot b' d = ref_tot b d - sum_list (map (\<lambda>e. ref_AmountOf (snd e) d) xs)"
proof (induction xs arbitrary: b)
  case Nil
  then show ?case by (simp add: return_Ok)
next
  case (Cons x xs)
  then obtain c where c: "ref_SubtractCoins (fst x) (snd x) b = (Ok (), c)"
    "foreach (\<lambda>(a, cs). ref_SubtractCoins a cs) xs c = (Ok u, b')"
    by (auto simp: and_then_Ok split: prod.splits)
  show ?case using movesD_Ok [OF ref_moves_Subtract c(1), of d] Cons.IH [OF c(2)] by simp
qed

lemma ref_foreach_Add:
  "foreach (\<lambda>(a, cs). ref_AddCoins a cs) xs b = (Ok u, b') \<Longrightarrow>
     ref_tot b' d = ref_tot b d + sum_list (map (\<lambda>e. ref_AmountOf (snd e) d) xs)"
proof (induction xs arbitrary: b)
  case Nil
  then show ?case by (simp add: return_Ok)
next
  case (Cons x xs)
  then obtain c where c: "ref_AddCoins (fst x) (snd x) b = (Ok (), c)"
    "foreach (\<lambda>(a, cs). ref_AddCoins a cs) xs c = (Ok u, b')"
    by (auto simp: and_then_Ok split: prod.splits)
  show ?case using movesD_Ok [OF ref_moves_Add c(1), of d] Cons.IH [OF c(2)] by simp
qed

lemma sum_absent:
  "d \<notin> set (map Denom (concat (map snd xs))) \<Longrightarrow> sum_list (map (\<lambda>e. ref_AmountOf (snd e) d) xs) = 0"
proof (induction xs)
  case Nil
  then show ?case by simp
next
  case (Cons x xs)
  then have "ref_AmountOf (snd x) d = 0" by (intro AmountOf_absent) auto
  with Cons show ?case by simp
qed

lemma ref_moves_InputOutput: "moves ref_tot (\<lambda>d. 0) (ref_InputOutput ins outs)"
proof -
  have "ref_tot b' d = ref_tot b d"
    if run: "and_then (foreach (\<lambda>(a, cs). ref_SubtractCoins a cs) ins)
        (\<lambda>_. foreach (\<lambda>(a, cs). ref_AddCoins a cs) outs) b = (Ok u, b')"
      and eq: "\<forall>d \<in> set (map Denom (concat (map snd (ins @ outs)))).
        sum_list (map (\<lambda>e. ref_AmountOf (snd e) d) ins) =
        sum_list (map (\<lambda>e. ref_AmountOf (snd e) d) outs)" for b u b' d
  proof -
    obtain c where c: "foreach (\<lambda>(a, cs). ref_SubtractCoins a cs) ins b = (Ok (), c)"
      "foreach (\<lambda>(a, cs). ref_AddCoins a cs) outs c = (Ok u, b')"
      using run by (auto simp: and_then_Ok)
    have "sum_list (map (\<lambda>e. ref_AmountOf (snd e) d) ins) =
        sum_list (map (\<lambda>e. ref_AmountOf (snd e) d) outs)"
    proof (cases "d \<in> set (map Denom (concat (map snd (ins @ outs))))")
      case True
      with eq show ?thesis by blast
    next
      case False
      then show ?thesis using sum_absent [of d ins] sum_absent [of d outs] by simp
    qed
    then show ?thesis
      using ref_foreach_Subtract [OF c(1), of d] ref_foreach_Add [OF c(2), of d] by simp
  qed
  then show ?thesis
    unfolding moves_def ref_InputOutput_def by (auto split: prod.splits ret.splits if_splits)
qed

lemma ref_addr_ok: "addr_ok ref_cosmos"
  by (simp add: addr_ok_def inj_def ref_addr_inj ref_addr_no_dash)

lemma ref_dec_ok: "dec_ok ref_cosmos"
proof -
  have "round_half_even (d * (n * dec_one)) = d * n \<and> round_half_even (n * dec_one * d) = d * n" for d n
    using round_half_even_exact [of "d * n"] by (simp only: ac_simps)
  then show ?thesis
    unfolding dec_ok_def
    using ref_Quo_near ref_Quo_exact ref_Quo_nonneg round_half_even_near round_half_even_nonneg
    by simp
qed

lemma less_prefix_end:
  assumes "of_char c < (255 :: nat)"
  shows "k < q @ [byte (of_char c + 1)] \<longleftrightarrow> k < q @ [c] \<or> take (Suc (length q)) k = q @ [c]"
proof (induction q arbitrary: k)
  case Nil
  have c1: "of_char (byte (of_char c + 1)) = (of_char c + 1 :: nat)"
    using assms by (simp add: byte_def)
  show ?case
  proof (cases k)
    case (Cons x xs)
    have "x < byte (of_char c + 1) \<longleftrightarrow> x < c \<or> x = c"
      unfolding less_char_def c1 by (metis Suc_eq_plus1 less_Suc_eq of_char_eq_iff)
    then show ?thesis using Cons by (auto simp: less_char_def)
  qed simp
next
  case (Cons y q)
  then show ?case by (cases k) auto
qed

lemma ref_keys_ok: "keys_ok ref_cosmos"
proof -
  have lt: "nat t < 256 ^ 8" if "time_fits t" for t
    using that by (simp add: time_fits_def nat_less_iff)
  have time: "be_bytes 8 (nat t) @ [byte 90] < be_bytes 8 (nat u) @ [byte 90] \<longleftrightarrow> t < u"
    if "time_fits t" "time_fits u" for t u
  proof -
    have "be_bytes 8 (nat t) < be_bytes 8 (nat u) \<longleftrightarrow> nat t < nat u"
      by (rule be_bytes_less) (use lt that in auto)
    then show ?thesis
      using that by (auto simp: less_append_same_length time_fits_def)
  qed
  have "k < ref_PrefixEnd p \<longleftrightarrow> k < p \<or> take (length p) k = p" if "p \<noteq> []" "last p \<noteq> byte 255" for p k
  proof -
    have "of_char (last p) \<noteq> (255 :: nat)"
      using that(2) by (metis byte_def char_of_char)
    then have c: "of_char (last p) < (255 :: nat)" using of_char_less [of "last p"] by linarith
    have p: "p = butlast p @ [last p]" using that(1) by simp
    show ?thesis
      using less_prefix_end [OF c, of k "butlast p"] that(1) p
      by (simp add: ref_PrefixEnd_def)
  qed
  then show ?thesis unfolding keys_ok_def using time by (simp add: byte_eq)
qed

lemma ref_int_ok: "int_ok ref_cosmos"
  by (simp add: int_ok_def)

lemma coins_norm_sorted: "coins_sorted cs \<Longrightarrow> coins_norm cs = cs"
proof (induction cs)
  case Nil
  then show ?case by (simp add: coins_norm_def)
  next
  case (Cons c cs)
  then have "coins_norm cs = cs" by (simp add: coins_sorted_def)
  then show ?case using Cons.prems
    by (cases cs) (auto simp: coins_norm_def coins_sorted_def)
qed

lemma ref_coins_ok: "coins_ok ref_cosmos"
proof -
  have single: "coins_norm [c] = [c]" for c by (simp add: coins_norm_def)
  have neg: "coins_neg cs = [] \<longleftrightarrow> cs = []" for cs by (simp add: coins_neg_def)
  have sub: "snd (ref_SafeSub a b) = (\<exists>d. ref_AmountOf a d < ref_AmountOf b d)" for a b
    using negative_coin [OF coins_sorted_Add [of a "coins_neg b"]]
    by (simp add: ref_SafeSub_def Let_def ref_Add_AmountOf)
  have sub_sorted: "coins_sorted (fst (ref_SafeSub a b))" for a b
    by (simp add: ref_SafeSub_def Let_def coins_sorted_Add)
  have sub_amount: "ref_AmountOf (fst (ref_SafeSub a b)) d = ref_AmountOf a d - ref_AmountOf b d" for a b d
    by (simp add: ref_SafeSub_def Let_def ref_Add_AmountOf)
  have one: "ref_AmountOf [] d = 0" "ref_AmountOf [c] d = (if Denom c = d then Amount c else 0)" for c d
    by (simp_all add: ref_AmountOf_def)
  have sum: "ref_AmountOf cs d = coin_sum cs d" for cs d
    by (simp add: ref_AmountOf_def coin_sum_def)
  show ?thesis
    unfolding coins_ok_def
    by (simp add: ref_NewCoin_def ref_NewCoins_def single coins_sorted_Add ref_Add_AmountOf sub
        sub_sorted sub_amount one sum [symmetric] coins_norm_sorted ref_IsValid_def AmountOf_nonneg less_imp_le conj_commute)
qed

lemma ref_SetCoins_law:
  "map_of (accounts b) a \<noteq> None \<Longrightarrow>
     ref_tot (if map_of (accounts b) a = None then b else ref_SetCoins a cs b) d =
       ref_tot b d - ref_AmountOf (ref_coins b a) d + ref_AmountOf cs d"
  by (auto simp: ref_tot_SetCoins)

lemma ref_SetCoins_exists:
  "(map_of (accounts (if map_of (accounts b) a = None then b else ref_SetCoins a cs b)) x \<noteq> None) =
     (map_of (accounts b) x \<noteq> None)"
  by (simp add: ref_SetCoins_def map_of_al_set)

lemma ref_bank_ok: "bank_ok ref_cosmos ref_tot"
  unfolding bank_ok_def ref_cosmos_simps
  using ref_moves_Send ref_moves_Subtract ref_moves_Add ref_moves_InputOutput ref_Subtract_valid
    ref_SetCoins_law ref_SetCoins_exists
  by (simp add: ref_AddCoins_def ref_coins_def coins_sorted_norm split: option.split)

lemma ref_coins_SetCoins:
  "ref_coins (ref_SetCoins a cs b) x = (if x = a then coins_norm cs else ref_coins b x)"
  by (simp add: ref_coins_def ref_SetCoins_def map_of_al_set)

lemma ref_balance: "balance ref_cosmos b x d = ref_AmountOf (ref_coins b x) d"
  by (simp add: balance_def)

lemma ref_balance_Add:
  "ref_AddCoins a amt b = (Ok u, b') \<Longrightarrow> ref_AmountOf (ref_coins b' x) d =
     ref_AmountOf (ref_coins b x) d + (if x = a then ref_AmountOf amt d else 0)"
  by (auto simp: ref_AddCoins_def ref_coins_SetCoins ref_Add_AmountOf split: if_splits)

lemma ref_balance_Subtract:
  "ref_SubtractCoins a amt b = (Ok u, b') \<Longrightarrow> ref_AmountOf (ref_coins b' x) d =
     ref_AmountOf (ref_coins b x) d - (if x = a then ref_AmountOf amt d else 0)"
  by (auto simp: ref_SubtractCoins_def ref_SafeSub_def Let_def ref_coins_SetCoins ref_Add_AmountOf
      split: if_splits prod.splits bool.splits)

lemma ref_balance_Send:
  "ref_SendCoins a c amt b = (Ok u, b') \<Longrightarrow> ref_AmountOf (ref_coins b' x) d =
     ref_AmountOf (ref_coins b x) d - (if x = a then ref_AmountOf amt d else 0)
       + (if x = c then ref_AmountOf amt d else 0)"
  by (auto simp: ref_SendCoins_def and_then_Ok ref_balance_Add ref_balance_Subtract)

lemma exists_SetCoins: "map_of (accounts b) x \<noteq> None \<Longrightarrow> map_of (accounts (ref_SetCoins a cs b)) x \<noteq> None"
  by (simp add: ref_SetCoins_def map_of_al_set)

lemma ref_exists_Add: "ref_AddCoins a amt b = (r, b') \<Longrightarrow> map_of (accounts b) x \<noteq> None \<Longrightarrow> map_of (accounts b') x \<noteq> None"
  using exists_SetCoins by (auto simp: ref_AddCoins_def split: if_splits)

lemma ref_exists_Subtract:
  "ref_SubtractCoins a amt b = (r, b') \<Longrightarrow> map_of (accounts b) x \<noteq> None \<Longrightarrow> map_of (accounts b') x \<noteq> None"
  using exists_SetCoins by (auto simp: ref_SubtractCoins_def split: if_splits prod.splits bool.splits)

lemma ref_exists_Send:
  "ref_SendCoins a c amt b = (r, b') \<Longrightarrow> map_of (accounts b) x \<noteq> None \<Longrightarrow> map_of (accounts b') x \<noteq> None"
  using ref_exists_Add ref_exists_Subtract
  by (auto simp: ref_SendCoins_def and_then_def split: prod.splits ret.splits)

lemma ref_exists_foreach:
  assumes "\<And>e b r b'. f e b = (r, b') \<Longrightarrow> map_of (accounts b) x \<noteq> None \<Longrightarrow> map_of (accounts b') x \<noteq> None"
  shows "foreach f es b = (r, b') \<Longrightarrow> map_of (accounts b) x \<noteq> None \<Longrightarrow> map_of (accounts b') x \<noteq> None"
proof (induction es arbitrary: b)
  case Nil
  then show ?case by (simp add: return_def)
next
  case (Cons e es)
  obtain r1 b1 where e: "f e b = (r1, b1)" by (cases "f e b")
  have b1: "map_of (accounts b1) x \<noteq> None" by (rule assms [OF e Cons.prems(2)])
  from Cons.prems(1) e show ?case
    by (cases r1) (use b1 Cons.IH in \<open>auto simp: and_then_def\<close>)
qed

lemma ref_exists_InputOutput:
  assumes "ref_InputOutput ins outs b = (r, b')" and ex: "map_of (accounts b) x \<noteq> None"
  shows "map_of (accounts b') x \<noteq> None"
proof -
  obtain r1 b1 where run: "and_then (foreach (\<lambda>(a, cs). ref_SubtractCoins a cs) ins)
      (\<lambda>_. foreach (\<lambda>(a, cs). ref_AddCoins a cs) outs) b = (r1, b1)"
    by (metis surj_pair)
  obtain r2 b2 where sub: "foreach (\<lambda>(a, cs). ref_SubtractCoins a cs) ins b = (r2, b2)"
    by (metis surj_pair)
  have b2: "map_of (accounts b2) x \<noteq> None"
    by (rule ref_exists_foreach [OF _ sub ex]) (use ref_exists_Subtract in auto)
  have b1: "map_of (accounts b1) x \<noteq> None"
  proof (cases r2)
    case (Ok u)
    then have "foreach (\<lambda>(a, cs). ref_AddCoins a cs) outs b2 = (r1, b1)"
      using run sub by (simp add: and_then_def)
    from this b2 show ?thesis
      by (rule ref_exists_foreach [rotated]) (use ref_exists_Add in auto)
  qed (use run sub b2 in \<open>auto simp: and_then_def\<close>)
  show ?thesis
    using assms(1) run b1 ex by (cases r1) (auto simp: ref_InputOutput_def split: if_splits)
qed

lemma ref_balance_ok: "balance_ok ref_cosmos"
proof -
  have set: "ref_coins (if map_of (accounts b) a = None then b else ref_SetCoins a cs b) x =
      (if x = a then cs else ref_coins b x)"
    if "coins_sorted cs" "map_of (accounts b) a \<noteq> None" for cs a b x
    using that by (auto simp: ref_coins_SetCoins coins_norm_sorted)
  have ex: "map_of (accounts b') a \<noteq> None" if "ref_AddCoins a amt b = (Ok u, b')" for a amt b u b'
    using that by (auto simp: ref_AddCoins_def ref_SetCoins_def map_of_al_set split: if_splits)
  have ex_sub: "map_of (accounts b') a \<noteq> None" if "ref_SubtractCoins a amt b = (Ok u, b')" for a amt b u b'
    using that by (auto simp: ref_SubtractCoins_def ref_SetCoins_def map_of_al_set
        split: if_splits prod.splits bool.splits)
  show ?thesis
    unfolding balance_ok_def ref_balance grows_def ref_cosmos_simps
    by (intro conjI allI impI)
      ((rule ref_balance_Add ref_balance_Subtract ref_balance_Send set ref_exists_Add
          ref_exists_Subtract ref_exists_Send ref_exists_InputOutput ex ex_sub; assumption)+)
qed

theorem ref_cosmos_ok: "cosmos_ok ref_cosmos ref_tot"
  by (simp add: cosmos_ok_def ref_addr_ok ref_keys_ok ref_int_ok ref_dec_ok ref_coins_ok ref_bank_ok
      ref_balance_ok)

end
