(* ===== verification/KVStore.thy ===== *)
theory KVStore
  imports Prelude
begin

section \<open>Key-value stores\<close>

text \<open>
  What \<open>ctx.KVStore(key)\<close> gives a module: a map from byte strings to values that is iterated in
  the order of its keys. The values are kept decoded (the codec's marshalling and unmarshalling
  are inverse to each other). The state of a module holds its store as a list of entries with
  strictly increasing keys; the locale \<open>kv_store\<close> is the interface the keepers rely on, proved
  here for that representation.
\<close>

type_synonym 'v kv = "(string \<times> 'v) list"

subsection \<open>The representation\<close>

definition kv_get :: "'v kv \<Rightarrow> string \<Rightarrow> 'v option" where
  "kv_get st k = map_of st k"

definition kv_has :: "'v kv \<Rightarrow> string \<Rightarrow> bool" where
  "kv_has st k = (kv_get st k \<noteq> None)"

fun kv_set :: "string \<Rightarrow> 'v \<Rightarrow> 'v kv \<Rightarrow> 'v kv" where
  "kv_set k v [] = [(k, v)]"
| "kv_set k v ((k', v') # st) =
     (if k < k' then (k, v) # (k', v') # st
      else if k = k' then (k, v) # st
      else (k', v') # kv_set k v st)"

definition kv_delete :: "string \<Rightarrow> 'v kv \<Rightarrow> 'v kv" where
  "kv_delete k st = filter (\<lambda>e. fst e \<noteq> k) st"

text \<open>
  \<open>store.Iterator(start, end)\<close> visits the keys from \<open>start\<close> to before \<open>end\<close> in order,
  \<open>ReverseIterator\<close> visits the same keys backwards, and \<open>sdk.KVStorePrefixIterator\<close> visits the
  keys with a given prefix.
\<close>

definition kv_iterator :: "string \<Rightarrow> string \<Rightarrow> 'v kv \<Rightarrow> 'v kv" where
  "kv_iterator lo hi st = filter (\<lambda>e. lo \<le> fst e \<and> fst e < hi) st"

definition kv_reverse_iterator :: "string \<Rightarrow> string \<Rightarrow> 'v kv \<Rightarrow> 'v kv" where
  "kv_reverse_iterator lo hi st = rev (kv_iterator lo hi st)"

definition kv_prefix_iterator :: "string \<Rightarrow> 'v kv \<Rightarrow> 'v kv" where
  "kv_prefix_iterator p st = filter (\<lambda>e. take (length p) (fst e) = p) st"

definition kv_ok :: "'v kv \<Rightarrow> bool" where
  "kv_ok st \<longleftrightarrow> sorted_wrt (<) (map fst st)"

subsection \<open>The interface\<close>

locale kv_store =
  fixes empty :: "'st"
    and get :: "'st \<Rightarrow> string \<Rightarrow> 'v option"
    and set_key :: "string \<Rightarrow> 'v \<Rightarrow> 'st \<Rightarrow> 'st"
    and delete :: "string \<Rightarrow> 'st \<Rightarrow> 'st"
    and entries :: "'st \<Rightarrow> (string \<times> 'v) list"
    and ok :: "'st \<Rightarrow> bool"
  assumes ok_empty: "ok empty"
    and ok_set: "ok st \<Longrightarrow> ok (set_key k v st)"
    and ok_delete: "ok st \<Longrightarrow> ok (delete k st)"
    and get_empty: "get empty k = None"
    and get_set: "get (set_key k v st) k' = (if k' = k then Some v else get st k')"
    and get_delete: "get (delete k st) k' = (if k' = k then None else get st k')"
    and entries_sorted: "ok st \<Longrightarrow> sorted_wrt (<) (map fst (entries st))"
    and get_entries: "ok st \<Longrightarrow> get st k = Some v \<longleftrightarrow> (k, v) \<in> set (entries st)"
begin

lemma entries_distinct: "ok st \<Longrightarrow> distinct (map fst (entries st))"
  using entries_sorted [of st] strict_sorted_iff by blast

text \<open>Deleting a list of keys, one after another, as the keepers' clean-up loops do.\<close>

lemma get_delete_all: "get (fold delete ks st) k = (if k \<in> set ks then None else get st k)"
  by (induction ks arbitrary: st) (auto simp: get_delete)

lemma ok_delete_all: "ok st \<Longrightarrow> ok (fold delete ks st)"
  by (induction ks arbitrary: st) (auto simp: ok_delete)

text \<open>An iterator over a range visits exactly the entries whose keys lie in it, in order.\<close>

lemma range_exact:
  "ok st \<Longrightarrow> (k, v) \<in> set (filter (\<lambda>e. lo \<le> fst e \<and> fst e < hi) (entries st)) \<longleftrightarrow>
     get st k = Some v \<and> lo \<le> k \<and> k < hi"
  by (auto simp: get_entries)

lemma range_sorted:
  "ok st \<Longrightarrow> sorted_wrt (<) (map fst (filter P (entries st)))"
  using entries_sorted [of st] by (simp add: sorted_wrt_map sorted_wrt_filter)

end

subsection \<open>The representation meets the interface\<close>

lemma kv_get_set [simp]: "kv_get (kv_set k v st) k' = (if k' = k then Some v else kv_get st k')"
  by (induction st) (auto simp: kv_get_def)

lemma kv_get_delete [simp]: "kv_get (kv_delete k st) k' = (if k' = k then None else kv_get st k')"
  by (induction st) (auto simp: kv_get_def kv_delete_def)

lemma kv_get_Nil [simp]: "kv_get [] k = None"
  by (simp add: kv_get_def)

lemma set_kv_set: "set (map fst (kv_set k v st)) = insert k (set (map fst st))"
proof (induction st)
  case Nil
  then show ?case by simp
next
  case (Cons e st)
  then show ?case by (cases e) (simp add: insert_commute)
qed

lemma kv_ok_Nil [simp]: "kv_ok []"
  by (simp add: kv_ok_def)

lemma kv_ok_set [simp]: "kv_ok st \<Longrightarrow> kv_ok (kv_set k v st)"
proof (induction st)
  case Nil
  then show ?case by (simp add: kv_ok_def)
next
  case (Cons e st)
  obtain k' v' where e: "e = (k', v')" by (cases e)
  have st: "kv_ok st" and less: "\<forall>x \<in> set (map fst st). k' < x"
    using Cons.prems by (auto simp: kv_ok_def e)
  have "kv_ok (kv_set k v st)" by (rule Cons.IH [OF st])
  moreover have "\<forall>x \<in> set (map fst (kv_set k v st)). k' < x" if "k' < k"
    using less that by (simp only: set_kv_set) auto
  ultimately show ?case
    using Cons.prems less by (auto simp: kv_ok_def e not_less intro: less_trans)
qed

lemma kv_ok_delete [simp]: "kv_ok st \<Longrightarrow> kv_ok (kv_delete k st)"
  by (simp add: kv_ok_def kv_delete_def sorted_wrt_map sorted_wrt_filter)

lemma kv_ok_distinct: "kv_ok st \<Longrightarrow> distinct (map fst st)"
  unfolding kv_ok_def using strict_sorted_iff by blast

lemma kv_get_Some: "kv_ok st \<Longrightarrow> kv_get st k = Some v \<longleftrightarrow> (k, v) \<in> set st"
  by (simp add: kv_get_def kv_ok_distinct)

interpretation alist: kv_store "[]" kv_get kv_set kv_delete "\<lambda>st. st" kv_ok
  by unfold_locales (simp_all add: kv_get_Some, simp add: kv_ok_def)

lemma kv_iterator_exact:
  "kv_ok st \<Longrightarrow> (k, v) \<in> set (kv_iterator lo hi st) \<longleftrightarrow> kv_get st k = Some v \<and> lo \<le> k \<and> k < hi"
  unfolding kv_iterator_def by (rule alist.range_exact)

lemma kv_iterator_sorted: "kv_ok st \<Longrightarrow> sorted_wrt (<) (map fst (kv_iterator lo hi st))"
  unfolding kv_iterator_def by (rule alist.range_sorted)

lemma kv_prefix_exact:
  "kv_ok st \<Longrightarrow> (k, v) \<in> set (kv_prefix_iterator p st) \<longleftrightarrow>
     kv_get st k = Some v \<and> take (length p) k = p"
  by (auto simp: kv_prefix_iterator_def kv_get_Some)

subsection \<open>Sums over a store\<close>

text \<open>How much the values of a store add up to, and how \<open>kv_set\<close> and \<open>kv_delete\<close> change it.\<close>

definition kv_sum :: "('v \<Rightarrow> int) \<Rightarrow> 'v kv \<Rightarrow> int" where
  "kv_sum f st = sum_list (map (\<lambda>e. f (snd e)) st)"

definition kv_val :: "('v \<Rightarrow> int) \<Rightarrow> 'v kv \<Rightarrow> string \<Rightarrow> int" where
  "kv_val f st k = (case kv_get st k of None \<Rightarrow> 0 | Some v \<Rightarrow> f v)"

lemma kv_get_not_in: "k \<notin> set (map fst st) \<Longrightarrow> kv_get st k = None"
  by (induction st) (auto simp: kv_get_def)

lemma kv_sum_set: "kv_ok st \<Longrightarrow> kv_sum f (kv_set k v st) = kv_sum f st - kv_val f st k + f v"
proof (induction st)
  case Nil
  then show ?case by (simp add: kv_sum_def kv_val_def)
next
  case (Cons e st)
  obtain k' v' where e: "e = (k', v')" by (cases e)
  have st: "kv_ok st" and less: "\<forall>x \<in> set (map fst st). k' < x"
    using Cons.prems by (auto simp: kv_ok_def e)
  show ?case
  proof (cases "k < k'")
    case True
    then have "k \<notin> set (map fst (e # st))"
      using less e by fastforce
    with True show ?thesis
      by (simp add: e kv_sum_def kv_val_def kv_get_not_in)
  next
    case False
    then show ?thesis
      using Cons.IH [OF st] by (cases "k = k'") (simp_all add: e kv_sum_def kv_val_def kv_get_def)
  qed
qed

end
