(* ===== verification/AssetToken.thy ===== *)
theory AssetToken
  imports DexTypes KVStore
begin

section \<open>Tokens and the read side of the asset module\<close>

text \<open>
  \<open>src/modules/asset/internal/types\<close>: the token record with its setters, its symbol rules, the
  store keys, the parameters, the errors; and \<open>BaseTokenKeeper\<close> of
  \<open>internal/keepers/keeper.go\<close>, the part of the keeper that the other modules use.
\<close>

subsection \<open>Errors (\<open>errors.go\<close>)\<close>

definition ModuleName_asset :: string where
  "ModuleName_asset = ''asset''"

definition AssetErrInvalidTokenName :: err where "AssetErrInvalidTokenName = ModErr ModuleName_asset 501"
definition AssetErrInvalidTokenSymbol :: err where "AssetErrInvalidTokenSymbol = ModErr ModuleName_asset 502"
definition AssetErrInvalidTokenSupply :: err where "AssetErrInvalidTokenSupply = ModErr ModuleName_asset 503"
definition AssetErrInvalidSendLockAmt :: err where "AssetErrInvalidSendLockAmt = ModErr ModuleName_asset 527"
definition AssetErrInvalidTokenOwner :: err where "AssetErrInvalidTokenOwner = ModErr ModuleName_asset 504"
definition AssetErrInvalidTokenMintAmt :: err where "AssetErrInvalidTokenMintAmt = ModErr ModuleName_asset 505"
definition AssetErrInvalidTokenBurnAmt :: err where "AssetErrInvalidTokenBurnAmt = ModErr ModuleName_asset 506"
definition AssetErrInvalidTokenForbidden :: err where "AssetErrInvalidTokenForbidden = ModErr ModuleName_asset 507"
definition AssetErrInvalidTokenUnForbidden :: err where "AssetErrInvalidTokenUnForbidden = ModErr ModuleName_asset 508"
definition AssetErrInvalidTokenWhitelist :: err where "AssetErrInvalidTokenWhitelist = ModErr ModuleName_asset 509"
definition AssetErrInvalidForbiddenAddress :: err where "AssetErrInvalidForbiddenAddress = ModErr ModuleName_asset 510"
definition AssetErrInvalidTokenURL :: err where "AssetErrInvalidTokenURL = ModErr ModuleName_asset 511"
definition AssetErrInvalidTokenDescription :: err where "AssetErrInvalidTokenDescription = ModErr ModuleName_asset 512"
definition AssetErrInvalidTokenIdentity :: err where "AssetErrInvalidTokenIdentity = ModErr ModuleName_asset 526"
definition AssetErrNilTokenIdentity :: err where "AssetErrNilTokenIdentity = ModErr ModuleName_asset 529"
definition AssetErrTokenNotFound :: err where "AssetErrTokenNotFound = ModErr ModuleName_asset 513"
definition AssetErrDuplicateTokenSymbol :: err where "AssetErrDuplicateTokenSymbol = ModErr ModuleName_asset 514"
definition AssetErrTransferSelfTokenOwner :: err where "AssetErrTransferSelfTokenOwner = ModErr ModuleName_asset 515"
definition AssetErrNilTokenOwner :: err where "AssetErrNilTokenOwner = ModErr ModuleName_asset 516"
definition AssetErrNeedTokenOwner :: err where "AssetErrNeedTokenOwner = ModErr ModuleName_asset 517"
definition AssetErrInvalidIssueOwner :: err where "AssetErrInvalidIssueOwner = ModErr ModuleName_asset 518"
definition AssetErrTokenMintNotSupported :: err where "AssetErrTokenMintNotSupported = ModErr ModuleName_asset 519"
definition AssetErrTokenBurnNotSupported :: err where "AssetErrTokenBurnNotSupported = ModErr ModuleName_asset 520"
definition AssetErrTokenForbiddenNotSupported :: err where "AssetErrTokenForbiddenNotSupported = ModErr ModuleName_asset 521"
definition AssetErrAddressForbiddenNotSupported :: err where "AssetErrAddressForbiddenNotSupported = ModErr ModuleName_asset 522"
definition AssetErrNilTokenWhitelist :: err where "AssetErrNilTokenWhitelist = ModErr ModuleName_asset 523"
definition AssetErrNilForbiddenAddress :: err where "AssetErrNilForbiddenAddress = ModErr ModuleName_asset 524"
definition AssetErrAccInBlackList :: err where "AssetErrAccInBlackList = ModErr ModuleName_asset 528"
definition AssetErrTokenOwnerSelfForbidden :: err where "AssetErrTokenOwnerSelfForbidden = ModErr ModuleName_asset 530"
definition AssetErrInvalidTokenInfo :: err where "AssetErrInvalidTokenInfo = ModErr ModuleName_asset 531"
definition AssetErrCodeTokenInfoSealed :: err where "AssetErrCodeTokenInfoSealed = ModErr ModuleName_asset 532"

subsection \<open>Runes\<close>

text \<open>
  \<open>utf8.RuneCountInString\<close> of Go's standard library: a byte that does not start a valid encoding
  counts as one rune.
\<close>

definition cont_byte :: "nat \<Rightarrow> nat \<Rightarrow> char \<Rightarrow> bool" where
  "cont_byte lo hi c = (lo \<le> of_char c \<and> of_char c \<le> hi)"

definition rune_size :: "string \<Rightarrow> nat" where
  "rune_size s = (case s of [] \<Rightarrow> 1 | c # cs \<Rightarrow>
     (let b = of_char c :: nat;
          (n, lo, hi) =
            (if 194 \<le> b \<and> b \<le> 223 then (2, 128, 191)
             else if b = 224 then (3, 160, 191)
             else if b = 237 then (3, 128, 159)
             else if 225 \<le> b \<and> b \<le> 239 then (3, 128, 191)
             else if b = 240 then (4, 144, 191)
             else if 241 \<le> b \<and> b \<le> 243 then (4, 128, 191)
             else if b = 244 then (4, 128, 143)
             else (1, 128, 191))
      in if n - 1 \<le> length cs \<and> (n = 1 \<or> cont_byte lo hi (hd cs)) \<and>
            list_all (cont_byte 128 191) (drop 1 (take (n - 1) cs))
         then n else 1))"

fun RuneCount :: "string \<Rightarrow> nat" where
  "RuneCount [] = 0"
| "RuneCount (c # cs) = Suc (RuneCount (drop (rune_size (c # cs) - 1) cs))"

subsection \<open>Symbols\<close>

definition is_lower :: "char \<Rightarrow> bool" where
  "is_lower c = (CHR ''a'' \<le> c \<and> c \<le> CHR ''z'')"

definition is_alnum :: "char \<Rightarrow> bool" where
  "is_alnum c = (is_lower c \<or> (CHR ''0'' \<le> c \<and> c \<le> CHR ''9''))"

text \<open>
  The regular expression \<open>^[a-z][a-z0-9]{1,13}([a-z0-9]{1,2}|(\.[a-z]))?$\<close>, read from left to
  right: a letter, \<open>k\<close> letters or digits, and the optional end.
\<close>

definition symbol_end :: "string \<Rightarrow> bool" where
  "symbol_end s \<longleftrightarrow> s = [] \<or> (length s \<in> {1, 2} \<and> list_all is_alnum s) \<or>
     (length s = 2 \<and> hd s = CHR ''.'' \<and> is_lower (hd (tl s)))"

definition tokenSymbolRegex :: "string \<Rightarrow> bool" where
  "tokenSymbolRegex s = (case s of [] \<Rightarrow> False | c # cs \<Rightarrow>
     is_lower c \<and> list_ex (\<lambda>k. k \<le> length cs \<and> list_all is_alnum (take k cs) \<and>
       symbol_end (drop k cs)) [1..<14])"

definition ValidateTokenSymbol :: "string \<Rightarrow> unit ret" where
  "ValidateTokenSymbol symbol =
     (if tokenSymbolRegex symbol then Ok () else Err AssetErrInvalidTokenSymbol)"

definition IsSuffixSymbol :: "string \<Rightarrow> bool" where
  "IsSuffixSymbol symbol = (CHR ''.'' \<in> set symbol)"

definition reserved :: "string list" where
  "reserved = [
    ''btc'', ''eth'', ''xrp'', ''bch'', ''usdt'', ''ltc'', ''eos'', ''bnb'', ''bsv'', ''xlm'',
    ''trx'', ''ada'', ''xmr'', ''leo'', ''ht'', ''link'', ''xtz'', ''neo'', ''miota'', ''atom'',
    ''mkr'', ''dash'', ''etc'', ''ont'', ''usdc'', ''cro'', ''xem'', ''bat'', ''doge'', ''vet'',
    ''zec'', ''pax'', ''hedg'', ''qtum'', ''dcr'', ''zrx'', ''tusd'', ''hot'', ''btg'',
    ''cennz'', ''vsys'', ''rvn'', ''omg'', ''zb'', ''btm'', ''nano'', ''luna'', ''rep'', ''snx'',
    ''abbc'', ''algo'', ''ekt'', ''kcs'', ''dai'', ''btt'', ''lsk'', ''bcd'', ''icx'', ''dgb'',
    ''sc'', ''hc'', ''qnt'', ''kmd'', ''waves'', ''bts'', ''bcn'', ''theta'', ''sxp'', ''kbc'',
    ''iost'', ''mona'', ''ftt'', ''ae'', ''mco'', ''dx'', ''xvg'', ''maid'', ''nexo'', ''seele'',
    ''zil'', ''nrg'', ''ardr'', ''aoa'', ''rlc'', ''chz'', ''enj'', ''steem'', ''rif'', ''elf'',
    ''snt'', ''ren'', ''npxs'', ''gnt'', ''xzc'', ''crpt'', ''new'', ''hpt'', ''ilc'', ''solve'',
    ''ode'', ''zen'', ''nex'', ''lamb'', ''gxc'', ''etn'', ''matic'', ''xmx'', ''mof'', ''eurs'',
    ''drg'', ''win'', ''bcv'', ''ela'', ''wtc'', ''mana'', ''strat'', ''dgtx'', ''nas'',
    ''aion'', ''etp'', ''brd'', ''grin'', ''beam'', ''pai'', ''nuls'', ''knc'', ''tt'', ''tnt'',
    ''lrc'', ''wicc'', ''cvc'', ''true'', ''ppt'', ''fct'', ''ignis'', ''rdd'', ''dgd'', ''ftm'',
    ''fet'', ''ark'', ''rcn'', ''gt'', ''wan'', ''fun'', ''tomo'', ''you'', ''ant'', ''r'',
    ''hbar'', ''eng'', ''waxp'', ''iotx'', ''loom'', ''lina'', ''hyn'', ''dcn'', ''orbs'',
    ''edc'', ''bhp'', ''busd'', ''qash'', ''man'', ''powr'', ''bnt'', ''c20'', ''dag'', ''dent'',
    ''storj'', ''mtl'', ''nxs'', ''uni'', ''san'', ''gno'', ''kan'', ''cocos'', ''rox'',
    ''stream'', ''grs'', ''abt'', ''bix'', ''cs'', ''cmt'', ''edo'', ''one'', ''tel'', ''gas'',
    ''fx'', ''medx'', ''adn'', ''celr'', ''sys'', ''wxt'', ''erd'', ''wgr'', ''lend'', ''mda'',
    ''dpt'', ''loki'', ''iris'', ''egt'', ''ont'', ''grin'', ''gnt'', ''atom'', ''qtum'',
    ''eth'', ''btc'', ''omg'', ''ae'', ''wings'', ''btm'', ''eosc'', ''dcr'', ''loom'', ''olt'',
    ''neo'', ''icx'', ''bat'', ''etc'', ''kmd'', ''xzc'', ''dash'', ''iota'', ''btt'', ''vet'',
    ''okb'', ''xtz'', ''link'', ''stx'', ''algo'', ''hot'', ''cnn'', ''tusd'', ''lsk'', ''ltc'',
    ''zil'', ''xrp'', ''zec'', ''vsys'', ''bch'', ''ada'', ''cmt'', ''cody'', ''nano'', ''zrx'',
    ''hydro'', ''trx'', ''cet'', ''seele'', ''doge'', ''dot'', ''ftt'', ''bsv'', ''hc'', ''btu'',
    ''iost'', ''sai'', ''xmr'', ''dero'', ''eos'', ''spice'', ''xvg'', ''spok'', ''ong'',
    ''rvn'', ''sys'', ''usdh'', ''xem'', ''dgb'', ''bnb'', ''nnb'', ''xlm'', ''waves'', ''ela'',
    ''ardr'', ''ult'', ''usdt'', ''usdc'', ''lamb'', ''sc'', ''kan'', ''ckb'', ''ht'', ''pax'',
    ''ctxc'', ''gusd'', ''gram'', ''trtl'', ''vtho'', ''akro'', ''whc'', ''lfc'', ''tct'',
    ''gas'', ''egt'', ''fcny'', ''usd'', ''all'', ''dzd'', ''ars'', ''amd'', ''aud'', ''azn'',
    ''bhd'', ''bdt'', ''byn'', ''bmd'', ''bob'', ''bam'', ''brl'', ''bgn'', ''khr'', ''cad'',
    ''clp'', ''cny'', ''cop'', ''crc'', ''hrk'', ''cup'', ''czk'', ''dkk'', ''dop'', ''egp'',
    ''eur'', ''gel'', ''ghs'', ''gtq'', ''hnl'', ''hkd'', ''huf'', ''isk'', ''inr'', ''idr'',
    ''irr'', ''iqd'', ''ils'', ''jmd'', ''jpy'', ''jod'', ''kzt'', ''kes'', ''kwd'', ''kgs'',
    ''lbp'', ''mkd'', ''myr'', ''mur'', ''mxn'', ''mdl'', ''mnt'', ''mad'', ''mmk'', ''nad'',
    ''npr'', ''twd'', ''nzd'', ''nio'', ''ngn'', ''nok'', ''omr'', ''pkr'', ''pab'', ''pen'',
    ''php'', ''pln'', ''gbp'', ''qar'', ''ron'', ''rub'', ''sar'', ''rsd'', ''sgd'', ''zar'',
    ''krw'', ''ssp'', ''ves'', ''lkr'', ''sek'', ''chf'', ''thb'', ''ttd'', ''tnd'', ''try'',
    ''ugx'', ''uah'', ''aed'', ''uyu'', ''uzs'', ''vnd'', ''xau'', ''xag'', ''xpt'', ''xpd'',
    ''libra'', ''cet'', ''rmb'', ''dcep'', ''coinex'', ''viabtc'', ''matrix'', ''bitmain'']"

definition IsReservedSymbol :: "string \<Rightarrow> bool" where
  "IsReservedSymbol symbol = (symbol \<in> set reserved)"

subsection \<open>Tokens (\<open>token.go\<close>)\<close>

definition MaxTokenIdentityLength :: nat where "MaxTokenIdentityLength = 3000"
definition MaxTokenURLLength :: nat where "MaxTokenURLLength = 100"
definition MaxTokenDescriptionLength :: nat where "MaxTokenDescriptionLength = 1024"

definition DoNotModifyTokenInfo :: string where
  "DoNotModifyTokenInfo = ''[do-not-modify]''"

record token =
  Name :: string
  Symbol :: string
  TotalSupply :: int
  SendLock :: int
  Owner :: addr
  Mintable :: bool
  Burnable :: bool
  AddrForbiddable :: bool
  TokenForbiddable :: bool
  TotalBurn :: int
  TotalMint :: int
  IsForbidden :: bool
  URL :: string
  Description :: string
  Identity :: string

text \<open>The zero value of the struct, which \<open>NewToken\<close> starts from (the integers are set before use).\<close>

definition zero_token :: token where
  "zero_token = \<lparr>Name = [], Symbol = [], TotalSupply = 0, SendLock = 0, Owner = [],
     Mintable = False, Burnable = False, AddrForbiddable = False, TokenForbiddable = False,
     TotalBurn = 0, TotalMint = 0, IsForbidden = False, URL = [], Description = [], Identity = []\<rparr>"

definition SetName :: "string \<Rightarrow> token \<Rightarrow> token ret" where
  "SetName x t = (if RuneCount x > 32 then Err AssetErrInvalidTokenName else Ok (t\<lparr>Name := x\<rparr>))"

definition SetSymbol :: "string \<Rightarrow> token \<Rightarrow> token ret" where
  "SetSymbol x t = ret_map (\<lambda>_. t\<lparr>Symbol := x\<rparr>) (ValidateTokenSymbol x)"

definition SetTotalSupply :: "int \<Rightarrow> token \<Rightarrow> token ret" where
  "SetTotalSupply x t = (if \<not> 0 < x then Err AssetErrInvalidTokenSupply else Ok (t\<lparr>TotalSupply := x\<rparr>))"

definition SetSendLock :: "int \<Rightarrow> token \<Rightarrow> token ret" where
  "SetSendLock x t = (if x < 0 then Err AssetErrInvalidSendLockAmt else Ok (t\<lparr>SendLock := x\<rparr>))"

definition SetOwner :: "addr \<Rightarrow> token \<Rightarrow> token ret" where
  "SetOwner x t = (if x = [] then Err AssetErrNilTokenOwner else Ok (t\<lparr>Owner := x\<rparr>))"

definition SetURL :: "string \<Rightarrow> token \<Rightarrow> token ret" where
  "SetURL x t = (if RuneCount x > MaxTokenURLLength then Err AssetErrInvalidTokenURL
     else Ok (t\<lparr>URL := x\<rparr>))"

definition SetDescription :: "string \<Rightarrow> token \<Rightarrow> token ret" where
  "SetDescription x t = (if length x > MaxTokenDescriptionLength
     then Err AssetErrInvalidTokenDescription else Ok (t\<lparr>Description := x\<rparr>))"

definition SetIdentity :: "string \<Rightarrow> token \<Rightarrow> token ret" where
  "SetIdentity x t = (if length x > MaxTokenIdentityLength then Err AssetErrInvalidTokenIdentity
     else if x = [] then Err AssetErrNilTokenIdentity else Ok (t\<lparr>Identity := x\<rparr>))"

definition SetTotalBurn :: "int \<Rightarrow> token \<Rightarrow> token ret" where
  "SetTotalBurn x t = (if x < 0 then Err AssetErrInvalidTokenBurnAmt else Ok (t\<lparr>TotalBurn := x\<rparr>))"

definition SetTotalMint :: "int \<Rightarrow> token \<Rightarrow> token ret" where
  "SetTotalMint x t = (if x < 0 then Err AssetErrInvalidTokenMintAmt else Ok (t\<lparr>TotalMint := x\<rparr>))"

definition NewToken ::
    "string \<Rightarrow> string \<Rightarrow> int \<Rightarrow> addr \<Rightarrow> bool \<Rightarrow> bool \<Rightarrow> bool \<Rightarrow> bool \<Rightarrow> string \<Rightarrow> string \<Rightarrow> string \<Rightarrow> token ret" where
  "NewToken name symbol totalSupply owner mintable burnable addrForbiddable tokenForbiddable
     url description identity =
     ret_bind (SetName name zero_token) (\<lambda>t.
     ret_bind (SetOwner owner t) (\<lambda>t.
     ret_bind (SetSymbol symbol t) (\<lambda>t.
     ret_bind (SetTotalSupply totalSupply t) (\<lambda>t.
     ret_bind (SetURL url t) (\<lambda>t.
     ret_bind (SetDescription description t) (\<lambda>t.
     ret_bind (SetIdentity identity t) (\<lambda>t.
     let t = t\<lparr>Mintable := mintable, Burnable := burnable,
               AddrForbiddable := addrForbiddable, TokenForbiddable := tokenForbiddable\<rparr> in
     ret_bind (SetTotalMint 0 t) (\<lambda>t.
     ret_bind (SetTotalBurn 0 t) (\<lambda>t.
     ret_bind (SetSendLock 0 t) (\<lambda>t.
     Ok (t\<lparr>IsForbidden := False\<rparr>)))))))))))"

definition token_Validate :: "token \<Rightarrow> unit ret" where
  "token_Validate t =
     ret_bind (NewToken (Name t) (Symbol t) (TotalSupply t) (Owner t) (Mintable t) (Burnable t)
       (AddrForbiddable t) (TokenForbiddable t) (URL t) (Description t) (Identity t)) (\<lambda>_.
     if \<not> TokenForbiddable t \<and> IsForbidden t then Err AssetErrTokenForbiddenNotSupported
     else if \<not> Mintable t \<and> 0 < TotalMint t then Err AssetErrTokenMintNotSupported
     else if \<not> Burnable t \<and> 0 < TotalBurn t then Err AssetErrTokenBurnNotSupported
     else if TotalBurn t < 0 then Err AssetErrInvalidTokenBurnAmt
     else if TotalMint t < 0 then Err AssetErrInvalidTokenMintAmt
     else if SendLock t < 0 then Err AssetErrInvalidSendLockAmt
     else Ok ())"

definition NewTokenCoins :: "'z sdk_scheme \<Rightarrow> string \<Rightarrow> int \<Rightarrow> coins ret" where
  "NewTokenCoins S denom amount = ret_bind (NewCoin S denom amount) (\<lambda>c. NewCoins S [c])"

subsection \<open>Parameters (\<open>params.go\<close>)\<close>

record asset_params =
  IssueTokenFee :: int
  IssueRareTokenFee :: int
  Issue3CharTokenFee :: int
  Issue4CharTokenFee :: int
  Issue5CharTokenFee :: int
  Issue6CharTokenFee :: int

definition asset_DefaultParams :: asset_params where
  "asset_DefaultParams = \<lparr>
     IssueTokenFee = 5000000000,
     IssueRareTokenFee = 1000000000000,
     Issue3CharTokenFee = 100000000000,
     Issue4CharTokenFee = 50000000000,
     Issue5CharTokenFee = 20000000000,
     Issue6CharTokenFee = 10000000000\<rparr>"

definition asset_params_ValidateGenesis :: "asset_params \<Rightarrow> unit ret" where
  "asset_params_ValidateGenesis p =
     (if list_ex (\<lambda>fee. fee \<le> 0) [IssueTokenFee p, IssueRareTokenFee p, Issue3CharTokenFee p,
         Issue4CharTokenFee p, Issue5CharTokenFee p, Issue6CharTokenFee p]
      then Err PlainErr else Ok ())"

definition GetIssueTokenFee :: "asset_params \<Rightarrow> string \<Rightarrow> int" where
  "GetIssueTokenFee p symbol =
     (let n = length symbol in
      if n = 2 then IssueRareTokenFee p
      else if n = 3 then Issue3CharTokenFee p
      else if n = 4 then Issue4CharTokenFee p
      else if n = 5 then Issue5CharTokenFee p
      else if n = 6 then Issue6CharTokenFee p
      else IssueTokenFee p)"

subsection \<open>Store keys (\<open>keys.go\<close>)\<close>

definition SeparateKey :: string where "SeparateKey = [byte 58]"
definition TokenKey :: string where "TokenKey = [byte 1]"
definition WhitelistKey :: string where "WhitelistKey = [byte 2]"
definition ForbiddenAddrKey :: string where "ForbiddenAddrKey = [byte 3]"

definition GetTokenStoreKey :: "string \<Rightarrow> string" where
  "GetTokenStoreKey symbol = TokenKey @ symbol"

definition GetWhitelistKeyPrefix :: "string \<Rightarrow> string" where
  "GetWhitelistKeyPrefix symbol = WhitelistKey @ symbol @ SeparateKey"

definition GetWhitelistStoreKey :: "string \<Rightarrow> addr \<Rightarrow> string" where
  "GetWhitelistStoreKey symbol a = WhitelistKey @ symbol @ SeparateKey @ a"

definition GetForbiddenAddrKeyPrefix :: "string \<Rightarrow> string" where
  "GetForbiddenAddrKeyPrefix symbol = ForbiddenAddrKey @ symbol @ SeparateKey"

definition GetForbiddenAddrStoreKey :: "string \<Rightarrow> addr \<Rightarrow> string" where
  "GetForbiddenAddrStoreKey symbol a = ForbiddenAddrKey @ symbol @ SeparateKey @ a"

subsection \<open>The store\<close>

text \<open>
  The keys with prefix \<open>TokenKey\<close> hold tokens, those with the prefixes of the two address lists an
  empty value.
\<close>

datatype asset_val = VToken token | VMark

record 'b asset_state = "'b base_state" +
  asset_store :: "asset_val kv"
  asset_params :: asset_params

definition GetToken :: "('b, 'z) asset_state_scheme \<Rightarrow> string \<Rightarrow> token option" where
  "GetToken s symbol = (case kv_get (asset_store s) (GetTokenStoreKey symbol) of
      Some (VToken t) \<Rightarrow> Some t | _ \<Rightarrow> None)"

definition token_of :: "asset_val \<Rightarrow> token option" where
  "token_of v = (case v of VToken t \<Rightarrow> Some t | VMark \<Rightarrow> None)"

definition GetAllTokens :: "('b, 'z) asset_state_scheme \<Rightarrow> token list" where
  "GetAllTokens s = List.map_filter (\<lambda>e. token_of (snd e)) (kv_prefix_iterator TokenKey (asset_store s))"

definition GetWhitelist :: "('b, 'z) asset_state_scheme \<Rightarrow> string \<Rightarrow> addr list" where
  "GetWhitelist s symbol =
     map (\<lambda>e. drop (length (GetWhitelistKeyPrefix symbol)) (fst e))
       (kv_prefix_iterator (GetWhitelistKeyPrefix symbol) (asset_store s))"

definition GetForbiddenAddresses :: "('b, 'z) asset_state_scheme \<Rightarrow> string \<Rightarrow> addr list" where
  "GetForbiddenAddresses s symbol =
     map (\<lambda>e. drop (length (GetForbiddenAddrKeyPrefix symbol)) (fst e))
       (kv_prefix_iterator (GetForbiddenAddrKeyPrefix symbol) (asset_store s))"

definition IsTokenForbidden :: "('b, 'z) asset_state_scheme \<Rightarrow> string \<Rightarrow> bool" where
  "IsTokenForbidden s symbol = (case GetToken s symbol of
      Some t \<Rightarrow> IsForbidden t | None \<Rightarrow> True)"

definition IsTokenExists :: "('b, 'z) asset_state_scheme \<Rightarrow> string \<Rightarrow> bool" where
  "IsTokenExists s symbol = (GetToken s symbol \<noteq> None)"

definition IsTokenIssuer :: "('b, 'z) asset_state_scheme \<Rightarrow> string \<Rightarrow> addr \<Rightarrow> bool" where
  "IsTokenIssuer s symbol a = (if a = [] then False else (case GetToken s symbol of
      None \<Rightarrow> False | Some t \<Rightarrow> Owner t = a))"

definition IsForbiddenByTokenIssuer :: "('b, 'z) asset_state_scheme \<Rightarrow> string \<Rightarrow> addr \<Rightarrow> bool" where
  "IsForbiddenByTokenIssuer s symbol a = (case GetToken s symbol of
      None \<Rightarrow> True
    | Some t \<Rightarrow>
        if kv_has (asset_store s) (GetForbiddenAddrStoreKey symbol a) then True
        else if \<not> IsForbidden t then False
        else if kv_has (asset_store s) (GetWhitelistStoreKey symbol a) then False
        else if Owner t = a then False
        else True)"

definition SetToken :: "token \<Rightarrow> (('b, 'z) asset_state_scheme, unit) op" where
  "SetToken t = modify (\<lambda>s. s\<lparr>asset_store := kv_set (GetTokenStoreKey (Symbol t)) (VToken t) (asset_store s)\<rparr>)"

definition UpdateTokenSendLock ::
    "'y sdk_scheme \<Rightarrow> string \<Rightarrow> int \<Rightarrow> bool \<Rightarrow> (('b, 'z) asset_state_scheme, unit) op" where
  "UpdateTokenSendLock S symbol amount lock s =
     (case GetToken s symbol of
        None \<Rightarrow> (Err AssetErrTokenNotFound, s)
      | Some t \<Rightarrow>
          and_then (lift (ret_bind
              (if lock then int_Add S (SendLock t) amount else int_Sub S (SendLock t) amount)
              (\<lambda>x. SetSendLock x t)))
            SetToken s)"

subsection \<open>Keys do not collide\<close>

lemma token_key_simps [simp]:
  "GetTokenStoreKey x = GetTokenStoreKey y \<longleftrightarrow> x = y"
  "GetTokenStoreKey x \<noteq> GetWhitelistStoreKey y a"
  "GetTokenStoreKey x \<noteq> GetForbiddenAddrStoreKey y a"
  "GetWhitelistStoreKey y a \<noteq> GetTokenStoreKey x"
  "GetForbiddenAddrStoreKey y a \<noteq> GetTokenStoreKey x"
  "GetForbiddenAddrStoreKey y a \<noteq> GetWhitelistStoreKey x b"
  "GetWhitelistStoreKey x b \<noteq> GetForbiddenAddrStoreKey y a"
  by (simp_all add: GetTokenStoreKey_def GetWhitelistStoreKey_def GetForbiddenAddrStoreKey_def
      TokenKey_def WhitelistKey_def ForbiddenAddrKey_def byte_eq)

definition no_separator :: "string \<Rightarrow> bool" where
  "no_separator symbol \<longleftrightarrow> byte 58 \<notin> set symbol"

lemma forbidden_key_inj:
  "no_separator x \<Longrightarrow> no_separator y \<Longrightarrow>
     GetForbiddenAddrStoreKey x a = GetForbiddenAddrStoreKey y b \<longleftrightarrow> x = y \<and> a = b"
  using append_sep_inj [of "byte 58" x y a b]
  by (auto simp: GetForbiddenAddrStoreKey_def SeparateKey_def no_separator_def)

lemma whitelist_key_inj:
  "no_separator x \<Longrightarrow> no_separator y \<Longrightarrow>
     GetWhitelistStoreKey x a = GetWhitelistStoreKey y b \<longleftrightarrow> x = y \<and> a = b"
  using append_sep_inj [of "byte 58" x y a b]
  by (auto simp: GetWhitelistStoreKey_def SeparateKey_def no_separator_def)

lemma lower_alnum: "is_lower c \<Longrightarrow> is_alnum c"
  by (simp add: is_alnum_def)

text \<open>A token's symbol has letters, digits and dots only, so none of the separators of the keys.\<close>

lemma tokenSymbolRegex_chars:
  assumes "tokenSymbolRegex s" and "x \<in> set s"
  shows "is_alnum x \<or> x = CHR ''.''"
proof -
  obtain c cs k where s: "s = c # cs" "is_lower c" and k: "list_all is_alnum (take k cs)"
    "symbol_end (drop k cs)"
    using assms(1) by (auto simp: tokenSymbolRegex_def list_ex_iff split: list.splits)
  have tail: "is_alnum x \<or> x = CHR ''.''" if x: "x \<in> set (drop k cs)"
  proof (cases "list_all is_alnum (drop k cs)")
    case True
    then show ?thesis using x by (simp add: list_all_iff)
  next
    case False
    then obtain y where "drop k cs = [CHR ''.'', y]" "is_lower y"
      using k(2) x by (cases "drop k cs"; cases "tl (drop k cs)") (auto simp: symbol_end_def)
    then show ?thesis using x lower_alnum by auto
  qed
  have "set cs = set (take k cs) \<union> set (drop k cs)"
    by (metis append_take_drop_id set_append)
  then show ?thesis
    using assms(2) s k(1) tail lower_alnum by (auto simp: list_all_iff)
qed

lemma tokenSymbolRegex_no_separator:
  assumes "tokenSymbolRegex s"
  shows "no_separator s" and "CHR ''/'' \<notin> set s" and "byte 0 \<notin> set s"
proof -
  have "\<not> is_alnum (byte 58) \<and> byte 58 \<noteq> CHR ''.''" "\<not> is_alnum (CHR ''/'') \<and> CHR ''/'' \<noteq> CHR ''.''"
    "\<not> is_alnum (byte 0) \<and> byte 0 \<noteq> CHR ''.''" by code_simp+
  then show "no_separator s" "CHR ''/'' \<notin> set s" "byte 0 \<notin> set s"
    using tokenSymbolRegex_chars [OF assms] unfolding no_separator_def by blast+
qed

subsection \<open>Well-formed stores\<close>

lemma token_Validate_iff:
  "token_Validate t = Ok () \<longleftrightarrow>
     RuneCount (Name t) \<le> 32 \<and> Owner t \<noteq> [] \<and> tokenSymbolRegex (Symbol t) \<and> 0 < TotalSupply t \<and>
     RuneCount (URL t) \<le> MaxTokenURLLength \<and> length (Description t) \<le> MaxTokenDescriptionLength \<and>
     length (Identity t) \<le> MaxTokenIdentityLength \<and> Identity t \<noteq> [] \<and>
     (IsForbidden t \<longrightarrow> TokenForbiddable t) \<and> (0 < TotalMint t \<longrightarrow> Mintable t) \<and>
     (0 < TotalBurn t \<longrightarrow> Burnable t) \<and> 0 \<le> TotalBurn t \<and> 0 \<le> TotalMint t \<and> 0 \<le> SendLock t"
  by (auto simp: token_Validate_def NewToken_def SetName_def SetOwner_def SetSymbol_def
      ValidateTokenSymbol_def SetTotalSupply_def SetURL_def SetDescription_def SetIdentity_def
      SetTotalMint_def SetTotalBurn_def SetSendLock_def Let_def not_less split: if_splits)

definition asset_inv :: "('b, 'z) asset_state_scheme \<Rightarrow> bool" where
  "asset_inv s \<longleftrightarrow> kv_ok (asset_store s) \<and>
     (\<forall>k t. kv_get (asset_store s) k = Some (VToken t) \<longrightarrow>
       k = GetTokenStoreKey (Symbol t) \<and> token_Validate t = Ok () \<and> SendLock t < 2 ^ 255)"

lemma GetToken_valid: "asset_inv s \<Longrightarrow> GetToken s symbol = Some t \<Longrightarrow>
    Symbol t = symbol \<and> token_Validate t = Ok () \<and> SendLock t < 2 ^ 255"
  unfolding GetToken_def by (fastforce simp: asset_inv_def split: option.splits asset_val.splits)

lemma GetToken_SetToken:
  "SetToken t s = (r, s') \<Longrightarrow> GetToken s' symbol = (if symbol = Symbol t then Some t else GetToken s symbol)"
  by (auto simp: SetToken_def modify_def GetToken_def)

lemma SetToken_Ok: "SetToken t s = (r, s') \<longleftrightarrow>
    r = Ok () \<and> s' = s\<lparr>asset_store := kv_set (GetTokenStoreKey (Symbol t)) (VToken t) (asset_store s)\<rparr>"
  by (auto simp: SetToken_def modify_def)

lemma asset_inv_SetToken:
  "asset_inv s \<Longrightarrow> token_Validate t = Ok () \<Longrightarrow> SendLock t < 2 ^ 255 \<Longrightarrow> SetToken t s = (r, s') \<Longrightarrow>
     asset_inv s'"
  by (auto simp: SetToken_Ok asset_inv_def split: if_splits)

lemma UpdateTokenSendLock_cases:
  assumes "UpdateTokenSendLock S symbol amount lock s = (r, s')"
  obtains (missing) "r = Err AssetErrTokenNotFound" "s' = s" "GetToken s symbol = None"
  | (refused) t where "GetToken s symbol = Some t" "r = Err AssetErrInvalidSendLockAmt" "s' = s"
  | (panicked) "r = Panic"
  | (failed) e where "r = Err e" "s' = s"
  | (stored) t x where "GetToken s symbol = Some t" "r = Ok ()"
      "(if lock then int_Add S (SendLock t) amount else int_Sub S (SendLock t) amount) = Ok x" "0 \<le> x"
      "s' = s\<lparr>asset_store := kv_set (GetTokenStoreKey (Symbol t)) (VToken (t\<lparr>SendLock := x\<rparr>)) (asset_store s)\<rparr>"
proof (cases "GetToken s symbol")
  case None
  with assms missing show thesis by (simp add: UpdateTokenSendLock_def)
next
  case (Some t)
  show thesis
  proof (cases "if lock then int_Add S (SendLock t) amount else int_Sub S (SendLock t) amount")
    case (Ok x)
    show thesis
    proof (cases "x < 0")
      case True
      with assms Some Ok have "r = Err AssetErrInvalidSendLockAmt \<and> s' = s"
        by (simp only: UpdateTokenSendLock_def option.case ret_bind.simps SetSendLock_def if_True)
          (auto simp: and_then_def lift_def)
      with Some refused show thesis by blast
    next
      case False
      with assms Some Ok have "r = Ok () \<and> s' = s\<lparr>asset_store := kv_set (GetTokenStoreKey (Symbol t))
          (VToken (t\<lparr>SendLock := x\<rparr>)) (asset_store s)\<rparr>"
        by (simp only: UpdateTokenSendLock_def option.case ret_bind.simps SetSendLock_def if_False)
          (auto simp: and_then_def lift_def SetToken_Ok)
      with Some Ok False stored show thesis by (simp add: not_less)
    qed
  next
    case (Err e)
    with assms Some have "r = Err e \<and> s' = s"
      by (simp only: UpdateTokenSendLock_def option.case ret_bind.simps)
        (auto simp: and_then_def lift_def)
    then show thesis using failed by blast
  next
    case Panic
    with assms Some have "r = Panic"
      by (simp only: UpdateTokenSendLock_def option.case ret_bind.simps)
        (auto simp: and_then_def lift_def)
    then show thesis by (rule panicked)
  qed
qed

text \<open>How much of a token is locked, and what an update does to it.\<close>

definition send_lock :: "('b, 'z) asset_state_scheme \<Rightarrow> string \<Rightarrow> int" where
  "send_lock s d = (case GetToken s d of None \<Rightarrow> 0 | Some t \<Rightarrow> SendLock t)"

lemma send_lock_range: "asset_inv s \<Longrightarrow> 0 \<le> send_lock s d \<and> send_lock s d < 2 ^ 255"
  using GetToken_valid [of s d]
  by (auto simp: send_lock_def token_Validate_iff split: option.splits)

lemma UpdateTokenSendLock_frame:
  "UpdateTokenSendLock S symbol amount lock s = (r, s') \<Longrightarrow> s' = s\<lparr>asset_store := asset_store s'\<rparr>"
  by (auto simp: UpdateTokenSendLock_def and_then_def lift_def SetToken_def modify_def
      split: option.splits ret.splits)

lemma UpdateTokenSendLock_inv:
  assumes "int_ok S" and inv: "asset_inv s" and "UpdateTokenSendLock S symbol amount lock s = (r, s')"
    and "r \<noteq> Panic"
  shows "asset_inv s'"
  using assms(3)
proof (cases rule: UpdateTokenSendLock_cases)
  case (stored t x)
  have t: "Symbol t = symbol" "token_Validate t = Ok ()"
    using GetToken_valid [OF inv stored(1)] by simp_all
  have "x < 2 ^ 255"
    using stored(3) int_okD [OF assms(1)] by (auto split: if_splits)
  moreover have "token_Validate (t\<lparr>SendLock := x\<rparr>) = Ok ()"
    using t(2) stored(4) by (simp add: token_Validate_iff)
  moreover have "SetToken (t\<lparr>SendLock := x\<rparr>) s = (Ok (), s')"
    using stored(5) by (simp add: SetToken_Ok)
  ultimately show ?thesis by (intro asset_inv_SetToken [OF inv]) auto
qed (use assms in auto)

lemma UpdateTokenSendLock_Ok:
  assumes "int_ok S" and "asset_inv s" and "UpdateTokenSendLock S symbol amount lock s = (Ok u, s')"
  shows "send_lock s' d = send_lock s d + (if d = symbol then (if lock then amount else - amount) else 0)"
  using assms(3)
proof (cases rule: UpdateTokenSendLock_cases)
  case (stored t x)
  have t: "Symbol t = symbol" using GetToken_valid [OF assms(2) stored(1)] by simp
  have x: "x = SendLock t + (if lock then amount else - amount)"
    using stored(3) int_okD [OF assms(1)] by (auto split: if_splits)
  have "SetToken (t\<lparr>SendLock := x\<rparr>) s = (Ok (), s')"
    using stored(5) by (simp add: SetToken_Ok)
  from GetToken_SetToken [OF this] show ?thesis
    using stored(1) t x by (simp add: send_lock_def)
qed auto

text \<open>A token up to how much of it is locked.\<close>

definition token_body :: "('b, 'z) asset_state_scheme \<Rightarrow> string \<Rightarrow> token option" where
  "token_body s d = map_option (\<lambda>t. t\<lparr>SendLock := 0\<rparr>) (GetToken s d)"

lemma token_body_cong: "asset_store s' = asset_store s \<Longrightarrow> token_body s' d = token_body s d"
  by (simp add: token_body_def GetToken_def)

lemma UpdateTokenSendLock_body:
  assumes inv: "asset_inv s" and run: "UpdateTokenSendLock S symbol amount lock s = (r, s')" and "r \<noteq> Panic"
  shows "token_body s' d = token_body s d"
  using run
proof (cases rule: UpdateTokenSendLock_cases)
  case (stored t x)
  have t: "Symbol t = symbol" using GetToken_valid [OF inv stored(1)] by simp
  have "SetToken (t\<lparr>SendLock := x\<rparr>) s = (Ok (), s')" using stored(5) by (simp add: SetToken_Ok)
  from GetToken_SetToken [OF this] show ?thesis using stored(1) t by (simp add: token_body_def)
qed (use assms(3) in auto)

text \<open>An unlock of no more than what is locked goes through.\<close>

lemma UpdateTokenSendLock_unlock:
  assumes "int_ok S" and inv: "asset_inv s" and "0 \<le> amount" and "amount \<le> send_lock s symbol"
  obtains r s' where "UpdateTokenSendLock S symbol amount False s = (r, s')" and "r \<noteq> Panic"
    and "asset_inv s'" and "\<And>d. send_lock s' d = send_lock s d - (if d = symbol then amount else 0)"
    and "\<And>d. token_body s' d = token_body s d"
proof (cases "GetToken s symbol")
  case None
  then have "UpdateTokenSendLock S symbol amount False s = (Err AssetErrTokenNotFound, s)"
    by (simp add: UpdateTokenSendLock_def)
  moreover have "amount = 0" using assms(3,4) None by (simp add: send_lock_def)
  ultimately show thesis using that inv by simp
next
  case (Some t)
  then have le: "amount \<le> SendLock t" using assms(4) by (simp add: send_lock_def)
  have t: "0 \<le> SendLock t" "SendLock t < 2 ^ 255"
    using GetToken_valid [OF inv Some] by (auto simp: token_Validate_iff)
  have "int_Sub S (SendLock t) amount = Ok (SendLock t - amount)"
    using int_okD(2) [OF assms(1)] le t assms(3) by simp
  then obtain s' where run: "UpdateTokenSendLock S symbol amount False s = (Ok (), s')"
    using Some le by (simp add: UpdateTokenSendLock_def SetSendLock_def and_then_def lift_def SetToken_def modify_def)
  show thesis
    using that [OF run] UpdateTokenSendLock_inv [OF assms(1) inv run]
      UpdateTokenSendLock_Ok [OF assms(1) inv run] UpdateTokenSendLock_body [OF inv run] by simp
qed

end
