(* ===== verification/AuthX.thy ===== *)
theory AuthX
  imports AssetToken
begin

section \<open>The authx module\<close>

text \<open>
  \<open>src/modules/authx\<close>: what an account has beside its spendable coins (coins frozen by the other
  modules, coins locked until a time, a referee), the queue of unlock times, the end blocker that
  releases what is due, the messages that set a referee, and the gas price check.
\<close>

subsection \<open>Constants and errors (\<open>keys.go\<close>, \<open>events.go\<close>, \<open>errors.go\<close>)\<close>

definition ModuleName_authx :: string where "ModuleName_authx = ''authx''"

definition AuthxErrGasPriceTooLow :: err where
  "AuthxErrGasPriceTooLow = ModErr ModuleName_authx 202"
definition AuthxErrRefereeChangeTooFast :: err where
  "AuthxErrRefereeChangeTooFast = ModErr ModuleName_authx 203"
definition AuthxErrRefereeMemoRequired :: err where
  "AuthxErrRefereeMemoRequired = ModErr ModuleName_authx 204"
definition AuthxErrRefereeCanNotBeYouself :: err where
  "AuthxErrRefereeCanNotBeYouself = ModErr ModuleName_authx 205"

definition RebateRatioBase :: int where "RebateRatioBase = 10000"

subsection \<open>Locked coins and accounts (\<open>locked_coin.go\<close>, \<open>account.go\<close>)\<close>

record LockedCoin =
  lc_Coin :: coin
  lc_UnlockTime :: int
  lc_FromAddress :: addr
  lc_Supervisor :: addr
  lc_Reward :: int

definition NewLockedCoin :: "'y sdk_scheme \<Rightarrow> string \<Rightarrow> int \<Rightarrow> int \<Rightarrow> LockedCoin ret" where
  "NewLockedCoin S denom amount unlockTime =
     ret_map (\<lambda>c. \<lparr>lc_Coin = c, lc_UnlockTime = unlockTime, lc_FromAddress = [],
       lc_Supervisor = [], lc_Reward = 0\<rparr>) (NewCoin S denom amount)"

definition NewSupervisedLockedCoin ::
    "'y sdk_scheme \<Rightarrow> string \<Rightarrow> int \<Rightarrow> int \<Rightarrow> addr \<Rightarrow> addr \<Rightarrow> int \<Rightarrow> LockedCoin ret" where
  "NewSupervisedLockedCoin S denom amount unlockTime fromAddress supervisor reward =
     ret_map (\<lambda>c. \<lparr>lc_Coin = c, lc_UnlockTime = unlockTime, lc_FromAddress = fromAddress,
       lc_Supervisor = supervisor, lc_Reward = reward\<rparr>) (NewCoin S denom amount)"

definition LockedCoin_IsEqual :: "'y sdk_scheme \<Rightarrow> LockedCoin \<Rightarrow> LockedCoin \<Rightarrow> bool" where
  "LockedCoin_IsEqual S c d \<longleftrightarrow> coin_IsEqual S (lc_Coin c) (lc_Coin d) \<and>
     lc_UnlockTime c = lc_UnlockTime d \<and> lc_Reward c = lc_Reward d \<and>
     lc_FromAddress c = lc_FromAddress d \<and> lc_Supervisor c = lc_Supervisor d"

record AccountX =
  ax_Address :: addr
  ax_MemoRequired :: bool
  ax_LockedCoins :: "LockedCoin list"
  ax_FrozenCoins :: coins
  ax_Referee :: addr
  ax_RefereeChangeTime :: int

definition NewAccountXWithAddress :: "addr \<Rightarrow> AccountX" where
  "NewAccountXWithAddress a = \<lparr>ax_Address = a, ax_MemoRequired = False, ax_LockedCoins = [],
     ax_FrozenCoins = [], ax_Referee = [], ax_RefereeChangeTime = 0\<rparr>"

definition AddLockedCoins :: "LockedCoin list \<Rightarrow> AccountX \<Rightarrow> AccountX" where
  "AddLockedCoins cs acc = acc\<lparr>ax_LockedCoins := ax_LockedCoins acc @ cs\<rparr>"

definition GetAllCoins :: "'y sdk_scheme \<Rightarrow> AccountX \<Rightarrow> coins" where
  "GetAllCoins S acc =
     coins_Add S (foldl (\<lambda>cs l. coins_Add S cs [lc_Coin l]) [] (ax_LockedCoins acc)) (ax_FrozenCoins acc)"

definition GetLockedCoinsByDemon :: "string \<Rightarrow> AccountX \<Rightarrow> LockedCoin list" where
  "GetLockedCoinsByDemon denom acc = filter (\<lambda>c. Denom (lc_Coin c) = denom) (ax_LockedCoins acc)"

definition GetUnlockedCoinsAtTheTime :: "string \<Rightarrow> int \<Rightarrow> AccountX \<Rightarrow> LockedCoin list" where
  "GetUnlockedCoinsAtTheTime denom t acc =
     filter (\<lambda>c. lc_UnlockTime c \<le> t) (GetLockedCoinsByDemon denom acc)"

definition GetAllUnlockedCoinsAtTheTime :: "int \<Rightarrow> AccountX \<Rightarrow> LockedCoin list" where
  "GetAllUnlockedCoinsAtTheTime t acc = filter (\<lambda>c. lc_UnlockTime c \<le> t) (ax_LockedCoins acc)"

definition UpdateRefereeAddr :: "addr \<Rightarrow> int \<Rightarrow> AccountX \<Rightarrow> AccountX" where
  "UpdateRefereeAddr referee t acc = acc\<lparr>ax_Referee := referee, ax_RefereeChangeTime := t\<rparr>"

subsection \<open>Parameters (\<open>params.go\<close>)\<close>

record authx_params =
  MinGasPriceLimit :: dec
  RefereeChangeMinInterval :: int
  RebateRatio :: int

definition authx_DefaultParams :: authx_params where
  "authx_DefaultParams = \<lparr>MinGasPriceLimit = 20 * dec_one,
     RefereeChangeMinInterval = 1000000000 * 24 * 60 * 60 * 7, RebateRatio = 2000\<rparr>"

definition authx_params_ValidateGenesis :: "authx_params \<Rightarrow> unit ret" where
  "authx_params_ValidateGenesis p =
     (if MinGasPriceLimit p < 0 then Err PlainErr
      else if RefereeChangeMinInterval p \<le> 0 then Err PlainErr
      else if RebateRatio p \<le> 0 \<or> RebateRatio p > 10000 then Err PlainErr
      else Ok ())"

subsection \<open>The store and its keys (\<open>keeper.go\<close>)\<close>

text \<open>
  The keys with prefix \<open>AddressStoreKeyPrefix\<close> hold accounts, those of the queue an address. An
  account that is read back has \<open>nil\<close> for every empty list or address (the binary codec does not
  write empty fields), so an empty list stands for both.
\<close>

datatype accx_val = VAccX AccountX | VAddr addr

record 'b authx_state = "'b asset_state" +
  accx_store :: "accx_val kv"
  authx_params :: authx_params

definition AddressStoreKeyPrefix :: string where "AddressStoreKeyPrefix = [byte 1]"
definition PrefixUnlockedCoinsQueue :: string where "PrefixUnlockedCoinsQueue = ''UnlockedCoinsQueue''"
definition KeyDelimiter :: string where "KeyDelimiter = '';''"

definition AddressStoreKey :: "addr \<Rightarrow> string" where
  "AddressStoreKey a = AddressStoreKeyPrefix @ a"

definition KeyUnlockedCoinsQueue :: "'y sdk_scheme \<Rightarrow> int \<Rightarrow> addr \<Rightarrow> string" where
  "KeyUnlockedCoinsQueue S t a =
     PrefixUnlockedCoinsQueue @ KeyDelimiter @ format_time S t @ KeyDelimiter @ a"

definition PrefixUnlockedTimeQueueTime :: "'y sdk_scheme \<Rightarrow> int \<Rightarrow> string" where
  "PrefixUnlockedTimeQueueTime S t = PrefixUnlockedCoinsQueue @ KeyDelimiter @ format_time S t"

definition GetAccountX :: "('b, 'z) authx_state_scheme \<Rightarrow> addr \<Rightarrow> AccountX option" where
  "GetAccountX s a = (case kv_get (accx_store s) (AddressStoreKey a) of
      Some (VAccX x) \<Rightarrow> Some x | _ \<Rightarrow> None)"

definition SetAccountX :: "AccountX \<Rightarrow> (('b, 'z) authx_state_scheme, unit) op" where
  "SetAccountX x = modify (\<lambda>s. s\<lparr>accx_store := kv_set (AddressStoreKey (ax_Address x)) (VAccX x) (accx_store s)\<rparr>)"

definition GetOrCreateAccountX :: "addr \<Rightarrow> (('b, 'z) authx_state_scheme, AccountX) op" where
  "GetOrCreateAccountX a s = (case GetAccountX s a of
      Some x \<Rightarrow> (Ok x, s)
    | None \<Rightarrow> and_then (SetAccountX (NewAccountXWithAddress a))
        (\<lambda>_. return (NewAccountXWithAddress a)) s)"

definition accx_of :: "accx_val \<Rightarrow> AccountX option" where
  "accx_of v = (case v of VAccX x \<Rightarrow> Some x | VAddr a \<Rightarrow> None)"

definition IterateAccounts :: "('b, 'z) authx_state_scheme \<Rightarrow> AccountX list" where
  "IterateAccounts s =
     List.map_filter (\<lambda>e. accx_of (snd e)) (kv_prefix_iterator AddressStoreKeyPrefix (accx_store s))"

definition UnlockedCoinsQueueIterator ::
    "'y sdk_scheme \<Rightarrow> ('b, 'z) authx_state_scheme \<Rightarrow> int \<Rightarrow> accx_val kv" where
  "UnlockedCoinsQueueIterator S s t =
     kv_iterator PrefixUnlockedCoinsQueue (PrefixEndBytes S (PrefixUnlockedTimeQueueTime S t)) (accx_store s)"

definition InsertUnlockedCoinsQueue :: "'y sdk_scheme \<Rightarrow> int \<Rightarrow> addr \<Rightarrow> (('b, 'z) authx_state_scheme, unit) op" where
  "InsertUnlockedCoinsQueue S t a =
     modify (\<lambda>s. s\<lparr>accx_store := kv_set (KeyUnlockedCoinsQueue S t a) (VAddr a) (accx_store s)\<rparr>)"

definition RemoveFromUnlockedCoinsQueueByKey :: "string \<Rightarrow> (('b, 'z) authx_state_scheme, unit) op" where
  "RemoveFromUnlockedCoinsQueueByKey k = modify (\<lambda>s. s\<lparr>accx_store := kv_delete k (accx_store s)\<rparr>)"

definition RemoveFromUnlockedCoinsQueue :: "'y sdk_scheme \<Rightarrow> int \<Rightarrow> addr \<Rightarrow> (('b, 'z) authx_state_scheme, unit) op" where
  "RemoveFromUnlockedCoinsQueue S t a = RemoveFromUnlockedCoinsQueueByKey (KeyUnlockedCoinsQueue S t a)"

text \<open>\<open>None\<close> is \<open>nil\<close>; for a missing account the code returns an address of length 0 that is not \<open>nil\<close>.\<close>

definition GetRefereeAddr :: "('b, 'z) authx_state_scheme \<Rightarrow> addr \<Rightarrow> addr option" where
  "GetRefereeAddr s a = (case GetAccountX s a of
      None \<Rightarrow> Some []
    | Some x \<Rightarrow> if ax_Referee x = [] then None else Some (ax_Referee x))"

definition GetRebateRatio :: "('b, 'z) authx_state_scheme \<Rightarrow> int" where
  "GetRebateRatio s = RebateRatio (authx_params s)"

text \<open>\<open>PreTotalSupply\<close>: the coins of the module's account become the sum over all extended accounts.\<close>

definition PreTotalSupply :: "('b, 'y) cosmos_scheme \<Rightarrow> (('b, 'z) authx_state_scheme, unit) op" where
  "PreTotalSupply C = modify (\<lambda>s. s\<lparr>bank := supply_SetModuleCoins C ModuleName_authx
     (foldl (\<lambda>cs x. coins_Add C cs (GetAllCoins C x)) [] (IterateAccounts s)) (bank s)\<rparr>)"

subsection \<open>The end blocker (\<open>endblocker.go\<close>)\<close>

definition LockedCoin_json :: "LockedCoin \<Rightarrow> json" where
  "LockedCoin_json c = JObj (
     [(''coin'', JCoin (lc_Coin c)), (''unlock_time'', JInt (lc_UnlockTime c))] @
     (if lc_FromAddress c = [] then [] else [(''from_address'', JAddr (lc_FromAddress c))]) @
     (if lc_Supervisor c = [] then [] else [(''supervisor'', JAddr (lc_Supervisor c))]) @
     (if lc_Reward c = 0 then [] else [(''reward'', JInt (lc_Reward c))]))"

definition LockedCoins_json :: "LockedCoin list \<Rightarrow> json" where
  "LockedCoins_json cs = (if cs = [] then JNull else JArr (map LockedCoin_json cs))"

definition NotificationUnlock :: "addr \<Rightarrow> coins \<Rightarrow> LockedCoin list \<Rightarrow> coins \<Rightarrow> coins \<Rightarrow> int \<Rightarrow> json" where
  "NotificationUnlock a unlocked lockedCoins frozenCoins cs height = JObj [
     (''address'', JAddr a), (''unlocked'', JCoins unlocked),
     (''locked_coins'', LockedCoins_json lockedCoins), (''frozen_coins'', JCoins frozenCoins),
     (''coins'', JCoins cs), (''height'', JInt height)]"

definition unlocked_sum :: "'y sdk_scheme \<Rightarrow> int \<Rightarrow> LockedCoin list \<Rightarrow> coins" where
  "unlocked_sum S t ls =
     foldl (\<lambda>cs c. if lc_UnlockTime c \<le> t then coins_Add S cs [lc_Coin c] else cs) [] ls"

text \<open>\<open>q\<close> is the keeper's field \<open>EventTypeMsgQueue\<close>. A missing account would be a \<open>nil\<close> receiver.\<close>

definition withdrawUnlockedCoins ::
    "('b, 'y) cosmos_scheme \<Rightarrow> string \<Rightarrow> ctx \<Rightarrow> AccountX \<Rightarrow> int \<Rightarrow> (('b, 'z) authx_state_scheme, unit) op" where
  "withdrawUnlockedCoins C q ctx accx t s =
     (let unlocked = coins_Sort C (unlocked_sum C t (ax_LockedCoins accx));
          stillLocked = filter (\<lambda>c. \<not> lc_UnlockTime c \<le> t) (ax_LockedCoins accx)
      in if \<not> acc_exists C (bank s) (ax_Address accx) then (Panic, s)
         else let newCoins = coins_Add C (acc_Coins C (bank s) (ax_Address accx)) unlocked;
                  accx' = accx\<lparr>ax_LockedCoins := stillLocked\<rparr>
           in and_then (modify (\<lambda>s. s\<lparr>bank := acc_SetCoins C (ax_Address accx) newCoins (bank s)\<rparr>)) (\<lambda>_.
              and_then (foreach (\<lambda>c. ignore_err (UpdateTokenSendLock C (Denom c) (Amount c) False)) unlocked) (\<lambda>_.
              and_then (SetAccountX accx') (\<lambda>_.
              whenever (length q \<noteq> 0)
                (emit [Event q [(''notify_unlock'', AJson (NotificationUnlock (ax_Address accx) unlocked
                  stillLocked (ax_FrozenCoins accx) newCoins (BlockHeight ctx)))]])))) s)"

text \<open>
  The loop deletes keys while it iterates; the framework's iterator over a cached store is over the
  entries at its creation, so the entries are read first. The keys of the range hold addresses.
\<close>

definition unlock_entry ::
    "('b, 'y) cosmos_scheme \<Rightarrow> string \<Rightarrow> ctx \<Rightarrow> int \<Rightarrow> string \<times> accx_val \<Rightarrow> (('b, 'z) authx_state_scheme, unit) op" where
  "unlock_entry C q ctx currentTime e s = (case snd e of
      VAccX x \<Rightarrow> (Ok (), s)
    | VAddr a \<Rightarrow> (case GetAccountX s a of
        None \<Rightarrow> (Ok (), s)
      | Some acc \<Rightarrow> and_then (withdrawUnlockedCoins C q ctx acc currentTime)
          (\<lambda>_. RemoveFromUnlockedCoinsQueueByKey (fst e)) s))"

definition authx_EndBlocker :: "('b, 'y) cosmos_scheme \<Rightarrow> string \<Rightarrow> ctx \<Rightarrow> (('b, 'z) authx_state_scheme, unit) op" where
  "authx_EndBlocker C q ctx s =
     foreach (unlock_entry C q ctx (Unix ctx)) (UnlockedCoinsQueueIterator C s (Unix ctx)) s"

subsection \<open>Setting a referee (\<open>msgs.go\<close>, \<open>handler.go\<close>)\<close>

record MsgSetReferee =
  sr_Sender :: addr
  sr_Referee :: addr

definition MsgSetReferee_ValidateBasic :: "MsgSetReferee \<Rightarrow> unit ret" where
  "MsgSetReferee_ValidateBasic msg =
     (if sr_Sender msg = [] \<or> sr_Referee msg = [] then Err (SdkErr ''ErrInvalidAddress'')
      else if sr_Sender msg = sr_Referee msg then Err AuthxErrRefereeCanNotBeYouself
      else Ok ())"

definition MsgSetReferee_GetSigners :: "MsgSetReferee \<Rightarrow> addr list" where
  "MsgSetReferee_GetSigners msg = [sr_Sender msg]"

definition preCheckAddr :: "('b, 'y) cosmos_scheme \<Rightarrow> MsgSetReferee \<Rightarrow> (('b, 'z) authx_state_scheme, unit) op" where
  "preCheckAddr C msg s =
     (if \<not> acc_exists C (bank s) (sr_Sender msg) then (Err (SdkErr ''ErrUnknownAddress''), s)
      else if \<not> acc_exists C (bank s) (sr_Referee msg) then (Err (SdkErr ''ErrUnknownAddress''), s)
      else and_then (GetOrCreateAccountX (sr_Referee msg)) (\<lambda>r.
        if ax_MemoRequired r then fail AuthxErrRefereeMemoRequired
        else if bank_Blacklisted C (sr_Referee msg) then fail (SdkErr ''ErrInvalidAddress'')
        else return ()) s)"

definition preCheckTime :: "int \<Rightarrow> int \<Rightarrow> int \<Rightarrow> unit ret" where
  "preCheckTime timeNow refereeChangeTime refereeChangeMinInterval =
     (if i64 (timeNow - refereeChangeTime) < refereeChangeMinInterval
      then Err AuthxErrRefereeChangeTooFast else Ok ())"

definition handleMsgSetReferee ::
    "('b, 'y) cosmos_scheme \<Rightarrow> ctx \<Rightarrow> MsgSetReferee \<Rightarrow> (('b, 'z) authx_state_scheme, unit) op" where
  "handleMsgSetReferee C ctx msg =
     and_then (preCheckAddr C msg) (\<lambda>_.
     and_then (GetOrCreateAccountX (sr_Sender msg)) (\<lambda>senderAccx.
     and_then (gets (\<lambda>s. RefereeChangeMinInterval (authx_params s))) (\<lambda>interval.
     and_then (lift (preCheckTime (UnixNano ctx) (ax_RefereeChangeTime senderAccx) interval)) (\<lambda>_.
     and_then (SetAccountX (UpdateRefereeAddr (sr_Referee msg) (UnixNano ctx) senderAccx)) (\<lambda>_.
     emit [Event ''message'' [(''module'', AStr ModuleName_authx),
             (''sender'', AStr (addr_String C (sr_Sender msg)))],
           Event ''set_referee'' [(''referee_addr'', AStr (addr_String C (sr_Referee msg)))]])))))"

definition authx_Handler ::
    "('b, 'y) cosmos_scheme \<Rightarrow> ctx \<Rightarrow> MsgSetReferee \<Rightarrow> (('b, 'z) authx_state_scheme, unit) op" where
  "authx_Handler C ctx msg = and_then new_event_manager (\<lambda>_. handleMsgSetReferee C ctx msg)"

subsection \<open>The ante handler (\<open>ante.go\<close>)\<close>

text \<open>
  The framework's ante handler \<open>ah\<close> and the application's \<open>CheckMsg\<close> are parameters, and so is the
  test for the crisis module's message about the supply invariant. Of a transaction the code
  reads the CET gas price, the memo and the messages.
\<close>

record 'm stdTx =
  tx_GasPriceCET :: dec
  tx_Memo :: string
  tx_Msgs :: "'m list"

definition GenesisBlockHeight :: int where "GenesisBlockHeight = 1"

definition checkGasPrice :: "ctx \<Rightarrow> 'm stdTx \<Rightarrow> (('b, 'z) authx_state_scheme, unit) op" where
  "checkGasPrice ctx tx s =
     (if BlockHeight ctx = GenesisBlockHeight then (Ok (), s)
      else if tx_GasPriceCET tx < MinGasPriceLimit (authx_params s) then (Err AuthxErrGasPriceTooLow, s)
      else (Ok (), s))"

definition doAdditionalCheck ::
    "('m \<Rightarrow> string \<Rightarrow> (('b, 'z) authx_state_scheme, unit) op) \<Rightarrow> ctx \<Rightarrow> 'm stdTx \<Rightarrow> bool \<Rightarrow>
      (('b, 'z) authx_state_scheme, unit) op" where
  "doAdditionalCheck CheckMsg ctx tx simulate =
     and_then (whenever (\<not> simulate) (checkGasPrice ctx tx))
       (\<lambda>_. foreach (\<lambda>msg. CheckMsg msg (tx_Memo tx)) (tx_Msgs tx))"

text \<open>Even when the additional check fails, the loop over the messages runs (\<open>res\<close> is already set).\<close>

definition WrapAnteHandler ::
    "('b, 'y) cosmos_scheme \<Rightarrow> ('m stdTx \<Rightarrow> bool \<Rightarrow> (('b, 'z) authx_state_scheme, unit) op) \<Rightarrow>
     ('m \<Rightarrow> string \<Rightarrow> (('b, 'z) authx_state_scheme, unit) op) \<Rightarrow> ('m \<Rightarrow> bool) \<Rightarrow>
     ctx \<Rightarrow> 'm stdTx \<Rightarrow> bool \<Rightarrow> (('b, 'z) authx_state_scheme, unit) op" where
  "WrapAnteHandler C ah CheckMsg verifies_supply ctx tx simulate =
     and_then (ah tx simulate) (\<lambda>_ s.
       (case doAdditionalCheck CheckMsg ctx tx simulate s of
          (Panic, s') \<Rightarrow> (Panic, s')
        | (res, s') \<Rightarrow>
            (case foreach (\<lambda>msg. whenever (verifies_supply msg) (PreTotalSupply C)) (tx_Msgs tx) s' of
               (Panic, s'') \<Rightarrow> (Panic, s'') | (_, s'') \<Rightarrow> (res, s''))))"

subsection \<open>Genesis (\<open>genesis.go\<close>)\<close>

record authx_genesis =
  ag_Params :: authx_params
  ag_AccountXs :: "AccountX list"

definition authx_InitGenesis :: "authx_genesis \<Rightarrow> (('b, 'z) authx_state_scheme, unit) op" where
  "authx_InitGenesis data =
     and_then (modify (\<lambda>s. s\<lparr>authx_params := ag_Params data\<rparr>))
       (\<lambda>_. foreach SetAccountX (ag_AccountXs data))"

definition authx_ExportGenesis :: "('b, 'z) authx_state_scheme \<Rightarrow> authx_genesis" where
  "authx_ExportGenesis s = \<lparr>ag_Params = authx_params s, ag_AccountXs = IterateAccounts s\<rparr>"

fun check_accountxs :: "'y sdk_scheme \<Rightarrow> string list \<Rightarrow> AccountX list \<Rightarrow> unit ret" where
  "check_accountxs S addrMap [] = Ok ()"
| "check_accountxs S addrMap (x # xs) =
     (let addrStr = addr_String S (ax_Address x)
      in if addrStr = [] then Err PlainErr
         else if addrStr \<in> set addrMap then Err PlainErr
         else check_accountxs S (addrStr # addrMap) xs)"

definition authx_ValidateGenesis :: "'y sdk_scheme \<Rightarrow> authx_genesis \<Rightarrow> unit ret" where
  "authx_ValidateGenesis S data = ret_bind (authx_params_ValidateGenesis (ag_Params data))
     (\<lambda>_. check_accountxs S [] (ag_AccountXs data))"

end
