(* ===== verification/AuthXInv.thy ===== *)
theory AuthXInv
  imports AuthX
begin

section \<open>Frozen and locked coins: invariants of the authx store\<close>

text \<open>
  What the extended accounts hold, the invariant of the store (every locked coin has its entry in
  the queue), the agreement of the tokens' \<open>SendLock\<close> with the locked coins, and what the end
  blocker does: it releases the coins that are due, all of them and no other.
\<close>

subsection \<open>What an account holds\<close>

definition locked_sum :: "LockedCoin list \<Rightarrow> string \<Rightarrow> int" where
  "locked_sum ls d = sum_list (map (\<lambda>l. if Denom (lc_Coin l) = d then Amount (lc_Coin l) else 0) ls)"

definition due_sum :: "int \<Rightarrow> LockedCoin list \<Rightarrow> string \<Rightarrow> int" where
  "due_sum t ls d = locked_sum (filter (\<lambda>l. lc_UnlockTime l \<le> t) ls) d"

definition locked_of :: "string \<Rightarrow> accx_val \<Rightarrow> int" where
  "locked_of d v = (case v of VAccX x \<Rightarrow> locked_sum (ax_LockedCoins x) d | VAddr a \<Rightarrow> 0)"

definition frozen_of :: "string \<Rightarrow> accx_val \<Rightarrow> int" where
  "frozen_of d v = (case v of VAccX x \<Rightarrow> coin_sum (ax_FrozenCoins x) d | VAddr a \<Rightarrow> 0)"

definition locked_total :: "('b, 'z) authx_state_scheme \<Rightarrow> string \<Rightarrow> int" where
  "locked_total s d = kv_sum (locked_of d) (accx_store s)"

definition frozen_total :: "('b, 'z) authx_state_scheme \<Rightarrow> string \<Rightarrow> int" where
  "frozen_total s d = kv_sum (frozen_of d) (accx_store s)"

text \<open>All coins of a denomination: in the bank's accounts, locked and frozen.\<close>

definition total_coins :: "('b \<Rightarrow> string \<Rightarrow> int) \<Rightarrow> ('b, 'z) authx_state_scheme \<Rightarrow> string \<Rightarrow> int" where
  "total_coins tot s d = tot (bank s) d + locked_total s d + frozen_total s d"

lemma locked_sum_simps [simp]:
  "locked_sum [] d = 0"
  "locked_sum (l # ls) d = (if Denom (lc_Coin l) = d then Amount (lc_Coin l) else 0) + locked_sum ls d"
  "locked_sum (xs @ ys) d = locked_sum xs d + locked_sum ys d"
  by (simp_all add: locked_sum_def)

lemma locked_sum_split:
  "locked_sum ls d = locked_sum (filter P ls) d + locked_sum (filter (\<lambda>l. \<not> P l) ls) d"
  by (induction ls) auto

lemma locked_sum_nonneg: "\<forall>l \<in> set ls. 0 \<le> Amount (lc_Coin l) \<Longrightarrow> 0 \<le> locked_sum ls d"
  by (induction ls) auto

subsection \<open>Keys\<close>

lemma accx_key_simps [simp]:
  "AddressStoreKey a = AddressStoreKey b \<longleftrightarrow> a = b"
  "AddressStoreKey a \<noteq> KeyUnlockedCoinsQueue S t b"
  "KeyUnlockedCoinsQueue S t b \<noteq> AddressStoreKey a"
proof -
  have "byte 1 \<noteq> CHR ''U''" by code_simp
  then show "AddressStoreKey a \<noteq> KeyUnlockedCoinsQueue S t b"
    "KeyUnlockedCoinsQueue S t b \<noteq> AddressStoreKey a"
    by (auto simp: AddressStoreKey_def AddressStoreKeyPrefix_def KeyUnlockedCoinsQueue_def
        PrefixUnlockedCoinsQueue_def)
qed (simp add: AddressStoreKey_def)

lemma queue_key_inj:
  assumes "keys_ok S" and "time_fits t" and "time_fits u"
  shows "KeyUnlockedCoinsQueue S t a = KeyUnlockedCoinsQueue S u b \<longleftrightarrow> t = u \<and> a = b"
proof -
  have "length (format_time S t) = length (format_time S u)"
    using keys_okD(1) [OF assms] .
  then have "KeyUnlockedCoinsQueue S t a = KeyUnlockedCoinsQueue S u b \<longleftrightarrow>
      format_time S t = format_time S u \<and> a = b"
    by (simp add: KeyUnlockedCoinsQueue_def KeyDelimiter_def)
  moreover have "format_time S t = format_time S u \<longleftrightarrow> t = u"
    using keys_okD(2) [OF assms] keys_okD(2) [OF assms(1,3,2)] by (metis less_irrefl linorder_neqE)
  ultimately show ?thesis by simp
qed

text \<open>The range of the iterator holds the keys up to the given time.\<close>

lemma queue_key_in_range:
  assumes "keys_ok S" and "time_fits t" and "time_fits u"
  shows "PrefixUnlockedCoinsQueue \<le> KeyUnlockedCoinsQueue S t a \<and>
      KeyUnlockedCoinsQueue S t a < PrefixEndBytes S (PrefixUnlockedTimeQueueTime S u) \<longleftrightarrow> t \<le> u"
proof -
  let ?p = "PrefixUnlockedTimeQueueTime S u"
  have fu: "format_time S u \<noteq> []" "last (format_time S u) \<noteq> byte 255"
    using keys_okD(3) [OF assms(1,3)] by auto
  have len: "length (format_time S t) = length (format_time S u)"
    using keys_okD(1) [OF assms] .
  have eq: "format_time S t = format_time S u \<longleftrightarrow> t = u"
    using keys_okD(2) [OF assms] keys_okD(2) [OF assms(1,3,2)] by (metis less_irrefl linorder_neqE)
  have "?p \<noteq> []" "last ?p \<noteq> byte 255" using fu by (simp_all add: PrefixUnlockedTimeQueueTime_def)
  note bound = keys_okD(4) [OF assms(1) this]
  have "KeyUnlockedCoinsQueue S t a < ?p \<longleftrightarrow> format_time S t < format_time S u"
  proof -
    have "KeyUnlockedCoinsQueue S t a < ?p \<longleftrightarrow>
        format_time S t @ KeyDelimiter @ a < format_time S u @ []"
      unfolding KeyUnlockedCoinsQueue_def PrefixUnlockedTimeQueueTime_def
      by (simp add: less_append_same_length)
    also have "\<dots> \<longleftrightarrow> format_time S t < format_time S u"
      by (subst less_append_same_length [OF len]) (simp add: KeyDelimiter_def)
    finally show ?thesis .
  qed
  moreover have "take (length ?p) (KeyUnlockedCoinsQueue S t a) = ?p \<longleftrightarrow> format_time S t = format_time S u"
  proof -
    have "take (length (q @ x)) (q @ y @ z) = q @ y" if "length y = length x" for q x y z :: string
      using that by simp
    from this [OF len, of "PrefixUnlockedCoinsQueue @ KeyDelimiter" "KeyDelimiter @ a"]
    have "take (length ?p) (KeyUnlockedCoinsQueue S t a) =
        (PrefixUnlockedCoinsQueue @ KeyDelimiter) @ format_time S t"
      by (simp only: KeyUnlockedCoinsQueue_def PrefixUnlockedTimeQueueTime_def append_assoc)
    then show ?thesis by (simp only: PrefixUnlockedTimeQueueTime_def append_assoc same_append_eq)
  qed
  moreover have "PrefixUnlockedCoinsQueue \<le> KeyUnlockedCoinsQueue S t a"
    unfolding KeyUnlockedCoinsQueue_def
    using less_eq_append_same_length [of PrefixUnlockedCoinsQueue PrefixUnlockedCoinsQueue "[]"] by simp
  ultimately have "PrefixUnlockedCoinsQueue \<le> KeyUnlockedCoinsQueue S t a \<and>
      KeyUnlockedCoinsQueue S t a < PrefixEndBytes S ?p \<longleftrightarrow>
      format_time S t < format_time S u \<or> format_time S t = format_time S u"
    by (simp only: bound simp_thms)
  then show ?thesis by (simp only: eq keys_okD(2) [OF assms] order_le_less)
qed

subsection \<open>The invariant of the store\<close>

definition accx_wf :: "AccountX \<Rightarrow> bool" where
  "accx_wf x \<longleftrightarrow> coins_sorted (ax_FrozenCoins x) \<and> (\<forall>d. 0 \<le> coin_sum (ax_FrozenCoins x) d) \<and>
     (\<forall>l \<in> set (ax_LockedCoins x). 0 \<le> Amount (lc_Coin l) \<and> time_fits (lc_UnlockTime l))"

definition queued :: "'y sdk_scheme \<Rightarrow> accx_val kv \<Rightarrow> addr \<Rightarrow> LockedCoin list \<Rightarrow> bool" where
  "queued S st a ls \<longleftrightarrow>
     (\<forall>l \<in> set ls. kv_get st (KeyUnlockedCoinsQueue S (lc_UnlockTime l) a) = Some (VAddr a))"

definition accx_store_ok :: "'y sdk_scheme \<Rightarrow> accx_val kv \<Rightarrow> bool" where
  "accx_store_ok S st \<longleftrightarrow> kv_ok st \<and>
     (\<forall>k x. kv_get st k = Some (VAccX x) \<longrightarrow>
        k = AddressStoreKey (ax_Address x) \<and> accx_wf x \<and> queued S st (ax_Address x) (ax_LockedCoins x)) \<and>
     (\<forall>k a. kv_get st k = Some (VAddr a) \<longrightarrow> (\<exists>t. time_fits t \<and> k = KeyUnlockedCoinsQueue S t a))"

abbreviation accx_inv :: "'y sdk_scheme \<Rightarrow> ('b, 'z) authx_state_scheme \<Rightarrow> bool" where
  "accx_inv S s \<equiv> accx_store_ok S (accx_store s)"

lemma accx_inv_account:
  assumes "accx_inv S s" and "GetAccountX s a = Some x"
  shows "ax_Address x = a" and "accx_wf x" and "queued S (accx_store s) a (ax_LockedCoins x)"
    and "kv_get (accx_store s) (AddressStoreKey a) = Some (VAccX x)"
proof -
  show k: "kv_get (accx_store s) (AddressStoreKey a) = Some (VAccX x)"
    using assms(2) by (auto simp: GetAccountX_def split: option.splits accx_val.splits)
  then have all: "AddressStoreKey a = AddressStoreKey (ax_Address x) \<and> accx_wf x \<and>
      queued S (accx_store s) (ax_Address x) (ax_LockedCoins x)"
    using assms(1) unfolding accx_store_ok_def by blast
  then show a: "ax_Address x = a" by simp
  from all a show "accx_wf x" "queued S (accx_store s) a (ax_LockedCoins x)" by simp_all
qed

lemma GetAccountX_set [simp]:
  "GetAccountX (s\<lparr>accx_store := kv_set (AddressStoreKey b) (VAccX x) st\<rparr>) a =
     (if a = b then Some x else GetAccountX (s\<lparr>accx_store := st\<rparr>) a)"
  by (simp add: GetAccountX_def)

lemma accx_store_ok_set:
  assumes "accx_store_ok S st" and "accx_wf x" and "queued S st (ax_Address x) (ax_LockedCoins x)"
  shows "accx_store_ok S (kv_set (AddressStoreKey (ax_Address x)) (VAccX x) st)"
  unfolding accx_store_ok_def
proof (intro conjI allI impI)
  let ?st = "kv_set (AddressStoreKey (ax_Address x)) (VAccX x) st"
  have q: "queued S ?st a ls \<longleftrightarrow> queued S st a ls" for a ls by (simp add: queued_def)
  show "kv_ok ?st" using assms(1) by (simp add: accx_store_ok_def)
  fix k y
  assume "kv_get ?st k = Some (VAccX y)"
  then have "k = AddressStoreKey (ax_Address y) \<and> accx_wf y \<and> queued S st (ax_Address y) (ax_LockedCoins y)"
    using assms by (auto simp: accx_store_ok_def split: if_splits)
  then show "k = AddressStoreKey (ax_Address y)" "accx_wf y" "queued S ?st (ax_Address y) (ax_LockedCoins y)"
    by (simp_all add: q)
next
  fix k a
  assume "kv_get (kv_set (AddressStoreKey (ax_Address x)) (VAccX x) st) k = Some (VAddr a)"
  then show "\<exists>t. time_fits t \<and> k = KeyUnlockedCoinsQueue S t a"
    using assms(1) by (auto simp: accx_store_ok_def split: if_splits)
qed

lemma accx_store_ok_enqueue:
  assumes "keys_ok S" and "accx_store_ok S st" and "time_fits t"
  shows "accx_store_ok S (kv_set (KeyUnlockedCoinsQueue S t a) (VAddr a) st)"
  unfolding accx_store_ok_def
proof (intro conjI allI impI)
  let ?st = "kv_set (KeyUnlockedCoinsQueue S t a) (VAddr a) st"
  show "kv_ok ?st" using assms(2) by (simp add: accx_store_ok_def)
  fix k y
  assume "kv_get ?st k = Some (VAccX y)"
  then have y: "k = AddressStoreKey (ax_Address y) \<and> accx_wf y \<and> queued S st (ax_Address y) (ax_LockedCoins y)"
    using assms(2) by (auto simp: accx_store_ok_def split: if_splits)
  then show "k = AddressStoreKey (ax_Address y)" "accx_wf y" by simp_all
  show "queued S ?st (ax_Address y) (ax_LockedCoins y)"
    unfolding queued_def
  proof
    fix l
    assume l: "l \<in> set (ax_LockedCoins y)"
    then have "time_fits (lc_UnlockTime l)" using y by (simp add: accx_wf_def)
    from queue_key_inj [OF assms(1) this assms(3)]
    show "kv_get ?st (KeyUnlockedCoinsQueue S (lc_UnlockTime l) (ax_Address y)) = Some (VAddr (ax_Address y))"
      using y l by (auto simp: queued_def)
  qed
next
  fix k b
  assume "kv_get (kv_set (KeyUnlockedCoinsQueue S t a) (VAddr a) st) k = Some (VAddr b)"
  then show "\<exists>t. time_fits t \<and> k = KeyUnlockedCoinsQueue S t b"
    using assms(2,3) by (auto simp: accx_store_ok_def split: if_splits)
qed

lemma queued_enqueue:
  "keys_ok S \<Longrightarrow> time_fits t \<Longrightarrow> (\<forall>l \<in> set ls. time_fits (lc_UnlockTime l)) \<Longrightarrow>
     queued S (kv_set (KeyUnlockedCoinsQueue S t a) (VAddr a) st) b ls \<longleftrightarrow>
     (\<forall>l \<in> set ls. lc_UnlockTime l = t \<and> b = a \<or>
        kv_get st (KeyUnlockedCoinsQueue S (lc_UnlockTime l) b) = Some (VAddr b))"
  unfolding queued_def by (auto simp: queue_key_inj split: if_splits)

lemma accx_store_ok_dequeue:
  assumes "keys_ok S" and "accx_store_ok S st" and "time_fits t"
    and none: "\<And>x. kv_get st (AddressStoreKey a) = Some (VAccX x) \<Longrightarrow>
      \<forall>l \<in> set (ax_LockedCoins x). lc_UnlockTime l \<noteq> t"
  shows "accx_store_ok S (kv_delete (KeyUnlockedCoinsQueue S t a) st)"
  unfolding accx_store_ok_def
proof (intro conjI allI impI)
  let ?st = "kv_delete (KeyUnlockedCoinsQueue S t a) st"
  show "kv_ok ?st" using assms(2) by (simp add: accx_store_ok_def)
  fix k y
  assume "kv_get ?st k = Some (VAccX y)"
  then have k: "kv_get st k = Some (VAccX y)" by (simp split: if_splits)
  then have y: "k = AddressStoreKey (ax_Address y) \<and> accx_wf y \<and> queued S st (ax_Address y) (ax_LockedCoins y)"
    using assms(2) unfolding accx_store_ok_def by blast
  then show "k = AddressStoreKey (ax_Address y)" "accx_wf y" by simp_all
  show "queued S ?st (ax_Address y) (ax_LockedCoins y)"
    unfolding queued_def
  proof
    fix l
    assume l: "l \<in> set (ax_LockedCoins y)"
    then have "time_fits (lc_UnlockTime l)" using y by (simp add: accx_wf_def)
    from queue_key_inj [OF assms(1) this assms(3)]
    show "kv_get ?st (KeyUnlockedCoinsQueue S (lc_UnlockTime l) (ax_Address y)) = Some (VAddr (ax_Address y))"
      using y l none [of y] k by (auto simp: queued_def)
  qed
next
  fix k b
  assume "kv_get (kv_delete (KeyUnlockedCoinsQueue S t a) st) k = Some (VAddr b)"
  then show "\<exists>t. time_fits t \<and> k = KeyUnlockedCoinsQueue S t b"
    using assms(2) by (auto simp: accx_store_ok_def split: if_splits)
qed

text \<open>Sums over the store when one account is written, and when the queue changes.\<close>

lemma kv_sum_account:
  assumes "kv_ok st"
  shows "kv_sum f (kv_set (AddressStoreKey a) (VAccX x) st) =
    kv_sum f st - kv_val f st (AddressStoreKey a) + f (VAccX x)"
  by (rule kv_sum_set [OF assms])

lemma kv_sum_delete: "kv_ok st \<Longrightarrow> kv_sum f (kv_delete k st) = kv_sum f st - kv_val f st k"
proof (induction st)
  case Nil
  then show ?case by (simp add: kv_sum_def kv_val_def kv_delete_def)
next
  case (Cons e st)
  obtain k' v' where e: "e = (k', v')" by (cases e)
  have st: "kv_ok st" and less: "\<forall>x \<in> set (map fst st). k' < x"
    using Cons.prems by (auto simp: kv_ok_def e)
  show ?case
  proof (cases "k = k'")
    case True
    then have "k \<notin> set (map fst st)" using less by auto
    then have "kv_get st k = None" by (rule kv_get_not_in)
    with True Cons.IH [OF st] show ?thesis
      by (simp add: e kv_sum_def kv_val_def kv_delete_def kv_get_def)
  next
    case False
    with Cons.IH [OF st] show ?thesis
      by (simp add: e kv_sum_def kv_val_def kv_delete_def kv_get_def)
  qed
qed

definition totals :: "accx_val kv \<Rightarrow> string \<Rightarrow> int \<times> int" where
  "totals st d = (kv_sum (locked_of d) st, kv_sum (frozen_of d) st)"

lemma totals_account:
  assumes "kv_ok st"
  shows "totals (kv_set (AddressStoreKey a) (VAccX x) st) d =
    (fst (totals st d) - kv_val (locked_of d) st (AddressStoreKey a) + locked_sum (ax_LockedCoins x) d,
     snd (totals st d) - kv_val (frozen_of d) st (AddressStoreKey a) + coin_sum (ax_FrozenCoins x) d)"
  using assms by (simp add: totals_def kv_sum_account locked_of_def frozen_of_def)

lemma queue_key_address:
  assumes "accx_store_ok S st" and "kv_get st (KeyUnlockedCoinsQueue S t a) = Some v"
  shows "\<exists>b. v = VAddr b"
proof (cases v)
  case (VAccX x)
  then have "KeyUnlockedCoinsQueue S t a = AddressStoreKey (ax_Address x)"
    using assms unfolding accx_store_ok_def by blast
  then show ?thesis by simp
qed simp

lemma queue_value:
  assumes "accx_store_ok S st" and "time_fits t"
  shows "kv_val (locked_of d) st (KeyUnlockedCoinsQueue S t a) = 0"
    and "kv_val (frozen_of d) st (KeyUnlockedCoinsQueue S t a) = 0"
proof -
  have "kv_get st (KeyUnlockedCoinsQueue S t a) \<noteq> Some (VAccX x)" for x
    using queue_key_address [OF assms(1), of t a] by fastforce
  then show "kv_val (locked_of d) st (KeyUnlockedCoinsQueue S t a) = 0"
    "kv_val (frozen_of d) st (KeyUnlockedCoinsQueue S t a) = 0"
    by (auto simp: kv_val_def locked_of_def frozen_of_def split: option.splits accx_val.splits)
qed

lemma totals_queue:
  assumes "accx_store_ok S st" and "time_fits t"
  shows "totals (kv_set (KeyUnlockedCoinsQueue S t a) (VAddr b) st) d = totals st d"
    and "totals (kv_delete (KeyUnlockedCoinsQueue S t a) st) d = totals st d"
  using assms(1) queue_value [OF assms]
  by (simp_all add: totals_def kv_sum_set kv_sum_delete locked_of_def frozen_of_def accx_store_ok_def)

lemma account_value:
  assumes "accx_inv S s"
  shows "kv_val (locked_of d) (accx_store s) (AddressStoreKey a) =
      (case GetAccountX s a of None \<Rightarrow> 0 | Some x \<Rightarrow> locked_sum (ax_LockedCoins x) d)"
    and "kv_val (frozen_of d) (accx_store s) (AddressStoreKey a) =
      (case GetAccountX s a of None \<Rightarrow> 0 | Some x \<Rightarrow> coin_sum (ax_FrozenCoins x) d)"
  by (auto simp: kv_val_def GetAccountX_def locked_of_def frozen_of_def split: option.splits accx_val.splits)

end
