(* ===== verification/AuthXEnd.thy ===== *)
theory AuthXEnd
  imports AuthXInv
begin

section \<open>The authx end blocker releases exactly what is due\<close>

text \<open>
  One entry of the queue at a time, then the loop: every account keeps the coins that are not due,
  its spendable coins grow by the ones that are, the queue is left without entries up to the block
  time, no coin is made or lost, and \<open>SendLock\<close> of each token stays the sum of the locked coins.
\<close>

definition released :: "int \<Rightarrow> AccountX \<Rightarrow> AccountX" where
  "released t x = x\<lparr>ax_LockedCoins := filter (\<lambda>l. \<not> lc_UnlockTime l \<le> t) (ax_LockedCoins x)\<rparr>"

lemma released_simps [simp]:
  "ax_Address (released t x) = ax_Address x"
  "ax_FrozenCoins (released t x) = ax_FrozenCoins x"
  "due_sum t (ax_LockedCoins (released t x)) d = 0"
  "released t (released t x) = released t x"
  by (simp_all add: released_def due_sum_def)

lemma released_locked:
  "locked_sum (ax_LockedCoins (released t x)) d = locked_sum (ax_LockedCoins x) d - due_sum t (ax_LockedCoins x) d"
  using locked_sum_split [of "ax_LockedCoins x" d "\<lambda>l. lc_UnlockTime l \<le> t"]
  by (simp add: released_def due_sum_def)

lemma released_wf: "accx_wf x \<Longrightarrow> accx_wf (released t x)"
  by (simp add: accx_wf_def released_def)

lemma due_sum_bounds:
  "\<forall>l \<in> set ls. 0 \<le> Amount (lc_Coin l) \<Longrightarrow> 0 \<le> due_sum t ls d \<and> due_sum t ls d \<le> locked_sum ls d"
  using locked_sum_split [of ls d "\<lambda>l. lc_UnlockTime l \<le> t"]
    locked_sum_nonneg [of "filter (\<lambda>l. lc_UnlockTime l \<le> t) ls" d]
    locked_sum_nonneg [of "filter (\<lambda>l. \<not> lc_UnlockTime l \<le> t) ls" d]
  by (simp add: due_sum_def)

lemma unlocked_sum_facts:
  assumes "coins_ok S"
  shows "coins_sorted (unlocked_sum S t ls) \<and> coin_sum (unlocked_sum S t ls) d = due_sum t ls d"
proof -
  have "coins_sorted cs \<Longrightarrow>
      coins_sorted (foldl (\<lambda>cs c. if lc_UnlockTime c \<le> t then coins_Add S cs [lc_Coin c] else cs) cs ls) \<and>
      coin_sum (foldl (\<lambda>cs c. if lc_UnlockTime c \<le> t then coins_Add S cs [lc_Coin c] else cs) cs ls) d =
        coin_sum cs d + due_sum t ls d" for cs
  proof (induction ls arbitrary: cs)
    case Nil
    then show ?case by (simp add: due_sum_def)
  next
    case (Cons l ls)
    show ?case
    proof (cases "lc_UnlockTime l \<le> t")
      case True
      have sorted: "coins_sorted (coins_Add S cs [lc_Coin l])"
        using coins_okD(3) [OF assms Cons.prems] by simp
      have "coins_AmountOf S (coins_Add S cs [lc_Coin l]) d =
          coins_AmountOf S cs d + coins_AmountOf S [lc_Coin l] d"
        using coins_okD(4) [OF assms Cons.prems] by simp
      then have "coin_sum (coins_Add S cs [lc_Coin l]) d =
          coin_sum cs d + (if Denom (lc_Coin l) = d then Amount (lc_Coin l) else 0)"
        using coins_okD(13) [OF assms] sorted Cons.prems by simp
      with True Cons.IH [OF sorted] show ?thesis by (simp add: due_sum_def)
    qed (use Cons in \<open>simp add: due_sum_def\<close>)
  qed
  from this [of "[]"] show ?thesis by (simp add: unlocked_sum_def)
qed

lemma sorted_distinct_denoms: "coins_sorted cs \<Longrightarrow> distinct (map Denom cs)"
proof -
  assume "coins_sorted cs"
  then have "sorted_wrt (<) (map Denom cs)" by (simp add: coins_sorted_def sorted_wrt_map)
  then show ?thesis using strict_sorted_iff by blast
qed

lemma coin_sum_absent: "d \<notin> Denom ` set cs \<Longrightarrow> coin_sum cs d = 0"
  by (induction cs) auto

text \<open>Unlocking a sorted list of coins, none beyond what is locked.\<close>

lemma unlock_all:
  assumes "int_ok S" and "asset_inv s" and "distinct (map Denom cs)"
    and "\<forall>c \<in> set cs. 0 \<le> Amount c \<and> Amount c \<le> send_lock s (Denom c)"
  shows "\<exists>s'. foreach (\<lambda>c. ignore_err (UpdateTokenSendLock S (Denom c) (Amount c) False)) cs s = (Ok (), s') \<and>
    asset_inv s' \<and> (\<forall>d. send_lock s' d = send_lock s d - coin_sum cs d) \<and> (\<forall>d. token_body s' d = token_body s d) \<and>
    s' = s\<lparr>asset_store := asset_store s'\<rparr>"
  using assms(2-4)
proof (induction cs arbitrary: s)
  case Nil
  then show ?case by (simp add: return_def)
next
  case (Cons c cs)
  obtain r s1 where one: "UpdateTokenSendLock S (Denom c) (Amount c) False s = (r, s1)" "r \<noteq> Panic"
    and inv1: "asset_inv s1"
    and lock1: "\<And>d. send_lock s1 d = send_lock s d - (if d = Denom c then Amount c else 0)"
    and body1: "\<And>d. token_body s1 d = token_body s d"
    using UpdateTokenSendLock_unlock [OF assms(1) Cons.prems(1), of "Amount c" "Denom c"] Cons.prems(3)
    by auto
  have f1: "s1 = s\<lparr>asset_store := asset_store s1\<rparr>" by (rule UpdateTokenSendLock_frame [OF one(1)])
  have step: "ignore_err (UpdateTokenSendLock S (Denom c) (Amount c) False) s = (Ok (), s1)"
    using one by (cases r) (simp_all add: ignore_err_def)
  have "\<forall>c' \<in> set cs. 0 \<le> Amount c' \<and> Amount c' \<le> send_lock s1 (Denom c')"
  proof
    fix c'
    assume c': "c' \<in> set cs"
    then have "Denom c' \<in> Denom ` set cs" by (rule imageI)
    then have "Denom c' \<noteq> Denom c" using Cons.prems(2) by auto
    with Cons.prems(3) lock1 c' show "0 \<le> Amount c' \<and> Amount c' \<le> send_lock s1 (Denom c')" by simp
  qed
  with Cons.IH [OF inv1] Cons.prems(2)
  obtain s2 where s2: "foreach (\<lambda>c. ignore_err (UpdateTokenSendLock S (Denom c) (Amount c) False)) cs s1 = (Ok (), s2)"
    "asset_inv s2" "\<forall>d. send_lock s2 d = send_lock s1 d - coin_sum cs d" "s2 = s1\<lparr>asset_store := asset_store s2\<rparr>"
    "\<forall>d. token_body s2 d = token_body s1 d"
    by auto
  have "s2 = s\<lparr>asset_store := asset_store s2\<rparr>" using f1 s2(4) by (metis asset_state.surjective asset_state.update_convs(1))
  with s2 step lock1 body1 show ?case by (auto simp: and_then_def)
qed

lemma coin_sum_member: "distinct (map Denom cs) \<Longrightarrow> c \<in> set cs \<Longrightarrow> coin_sum cs (Denom c) = Amount c"
proof (induction cs)
  case (Cons c' cs)
  show ?case
  proof (cases "c = c'")
    case True
    with Cons.prems(1) show ?thesis by (simp add: coin_sum_absent)
  next
    case False
    then have c: "c \<in> set cs" using Cons.prems(2) by simp
    then have "Denom c \<in> Denom ` set cs" by (rule imageI)
    then have "Denom c' \<noteq> Denom c" using Cons.prems(1) by auto
    with Cons.IH c Cons.prems(1) show ?thesis by simp
  qed
qed simp

lemma kv_val_le_sum:
  assumes "kv_ok st" and "\<And>k v. kv_get st k = Some v \<Longrightarrow> 0 \<le> f v"
  shows "kv_val f st k \<le> kv_sum f st"
  using assms
proof (induction st)
  case Nil
  then show ?case by (simp add: kv_val_def kv_sum_def)
next
  case (Cons e st)
  obtain k' v' where e: "e = (k', v')" by (cases e)
  have st: "kv_ok st" and less: "\<forall>x \<in> set (map fst st). k' < x"
    using Cons.prems(1) by (auto simp: kv_ok_def e)
  have ne: "kv_get st k' = None" using less by (intro kv_get_not_in) auto
  have nonneg: "0 \<le> f v" if "kv_get st j = Some v" for j v
  proof -
    have "j \<noteq> k'" using that ne by auto
    then have "kv_get (e # st) j = Some v" using that by (simp add: kv_get_def e)
    then show ?thesis by (rule Cons.prems(2))
  qed
  have v': "0 \<le> f v'" using Cons.prems(2) [of k' v'] by (simp add: kv_get_def e)
  have IH: "kv_val f st k \<le> kv_sum f st" by (rule Cons.IH [OF st nonneg])
  have sum: "0 \<le> kv_sum f st"
  proof -
    have "0 \<le> kv_val f st k" using nonneg by (auto simp: kv_val_def split: option.splits)
    with IH show ?thesis by simp
  qed
  show ?case
    using IH v' sum ne by (cases "k = k'") (simp_all add: e kv_val_def kv_sum_def kv_get_def)
qed

definition lock_inv :: "('b, 'z) authx_state_scheme \<Rightarrow> bool" where
  "lock_inv s \<longleftrightarrow> (\<forall>d. send_lock s d = locked_total s d)"

lemma locked_le_total:
  assumes inv: "accx_inv S s" and x: "GetAccountX s a = Some x"
  shows "locked_sum (ax_LockedCoins x) d \<le> locked_total s d"
proof -
  have "0 \<le> locked_of d v" if "kv_get (accx_store s) k = Some v" for k v
  proof (cases v)
    case (VAccX y)
    then have "accx_wf y" using inv that unfolding accx_store_ok_def by blast
    then show ?thesis using VAccX by (simp add: locked_of_def accx_wf_def locked_sum_nonneg)
  qed (simp add: locked_of_def)
  moreover have "kv_ok (accx_store s)" using inv by (simp add: accx_store_ok_def)
  ultimately have "kv_val (locked_of d) (accx_store s) (AddressStoreKey a) \<le> locked_total s d"
    unfolding locked_total_def by (intro kv_val_le_sum) auto
  then show ?thesis using account_value(1) [OF inv, of d a] x by simp
qed

lemma withdraw_spec:
  assumes C: "cosmos_ok C tot" and inv: "accx_inv C s" "asset_inv s" "lock_inv s"
    and x: "GetAccountX s a = Some x" and ex: "acc_exists C (bank s) a"
  shows "\<exists>s'. withdrawUnlockedCoins C q ctx x t s = (Ok (), s') \<and>
    accx_store s' = kv_set (AddressStoreKey a) (VAccX (released t x)) (accx_store s) \<and>
    asset_inv s' \<and> (\<forall>d. send_lock s' d = send_lock s d - due_sum t (ax_LockedCoins x) d) \<and>
    (\<forall>d. token_body s' d = token_body s d) \<and>
    bank s' = acc_SetCoins C a (coins_Add C (acc_Coins C (bank s) a) (unlocked_sum C t (ax_LockedCoins x))) (bank s) \<and>
    authx_params s' = authx_params s"
proof -
  note laws = cosmos_okD [OF C]
  define u where "u = unlocked_sum C t (ax_LockedCoins x)"
  have sorted: "coins_sorted u" and usum: "\<And>d. coin_sum u d = due_sum t (ax_LockedCoins x) d"
    using unlocked_sum_facts [OF laws(5)] by (simp_all add: u_def)
  have sort: "coins_Sort C u = u" by (rule coins_okD(8) [OF laws(5) sorted])
  have dist: "distinct (map Denom u)" by (rule sorted_distinct_denoms [OF sorted])
  have ax: "ax_Address x = a" "accx_wf x" using accx_inv_account [OF inv(1) x] by simp_all
  define s1 where "s1 = s\<lparr>bank := acc_SetCoins C a (coins_Add C (acc_Coins C (bank s) a) u) (bank s)\<rparr>"
  have inv1: "asset_inv s1" using inv(2) by (simp add: s1_def asset_inv_def)
  have lock1: "send_lock s1 d = send_lock s d" for d by (simp add: s1_def send_lock_def GetToken_def)
  have "\<forall>c \<in> set u. 0 \<le> Amount c \<and> Amount c \<le> send_lock s1 (Denom c)"
  proof
    fix c
    assume "c \<in> set u"
    then have c: "Amount c = due_sum t (ax_LockedCoins x) (Denom c)"
      using coin_sum_member [OF dist] usum by metis
    have "0 \<le> due_sum t (ax_LockedCoins x) (Denom c)"
      "due_sum t (ax_LockedCoins x) (Denom c) \<le> locked_sum (ax_LockedCoins x) (Denom c)"
      using due_sum_bounds [of "ax_LockedCoins x" t "Denom c"] ax(2) by (simp_all add: accx_wf_def)
    then show "0 \<le> Amount c \<and> Amount c \<le> send_lock s1 (Denom c)"
      using locked_le_total [OF inv(1) x, of "Denom c"] inv(3) by (simp add: c lock1 lock_inv_def)
  qed
  from unlock_all [OF laws(3) inv1 dist this]
  obtain s2 where s2: "foreach (\<lambda>c. ignore_err (UpdateTokenSendLock C (Denom c) (Amount c) False)) u s1 = (Ok (), s2)"
    "asset_inv s2" "\<forall>d. send_lock s2 d = send_lock s1 d - coin_sum u d" "\<forall>d. token_body s2 d = token_body s1 d"
    and f2: "s2 = s1\<lparr>asset_store := asset_store s2\<rparr>" by blast
  define s3 where "s3 = s2\<lparr>accx_store := kv_set (AddressStoreKey a) (VAccX (released t x)) (accx_store s2)\<rparr>"
  obtain es where run: "withdrawUnlockedCoins C q ctx x t s = (Ok (), s3\<lparr>events := es\<rparr>)"
  proof (cases "length q \<noteq> 0")
    case True
    have "\<exists>es. withdrawUnlockedCoins C q ctx x t s = (Ok (), s3\<lparr>events := es\<rparr>)"
      using ex s2(1) True
      by (auto simp: withdrawUnlockedCoins_def Let_def ax(1) sort u_def [symmetric] s1_def [symmetric]
          and_then_def modify_def SetAccountX_def emit_def whenever_def s3_def released_def)
    then show thesis using that by blast
  next
    case False
    have "withdrawUnlockedCoins C q ctx x t s = (Ok (), s3\<lparr>events := events s3\<rparr>)"
      using ex s2(1) False
      by (auto simp: withdrawUnlockedCoins_def Let_def ax(1) sort u_def [symmetric] s1_def [symmetric]
          and_then_def modify_def SetAccountX_def whenever_def return_def s3_def released_def)
    then show thesis using that by blast
  qed
  have st: "accx_store s2 = accx_store s" "bank s2 = bank s1" "authx_params s2 = authx_params s"
    by (subst f2, simp add: s1_def)+
  show ?thesis
  proof (intro exI conjI)
    show "withdrawUnlockedCoins C q ctx x t s = (Ok (), s3\<lparr>events := es\<rparr>)" by (rule run)
    show "accx_store (s3\<lparr>events := es\<rparr>) = kv_set (AddressStoreKey a) (VAccX (released t x)) (accx_store s)"
      by (simp add: s3_def st)
    show "asset_inv (s3\<lparr>events := es\<rparr>)" using s2(2) by (simp add: s3_def asset_inv_def)
    show "\<forall>d. send_lock (s3\<lparr>events := es\<rparr>) d = send_lock s d - due_sum t (ax_LockedCoins x) d"
      using s2(3) lock1 usum by (simp add: s3_def send_lock_def GetToken_def)
    show "\<forall>d. token_body (s3\<lparr>events := es\<rparr>) d = token_body s d"
      using s2(4) by (simp add: s3_def s1_def token_body_def GetToken_def)
    show "bank (s3\<lparr>events := es\<rparr>) =
        acc_SetCoins C a (coins_Add C (acc_Coins C (bank s) a) (unlocked_sum C t (ax_LockedCoins x))) (bank s)"
      by (simp add: s3_def st s1_def u_def)
    show "authx_params (s3\<lparr>events := es\<rparr>) = authx_params s" by (simp add: s3_def st)
  qed
qed

subsection \<open>The loop\<close>

definition accounts_exist :: "('b, 'y) cosmos_scheme \<Rightarrow> ('b, 'z) authx_state_scheme \<Rightarrow> bool" where
  "accounts_exist C s \<longleftrightarrow> (\<forall>a x. GetAccountX s a = Some x \<longrightarrow> acc_exists C (bank s) a)"

definition authx_inv :: "('b, 'y) cosmos_scheme \<Rightarrow> ('b, 'z) authx_state_scheme \<Rightarrow> bool" where
  "authx_inv C s \<longleftrightarrow> accx_inv C s \<and> asset_inv s \<and> lock_inv s \<and> accounts_exist C s"

definition due_of :: "int \<Rightarrow> string \<Rightarrow> AccountX option \<Rightarrow> int" where
  "due_of t d o' = (case o' of None \<Rightarrow> 0 | Some x \<Rightarrow> due_sum t (ax_LockedCoins x) d)"

text \<open>What releasing the accounts in a set does to a state.\<close>

definition releases ::
    "('b, 'y) cosmos_scheme \<Rightarrow> ('b \<Rightarrow> string \<Rightarrow> int) \<Rightarrow> int \<Rightarrow> addr set \<Rightarrow>
      ('b, 'z) authx_state_scheme \<Rightarrow> ('b, 'z) authx_state_scheme \<Rightarrow> bool" where
  "releases C tot t A s s' \<longleftrightarrow> authx_inv C s' \<and>
     (\<forall>b. GetAccountX s' b = (if b \<in> A then map_option (released t) (GetAccountX s b) else GetAccountX s b)) \<and>
     (\<forall>b d. balance C (bank s') b d = balance C (bank s) b d + (if b \<in> A then due_of t d (GetAccountX s b) else 0)) \<and>
     (\<forall>d. total_coins tot s' d = total_coins tot s d) \<and> (\<forall>d. token_body s' d = token_body s d) \<and>
     (\<forall>k b. kv_get (accx_store s') k = Some (VAddr b) \<longrightarrow> kv_get (accx_store s) k = Some (VAddr b))"

lemma releases_refl: "authx_inv C s \<Longrightarrow> releases C tot t {} s s"
  by (simp add: releases_def)

lemma due_of_released: "due_of t d (map_option (released t) o') = 0"
  by (simp add: due_of_def split: option.split)

lemma releases_trans:
  assumes "releases C tot t A s s'" and "releases C tot t B s' s''"
  shows "releases C tot t (A \<union> B) s s''"
proof -
  have "GetAccountX s'' b = (if b \<in> A \<union> B then map_option (released t) (GetAccountX s b) else GetAccountX s b)" for b
    using assms by (cases "GetAccountX s b") (auto simp: releases_def)
  moreover have "balance C (bank s'') b d =
      balance C (bank s) b d + (if b \<in> A \<union> B then due_of t d (GetAccountX s b) else 0)" for b d
    using assms by (auto simp: releases_def due_of_released)
  ultimately show ?thesis using assms by (simp add: releases_def)
qed

lemma unlock_entry_spec:
  assumes C: "cosmos_ok C tot" and inv: "authx_inv C s" and u: "time_fits u" and le: "u \<le> t"
    and x: "GetAccountX s a = Some x"
  shows "\<exists>s'. unlock_entry C q ctx t (KeyUnlockedCoinsQueue C u a, VAddr a) s = (Ok (), s') \<and>
    releases C tot t {a} s s' \<and> kv_get (accx_store s') (KeyUnlockedCoinsQueue C u a) = None"
proof -
  note laws = cosmos_okD [OF C]
  have invs: "accx_inv C s" "asset_inv s" "lock_inv s" "acc_exists C (bank s) a"
    using inv x by (auto simp: authx_inv_def accounts_exist_def)
  have ax: "ax_Address x = a" "accx_wf x" "queued C (accx_store s) a (ax_LockedCoins x)"
    using accx_inv_account [OF invs(1) x] by simp_all
  obtain s1 where run: "withdrawUnlockedCoins C q ctx x t s = (Ok (), s1)"
    and st1: "accx_store s1 = kv_set (AddressStoreKey a) (VAccX (released t x)) (accx_store s)"
    and as1: "asset_inv s1" "\<And>d. send_lock s1 d = send_lock s d - due_sum t (ax_LockedCoins x) d"
      "\<And>d. token_body s1 d = token_body s d"
    and b1: "bank s1 = acc_SetCoins C a (coins_Add C (acc_Coins C (bank s) a) (unlocked_sum C t (ax_LockedCoins x))) (bank s)"
    using withdraw_spec [OF C invs(1-3) x invs(4)] by blast
  define k where "k = KeyUnlockedCoinsQueue C u a"
  define s2 where "s2 = s1\<lparr>accx_store := kv_delete k (accx_store s1)\<rparr>"
  have run2: "unlock_entry C q ctx t (k, VAddr a) s = (Ok (), s2)"
    using x run by (simp add: unlock_entry_def and_then_def RemoveFromUnlockedCoinsQueueByKey_def
        modify_def s2_def)
  have ok1: "accx_store_ok C (accx_store s1)"
    unfolding st1 using accx_store_ok_set [OF invs(1) released_wf [OF ax(2)], of t] ax(1,3)
    by (auto simp: queued_def released_def)
  have ok2: "accx_inv C s2"
    unfolding s2_def k_def using ok1 u le laws(2)
    by (simp, intro accx_store_ok_dequeue) (auto simp: st1 released_def)
  have kvok: "kv_ok (accx_store s)" using invs(1) by (simp add: accx_store_ok_def)
  have tot_st: "totals (accx_store s2) d =
      (locked_total s d - due_sum t (ax_LockedCoins x) d, frozen_total s d)" for d
    using totals_queue(2) [OF ok1 u] account_value [OF invs(1), of d a] x
    by (simp add: s2_def k_def st1 totals_account [OF kvok] released_locked)
      (simp add: totals_def locked_total_def frozen_total_def)
  have acc: "GetAccountX s2 b = (if b = a then Some (released t x) else GetAccountX s b)" for b
    by (simp add: GetAccountX_def s2_def st1 k_def)
  have ex2: "acc_exists C (bank s2) b = acc_exists C (bank s) b" for b
    using bank_okD(11) [OF laws(6)] by (simp add: s2_def b1)
  have sorted: "coins_sorted (acc_Coins C (bank s) a)" "coins_sorted (unlocked_sum C t (ax_LockedCoins x))"
    using bank_okD(9) [OF laws(6)] unlocked_sum_facts [OF laws(5)] by auto
  have due: "coins_AmountOf C (unlocked_sum C t (ax_LockedCoins x)) d = due_sum t (ax_LockedCoins x) d" for d
    using coins_okD(13) [OF laws(5) sorted(2)] unlocked_sum_facts [OF laws(5)] by simp
  have add: "coins_AmountOf C (coins_Add C (acc_Coins C (bank s) a) (unlocked_sum C t (ax_LockedCoins x))) d =
      balance C (bank s) a d + due_sum t (ax_LockedCoins x) d" for d
    using coins_okD(4) [OF laws(5) sorted] due by (simp add: balance_def)
  have bal: "balance C (bank s2) b d = balance C (bank s) b d + (if b = a then due_sum t (ax_LockedCoins x) d else 0)" for b d
    using balance_okD(4) [OF laws(7) coins_okD(3) [OF laws(5) sorted] invs(4), of b] add
    by (cases "b = a") (simp_all add: s2_def b1 balance_def)
  have totb: "tot (bank s2) d = tot (bank s) d + due_sum t (ax_LockedCoins x) d" for d
    using bank_okD(10) [OF laws(6) invs(4)] add by (simp add: s2_def b1 balance_def)
  have lock2: "lock_inv s2"
    using invs(3) as1(2) tot_st unfolding lock_inv_def
    by (simp add: s2_def send_lock_def GetToken_def) (simp add: locked_total_def totals_def)
  have "accounts_exist C s2"
    using inv acc ex2 invs(4) by (auto simp: authx_inv_def accounts_exist_def)
  moreover have "asset_inv s2" using as1(1) by (simp add: s2_def asset_inv_def)
  ultimately have "authx_inv C s2" using ok2 lock2 by (simp add: authx_inv_def)
  moreover have "total_coins tot s2 d = total_coins tot s d" for d
    using totb [of d] tot_st [of d] by (simp add: total_coins_def totals_def locked_total_def frozen_total_def)
  moreover have "token_body s2 d = token_body s d" for d using as1(3) by (simp add: s2_def token_body_def GetToken_def)
  ultimately have "releases C tot t {a} s s2"
    using acc bal x by (auto simp: releases_def due_of_def s2_def st1 split: if_splits)
  with run2 show ?thesis by (auto simp: k_def s2_def)
qed

lemma unlock_entries:
  assumes C: "cosmos_ok C tot" and "authx_inv C s"
    and "\<forall>e \<in> set es. \<exists>u a. time_fits u \<and> u \<le> t \<and> e = (KeyUnlockedCoinsQueue C u a, VAddr a)"
  shows "\<exists>s'. foreach (unlock_entry C q ctx t) es s = (Ok (), s') \<and>
    releases C tot t {a. \<exists>k. (k, VAddr a) \<in> set es} s s' \<and>
    (\<forall>k a. (k, VAddr a) \<in> set es \<longrightarrow> GetAccountX s a \<noteq> None \<longrightarrow> kv_get (accx_store s') k = None)"
  using assms(2-3)
proof (induction es arbitrary: s)
  case Nil
  then show ?case using releases_refl by (simp add: return_def)
next
  case (Cons e es)
  obtain u a where u: "time_fits u" "u \<le> t" "e = (KeyUnlockedCoinsQueue C u a, VAddr a)"
    using Cons.prems(2) by auto
  have "\<exists>s1. unlock_entry C q ctx t e s = (Ok (), s1) \<and> releases C tot t {a} s s1 \<and>
      (GetAccountX s a \<noteq> None \<longrightarrow> kv_get (accx_store s1) (fst e) = None)"
  proof (cases "GetAccountX s a")
    case None
    then have "unlock_entry C q ctx t e s = (Ok (), s)" by (simp add: unlock_entry_def u(3))
    moreover have "releases C tot t {a} s s"
      using Cons.prems(1) None by (simp add: releases_def due_of_def)
    ultimately show ?thesis using None by blast
  next
    case (Some x)
    then show ?thesis using unlock_entry_spec [OF C Cons.prems(1) u(1,2) Some] by (auto simp: u(3))
  qed
  then obtain s1 where s1: "unlock_entry C q ctx t e s = (Ok (), s1)" "releases C tot t {a} s s1"
    "GetAccountX s a \<noteq> None \<longrightarrow> kv_get (accx_store s1) (fst e) = None" by blast
  have inv1: "authx_inv C s1" using s1(2) by (simp add: releases_def)
  from Cons.IH [OF inv1] Cons.prems(2) obtain s2 where
    s2: "foreach (unlock_entry C q ctx t) es s1 = (Ok (), s2)"
      "releases C tot t {a. \<exists>k. (k, VAddr a) \<in> set es} s1 s2"
      "\<forall>k a. (k, VAddr a) \<in> set es \<longrightarrow> GetAccountX s1 a \<noteq> None \<longrightarrow> kv_get (accx_store s2) k = None"
    by auto
  have same: "GetAccountX s1 b \<noteq> None \<longleftrightarrow> GetAccountX s b \<noteq> None" for b
    using s1(2) by (simp add: releases_def)
  have key: "kv_get (accx_store s2) (fst e) = None" if "GetAccountX s a \<noteq> None"
  proof (rule ccontr)
    assume "kv_get (accx_store s2) (fst e) \<noteq> None"
    then obtain v where v: "kv_get (accx_store s2) (fst e) = Some v" by auto
    have "accx_store_ok C (accx_store s2)" using s2(2) by (simp add: releases_def authx_inv_def)
    then obtain b where "v = VAddr b" using queue_key_address v by (metis fst_conv u(3))
    with v s2(2) have "kv_get (accx_store s1) (fst e) = Some (VAddr b)" by (simp add: releases_def)
    with s1(3) that show False by simp
  qed
  have "{a. \<exists>k. (k, VAddr a) \<in> set (e # es)} = {a} \<union> {a. \<exists>k. (k, VAddr a) \<in> set es}"
    using u(3) by auto
  then have "releases C tot t {a. \<exists>k. (k, VAddr a) \<in> set (e # es)} s s2"
    using releases_trans [OF s1(2) s2(2)] by simp
  moreover have "foreach (unlock_entry C q ctx t) (e # es) s = (Ok (), s2)"
    using s1(1) s2(1) by (simp add: and_then_def)
  ultimately show ?case using key s2(3) same u(3) by auto
qed

lemma authx_EndBlocker_releases:
  assumes C: "cosmos_ok C tot" and inv: "authx_inv C s" and now: "time_fits (Unix ctx)"
  shows "\<exists>s'. authx_EndBlocker C q ctx s = (Ok (), s') \<and> releases C tot (Unix ctx) UNIV s s' \<and>
    (\<forall>u a. time_fits u \<longrightarrow> u \<le> Unix ctx \<longrightarrow> GetAccountX s a \<noteq> None \<longrightarrow>
      kv_get (accx_store s') (KeyUnlockedCoinsQueue C u a) = None)"
proof -
  note laws = cosmos_okD [OF C]
  define t where "t = Unix ctx"
  define es where "es = UnlockedCoinsQueueIterator C s t"
  have invs: "accx_inv C s" using inv by (simp add: authx_inv_def)
  have kvok: "kv_ok (accx_store s)" using invs by (simp add: accx_store_ok_def)
  have mem: "(k, v) \<in> set es \<longleftrightarrow> kv_get (accx_store s) k = Some v \<and> PrefixUnlockedCoinsQueue \<le> k \<and>
      k < PrefixEndBytes C (PrefixUnlockedTimeQueueTime C t)" for k v
    unfolding es_def UnlockedCoinsQueueIterator_def by (rule kv_iterator_exact [OF kvok])
  have shape: "\<exists>u a. time_fits u \<and> u \<le> t \<and> e = (KeyUnlockedCoinsQueue C u a, VAddr a)"
    if e_in: "e \<in> set es" for e
  proof -
    obtain k v where e: "e = (k, v)" by (cases e)
    have kv: "kv_get (accx_store s) k = Some v" "PrefixUnlockedCoinsQueue \<le> k"
      "k < PrefixEndBytes C (PrefixUnlockedTimeQueueTime C t)"
      using mem e_in e by auto
    show ?thesis
    proof (cases v)
      case (VAccX x)
      then have "k = AddressStoreKey (ax_Address x)" using invs kv(1) unfolding accx_store_ok_def by blast
      moreover have "\<not> PrefixUnlockedCoinsQueue \<le> AddressStoreKey (ax_Address x)"
      proof -
        have "byte 1 < CHR ''U''" by code_simp
        then show ?thesis
          by (simp add: AddressStoreKey_def AddressStoreKeyPrefix_def PrefixUnlockedCoinsQueue_def not_le
              less_imp_not_less less_imp_neq [symmetric] less_imp_neq)
      qed
      ultimately show ?thesis using kv(2) by simp
    next
      case (VAddr a)
      then obtain u where u: "time_fits u" "k = KeyUnlockedCoinsQueue C u a"
        using invs kv(1) unfolding accx_store_ok_def by blast
      have "u \<le> t" using queue_key_in_range [OF laws(2) u(1), of t a] now kv(2,3) u(2) by (simp add: t_def)
      with u VAddr e show ?thesis by auto
    qed
  qed
  obtain s' where run: "foreach (unlock_entry C q ctx t) es s = (Ok (), s')"
    and rel: "releases C tot t {a. \<exists>k. (k, VAddr a) \<in> set es} s s'"
    and gone: "\<forall>k a. (k, VAddr a) \<in> set es \<longrightarrow> GetAccountX s a \<noteq> None \<longrightarrow> kv_get (accx_store s') k = None"
    using unlock_entries [OF C inv, of es t] shape by blast
  have not_due: "released t x = x \<and> (\<forall>d. due_sum t (ax_LockedCoins x) d = 0)"
    if x: "GetAccountX s a = Some x" and out: "\<nexists>k. (k, VAddr a) \<in> set es" for a x
  proof -
    have "\<not> lc_UnlockTime l \<le> t" if l: "l \<in> set (ax_LockedCoins x)" for l
    proof
      assume le: "lc_UnlockTime l \<le> t"
      have q: "kv_get (accx_store s) (KeyUnlockedCoinsQueue C (lc_UnlockTime l) a) = Some (VAddr a)"
        using accx_inv_account(3) [OF invs x] l by (simp add: queued_def)
      have fit: "time_fits (lc_UnlockTime l)" using accx_inv_account(2) [OF invs x] l by (simp add: accx_wf_def)
      have "(KeyUnlockedCoinsQueue C (lc_UnlockTime l) a, VAddr a) \<in> set es"
        using queue_key_in_range [OF laws(2) fit, of t a] now q le by (simp add: mem t_def)
      with out show False by blast
    qed
    then have "filter (\<lambda>l. \<not> lc_UnlockTime l \<le> t) (ax_LockedCoins x) = ax_LockedCoins x"
      and "filter (\<lambda>l. lc_UnlockTime l \<le> t) (ax_LockedCoins x) = []"
      by (simp_all add: filter_id_conv filter_empty_conv)
    then show ?thesis by (simp add: released_def due_sum_def)
  qed
  have "releases C tot t UNIV s s'"
  proof -
    have "GetAccountX s' b = map_option (released t) (GetAccountX s b) \<and>
        (\<forall>d. balance C (bank s') b d = balance C (bank s) b d + due_of t d (GetAccountX s b))" for b
    proof (cases "\<exists>k. (k, VAddr b) \<in> set es")
      case True
      with rel show ?thesis by (simp add: releases_def)
    next
      case False
      then have "GetAccountX s' b = GetAccountX s b"
        "\<forall>d. balance C (bank s') b d = balance C (bank s) b d"
        using rel by (simp_all add: releases_def)
      moreover have "released t x = x \<and> (\<forall>d. due_sum t (ax_LockedCoins x) d = 0)"
        if "GetAccountX s b = Some x" for x
        using not_due [of b x] that False by blast
      then have "map_option (released t) (GetAccountX s b) = GetAccountX s b"
        "due_of t d (GetAccountX s b) = 0" for d
        by (cases "GetAccountX s b"; fastforce simp: due_of_def)+
      ultimately show ?thesis by simp
    qed
    then have "\<forall>b. GetAccountX s' b = map_option (released t) (GetAccountX s b)"
      "\<forall>b d. balance C (bank s') b d = balance C (bank s) b d + due_of t d (GetAccountX s b)" by blast+
    then show ?thesis using rel by (simp add: releases_def)
  qed
  moreover have "kv_get (accx_store s') (KeyUnlockedCoinsQueue C u a) = None"
    if u: "time_fits u" "u \<le> t" and a: "GetAccountX s a \<noteq> None" for u a
  proof (rule ccontr)
    assume "kv_get (accx_store s') (KeyUnlockedCoinsQueue C u a) \<noteq> None"
    then obtain v where v: "kv_get (accx_store s') (KeyUnlockedCoinsQueue C u a) = Some v" by auto
    have inv': "accx_store_ok C (accx_store s')" using rel by (simp add: releases_def authx_inv_def)
    then obtain b where b: "v = VAddr b"
      using queue_key_address [OF _ v] by blast
    then obtain w where "time_fits w" "KeyUnlockedCoinsQueue C u a = KeyUnlockedCoinsQueue C w b"
      using inv' v unfolding accx_store_ok_def by blast
    then have ab: "a = b" using queue_key_inj [OF laws(2) u(1)] by simp
    have "kv_get (accx_store s) (KeyUnlockedCoinsQueue C u a) = Some (VAddr b)"
      using rel v b by (simp add: releases_def)
    then have "(KeyUnlockedCoinsQueue C u a, VAddr a) \<in> set es"
      using queue_key_in_range [OF laws(2) u(1), of t a] now u(2) ab by (simp add: mem t_def)
    with gone a v show False by fastforce
  qed
  ultimately show ?thesis using run by (auto simp: authx_EndBlocker_def t_def es_def)
qed

end
