(* ===== verification/Bankx.thy ===== *)
theory Bankx
  imports AuthXEnd
begin

section \<open>The bankx keeper\<close>

text \<open>
  \<open>src/modules/bankx/internal/keeper/keeper.go\<close> with the module's parameters and errors: sending
  plain and locked coins, freezing and unfreezing, fees. The keeper is the interface through which
  the other modules move coins.
\<close>

definition ModuleName_bankx :: string where "ModuleName_bankx = ''bankx''"
definition Topic_bankx :: string where "Topic_bankx = ModuleName_bankx"
definition FeeCollectorName :: string where "FeeCollectorName = ''fee_collector''"
definition distribution_ModuleName :: string where "distribution_ModuleName = ''distribution''"

subsection \<open>Errors and parameters (\<open>errors.go\<close>, \<open>params.go\<close>, \<open>genesis.go\<close>)\<close>

definition BankxErrMemoMissing :: err where "BankxErrMemoMissing = ModErr ModuleName_bankx 301"
definition BankxErrInsufficientCETForActivatingFee :: err where
  "BankxErrInsufficientCETForActivatingFee = ModErr ModuleName_bankx 302"
definition BankxErrInvalidActivatingFee :: err where "BankxErrInvalidActivatingFee = ModErr ModuleName_bankx 303"
definition BankxErrUnlockTime :: err where "BankxErrUnlockTime = ModErr ModuleName_bankx 304"
definition BankxErrTokenForbiddenByOwner :: err where "BankxErrTokenForbiddenByOwner = ModErr ModuleName_bankx 305"
definition BankxErrInvalidLockCoinsFee :: err where "BankxErrInvalidLockCoinsFee = ModErr ModuleName_bankx 306"
definition BankxErrNoInputs :: err where "BankxErrNoInputs = ModErr ModuleName_bankx 307"
definition BankxErrNoOutputs :: err where "BankxErrNoOutputs = ModErr ModuleName_bankx 308"
definition BankxErrInputOutputMismatch :: err where "BankxErrInputOutputMismatch = ModErr ModuleName_bankx 309"
definition BankxErrInvalidLockCoinsFreeTime :: err where
  "BankxErrInvalidLockCoinsFreeTime = ModErr ModuleName_bankx 310"
definition BankxErrInvalidOperation :: err where "BankxErrInvalidOperation = ModErr ModuleName_bankx 311"
definition BankxErrRewardExceedsAmount :: err where "BankxErrRewardExceedsAmount = ModErr ModuleName_bankx 312"
definition BankxErrLockedCoinNotFound :: err where "BankxErrLockedCoinNotFound = ModErr ModuleName_bankx 313"
definition BankxErrInvalidTokenSymbol :: err where "BankxErrInvalidTokenSymbol = ModErr ModuleName_bankx 314"

record bankx_params =
  ActivationFee :: int
  LockCoinsFreeTime :: int
  LockCoinsFeePerDay :: int

definition bankx_DefaultParams :: bankx_params where
  "bankx_DefaultParams = \<lparr>ActivationFee = 100000000, LockCoinsFreeTime = 604800000000000,
     LockCoinsFeePerDay = 1000000\<rparr>"

definition bankx_ValidateGenesis :: "bankx_params \<Rightarrow> unit ret" where
  "bankx_ValidateGenesis p =
     (if ActivationFee p < 0 then Err BankxErrInvalidActivatingFee
      else if LockCoinsFreeTime p < 0 then Err BankxErrInvalidLockCoinsFreeTime
      else if LockCoinsFeePerDay p < 0 then Err BankxErrInvalidLockCoinsFee
      else Ok ())"

record 'b bankx_state = "'b authx_state" +
  bankx_params :: bankx_params

definition bankx_InitGenesis :: "bankx_params \<Rightarrow> (('b, 'z) bankx_state_scheme, unit) op" where
  "bankx_InitGenesis p = modify (\<lambda>s. s\<lparr>bankx_params := p\<rparr>)"

definition bankx_ExportGenesis :: "('b, 'z) bankx_state_scheme \<Rightarrow> bankx_params" where
  "bankx_ExportGenesis s = bankx_params s"

subsection \<open>Reading\<close>

definition HasCoins ::
    "('b, 'y) cosmos_scheme \<Rightarrow> ctx \<Rightarrow> addr \<Rightarrow> coins \<Rightarrow> ('b, 'z) base_state_scheme \<Rightarrow> bool" where
  "HasCoins C ctx a amt s =
     (if \<not> acc_exists C (bank s) a then False
      else coins_IsAllGTE C (acc_Spendable C (bank s) a (BlockTime ctx)) amt)"

definition IsSendForbidden :: "('b, 'z) asset_state_scheme \<Rightarrow> coins \<Rightarrow> addr \<Rightarrow> bool" where
  "IsSendForbidden s amt a = list_ex (\<lambda>c. IsForbiddenByTokenIssuer s (Denom c) a) amt"

text \<open>The denomination of the first coin without a token, if there is one.\<close>

definition IsTokensExist :: "('b, 'z) asset_state_scheme \<Rightarrow> coins \<Rightarrow> string option" where
  "IsTokensExist s amt = map_option Denom (find (\<lambda>c. \<not> IsTokenExists s (Denom c)) amt)"

definition GetCoins :: "('b, 'y) cosmos_scheme \<Rightarrow> ('b, 'z) base_state_scheme \<Rightarrow> addr \<Rightarrow> coins" where
  "GetCoins C s a = acc_Coins C (bank s) a"

definition GetFrozenCoins :: "('b, 'z) authx_state_scheme \<Rightarrow> addr \<Rightarrow> coins" where
  "GetFrozenCoins s a = (case GetAccountX s a of None \<Rightarrow> [] | Some x \<Rightarrow> ax_FrozenCoins x)"

definition GetLockedCoins :: "('b, 'z) authx_state_scheme \<Rightarrow> addr \<Rightarrow> LockedCoin list" where
  "GetLockedCoins s a = (case GetAccountX s a of None \<Rightarrow> [] | Some x \<Rightarrow> ax_LockedCoins x)"

definition GetTotalCoins :: "('b, 'y) cosmos_scheme \<Rightarrow> ('b, 'z) authx_state_scheme \<Rightarrow> addr \<Rightarrow> coins" where
  "GetTotalCoins C s a =
     (let cs = (if acc_exists C (bank s) a then acc_Coins C (bank s) a else [])
      in case GetAccountX s a of None \<Rightarrow> cs | Some x \<Rightarrow> coins_Add C cs (GetAllCoins C x))"

definition GetMemoRequired :: "('b, 'z) authx_state_scheme \<Rightarrow> addr \<Rightarrow> bool" where
  "GetMemoRequired s a = (case GetAccountX s a of Some x \<Rightarrow> ax_MemoRequired x | None \<Rightarrow> False)"

subsection \<open>Moving coins\<close>

definition SubtractCoins :: "('b, 'y) cosmos_scheme \<Rightarrow> addr \<Rightarrow> coins \<Rightarrow> (('b, 'z) base_state_scheme, unit) op" where
  "SubtractCoins C a amt = on_bank (bank_SubtractCoins C a amt)"

definition AddCoins :: "('b, 'y) cosmos_scheme \<Rightarrow> addr \<Rightarrow> coins \<Rightarrow> (('b, 'z) base_state_scheme, unit) op" where
  "AddCoins C a amt = on_bank (bank_AddCoins C a amt)"

definition SendCoins :: "('b, 'y) cosmos_scheme \<Rightarrow> addr \<Rightarrow> addr \<Rightarrow> coins \<Rightarrow> (('b, 'z) asset_state_scheme, unit) op" where
  "SendCoins C fromA toA amt s =
     (if IsSendForbidden s amt fromA then (Err BankxErrTokenForbiddenByOwner, s)
      else on_bank (bank_SendCoins C fromA toA amt) s)"

definition DeductFee :: "('b, 'y) cosmos_scheme \<Rightarrow> addr \<Rightarrow> coins \<Rightarrow> (('b, 'z) base_state_scheme, unit) op" where
  "DeductFee C a amt = on_bank (supply_AccToModule C a FeeCollectorName amt)"

definition DonateCoins :: "('b, 'y) cosmos_scheme \<Rightarrow> addr \<Rightarrow> coins \<Rightarrow> (('b, 'z) base_state_scheme, unit) op" where
  "DonateCoins C a amt = on_bank (supply_AccToModule C a distribution_ModuleName amt)"

definition DeductInt64CetFee :: "('b, 'y) cosmos_scheme \<Rightarrow> addr \<Rightarrow> int \<Rightarrow> (('b, 'z) base_state_scheme, unit) op" where
  "DeductInt64CetFee C a amt = and_then (lift (NewCetCoins C amt)) (DeductFee C a)"

definition FreezeCoins :: "('b, 'y) cosmos_scheme \<Rightarrow> addr \<Rightarrow> coins \<Rightarrow> (('b, 'z) authx_state_scheme, unit) op" where
  "FreezeCoins C a amt s =
     (if IsSendForbidden s amt a then (Err BankxErrTokenForbiddenByOwner, s)
      else and_then (SubtractCoins C a amt) (\<lambda>_.
           and_then (GetOrCreateAccountX a) (\<lambda>accx.
           SetAccountX (accx\<lparr>ax_FrozenCoins := coins_Add C (ax_FrozenCoins accx) amt\<rparr>))) s)"

definition UnFreezeCoins :: "('b, 'y) cosmos_scheme \<Rightarrow> addr \<Rightarrow> coins \<Rightarrow> (('b, 'z) authx_state_scheme, unit) op" where
  "UnFreezeCoins C a amt s = (case GetAccountX s a of
      None \<Rightarrow> (Err (SdkErr ''ErrUnknownAddress''), s)
    | Some accx \<Rightarrow>
        let (frozenCoins, neg) = coins_SafeSub C (ax_FrozenCoins accx) amt
        in if neg then (Err (SdkErr ''ErrInsufficientCoins''), s)
           else and_then (SetAccountX (accx\<lparr>ax_FrozenCoins := frozenCoins\<rparr>))
             (\<lambda>_. AddCoins C a amt) s)"

subsection \<open>Locked coins\<close>

fun lock_coins ::
    "'y sdk_scheme \<Rightarrow> addr \<Rightarrow> addr \<Rightarrow> int \<Rightarrow> int \<Rightarrow> bool \<Rightarrow> coins \<Rightarrow> AccountX \<Rightarrow> (('b, 'z) asset_state_scheme, AccountX) op" where
  "lock_coins S fromAddr supervisor unlockTime reward isSupervised [] ax = return ax"
| "lock_coins S fromAddr supervisor unlockTime reward isSupervised (c # cs) ax =
     and_then (lift (if isSupervised
         then NewSupervisedLockedCoin S (Denom c) (Amount c) unlockTime fromAddr supervisor reward
         else NewLockedCoin S (Denom c) (Amount c) unlockTime)) (\<lambda>l.
     and_then (UpdateTokenSendLock S (Denom c) (Amount c) True) (\<lambda>_.
     lock_coins S fromAddr supervisor unlockTime reward isSupervised cs
       (ax\<lparr>ax_LockedCoins := ax_LockedCoins ax @ [l]\<rparr>)))"

definition lock_fee ::
    "('b, 'y) cosmos_scheme \<Rightarrow> ctx \<Rightarrow> addr \<Rightarrow> int \<Rightarrow> bankx_params \<Rightarrow> (('b, 'z) base_state_scheme, unit) op" where
  "lock_fee C ctx fromAddr unlockTime p =
     (let lockDuration = i64 (i64 (unlockTime - Unix ctx) * 1000000000)
      in if lockDuration > LockCoinsFreeTime p \<and> LockCoinsFeePerDay p > 0
         then let exceededDays =
             i64 (go_quo (i64 (i64 (lockDuration - LockCoinsFreeTime p) - 1)) (24 * 3600000000000) + 1)
           in if exceededDays > go_quo (2 ^ 63 - 1) (LockCoinsFeePerDay p) then fail BankxErrUnlockTime
              else and_then (lift (NewCetCoins C (i64 (LockCoinsFeePerDay p * exceededDays))))
                (DeductFee C fromAddr)
         else return ())"

definition SendLockedCoins ::
    "('b, 'y) cosmos_scheme \<Rightarrow> ctx \<Rightarrow> addr \<Rightarrow> addr \<Rightarrow> addr \<Rightarrow> coins \<Rightarrow> int \<Rightarrow> int \<Rightarrow> bool \<Rightarrow>
      (('b, 'z) bankx_state_scheme, unit) op" where
  "SendLockedCoins C ctx fromAddr toAddr supervisor amt unlockTime reward isSupervised s =
     (if IsSendForbidden s amt fromAddr then (Err BankxErrTokenForbiddenByOwner, s)
      else and_then (whenever (\<not> acc_exists C (bank s) toAddr) (AddCoins C toAddr [])) (\<lambda>_.
           and_then (lock_fee C ctx fromAddr unlockTime (bankx_params s)) (\<lambda>_.
           and_then (SubtractCoins C fromAddr amt) (\<lambda>_.
           and_then (GetOrCreateAccountX toAddr) (\<lambda>ax.
           and_then (lock_coins C fromAddr supervisor unlockTime reward isSupervised amt ax) (\<lambda>ax.
           and_then (SetAccountX ax) (\<lambda>_.
           whenever (amt \<noteq> []) (InsertUnlockedCoinsQueue C unlockTime toAddr))))))) s)"

text \<open>
  The search for the coin to unlock: whether it was found, whether another coin of the account has
  the same unlock time, and the index.
\<close>

fun find_locked ::
    "'y sdk_scheme \<Rightarrow> LockedCoin \<Rightarrow> int \<Rightarrow> nat \<Rightarrow> LockedCoin list \<Rightarrow> bool \<times> bool \<times> nat \<Rightarrow> bool \<times> bool \<times> nat" where
  "find_locked S coin unlockTime i [] acc = acc"
| "find_locked S coin unlockTime i (l # ls) (found, hasOther, coinIndex) =
     find_locked S coin unlockTime (Suc i) ls
       (if unlockTime = lc_UnlockTime l then
          (if \<not> found \<and> LockedCoin_IsEqual S coin l then (True, hasOther, i)
           else (found, True, coinIndex))
        else (found, hasOther, coinIndex))"

definition pay_unlocked ::
    "('b, 'y) cosmos_scheme \<Rightarrow> addr \<Rightarrow> addr \<Rightarrow> coin \<Rightarrow> int \<Rightarrow> (('b, 'z) base_state_scheme, coins) op" where
  "pay_unlocked C receiver supervisor amt reward =
     (if supervisor = []
      then and_then (lift (NewCoins C [amt])) (\<lambda>transferAmt.
           and_then (AddCoins C receiver transferAmt) (\<lambda>_. return transferAmt))
      else and_then (lift (ret_bind (int_Sub C (Amount amt) reward) (\<lambda>x.
             ret_bind (NewCoin C (Denom amt) x) (\<lambda>c. NewCoins C [c])))) (\<lambda>transferAmt.
           and_then (AddCoins C receiver transferAmt) (\<lambda>_.
           and_then (whenever (reward > 0)
               (and_then (lift (ret_bind (NewCoin C (Denom amt) reward) (\<lambda>c. NewCoins C [c])))
                 (AddCoins C supervisor))) (\<lambda>_.
           return transferAmt))))"

definition EarlierUnlockCoin ::
    "('b, 'y) cosmos_scheme \<Rightarrow> ctx \<Rightarrow> addr \<Rightarrow> addr \<Rightarrow> addr \<Rightarrow> coin \<Rightarrow> int \<Rightarrow> int \<Rightarrow> bool \<Rightarrow>
      (('b, 'z) authx_state_scheme, json) op" where
  "EarlierUnlockCoin C ctx fromAddr toAddr supervisor amt unlockTime reward isReturned s =
     (case GetAccountX s toAddr of
        None \<Rightarrow> (Err (SdkErr ''ErrUnknownAddress''), s)
      | Some ax \<Rightarrow>
          and_then (lift (NewSupervisedLockedCoin C (Denom amt) (Amount amt) unlockTime fromAddr supervisor reward)) (\<lambda>coin.
          let (found, hasOther, coinIndex) =
                find_locked C coin unlockTime 0 (ax_LockedCoins ax) (False, False, 0);
              receiver = (if isReturned then fromAddr else toAddr)
          in if \<not> found then fail BankxErrLockedCoinNotFound
             else and_then (UpdateTokenSendLock C (Denom amt) (Amount amt) False) (\<lambda>_.
                  and_then (pay_unlocked C receiver supervisor amt reward) (\<lambda>transferAmt.
                  and_then (SetAccountX (ax\<lparr>ax_LockedCoins :=
                      take coinIndex (ax_LockedCoins ax) @ drop (Suc coinIndex) (ax_LockedCoins ax)\<rparr>)) (\<lambda>_.
                  and_then (whenever (\<not> hasOther) (RemoveFromUnlockedCoinsQueue C unlockTime toAddr)) (\<lambda>_.
                  gets (\<lambda>s. NotificationUnlock receiver transferAmt (GetLockedCoins s receiver)
                    (GetFrozenCoins s receiver) (GetCoins C s receiver) (BlockHeight ctx))))))) s)"

subsection \<open>Activation and the rest\<close>

definition DeductActivationFee ::
    "('b, 'y) cosmos_scheme \<Rightarrow> addr \<Rightarrow> addr \<Rightarrow> coins \<Rightarrow> (('b, 'z) bankx_state_scheme, coins) op" where
  "DeductActivationFee C fromA toA transfer s =
     (if \<not> acc_exists C (bank s) toA
      then and_then (lift (NewCetCoins C (ActivationFee (bankx_params s)))) (\<lambda>activationFee.
           let (amt, neg) = coins_SafeSub C transfer activationFee
           in if neg then fail BankxErrInsufficientCETForActivatingFee
              else and_then (DeductFee C fromA activationFee) (\<lambda>_. return amt)) s
      else (Ok transfer, s))"

fun fresh_accounts ::
    "('b, 'y) cosmos_scheme \<Rightarrow> 'b \<Rightarrow> string list \<Rightarrow> (addr \<times> coins) list \<Rightarrow> addr list" where
  "fresh_accounts C b addrsMap [] = []"
| "fresh_accounts C b addrsMap (out # outs) =
     (if \<not> acc_exists C b (fst out) \<and> addr_String C (fst out) \<notin> set addrsMap
      then fst out # fresh_accounts C b (addr_String C (fst out) # addrsMap) outs
      else fresh_accounts C b addrsMap outs)"

definition PreCheckFreshAccounts ::
    "('b, 'y) cosmos_scheme \<Rightarrow> ('b, 'z) base_state_scheme \<Rightarrow> (addr \<times> coins) list \<Rightarrow> addr list" where
  "PreCheckFreshAccounts C s outputs = fresh_accounts C (bank s) [] outputs"

definition DeductActivationFeeForFreshAccounts ::
    "('b, 'y) cosmos_scheme \<Rightarrow> addr list \<Rightarrow> (('b, 'z) bankx_state_scheme, unit) op" where
  "DeductActivationFeeForFreshAccounts C addrs s =
     and_then (lift (NewCetCoins C (ActivationFee (bankx_params s))))
       (\<lambda>fee. foreach (\<lambda>a. DeductFee C a fee) addrs) s"

definition InputOutputCoins ::
    "('b, 'y) cosmos_scheme \<Rightarrow> (addr \<times> coins) list \<Rightarrow> (addr \<times> coins) list \<Rightarrow> (('b, 'z) base_state_scheme, unit) op" where
  "InputOutputCoins C inputs outputs = on_bank (bank_InputOutputCoins C inputs outputs)"

definition SetMemoRequired ::
    "('b, 'y) cosmos_scheme \<Rightarrow> addr \<Rightarrow> bool \<Rightarrow> (('b, 'z) authx_state_scheme, unit) op" where
  "SetMemoRequired C a required s =
     (if \<not> acc_exists C (bank s) a then (Err (SdkErr ''ErrUnknownAddress''), s)
      else and_then (GetOrCreateAccountX a)
        (\<lambda>accountX. SetAccountX (accountX\<lparr>ax_MemoRequired := required\<rparr>)) s)"

end
