(* ===== verification/AssetKeeper.thy ===== *)
theory AssetKeeper
  imports Bankx
begin

section \<open>The asset module: keeper, messages and handler\<close>

text \<open>
  \<open>src/modules/asset\<close>: the operations of \<open>BaseKeeper\<close> (\<open>internal/keepers/keeper.go\<close>) that change tokens,
  the messages of \<open>internal/types/msg.go\<close>, \<open>handler.go\<close> and \<open>genesis.go\<close>. Every change of a token's
  supply mints or burns the same coins through the supply keeper of the framework.
\<close>

subsection \<open>The keeper (\<open>keeper.go\<close>)\<close>

definition IssueToken ::
    "('b, 'y) cosmos_scheme \<Rightarrow> string \<Rightarrow> string \<Rightarrow> int \<Rightarrow> addr \<Rightarrow> bool \<Rightarrow> bool \<Rightarrow> bool \<Rightarrow> bool \<Rightarrow>
      string \<Rightarrow> string \<Rightarrow> string \<Rightarrow> (('b, 'z) asset_state_scheme, unit) op" where
  "IssueToken C name symbol totalSupply owner mintable burnable addrForbiddable tokenForbiddable url description identity s =
     (let cet_owner = (case GetToken s CET of None \<Rightarrow> False | Some cetToken \<Rightarrow> owner = Owner cetToken)
      in if bank_Blacklisted C owner then fail AssetErrAccInBlackList
         else if IsTokenExists s symbol then fail AssetErrDuplicateTokenSymbol
         else if (IsReservedSymbol symbol \<and> symbol \<noteq> CET) \<and> \<not> cet_owner then fail AssetErrInvalidIssueOwner
         else if IsSuffixSymbol symbol \<and> \<not> cet_owner then fail AssetErrInvalidTokenSymbol
         else and_then (lift (NewToken name symbol totalSupply owner mintable burnable addrForbiddable tokenForbiddable
                url description identity)) (\<lambda>t.
              and_then (SetToken t) (\<lambda>_.
              and_then (lift (NewTokenCoins C symbol totalSupply)) (\<lambda>cs.
              on_bank (supply_MintCoins C ModuleName_asset cs))))) s"

definition checkPrecondition :: "('b, 'z) asset_state_scheme \<Rightarrow> string \<Rightarrow> addr \<Rightarrow> token ret" where
  "checkPrecondition s symbol owner =
     (case GetToken s symbol of None \<Rightarrow> Err AssetErrTokenNotFound
      | Some t \<Rightarrow> if Owner t \<noteq> owner then Err AssetErrNeedTokenOwner else Ok t)"

definition TransferOwnership ::
    "('b, 'y) cosmos_scheme \<Rightarrow> string \<Rightarrow> addr \<Rightarrow> addr \<Rightarrow> (('b, 'z) asset_state_scheme, unit) op" where
  "TransferOwnership C symbol originalOwner newOwner s =
     (if bank_Blacklisted C newOwner then (Err AssetErrAccInBlackList, s)
      else and_then (lift (checkPrecondition s symbol originalOwner)) (\<lambda>t.
           and_then (lift (SetOwner newOwner t)) SetToken) s)"

definition MintToken ::
    "('b, 'y) cosmos_scheme \<Rightarrow> string \<Rightarrow> addr \<Rightarrow> int \<Rightarrow> (('b, 'z) asset_state_scheme, unit) op" where
  "MintToken C symbol owner amount s =
     and_then (lift (checkPrecondition s symbol owner)) (\<lambda>t.
     if \<not> Mintable t then fail AssetErrTokenMintNotSupported
     else and_then (lift (ret_bind (int_Add C (TotalMint t) amount) (\<lambda>x. SetTotalMint x t))) (\<lambda>t.
          and_then (lift (ret_bind (int_Add C (TotalSupply t) amount) (\<lambda>x. SetTotalSupply x t))) (\<lambda>t.
          and_then (SetToken t) (\<lambda>_.
          and_then (lift (NewTokenCoins C symbol amount)) (\<lambda>cs.
          on_bank (supply_MintCoins C ModuleName_asset cs)))))) s"

definition BurnToken ::
    "('b, 'y) cosmos_scheme \<Rightarrow> string \<Rightarrow> addr \<Rightarrow> int \<Rightarrow> (('b, 'z) asset_state_scheme, unit) op" where
  "BurnToken C symbol owner amount s =
     and_then (lift (checkPrecondition s symbol owner)) (\<lambda>t.
     if \<not> Burnable t then fail AssetErrTokenBurnNotSupported
     else and_then (lift (ret_bind (int_Add C (TotalBurn t) amount) (\<lambda>x. SetTotalBurn x t))) (\<lambda>t.
          and_then (lift (ret_bind (int_Sub C (TotalSupply t) amount) (\<lambda>x. SetTotalSupply x t))) (\<lambda>t.
          and_then (SetToken t) (\<lambda>_.
          and_then (lift (NewTokenCoins C symbol amount)) (\<lambda>cs.
          on_bank (supply_BurnCoins C ModuleName_asset cs)))))) s"

definition ForbidToken :: "string \<Rightarrow> addr \<Rightarrow> (('b, 'z) asset_state_scheme, unit) op" where
  "ForbidToken symbol owner s =
     and_then (lift (checkPrecondition s symbol owner)) (\<lambda>t.
     if \<not> TokenForbiddable t then fail AssetErrTokenForbiddenNotSupported
     else if IsForbidden t then fail AssetErrInvalidTokenForbidden
     else SetToken (t\<lparr>IsForbidden := True\<rparr>)) s"

definition UnForbidToken :: "string \<Rightarrow> addr \<Rightarrow> (('b, 'z) asset_state_scheme, unit) op" where
  "UnForbidToken symbol owner s =
     and_then (lift (checkPrecondition s symbol owner)) (\<lambda>t.
     if \<not> TokenForbiddable t then fail AssetErrTokenForbiddenNotSupported
     else if \<not> IsForbidden t then fail AssetErrInvalidTokenUnForbidden
     else SetToken (t\<lparr>IsForbidden := False\<rparr>)) s"

text \<open>The two address lists: keys with an empty value. Empty addresses are skipped.\<close>

definition asset_set :: "string \<Rightarrow> (('b, 'z) asset_state_scheme, unit) op" where
  "asset_set k = modify (\<lambda>s. s\<lparr>asset_store := kv_set k VMark (asset_store s)\<rparr>)"

definition asset_delete :: "string \<Rightarrow> (('b, 'z) asset_state_scheme, unit) op" where
  "asset_delete k = modify (\<lambda>s. s\<lparr>asset_store := kv_delete k (asset_store s)\<rparr>)"

definition addWhitelist :: "string \<Rightarrow> addr list \<Rightarrow> (('b, 'z) asset_state_scheme, unit) op" where
  "addWhitelist symbol = foreach (\<lambda>a. whenever (a \<noteq> []) (asset_set (GetWhitelistStoreKey symbol a)))"

definition removeWhitelist :: "string \<Rightarrow> addr list \<Rightarrow> (('b, 'z) asset_state_scheme, unit) op" where
  "removeWhitelist symbol = foreach (\<lambda>a. whenever (a \<noteq> []) (asset_delete (GetWhitelistStoreKey symbol a)))"

definition addForbiddenAddress :: "string \<Rightarrow> addr list \<Rightarrow> (('b, 'z) asset_state_scheme, unit) op" where
  "addForbiddenAddress symbol = foreach (\<lambda>a. whenever (a \<noteq> []) (asset_set (GetForbiddenAddrStoreKey symbol a)))"

definition removeForbiddenAddress :: "string \<Rightarrow> addr list \<Rightarrow> (('b, 'z) asset_state_scheme, unit) op" where
  "removeForbiddenAddress symbol = foreach (\<lambda>a. whenever (a \<noteq> []) (asset_delete (GetForbiddenAddrStoreKey symbol a)))"

definition AddTokenWhitelist :: "string \<Rightarrow> addr \<Rightarrow> addr list \<Rightarrow> (('b, 'z) asset_state_scheme, unit) op" where
  "AddTokenWhitelist symbol owner whitelist s =
     and_then (lift (checkPrecondition s symbol owner)) (\<lambda>t.
     if \<not> TokenForbiddable t then fail AssetErrTokenForbiddenNotSupported
     else addWhitelist symbol whitelist) s"

definition RemoveTokenWhitelist :: "string \<Rightarrow> addr \<Rightarrow> addr list \<Rightarrow> (('b, 'z) asset_state_scheme, unit) op" where
  "RemoveTokenWhitelist symbol owner whitelist s =
     and_then (lift (checkPrecondition s symbol owner)) (\<lambda>t.
     if \<not> TokenForbiddable t then fail AssetErrTokenForbiddenNotSupported
     else removeWhitelist symbol whitelist) s"

definition ForbidAddress :: "string \<Rightarrow> addr \<Rightarrow> addr list \<Rightarrow> (('b, 'z) asset_state_scheme, unit) op" where
  "ForbidAddress symbol owner addresses s =
     and_then (lift (checkPrecondition s symbol owner)) (\<lambda>t.
     if \<not> AddrForbiddable t then fail AssetErrAddressForbiddenNotSupported
     else addForbiddenAddress symbol addresses) s"

definition UnForbidAddress :: "string \<Rightarrow> addr \<Rightarrow> addr list \<Rightarrow> (('b, 'z) asset_state_scheme, unit) op" where
  "UnForbidAddress symbol owner addresses s =
     and_then (lift (checkPrecondition s symbol owner)) (\<lambda>t.
     if \<not> AddrForbiddable t then fail AssetErrAddressForbiddenNotSupported
     else removeForbiddenAddress symbol addresses) s"

definition SendCoinsFromAssetModuleToAccount ::
    "('b, 'y) cosmos_scheme \<Rightarrow> addr \<Rightarrow> coins \<Rightarrow> (('b, 'z) base_state_scheme, unit) op" where
  "SendCoinsFromAssetModuleToAccount C a amt = on_bank (supply_ModuleToAcc C ModuleName_asset a amt)"

definition SendCoinsFromAccountToAssetModule ::
    "('b, 'y) cosmos_scheme \<Rightarrow> addr \<Rightarrow> coins \<Rightarrow> (('b, 'z) base_state_scheme, unit) op" where
  "SendCoinsFromAccountToAssetModule C a amt = on_bank (supply_AccToModule C a ModuleName_asset amt)"

definition DeductIssueFee :: "('b, 'y) cosmos_scheme \<Rightarrow> addr \<Rightarrow> int \<Rightarrow> (('b, 'z) base_state_scheme, unit) op" where
  "DeductIssueFee C a amt = DeductInt64CetFee C a amt"

text \<open>
  \<open>ModifyTokenInfo\<close> in its stages: texts, name and supply (only while the owner holds every coin),
  and the four switches. The token is a pointer to a fresh decoding, written back once at the end.
\<close>

definition when_new :: "'a \<Rightarrow> 'a \<Rightarrow> token ret \<Rightarrow> token \<Rightarrow> token ret" where
  "when_new x old m t = (if x \<noteq> old then m else Ok t)"

definition modify_texts :: "string \<Rightarrow> string \<Rightarrow> string \<Rightarrow> token \<Rightarrow> token ret" where
  "modify_texts url description identity t =
     ret_bind (when_new url (URL t) (SetURL url t) t) (\<lambda>t.
     ret_bind (when_new description (Description t) (SetDescription description t) t) (\<lambda>t.
     when_new identity (Identity t) (SetIdentity identity t) t))"

definition sealed :: "bool \<Rightarrow> token ret \<Rightarrow> token ret" where
  "sealed b m = (if b then Err AssetErrCodeTokenInfoSealed else m)"

definition modify_supply ::
    "('b, 'y) cosmos_scheme \<Rightarrow> string \<Rightarrow> addr \<Rightarrow> int \<Rightarrow> int \<Rightarrow> bool \<Rightarrow> token \<Rightarrow> (('b, 'z) base_state_scheme, token) op" where
  "modify_supply C symbol owner totalSupply ownerAmt distributed t =
     (if totalSupply = TotalSupply t then return t
      else and_then (lift (sealed distributed (SetTotalSupply totalSupply t))) (\<lambda>t.
        if totalSupply > ownerAmt
        then and_then (lift (ret_bind (int_Sub C totalSupply ownerAmt) (NewTokenCoins C symbol))) (\<lambda>mintedCoins.
             and_then (on_bank (supply_MintCoins C ModuleName_asset mintedCoins)) (\<lambda>_.
             and_then (SendCoinsFromAssetModuleToAccount C owner mintedCoins) (\<lambda>_. return t)))
        else and_then (lift (ret_bind (int_Sub C ownerAmt totalSupply) (NewTokenCoins C symbol))) (\<lambda>burntCoins.
             and_then (SendCoinsFromAccountToAssetModule C owner burntCoins) (\<lambda>_.
             and_then (on_bank (supply_BurnCoins C ModuleName_asset burntCoins)) (\<lambda>_. return t)))))"

definition modify_mint_burn :: "bool \<Rightarrow> bool \<Rightarrow> bool \<Rightarrow> token \<Rightarrow> token ret" where
  "modify_mint_burn mintable burnable distributed t =
     ret_bind (when_new mintable (Mintable t) (sealed (distributed \<and> mintable)
       (let t = t\<lparr>Mintable := mintable\<rparr> in if \<not> mintable then SetTotalMint 0 t else Ok t)) t) (\<lambda>t.
     when_new burnable (Burnable t) (sealed (distributed \<and> \<not> burnable)
       (let t = t\<lparr>Burnable := burnable\<rparr> in if \<not> burnable then SetTotalBurn 0 t else Ok t)) t)"

definition modify_addr_forbiddable ::
    "string \<Rightarrow> bool \<Rightarrow> bool \<Rightarrow> token \<Rightarrow> (('b, 'z) asset_state_scheme, token) op" where
  "modify_addr_forbiddable symbol addrForbiddable distributed t =
     (if addrForbiddable = AddrForbiddable t then return t
      else if distributed \<and> addrForbiddable then fail AssetErrCodeTokenInfoSealed
      else and_then (whenever (\<not> addrForbiddable)
             (\<lambda>s. removeForbiddenAddress symbol (GetForbiddenAddresses s symbol) s)) (\<lambda>_.
           return (t\<lparr>AddrForbiddable := addrForbiddable\<rparr>)))"

definition modify_token_forbiddable :: "bool \<Rightarrow> bool \<Rightarrow> token \<Rightarrow> token ret" where
  "modify_token_forbiddable tokenForbiddable distributed t =
     when_new tokenForbiddable (TokenForbiddable t) (sealed (distributed \<and> tokenForbiddable)
       (let t = t\<lparr>TokenForbiddable := tokenForbiddable\<rparr>
        in Ok (if \<not> tokenForbiddable then t\<lparr>IsForbidden := False\<rparr> else t))) t"

definition ModifyTokenInfo ::
    "('b, 'y) cosmos_scheme \<Rightarrow> string \<Rightarrow> addr \<Rightarrow> string \<Rightarrow> string \<Rightarrow> string \<Rightarrow> string \<Rightarrow> int \<Rightarrow> bool \<Rightarrow> bool \<Rightarrow> bool \<Rightarrow> bool \<Rightarrow>
      (('b, 'z) authx_state_scheme, unit) op" where
  "ModifyTokenInfo C symbol owner url description identity name totalSupply mintable burnable addrForbiddable tokenForbiddable s =
     and_then (lift (checkPrecondition s symbol owner)) (\<lambda>t.
     and_then (lift (modify_texts url description identity t)) (\<lambda>t.
     let ownerAmt = coins_AmountOf C (GetTotalCoins C s owner) symbol;
         distributed = (ownerAmt \<noteq> TotalSupply t)
     in and_then (lift (when_new name (Name t) (sealed distributed (SetName name t)) t)) (\<lambda>t.
        and_then (modify_supply C symbol owner totalSupply ownerAmt distributed t) (\<lambda>t.
        and_then (lift (modify_mint_burn mintable burnable distributed t)) (\<lambda>t.
        and_then (modify_addr_forbiddable symbol addrForbiddable distributed t) (\<lambda>t.
        and_then (lift (modify_token_forbiddable tokenForbiddable distributed t)) SetToken)))))) s"

definition RemoveToken :: "token \<Rightarrow> (('b, 'z) asset_state_scheme, unit) op" where
  "RemoveToken t = asset_delete (GetTokenStoreKey (Symbol t))"

definition AddToken :: "('b, 'y) cosmos_scheme \<Rightarrow> addr \<Rightarrow> coins \<Rightarrow> (('b, 'z) base_state_scheme, unit) op" where
  "AddToken C a amt = AddCoins C a amt"

definition GetAccTotalToken :: "('b, 'y) cosmos_scheme \<Rightarrow> ('b, 'z) authx_state_scheme \<Rightarrow> addr \<Rightarrow> coins" where
  "GetAccTotalToken C s a = GetTotalCoins C s a"

end
