(* ===== verification/AssetHandler.thy ===== *)
theory AssetHandler
  imports AssetKeeper
begin

section \<open>The asset module: messages, handler and genesis\<close>

text \<open>
  \<open>internal/types/msg.go\<close>, \<open>handler.go\<close> and \<open>genesis.go\<close> of \<open>src/modules/asset\<close>. \<open>strconv.ParseBool\<close> is
  modelled, \<open>sdk.NewIntFromString\<close> is a parameter.
\<close>

subsection \<open>Messages (\<open>msg.go\<close>)\<close>

record MsgIssueToken =
  it_Name :: string
  it_Symbol :: string
  it_TotalSupply :: int
  it_Owner :: addr
  it_Mintable :: bool
  it_Burnable :: bool
  it_AddrForbiddable :: bool
  it_TokenForbiddable :: bool
  it_URL :: string
  it_Description :: string
  it_Identity :: string

record MsgTransferOwnership =
  to_Symbol :: string
  to_OriginalOwner :: addr
  to_NewOwner :: addr

record MsgMintToken =
  mt_Symbol :: string
  mt_Amount :: int
  mt_OwnerAddress :: addr

record MsgBurnToken =
  bt_Symbol :: string
  bt_Amount :: int
  bt_OwnerAddress :: addr

record MsgForbidToken =
  ft_Symbol :: string
  ft_OwnerAddress :: addr

record MsgUnForbidToken =
  uf_Symbol :: string
  uf_OwnerAddress :: addr

record MsgAddTokenWhitelist =
  aw_Symbol :: string
  aw_OwnerAddress :: addr
  aw_Whitelist :: "addr list"

record MsgRemoveTokenWhitelist =
  rw_Symbol :: string
  rw_OwnerAddress :: addr
  rw_Whitelist :: "addr list"

record MsgForbidAddr =
  fa_Symbol :: string
  fa_OwnerAddr :: addr
  fa_Addresses :: "addr list"

record MsgUnForbidAddr =
  ua_Symbol :: string
  ua_OwnerAddr :: addr
  ua_Addresses :: "addr list"

record MsgModifyTokenInfo =
  md_Symbol :: string
  md_OwnerAddress :: addr
  md_URL :: string
  md_Description :: string
  md_Identity :: string
  md_Name :: string
  md_TotalSupply :: string
  md_Mintable :: string
  md_Burnable :: string
  md_AddrForbiddable :: string
  md_TokenForbiddable :: string

definition MsgIssueToken_ValidateBasic :: "MsgIssueToken \<Rightarrow> unit ret" where
  "MsgIssueToken_ValidateBasic msg = ret_map (\<lambda>_. ())
     (NewToken (it_Name msg) (it_Symbol msg) (it_TotalSupply msg) (it_Owner msg) (it_Mintable msg) (it_Burnable msg)
       (it_AddrForbiddable msg) (it_TokenForbiddable msg) (it_URL msg) (it_Description msg) (it_Identity msg))"

definition MsgTransferOwnership_ValidateBasic :: "MsgTransferOwnership \<Rightarrow> unit ret" where
  "MsgTransferOwnership_ValidateBasic msg = ret_bind (ValidateTokenSymbol (to_Symbol msg)) (\<lambda>_.
     if to_OriginalOwner msg = [] \<or> to_NewOwner msg = [] then Err AssetErrNilTokenOwner
     else if to_OriginalOwner msg = to_NewOwner msg then Err AssetErrTransferSelfTokenOwner
     else Ok ())"

definition MsgMintToken_ValidateBasic :: "MsgMintToken \<Rightarrow> unit ret" where
  "MsgMintToken_ValidateBasic msg = ret_bind (ValidateTokenSymbol (mt_Symbol msg)) (\<lambda>_.
     if mt_OwnerAddress msg = [] then Err AssetErrNilTokenOwner
     else if \<not> 0 < mt_Amount msg then Err AssetErrInvalidTokenMintAmt
     else Ok ())"

definition MsgBurnToken_ValidateBasic :: "MsgBurnToken \<Rightarrow> unit ret" where
  "MsgBurnToken_ValidateBasic msg = ret_bind (ValidateTokenSymbol (bt_Symbol msg)) (\<lambda>_.
     if bt_OwnerAddress msg = [] then Err AssetErrNilTokenOwner
     else if \<not> 0 < bt_Amount msg then Err AssetErrInvalidTokenBurnAmt
     else Ok ())"

text \<open>The checks that several messages share.\<close>

definition symbol_and_owner :: "string \<Rightarrow> addr \<Rightarrow> unit ret" where
  "symbol_and_owner symbol owner = ret_bind (ValidateTokenSymbol symbol) (\<lambda>_.
     if owner = [] then Err AssetErrNilTokenOwner else Ok ())"

definition some_address :: "err \<Rightarrow> addr list \<Rightarrow> unit ret" where
  "some_address e xs = (if length xs = 0 then Err e else if list_ex (\<lambda>a. a \<noteq> []) xs then Ok () else Err e)"

definition MsgForbidToken_ValidateBasic :: "MsgForbidToken \<Rightarrow> unit ret" where
  "MsgForbidToken_ValidateBasic msg = symbol_and_owner (ft_Symbol msg) (ft_OwnerAddress msg)"

definition MsgUnForbidToken_ValidateBasic :: "MsgUnForbidToken \<Rightarrow> unit ret" where
  "MsgUnForbidToken_ValidateBasic msg = symbol_and_owner (uf_Symbol msg) (uf_OwnerAddress msg)"

definition MsgAddTokenWhitelist_ValidateBasic :: "MsgAddTokenWhitelist \<Rightarrow> unit ret" where
  "MsgAddTokenWhitelist_ValidateBasic msg = ret_bind (symbol_and_owner (aw_Symbol msg) (aw_OwnerAddress msg)) (\<lambda>_.
     some_address AssetErrNilTokenWhitelist (aw_Whitelist msg))"

definition MsgRemoveTokenWhitelist_ValidateBasic :: "MsgRemoveTokenWhitelist \<Rightarrow> unit ret" where
  "MsgRemoveTokenWhitelist_ValidateBasic msg = ret_bind (symbol_and_owner (rw_Symbol msg) (rw_OwnerAddress msg)) (\<lambda>_.
     some_address AssetErrNilTokenWhitelist (rw_Whitelist msg))"

definition MsgForbidAddr_ValidateBasic :: "MsgForbidAddr \<Rightarrow> unit ret" where
  "MsgForbidAddr_ValidateBasic msg = ret_bind (symbol_and_owner (fa_Symbol msg) (fa_OwnerAddr msg)) (\<lambda>_.
     if length (fa_Addresses msg) = 0 then Err AssetErrNilForbiddenAddress
     else if fa_OwnerAddr msg \<in> set (fa_Addresses msg) then Err AssetErrTokenOwnerSelfForbidden
     else some_address AssetErrNilForbiddenAddress (fa_Addresses msg))"

definition MsgUnForbidAddr_ValidateBasic :: "MsgUnForbidAddr \<Rightarrow> unit ret" where
  "MsgUnForbidAddr_ValidateBasic msg = ret_bind (symbol_and_owner (ua_Symbol msg) (ua_OwnerAddr msg)) (\<lambda>_.
     some_address AssetErrNilForbiddenAddress (ua_Addresses msg))"

definition ParseBool :: "string \<Rightarrow> bool option" where
  "ParseBool str =
     (if str \<in> set [''1'', ''t'', ''T'', ''true'', ''TRUE'', ''True''] then Some True
      else if str \<in> set [''0'', ''f'', ''F'', ''false'', ''FALSE'', ''False''] then Some False
      else None)"

definition validateBoolField :: "string \<Rightarrow> unit ret" where
  "validateBoolField valStr =
     (if valStr \<noteq> DoNotModifyTokenInfo \<and> ParseBool valStr = None then Err AssetErrInvalidTokenInfo else Ok ())"

definition if_modified :: "string \<Rightarrow> (string \<Rightarrow> token \<Rightarrow> token ret) \<Rightarrow> token \<Rightarrow> token ret" where
  "if_modified x f t = (if x \<noteq> DoNotModifyTokenInfo then f x t else Ok t)"

definition MsgModifyTokenInfo_ValidateBasic :: "'y sdk_scheme \<Rightarrow> MsgModifyTokenInfo \<Rightarrow> unit ret" where
  "MsgModifyTokenInfo_ValidateBasic S msg =
     ret_bind (SetSymbol (md_Symbol msg) zero_token) (\<lambda>t.
     ret_bind (SetOwner (md_OwnerAddress msg) t) (\<lambda>t.
     ret_bind (if_modified (md_URL msg) SetURL t) (\<lambda>t.
     ret_bind (if_modified (md_Description msg) SetDescription t) (\<lambda>t.
     ret_bind (if_modified (md_Identity msg) SetIdentity t) (\<lambda>t.
     ret_bind (if_modified (md_Name msg) SetName t) (\<lambda>t.
     ret_bind (if_modified (md_TotalSupply msg) (\<lambda>x t. case NewIntFromString S x of
         None \<Rightarrow> Err AssetErrInvalidTokenInfo | Some n \<Rightarrow> SetTotalSupply n t) t) (\<lambda>t.
     ret_bind (validateBoolField (md_Mintable msg)) (\<lambda>_.
     ret_bind (validateBoolField (md_Burnable msg)) (\<lambda>_.
     ret_bind (validateBoolField (md_AddrForbiddable msg)) (\<lambda>_.
     validateBoolField (md_TokenForbiddable msg)))))))))))"

datatype asset_msg =
    IssueTokenMsg MsgIssueToken | TransferOwnershipMsg MsgTransferOwnership | MintTokenMsg MsgMintToken
  | BurnTokenMsg MsgBurnToken | ForbidTokenMsg MsgForbidToken | UnForbidTokenMsg MsgUnForbidToken
  | AddTokenWhitelistMsg MsgAddTokenWhitelist | RemoveTokenWhitelistMsg MsgRemoveTokenWhitelist
  | ForbidAddrMsg MsgForbidAddr | UnForbidAddrMsg MsgUnForbidAddr | ModifyTokenInfoMsg MsgModifyTokenInfo | AssetUnknown

fun asset_ValidateBasic :: "'y sdk_scheme \<Rightarrow> asset_msg \<Rightarrow> unit ret" where
  "asset_ValidateBasic S (IssueTokenMsg msg) = MsgIssueToken_ValidateBasic msg"
| "asset_ValidateBasic S (TransferOwnershipMsg msg) = MsgTransferOwnership_ValidateBasic msg"
| "asset_ValidateBasic S (MintTokenMsg msg) = MsgMintToken_ValidateBasic msg"
| "asset_ValidateBasic S (BurnTokenMsg msg) = MsgBurnToken_ValidateBasic msg"
| "asset_ValidateBasic S (ForbidTokenMsg msg) = MsgForbidToken_ValidateBasic msg"
| "asset_ValidateBasic S (UnForbidTokenMsg msg) = MsgUnForbidToken_ValidateBasic msg"
| "asset_ValidateBasic S (AddTokenWhitelistMsg msg) = MsgAddTokenWhitelist_ValidateBasic msg"
| "asset_ValidateBasic S (RemoveTokenWhitelistMsg msg) = MsgRemoveTokenWhitelist_ValidateBasic msg"
| "asset_ValidateBasic S (ForbidAddrMsg msg) = MsgForbidAddr_ValidateBasic msg"
| "asset_ValidateBasic S (UnForbidAddrMsg msg) = MsgUnForbidAddr_ValidateBasic msg"
| "asset_ValidateBasic S (ModifyTokenInfoMsg msg) = MsgModifyTokenInfo_ValidateBasic S msg"
| "asset_ValidateBasic S AssetUnknown = Ok ()"

text \<open>\<open>GetSigners\<close>: every message has one signer.\<close>

fun asset_GetSigners :: "asset_msg \<Rightarrow> addr list" where
  "asset_GetSigners (IssueTokenMsg msg) = [it_Owner msg]"
| "asset_GetSigners (TransferOwnershipMsg msg) = [to_OriginalOwner msg]"
| "asset_GetSigners (MintTokenMsg msg) = [mt_OwnerAddress msg]"
| "asset_GetSigners (BurnTokenMsg msg) = [bt_OwnerAddress msg]"
| "asset_GetSigners (ForbidTokenMsg msg) = [ft_OwnerAddress msg]"
| "asset_GetSigners (UnForbidTokenMsg msg) = [uf_OwnerAddress msg]"
| "asset_GetSigners (AddTokenWhitelistMsg msg) = [aw_OwnerAddress msg]"
| "asset_GetSigners (RemoveTokenWhitelistMsg msg) = [rw_OwnerAddress msg]"
| "asset_GetSigners (ForbidAddrMsg msg) = [fa_OwnerAddr msg]"
| "asset_GetSigners (UnForbidAddrMsg msg) = [ua_OwnerAddr msg]"
| "asset_GetSigners (ModifyTokenInfoMsg msg) = [md_OwnerAddress msg]"
| "asset_GetSigners AssetUnknown = []"

subsection \<open>The handler (\<open>handler.go\<close>)\<close>

definition asset_message_event :: "'y sdk_scheme \<Rightarrow> addr \<Rightarrow> event" where
  "asset_message_event S sender =
     Event ''message'' [(''module'', AStr ModuleName_asset), (''sender'', AStr (addr_String S sender))]"

definition asset_event :: "'y sdk_scheme \<Rightarrow> addr \<Rightarrow> string \<Rightarrow> (string \<times> attr) list \<Rightarrow> (('b, 'z) base_state_scheme, unit) op" where
  "asset_event S sender typ attrs = emit [asset_message_event S sender, Event typ attrs]"

definition handleMsgIssueToken :: "('b, 'y) cosmos_scheme \<Rightarrow> MsgIssueToken \<Rightarrow> (('b, 'z) asset_state_scheme, unit) op" where
  "handleMsgIssueToken C msg s =
     (let issueFee = GetIssueTokenFee (asset_params s) (it_Symbol msg)
      in and_then (DeductIssueFee C (it_Owner msg) issueFee) (\<lambda>_.
         and_then (IssueToken C (it_Name msg) (it_Symbol msg) (it_TotalSupply msg) (it_Owner msg) (it_Mintable msg)
           (it_Burnable msg) (it_AddrForbiddable msg) (it_TokenForbiddable msg) (it_URL msg) (it_Description msg)
           (it_Identity msg)) (\<lambda>_.
         and_then (lift (NewTokenCoins C (it_Symbol msg) (it_TotalSupply msg))) (\<lambda>cs.
         and_then (SendCoinsFromAssetModuleToAccount C (it_Owner msg) cs) (\<lambda>_.
         asset_event C (it_Owner msg) ''issue_token''
           [(''symbol'', AStr (it_Symbol msg)), (''owner'', AStr (addr_String C (it_Owner msg)))])))) s)"

definition handleMsgTransferOwnership ::
    "('b, 'y) cosmos_scheme \<Rightarrow> MsgTransferOwnership \<Rightarrow> (('b, 'z) asset_state_scheme, unit) op" where
  "handleMsgTransferOwnership C msg =
     and_then (TransferOwnership C (to_Symbol msg) (to_OriginalOwner msg) (to_NewOwner msg)) (\<lambda>_.
     asset_event C (to_OriginalOwner msg) ''transfer_ownership''
       [(''symbol'', AStr (to_Symbol msg)), (''owner'', AStr (addr_String C (to_NewOwner msg))),
        (''original_owner'', AStr (addr_String C (to_OriginalOwner msg)))])"

definition handleMsgMintToken :: "('b, 'y) cosmos_scheme \<Rightarrow> MsgMintToken \<Rightarrow> (('b, 'z) asset_state_scheme, unit) op" where
  "handleMsgMintToken C msg =
     and_then (MintToken C (mt_Symbol msg) (mt_OwnerAddress msg) (mt_Amount msg)) (\<lambda>_.
     and_then (lift (NewTokenCoins C (mt_Symbol msg) (mt_Amount msg))) (\<lambda>cs.
     and_then (SendCoinsFromAssetModuleToAccount C (mt_OwnerAddress msg) cs) (\<lambda>_.
     asset_event C (mt_OwnerAddress msg) ''mint_token''
       [(''symbol'', AStr (mt_Symbol msg)), (''amount'', AStr (itoa (mt_Amount msg)))])))"

definition handleMsgBurnToken :: "('b, 'y) cosmos_scheme \<Rightarrow> MsgBurnToken \<Rightarrow> (('b, 'z) asset_state_scheme, unit) op" where
  "handleMsgBurnToken C msg =
     and_then (lift (NewTokenCoins C (bt_Symbol msg) (bt_Amount msg))) (\<lambda>cs.
     and_then (SendCoinsFromAccountToAssetModule C (bt_OwnerAddress msg) cs) (\<lambda>_.
     and_then (BurnToken C (bt_Symbol msg) (bt_OwnerAddress msg) (bt_Amount msg)) (\<lambda>_.
     asset_event C (bt_OwnerAddress msg) ''burn_token''
       [(''symbol'', AStr (bt_Symbol msg)), (''amount'', AStr (itoa (bt_Amount msg)))])))"

definition handleMsgForbidToken :: "('b, 'y) cosmos_scheme \<Rightarrow> MsgForbidToken \<Rightarrow> (('b, 'z) asset_state_scheme, unit) op" where
  "handleMsgForbidToken C msg =
     and_then (ForbidToken (ft_Symbol msg) (ft_OwnerAddress msg)) (\<lambda>_.
     asset_event C (ft_OwnerAddress msg) ''forbid_token'' [(''symbol'', AStr (ft_Symbol msg))])"

definition handleMsgUnForbidToken :: "('b, 'y) cosmos_scheme \<Rightarrow> MsgUnForbidToken \<Rightarrow> (('b, 'z) asset_state_scheme, unit) op" where
  "handleMsgUnForbidToken C msg =
     and_then (UnForbidToken (uf_Symbol msg) (uf_OwnerAddress msg)) (\<lambda>_.
     asset_event C (uf_OwnerAddress msg) ''unforbid_token'' [(''symbol'', AStr (uf_Symbol msg))])"

text \<open>The removal of whitelisted addresses is reported without the commas the other lists have.\<close>

definition addr_list_text :: "'y sdk_scheme \<Rightarrow> string \<Rightarrow> addr list \<Rightarrow> string" where
  "addr_list_text S sep xs = concat (map (\<lambda>a. addr_String S a @ sep) xs)"

definition handleMsgAddTokenWhitelist ::
    "('b, 'y) cosmos_scheme \<Rightarrow> MsgAddTokenWhitelist \<Rightarrow> (('b, 'z) asset_state_scheme, unit) op" where
  "handleMsgAddTokenWhitelist C msg =
     and_then (AddTokenWhitelist (aw_Symbol msg) (aw_OwnerAddress msg) (aw_Whitelist msg)) (\<lambda>_.
     asset_event C (aw_OwnerAddress msg) ''add_token_whitelist''
       [(''symbol'', AStr (aw_Symbol msg)), (''address_list'', AStr (addr_list_text C '','' (aw_Whitelist msg)))])"

definition handleMsgRemoveTokenWhitelist ::
    "('b, 'y) cosmos_scheme \<Rightarrow> MsgRemoveTokenWhitelist \<Rightarrow> (('b, 'z) asset_state_scheme, unit) op" where
  "handleMsgRemoveTokenWhitelist C msg =
     and_then (RemoveTokenWhitelist (rw_Symbol msg) (rw_OwnerAddress msg) (rw_Whitelist msg)) (\<lambda>_.
     asset_event C (rw_OwnerAddress msg) ''remove_token_whitelist''
       [(''symbol'', AStr (rw_Symbol msg)), (''address_list'', AStr (addr_list_text C [] (rw_Whitelist msg)))])"

definition handleMsgForbidAddr :: "('b, 'y) cosmos_scheme \<Rightarrow> MsgForbidAddr \<Rightarrow> (('b, 'z) asset_state_scheme, unit) op" where
  "handleMsgForbidAddr C msg =
     and_then (ForbidAddress (fa_Symbol msg) (fa_OwnerAddr msg) (fa_Addresses msg)) (\<lambda>_.
     asset_event C (fa_OwnerAddr msg) ''forbid_addr''
       [(''symbol'', AStr (fa_Symbol msg)), (''address_list'', AStr (addr_list_text C '','' (fa_Addresses msg)))])"

definition handleMsgUnForbidAddr :: "('b, 'y) cosmos_scheme \<Rightarrow> MsgUnForbidAddr \<Rightarrow> (('b, 'z) asset_state_scheme, unit) op" where
  "handleMsgUnForbidAddr C msg =
     and_then (UnForbidAddress (ua_Symbol msg) (ua_OwnerAddr msg) (ua_Addresses msg)) (\<lambda>_.
     asset_event C (ua_OwnerAddr msg) ''unforbid_addr''
       [(''symbol'', AStr (ua_Symbol msg)), (''address_list'', AStr (addr_list_text C '','' (ua_Addresses msg)))])"

text \<open>The new values of a token's fields, from the texts of the message.\<close>

definition getNewStringVal :: "string \<Rightarrow> string \<Rightarrow> string" where
  "getNewStringVal newVal oldVal = (if newVal = DoNotModifyTokenInfo then oldVal else newVal)"

definition getNewBoolVal :: "string \<Rightarrow> bool \<Rightarrow> bool option" where
  "getNewBoolVal newVal oldVal = (if newVal = DoNotModifyTokenInfo then Some oldVal else ParseBool newVal)"

definition getNewIntVal :: "'y sdk_scheme \<Rightarrow> string \<Rightarrow> int \<Rightarrow> int option" where
  "getNewIntVal S newVal oldVal = (if newVal = DoNotModifyTokenInfo then Some oldVal else NewIntFromString S newVal)"

definition or_invalid :: "'a option \<Rightarrow> 'a ret" where
  "or_invalid x = (case x of None \<Rightarrow> Err AssetErrInvalidTokenInfo | Some a \<Rightarrow> Ok a)"

definition CollectTokenModificationInfo ::
    "'y sdk_scheme \<Rightarrow> token \<Rightarrow> MsgModifyTokenInfo \<Rightarrow>
      (string \<times> string \<times> string \<times> string \<times> int \<times> bool \<times> bool \<times> bool \<times> bool) ret" where
  "CollectTokenModificationInfo S t msg =
     ret_bind (or_invalid (getNewIntVal S (md_TotalSupply msg) (TotalSupply t))) (\<lambda>newSupply.
     ret_bind (or_invalid (getNewBoolVal (md_Mintable msg) (Mintable t))) (\<lambda>newMintable.
     ret_bind (or_invalid (getNewBoolVal (md_Burnable msg) (Burnable t))) (\<lambda>newBurnable.
     ret_bind (or_invalid (getNewBoolVal (md_AddrForbiddable msg) (AddrForbiddable t))) (\<lambda>newAddrForbiddable.
     ret_map (\<lambda>newTokenForbiddable.
       (getNewStringVal (md_URL msg) (URL t), getNewStringVal (md_Description msg) (Description t),
        getNewStringVal (md_Identity msg) (Identity t), getNewStringVal (md_Name msg) (Name t),
        newSupply, newMintable, newBurnable, newAddrForbiddable, newTokenForbiddable))
       (or_invalid (getNewBoolVal (md_TokenForbiddable msg) (TokenForbiddable t)))))))"

definition handleMsgModifyTokenInfo ::
    "('b, 'y) cosmos_scheme \<Rightarrow> MsgModifyTokenInfo \<Rightarrow> (('b, 'z) authx_state_scheme, unit) op" where
  "handleMsgModifyTokenInfo C msg s =
     (case GetToken s (md_Symbol msg) of
        None \<Rightarrow> fail AssetErrTokenNotFound
      | Some t \<Rightarrow>
          and_then (lift (CollectTokenModificationInfo C t msg))
            (\<lambda>(newURL, newDesc, newID, newName, newSupply, newMintable, newBurnable, newAddrForbiddable, newTokenForbiddable).
          and_then (ModifyTokenInfo C (md_Symbol msg) (md_OwnerAddress msg) newURL newDesc newID newName newSupply
              newMintable newBurnable newAddrForbiddable newTokenForbiddable) (\<lambda>_.
          asset_event C (md_OwnerAddress msg) ''modify_token_info''
            [(''symbol'', AStr (md_Symbol msg)), (''url'', AStr (md_URL msg)),
             (''description'', AStr (md_Description msg)), (''identity'', AStr (md_Identity msg))]))) s"

fun asset_route :: "('b, 'y) cosmos_scheme \<Rightarrow> asset_msg \<Rightarrow> (('b, 'z) authx_state_scheme, unit) op" where
  "asset_route C (IssueTokenMsg msg) = handleMsgIssueToken C msg"
| "asset_route C (TransferOwnershipMsg msg) = handleMsgTransferOwnership C msg"
| "asset_route C (MintTokenMsg msg) = handleMsgMintToken C msg"
| "asset_route C (BurnTokenMsg msg) = handleMsgBurnToken C msg"
| "asset_route C (ForbidTokenMsg msg) = handleMsgForbidToken C msg"
| "asset_route C (UnForbidTokenMsg msg) = handleMsgUnForbidToken C msg"
| "asset_route C (AddTokenWhitelistMsg msg) = handleMsgAddTokenWhitelist C msg"
| "asset_route C (RemoveTokenWhitelistMsg msg) = handleMsgRemoveTokenWhitelist C msg"
| "asset_route C (ForbidAddrMsg msg) = handleMsgForbidAddr C msg"
| "asset_route C (UnForbidAddrMsg msg) = handleMsgUnForbidAddr C msg"
| "asset_route C (ModifyTokenInfoMsg msg) = handleMsgModifyTokenInfo C msg"
| "asset_route C AssetUnknown = fail (SdkErr ''ErrUnknownRequest'')"

definition asset_Handler :: "('b, 'y) cosmos_scheme \<Rightarrow> asset_msg \<Rightarrow> (('b, 'z) authx_state_scheme, unit) op" where
  "asset_Handler C msg = and_then new_event_manager (\<lambda>_. asset_route C msg)"

subsection \<open>Genesis (\<open>genesis.go\<close>)\<close>

record asset_genesis =
  ag_Params :: asset_params
  ag_Tokens :: "token list"
  ag_Whitelist :: "string list"
  ag_ForbiddenAddresses :: "string list"

definition asset_DefaultGenesisState :: asset_genesis where
  "asset_DefaultGenesisState = \<lparr>ag_Params = asset_DefaultParams, ag_Tokens = [], ag_Whitelist = [], ag_ForbiddenAddresses = []\<rparr>"

text \<open>
  \<open>strings.SplitAfterN(addr, ":", 2)\<close>: the text up to and with the first colon, and the rest; one part
  only when there is no colon.
\<close>

definition split_after :: "string \<Rightarrow> (string \<times> string) option" where
  "split_after x =
     (let pre = takeWhile (\<lambda>c. c \<noteq> byte 58) x; post = dropWhile (\<lambda>c. c \<noteq> byte 58) x
      in if post = [] then None else Some (pre @ [byte 58], tl post))"

text \<open>A list entry of a genesis file names an unknown token: the method call on the nil token panics.\<close>

definition ImportGenesisAddrKeys ::
    "'y sdk_scheme \<Rightarrow> string \<Rightarrow> string \<Rightarrow> (('b, 'z) asset_state_scheme, unit) op" where
  "ImportGenesisAddrKeys S prefix addr s =
     (case split_after addr of
        None \<Rightarrow> fail PlainErr
      | Some (p, rest) \<Rightarrow>
          (case addr_FromBech32 S rest of
             None \<Rightarrow> fail PlainErr
           | Some a \<Rightarrow>
               (case GetToken s (butlast p) of
                  None \<Rightarrow> panic
                | Some t \<Rightarrow> if a = Owner t then fail AssetErrTokenOwnerSelfForbidden
                    else asset_set (prefix @ p @ a)))) s"

text \<open>The bytes after the prefix are split at the first colon; a key without a colon would panic.\<close>

definition ExportGenesisAddrKeys :: "'y sdk_scheme \<Rightarrow> ('b, 'z) asset_state_scheme \<Rightarrow> string \<Rightarrow> string list ret" where
  "ExportGenesisAddrKeys S s prefix =
     foldr (\<lambda>e acc. case split_after (drop (length prefix) (fst e)) of
         None \<Rightarrow> Panic
       | Some (p, a) \<Rightarrow> ret_map (\<lambda>res. (p @ addr_String S a) # res) acc)
       (kv_prefix_iterator prefix (asset_store s)) (Ok [])"

definition or_panic :: "('s, unit) op \<Rightarrow> ('s, unit) op" where
  "or_panic m = (\<lambda>s. case m s of (Err e, s') \<Rightarrow> (Panic, s') | x \<Rightarrow> x)"

definition asset_InitGenesis :: "'y sdk_scheme \<Rightarrow> asset_genesis \<Rightarrow> (('b, 'z) asset_state_scheme, unit) op" where
  "asset_InitGenesis S data =
     and_then (modify (\<lambda>s. s\<lparr>asset_params := ag_Params data\<rparr>)) (\<lambda>_.
     and_then (foreach SetToken (ag_Tokens data)) (\<lambda>_.
     and_then (foreach (\<lambda>x. or_panic (ImportGenesisAddrKeys S WhitelistKey x)) (ag_Whitelist data)) (\<lambda>_.
     foreach (\<lambda>x. or_panic (ImportGenesisAddrKeys S ForbiddenAddrKey x)) (ag_ForbiddenAddresses data))))"

definition asset_ExportGenesis :: "'y sdk_scheme \<Rightarrow> ('b, 'z) asset_state_scheme \<Rightarrow> asset_genesis ret" where
  "asset_ExportGenesis S s =
     ret_bind (ExportGenesisAddrKeys S s WhitelistKey) (\<lambda>w.
     ret_map (\<lambda>f. \<lparr>ag_Params = asset_params s, ag_Tokens = GetAllTokens s, ag_Whitelist = w, ag_ForbiddenAddresses = f\<rparr>)
       (ExportGenesisAddrKeys S s ForbiddenAddrKey))"

fun first_err :: "('a \<Rightarrow> unit ret) \<Rightarrow> 'a list \<Rightarrow> unit ret" where
  "first_err f [] = Ok ()"
| "first_err f (x # xs) = ret_bind (f x) (\<lambda>_. first_err f xs)"

text \<open>
  The second loop over the forbidden addresses stands where the whitelist was meant; the look-up of an
  unknown symbol gives a nil token, whose method call panics.
\<close>

definition asset_ValidateGenesis :: "'y sdk_scheme \<Rightarrow> asset_genesis \<Rightarrow> unit ret" where
  "asset_ValidateGenesis S data =
     ret_bind (asset_params_ValidateGenesis (ag_Params data)) (\<lambda>_.
     ret_bind (first_err token_Validate (ag_Tokens data)) (\<lambda>_.
     if \<not> distinct (map Symbol (ag_Tokens data)) then Err PlainErr
     else ret_bind (first_err (\<lambda>x. case split_after x of None \<Rightarrow> Err PlainErr
         | Some (p, rest) \<Rightarrow> if addr_FromBech32 S rest = None then Err PlainErr else Ok ()) (ag_ForbiddenAddresses data)) (\<lambda>_.
       first_err (\<lambda>x. case split_after x of None \<Rightarrow> Err PlainErr
         | Some (p, rest) \<Rightarrow> (case addr_FromBech32 S rest of None \<Rightarrow> Err PlainErr
           | Some a \<Rightarrow> (case find (\<lambda>t. Symbol t = butlast p) (ag_Tokens data) of
               None \<Rightarrow> Panic
             | Some t \<Rightarrow> if a = Owner t then Err AssetErrTokenOwnerSelfForbidden else Ok ())))
         (ag_ForbiddenAddresses data))))"

end
