(* ===== verification/BankxInv.thy ===== *)
theory BankxInv
  imports Bankx
begin

section \<open>What the bankx keeper promises\<close>

text \<open>
  Every operation of the keeper keeps the invariant of the accounts and makes or loses no coin;
  freezing and unfreezing move coins between the spendable and the frozen ones of one account,
  locked sends move them to the locked ones of the receiver and an early unlock moves them back.
\<close>

definition frozen :: "('b, 'z) authx_state_scheme \<Rightarrow> addr \<Rightarrow> string \<Rightarrow> int" where
  "frozen s a d = (case GetAccountX s a of None \<Rightarrow> 0 | Some x \<Rightarrow> coin_sum (ax_FrozenCoins x) d)"

definition locked :: "('b, 'z) authx_state_scheme \<Rightarrow> addr \<Rightarrow> LockedCoin list" where
  "locked s a = (case GetAccountX s a of None \<Rightarrow> [] | Some x \<Rightarrow> ax_LockedCoins x)"

lemma accx_frame [simp]:
  "GetAccountX (s\<lparr>bank := b\<rparr>) a = GetAccountX s a"
  "GetAccountX (s\<lparr>asset_store := st\<rparr>) a = GetAccountX s a"
  "GetAccountX (s\<lparr>events := es\<rparr>) a = GetAccountX s a"
  "locked_total (s\<lparr>bank := b\<rparr>) d = locked_total s d"
  "frozen_total (s\<lparr>bank := b\<rparr>) d = frozen_total s d"
  "locked_total (s\<lparr>asset_store := st\<rparr>) d = locked_total s d"
  "frozen_total (s\<lparr>asset_store := st\<rparr>) d = frozen_total s d"
  "send_lock (s\<lparr>bank := b\<rparr>) d = send_lock s d"
  "send_lock (s\<lparr>accx_store := st'\<rparr>) d = send_lock s d"
  "token_body (s\<lparr>bank := b\<rparr>) d = token_body s d"
  "token_body (s\<lparr>accx_store := st'\<rparr>) d = token_body s d"
  "asset_inv (s\<lparr>bank := b\<rparr>) = asset_inv s"
  "asset_inv (s\<lparr>accx_store := st'\<rparr>) = asset_inv s"
  by (simp_all add: GetAccountX_def locked_total_def frozen_total_def send_lock_def token_body_def GetToken_def asset_inv_def)

text \<open>Writing one account.\<close>

abbreviation put_account :: "AccountX \<Rightarrow> ('b, 'z) authx_state_scheme \<Rightarrow> ('b, 'z) authx_state_scheme" where
  "put_account x s \<equiv> s\<lparr>accx_store := kv_set (AddressStoreKey (ax_Address x)) (VAccX x) (accx_store s)\<rparr>"

lemma SetAccountX_run: "SetAccountX x s = (Ok (), put_account x s)"
  by (simp add: SetAccountX_def modify_def)

lemma GetAccountX_put [simp]:
  "GetAccountX (put_account x s) a = (if a = ax_Address x then Some x else GetAccountX s a)"
  by (simp add: GetAccountX_def)

lemma put_account_inv:
  "accx_inv C s \<Longrightarrow> accx_wf x \<Longrightarrow> queued C (accx_store s) (ax_Address x) (ax_LockedCoins x) \<Longrightarrow>
     accx_inv C (put_account x s)"
  using accx_store_ok_set by simp

lemma put_account_totals:
  assumes "accx_inv C s"
  shows "locked_total (put_account x s) d =
      locked_total s d - locked_sum (locked s (ax_Address x)) d + locked_sum (ax_LockedCoins x) d"
    and "frozen_total (put_account x s) d =
      frozen_total s d - frozen s (ax_Address x) d + coin_sum (ax_FrozenCoins x) d"
proof -
  have kv: "kv_ok (accx_store s)" using assms by (simp add: accx_store_ok_def)
  note val = account_value [OF assms, of d "ax_Address x"]
  have tots: "totals (accx_store (put_account x s)) d =
      (fst (totals (accx_store s) d) - locked_sum (locked s (ax_Address x)) d + locked_sum (ax_LockedCoins x) d,
       snd (totals (accx_store s) d) - frozen s (ax_Address x) d + coin_sum (ax_FrozenCoins x) d)"
    using totals_account [OF kv, of "ax_Address x" x d] val
    by (simp add: locked_def frozen_def split: option.split)
  then show "locked_total (put_account x s) d =
      locked_total s d - locked_sum (locked s (ax_Address x)) d + locked_sum (ax_LockedCoins x) d"
    "frozen_total (put_account x s) d =
      frozen_total s d - frozen s (ax_Address x) d + coin_sum (ax_FrozenCoins x) d"
    by (simp_all add: totals_def locked_total_def frozen_total_def)
qed

lemma new_account_wf: "accx_wf (NewAccountXWithAddress a)" "queued C st a (ax_LockedCoins (NewAccountXWithAddress a))"
  "ax_Address (NewAccountXWithAddress a) = a" "ax_FrozenCoins (NewAccountXWithAddress a) = []"
  "ax_LockedCoins (NewAccountXWithAddress a) = []"
  by (simp_all add: NewAccountXWithAddress_def accx_wf_def queued_def)

text \<open>The account that \<open>GetOrCreateAccountX\<close> returns, and the state it leaves.\<close>

definition account_or_new :: "('b, 'z) authx_state_scheme \<Rightarrow> addr \<Rightarrow> AccountX" where
  "account_or_new s a = (case GetAccountX s a of Some x \<Rightarrow> x | None \<Rightarrow> NewAccountXWithAddress a)"

lemma account_or_new_facts:
  assumes "accx_inv C s"
  shows "ax_Address (account_or_new s a) = a" and "accx_wf (account_or_new s a)"
    and "queued C (accx_store s) a (ax_LockedCoins (account_or_new s a))"
    and "coin_sum (ax_FrozenCoins (account_or_new s a)) d = frozen s a d"
    and "ax_LockedCoins (account_or_new s a) = locked s a"
  using accx_inv_account [OF assms, of a] new_account_wf
  by (auto simp: account_or_new_def frozen_def locked_def split: option.splits)

lemma GetOrCreateAccountX_run:
  obtains s' where "GetOrCreateAccountX a s = (Ok (account_or_new s a), s')"
    and "s' = s \<or> (GetAccountX s a = None \<and> s' = put_account (NewAccountXWithAddress a) s)"
  by (cases "GetAccountX s a")
    (auto simp: GetOrCreateAccountX_def account_or_new_def and_then_def SetAccountX_run return_def)

lemma put_twice: "ax_Address x = ax_Address y \<Longrightarrow> put_account x (put_account y s) = put_account x s"
proof -
  have "kv_set k v (kv_set k w st) = kv_set k v st" for k v w and st :: "accx_val kv"
    by (induction st) auto
  then show "ax_Address x = ax_Address y \<Longrightarrow> put_account x (put_account y s) = put_account x s" by simp
qed

text \<open>\<open>GetOrCreateAccountX\<close>, then a change of that account, is one write of the changed account.\<close>

lemma update_account_run:
  assumes "accx_inv C s" and "\<And>x. ax_Address (f x) = ax_Address x"
  shows "and_then (GetOrCreateAccountX a) (\<lambda>x. SetAccountX (f x)) s = (Ok (), put_account (f (account_or_new s a)) s)"
proof -
  obtain s' where "GetOrCreateAccountX a s = (Ok (account_or_new s a), s')"
    and s': "s' = s \<or> (GetAccountX s a = None \<and> s' = put_account (NewAccountXWithAddress a) s)"
    by (rule GetOrCreateAccountX_run)
  moreover have "put_account (f (account_or_new s a)) s' = put_account (f (account_or_new s a)) s"
    using s' put_twice [of "f (account_or_new s a)" "NewAccountXWithAddress a" s]
      account_or_new_facts(1) [OF assms(1)] new_account_wf(3) by (auto simp: assms(2))
  ultimately show ?thesis by (simp add: and_then_def SetAccountX_run)
qed

subsection \<open>The books: what an operation may change\<close>

text \<open>
  \<open>books C tot f s s'\<close>: from \<open>s\<close> to \<open>s'\<close> the invariant is kept, no coin is made or lost, the
  frozen coins change by \<open>f\<close>, and only the bank, the accounts and the tokens' \<open>SendLock\<close> are written.
\<close>

definition books ::
    "('b, 'y) cosmos_scheme \<Rightarrow> ('b \<Rightarrow> string \<Rightarrow> int) \<Rightarrow> (addr \<Rightarrow> string \<Rightarrow> int) \<Rightarrow>
      ('b, 'z) authx_state_scheme \<Rightarrow> ('b, 'z) authx_state_scheme \<Rightarrow> bool" where
  "books C tot f s s' \<longleftrightarrow> authx_inv C s' \<and>
     (\<forall>d. total_coins tot s' d = total_coins tot s d) \<and> (\<forall>d. token_body s' d = token_body s d) \<and>
     (\<forall>a d. frozen s' a d = frozen s a d + f a d) \<and>
     (\<exists>b ax as. s' = s\<lparr>bank := b, accx_store := ax, asset_store := as\<rparr>)"

lemma booksD:
  assumes "books C tot f s s'"
  shows "authx_inv C s'" and "total_coins tot s' d = total_coins tot s d"
    and "frozen s' a d = frozen s a d + f a d"
  using assms by (auto simp: books_def)

lemma frame_refl: "\<exists>b ax as. (s :: ('b, 'z) authx_state_scheme) = s\<lparr>bank := b, accx_store := ax, asset_store := as\<rparr>"
  by (rule exI [of _ "bank s"], rule exI [of _ "accx_store s"], rule exI [of _ "asset_store s"]) simp

lemma books_refl: "authx_inv C s \<Longrightarrow> books C tot (\<lambda>a d. 0) s s"
  using frame_refl [of s] by (simp add: books_def)

lemma books_trans:
  assumes "books C tot f s s'" and "books C tot g s' s''"
  shows "books C tot (\<lambda>a d. f a d + g a d) s s''"
proof -
  obtain b ax as b' ax' as' where "s' = s\<lparr>bank := b, accx_store := ax, asset_store := as\<rparr>"
    "s'' = s'\<lparr>bank := b', accx_store := ax', asset_store := as'\<rparr>"
    using assms unfolding books_def by blast
  then have "\<exists>b ax as. s'' = s\<lparr>bank := b, accx_store := ax, asset_store := as\<rparr>"
    by (intro exI [of _ b'] exI [of _ ax'] exI [of _ as']) simp
  then show ?thesis using assms by (simp add: books_def)
qed

lemma authx_inv_bank:
  assumes "authx_inv C s" and "\<And>a. acc_exists C (bank s) a \<Longrightarrow> acc_exists C b a"
  shows "authx_inv C (s\<lparr>bank := b\<rparr>)"
  using assms by (auto simp: authx_inv_def lock_inv_def accounts_exist_def)

lemma authx_inv_put:
  assumes "authx_inv C s" and "accx_wf x" and "queued C (accx_store s) (ax_Address x) (ax_LockedCoins x)"
    and "\<And>d. locked_sum (ax_LockedCoins x) d = locked_sum (locked s (ax_Address x)) d"
    and "acc_exists C (bank s) (ax_Address x)"
  shows "authx_inv C (put_account x s)"
proof -
  have inv: "accx_inv C s" using assms(1) by (simp add: authx_inv_def)
  have "lock_inv (put_account x s)"
    using assms(1) put_account_totals(1) [OF inv, of x] assms(4)
    by (simp add: authx_inv_def lock_inv_def)
  moreover have "accounts_exist C (put_account x s)"
    using assms(1,5) by (auto simp: authx_inv_def accounts_exist_def split: if_splits)
  ultimately show ?thesis
    using assms(1) put_account_inv [OF inv assms(2,3)] by (simp add: authx_inv_def)
qed

text \<open>Operations of the bank alone.\<close>

lemma on_bank_books:
  assumes "authx_inv C s" and "moves tot (\<lambda>d. 0) m" and "grows C m"
    and run: "on_bank m s = (r, s')" and "r \<noteq> Panic"
  shows "books C tot (\<lambda>a d. 0) s s'"
proof -
  obtain b where b: "m (bank s) = (r, b)" "s' = s\<lparr>bank := b\<rparr>"
    using run by (auto simp: on_bank_def split: prod.splits)
  have "tot b d = tot (bank s) d" for d
    using b(1) assms(2,5) by (cases r) (auto simp: moves_def)
  moreover have "authx_inv C s'"
    unfolding b(2) using assms(1,3) b(1) by (intro authx_inv_bank) (auto simp: grows_def)
  moreover have "\<exists>c ax as. s' = s\<lparr>bank := c, accx_store := ax, asset_store := as\<rparr>"
    unfolding b(2) by (intro exI [of _ b] exI [of _ "accx_store s"] exI [of _ "asset_store s"]) simp
  ultimately show ?thesis by (simp add: books_def b(2) total_coins_def frozen_def)
qed

subsection \<open>Freezing and unfreezing\<close>

text \<open>What a change of the frozen coins of one account does, together with a change of the bank.\<close>

lemma set_frozen_books:
  assumes inv: "authx_inv C s"
    and b: "\<And>x. acc_exists C (bank s) x \<Longrightarrow> acc_exists C b x" "acc_exists C b a"
    and x: "x = account_or_new s a" and cs: "coins_sorted cs" "\<And>d. 0 \<le> coin_sum cs d"
    and tot: "\<And>d. tot b d + coin_sum cs d = tot (bank s) d + frozen s a d"
  shows "books C tot (\<lambda>c d. if c = a then coin_sum cs d - frozen s a d else 0) s
      (put_account (x\<lparr>ax_FrozenCoins := cs\<rparr>) (s\<lparr>bank := b\<rparr>))"
proof -
  define y where "y = x\<lparr>ax_FrozenCoins := cs\<rparr>"
  define s1 where "s1 = s\<lparr>bank := b\<rparr>"
  have accx: "accx_inv C s" using inv by (simp add: authx_inv_def)
  note facts = account_or_new_facts [OF accx, of a, folded x]
  have y: "ax_Address y = a" "ax_LockedCoins y = locked s a" "ax_FrozenCoins y = cs"
    using facts by (simp_all add: y_def)
  have wf: "accx_wf y" using facts(2) cs by (simp add: y_def accx_wf_def)
  have locked1: "locked s1 c = locked s c" "frozen s1 c d = frozen s c d" for c d
    by (simp_all add: s1_def locked_def frozen_def)
  have inv1: "authx_inv C s1" unfolding s1_def by (rule authx_inv_bank [OF inv b(1)])
  then have accx1: "accx_inv C s1" by (simp add: authx_inv_def)
  have "authx_inv C (put_account y s1)"
    using authx_inv_put [OF inv1 wf] y facts(3,5) b(2) locked1 by (simp add: s1_def)
  moreover have "total_coins tot (put_account y s1) d = total_coins tot s d" for d
    using put_account_totals [OF accx1, of y d] y tot [of d] locked1
    by (simp add: total_coins_def s1_def)
  moreover have "frozen (put_account y s1) c d = frozen s c d + (if c = a then coin_sum cs d - frozen s a d else 0)" for c d
    using y by (simp add: frozen_def s1_def)
  moreover have "\<exists>c ax as. put_account y s1 = s\<lparr>bank := c, accx_store := ax, asset_store := as\<rparr>"
    unfolding s1_def
    by (intro exI [of _ b] exI [of _ "kv_set (AddressStoreKey (ax_Address y)) (VAccX y) (accx_store s)"]
        exI [of _ "asset_store s"]) simp
  ultimately show ?thesis unfolding books_def y_def s1_def by simp
qed

lemma FreezeCoins_books:
  assumes C: "cosmos_ok C tot" and inv: "authx_inv C s"
    and run: "FreezeCoins C a amt s = (Ok u, s')"
  shows "books C tot (\<lambda>c d. if c = a then coins_AmountOf C amt d else 0) s s'"
    and "balance C (bank s') c d = balance C (bank s) c d - (if c = a then coins_AmountOf C amt d else 0)"
    and "coins_IsValid C amt" and "\<not> IsSendForbidden s amt a" and "locked s' c = locked s c"
proof -
  note laws = cosmos_okD [OF C]
  show forbidden: "\<not> IsSendForbidden s amt a"
    using run by (auto simp: FreezeCoins_def split: if_splits)
  obtain b where sub: "bank_SubtractCoins C a amt (bank s) = (Ok (), b)"
    and rest: "and_then (GetOrCreateAccountX a) (\<lambda>x. SetAccountX (x\<lparr>ax_FrozenCoins := coins_Add C (ax_FrozenCoins x) amt\<rparr>))
      (s\<lparr>bank := b\<rparr>) = (Ok u, s')"
    using run forbidden by (auto simp: FreezeCoins_def and_then_Ok SubtractCoins_def on_bank_Ok)
  show valid: "coins_IsValid C amt" by (rule bank_okD(5) [OF laws(6) sub])
  then have amt: "coins_sorted amt" "\<And>d. 0 \<le> coins_AmountOf C amt d"
    using coins_okD(9,10) [OF laws(5)] by auto
  have grow: "acc_exists C (bank s) x \<Longrightarrow> acc_exists C b x" for x
    using balance_okD(6) [OF laws(7)] sub by (auto simp: grows_def)
  have inv1: "authx_inv C (s\<lparr>bank := b\<rparr>)" by (rule authx_inv_bank [OF inv grow])
  then have accx1: "accx_inv C (s\<lparr>bank := b\<rparr>)" by (simp add: authx_inv_def)
  define x where "x = account_or_new s a"
  have x1: "account_or_new (s\<lparr>bank := b\<rparr>) a = x" by (simp add: x_def account_or_new_def)
  have accx: "accx_inv C s" using inv by (simp add: authx_inv_def)
  note facts = account_or_new_facts [OF accx, of a, folded x_def]
  have fs: "coins_sorted (ax_FrozenCoins x)" using facts(2) by (simp add: accx_wf_def)
  define cs where "cs = coins_Add C (ax_FrozenCoins x) amt"
  have cs: "coins_sorted cs" unfolding cs_def by (rule coins_okD(3) [OF laws(5) fs amt(1)])
  have sum: "coin_sum cs d = frozen s a d + coins_AmountOf C amt d" for d
    using coins_okD(4) [OF laws(5) fs amt(1)] facts(4) coins_okD(13) [OF laws(5)] cs fs
    by (simp add: cs_def)
  have s': "s' = put_account (x\<lparr>ax_FrozenCoins := cs\<rparr>) (s\<lparr>bank := b\<rparr>)"
    using update_account_run [OF accx1, of "\<lambda>x. x\<lparr>ax_FrozenCoins := coins_Add C (ax_FrozenCoins x) amt\<rparr>" a]
      rest by (simp add: x1 cs_def)
  have frozen_nonneg: "0 \<le> frozen s a d" for d using facts(2,4) by (metis accx_wf_def)
  have tot: "tot b d + coin_sum cs d = tot (bank s) d + frozen s a d" for d
    using movesD_Ok [OF bank_okD(2) [OF laws(6)] sub, of d] sum by simp
  have "books C tot (\<lambda>c d. if c = a then coin_sum cs d - frozen s a d else 0) s s'"
    unfolding s' using inv grow balance_okD(12) [OF laws(7) sub] x_def cs
    by (rule set_frozen_books) (use sum frozen_nonneg amt tot in \<open>auto simp: add_nonneg_nonneg\<close>)
  then show "books C tot (\<lambda>c d. if c = a then coins_AmountOf C amt d else 0) s s'"
    by (simp add: sum cong: if_cong)
  show "balance C (bank s') c d = balance C (bank s) c d - (if c = a then coins_AmountOf C amt d else 0)"
    using balance_okD(2) [OF laws(7) sub] by (simp add: s')
  show "locked s' c = locked s c" using facts(1,5) by (simp add: s' locked_def)
qed

text \<open>
  Unfreezing coins in valid form goes through exactly when that much is frozen; otherwise nothing
  changes.
\<close>

lemma UnFreezeCoins_books:
  assumes C: "cosmos_ok C tot" and inv: "authx_inv C s" and valid: "coins_IsValid C amt"
    and enough: "\<And>d. coins_AmountOf C amt d \<le> frozen s a d" and known: "GetAccountX s a \<noteq> None"
  shows "\<exists>s'. UnFreezeCoins C a amt s = (Ok (), s') \<and>
    books C tot (\<lambda>c d. if c = a then - coins_AmountOf C amt d else 0) s s' \<and>
    (\<forall>c d. balance C (bank s') c d = balance C (bank s) c d + (if c = a then coins_AmountOf C amt d else 0)) \<and>
    (\<forall>c. locked s' c = locked s c)"
proof -
  note laws = cosmos_okD [OF C]
  have amt: "coins_sorted amt" "\<And>d. 0 \<le> coins_AmountOf C amt d"
    using coins_okD(9,10) [OF laws(5) valid] by auto
  obtain x where x: "GetAccountX s a = Some x" using known by auto
  have accx: "accx_inv C s" using inv by (simp add: authx_inv_def)
  have wf: "ax_Address x = a" "accx_wf x" using accx_inv_account [OF accx x] by simp_all
  then have fs: "coins_sorted (ax_FrozenCoins x)" by (simp add: accx_wf_def)
  have fr: "frozen s a d = coins_AmountOf C (ax_FrozenCoins x) d" for d
    using coins_okD(13) [OF laws(5) fs] by (simp add: frozen_def x)
  define cs where "cs = fst (coins_SafeSub C (ax_FrozenCoins x) amt)"
  have cs: "coins_sorted cs" unfolding cs_def by (rule coins_okD(5) [OF laws(5) fs amt(1)])
  have sum: "coin_sum cs d = frozen s a d - coins_AmountOf C amt d" for d
    using coins_okD(6) [OF laws(5) fs amt(1)] coins_okD(13) [OF laws(5) cs] fr by (simp add: cs_def)
  have "\<not> snd (coins_SafeSub C (ax_FrozenCoins x) amt)"
    using coins_okD(7) [OF laws(5) fs amt(1)] enough fr by (auto simp: not_less)
  then have sub: "coins_SafeSub C (ax_FrozenCoins x) amt = (cs, False)"
    by (cases "coins_SafeSub C (ax_FrozenCoins x) amt") (simp add: cs_def)
  obtain b where add: "bank_AddCoins C a amt (bank s) = (Ok (), b)"
    using bank_okD(4) [OF laws(6) valid] by blast
  have grow: "acc_exists C (bank s) y \<Longrightarrow> acc_exists C b y" for y
    using balance_okD(5) [OF laws(7)] add by (auto simp: grows_def)
  define s' where "s' = put_account (x\<lparr>ax_FrozenCoins := cs\<rparr>) (s\<lparr>bank := b\<rparr>)"
  have run: "UnFreezeCoins C a amt s = (Ok (), s')"
    using sub add by (simp add: UnFreezeCoins_def x and_then_def SetAccountX_run AddCoins_def
        on_bank_def s'_def)
  have x': "x = account_or_new s a" by (simp add: account_or_new_def x)
  have tot: "tot b d + coin_sum cs d = tot (bank s) d + frozen s a d" for d
    using movesD_Ok [OF bank_okD(3) [OF laws(6)] add, of d] sum by simp
  have "books C tot (\<lambda>c d. if c = a then coin_sum cs d - frozen s a d else 0) s s'"
    unfolding s'_def using inv grow balance_okD(11) [OF laws(7) add] x' cs
    by (rule set_frozen_books) (use sum enough tot in auto)
  then have "books C tot (\<lambda>c d. if c = a then - coins_AmountOf C amt d else 0) s s'"
    by (simp add: sum cong: if_cong)
  moreover have "balance C (bank s') c d = balance C (bank s) c d + (if c = a then coins_AmountOf C amt d else 0)" for c d
    using balance_okD(1) [OF laws(7) add] by (simp add: s'_def)
  moreover have "locked s' c = locked s c" for c using x wf(1) by (simp add: s'_def locked_def)
  ultimately show ?thesis using run by blast
qed

lemma UnFreezeCoins_refused:
  assumes C: "cosmos_ok C tot" and inv: "authx_inv C s" and valid: "coins_IsValid C amt"
    and "GetAccountX s a = None \<or> (\<exists>d. frozen s a d < coins_AmountOf C amt d)"
  shows "\<exists>e. UnFreezeCoins C a amt s = (Err e, s)"
proof (cases "GetAccountX s a")
  case None
  then show ?thesis by (simp add: UnFreezeCoins_def)
next
  case (Some x)
  note laws = cosmos_okD [OF C]
  have accx: "accx_inv C s" using inv by (simp add: authx_inv_def)
  have fs: "coins_sorted (ax_FrozenCoins x)" using accx_inv_account [OF accx Some] by (simp add: accx_wf_def)
  have "snd (coins_SafeSub C (ax_FrozenCoins x) amt)"
    using coins_okD(7) [OF laws(5) fs coins_okD(9) [OF laws(5) valid]] assms(4) Some
      coins_okD(13) [OF laws(5) fs] by (auto simp: frozen_def)
  then show ?thesis
    by (cases "coins_SafeSub C (ax_FrozenCoins x) amt") (simp add: UnFreezeCoins_def Some)
qed

text \<open>So whatever an unfreeze of valid coins returns, the books are kept.\<close>

lemma UnFreezeCoins_cases:
  assumes C: "cosmos_ok C tot" and inv: "authx_inv C s" and valid: "coins_IsValid C amt"
    and run: "UnFreezeCoins C a amt s = (r, s')"
  obtains (unfrozen) "r = Ok ()" "books C tot (\<lambda>c d. if c = a then - coins_AmountOf C amt d else 0) s s'"
      "\<And>d. coins_AmountOf C amt d \<le> frozen s a d"
      "\<And>c d. balance C (bank s') c d = balance C (bank s) c d + (if c = a then coins_AmountOf C amt d else 0)"
  | (refused) e where "r = Err e" "s' = s"
proof (cases "GetAccountX s a \<noteq> None \<and> (\<forall>d. coins_AmountOf C amt d \<le> frozen s a d)")
  case True
  then show thesis using UnFreezeCoins_books [OF C inv valid, of a] run unfrozen by auto
next
  case False
  then show thesis using UnFreezeCoins_refused [OF C inv valid, of a] run refused
    by (auto simp: not_le)
qed

subsection \<open>Sending and fees\<close>

text \<open>Unfreezing nothing, as a deal whose money amount is zero does (the coins are then not in valid form).\<close>

lemma UnFreezeCoins_zero:
  assumes C: "cosmos_ok C tot" and inv: "authx_inv C s"
    and amt: "coins_sorted amt" "\<And>d. coins_AmountOf C amt d = 0"
    and run: "UnFreezeCoins C a amt s = (r, s')" "r \<noteq> Panic"
  shows "books C tot (\<lambda>c d. 0) s s'"
proof (cases "GetAccountX s a")
  case None
  then show ?thesis using run inv by (simp add: UnFreezeCoins_def books_refl)
next
  case (Some x)
  note laws = cosmos_okD [OF C]
  have accx: "accx_inv C s" using inv by (simp add: authx_inv_def)
  have wf: "ax_Address x = a" "accx_wf x" using accx_inv_account [OF accx Some] by simp_all
  then have fs: "coins_sorted (ax_FrozenCoins x)" "\<And>d. 0 \<le> coin_sum (ax_FrozenCoins x) d" by (simp_all add: accx_wf_def)
  have fr: "frozen s a d = coins_AmountOf C (ax_FrozenCoins x) d" for d
    using coins_okD(13) [OF laws(5) fs(1)] by (simp add: frozen_def Some)
  define cs where "cs = fst (coins_SafeSub C (ax_FrozenCoins x) amt)"
  have cs: "coins_sorted cs" unfolding cs_def by (rule coins_okD(5) [OF laws(5) fs(1) amt(1)])
  have sum: "coin_sum cs d = frozen s a d" for d
    using coins_okD(6) [OF laws(5) fs(1) amt(1), of d] coins_okD(13) [OF laws(5) cs] fr amt(2) by (simp add: cs_def)
  have "\<not> snd (coins_SafeSub C (ax_FrozenCoins x) amt)"
    using coins_okD(7) [OF laws(5) fs(1) amt(1)] amt(2) fs fr coins_okD(13) [OF laws(5) fs(1)] by (auto simp: not_less)
  then have sub: "coins_SafeSub C (ax_FrozenCoins x) amt = (cs, False)"
    by (cases "coins_SafeSub C (ax_FrozenCoins x) amt") (simp add: cs_def)
  obtain b where add: "bank_AddCoins C a amt (bank s) = (r, b)"
    and s': "s' = put_account (x\<lparr>ax_FrozenCoins := cs\<rparr>) (s\<lparr>bank := b\<rparr>)"
    using run(1) sub by (auto simp: UnFreezeCoins_def Some and_then_def SetAccountX_run AddCoins_def on_bank_def
        split: prod.splits)
  have grow: "acc_exists C (bank s) y \<Longrightarrow> acc_exists C b y" for y
    using balance_okD(5) [OF laws(7)] add by (auto simp: grows_def)
  have ex: "acc_exists C b a"
    using grow inv Some wf by (auto simp: authx_inv_def accounts_exist_def)
  have tot: "tot b d = tot (bank s) d" for d
    using add run(2) bank_okD(3) [OF laws(6), of amt a] amt(2) by (cases r) (auto simp: moves_def)
  have x': "x = account_or_new s a" by (simp add: account_or_new_def Some)
  have "books C tot (\<lambda>c d. if c = a then coin_sum cs d - frozen s a d else 0) s s'"
    unfolding s' using inv grow ex x' cs
    by (rule set_frozen_books) (use sum fs fr tot coins_okD(13) [OF laws(5) fs(1)] in auto)
  then show ?thesis by (simp add: sum cong: if_cong)
qed

lemma SendCoins_books:
  assumes C: "cosmos_ok C tot" and "authx_inv C s" and run: "SendCoins C a b amt s = (r, s')" "r \<noteq> Panic"
  shows "books C tot (\<lambda>c d. 0) s s'"
proof (cases "IsSendForbidden s amt a")
  case True
  then show ?thesis using run assms(2) by (simp add: SendCoins_def books_refl)
next
  case False
  then have "on_bank (bank_SendCoins C a b amt) s = (r, s')" using run by (simp add: SendCoins_def)
  then show ?thesis
    by (rule on_bank_books [OF assms(2) bank_okD(1) [OF cosmos_okD(6) [OF C]]
          balance_okD(7) [OF cosmos_okD(7) [OF C]] _ run(2)])
qed

lemma DeductFee_books:
  assumes C: "cosmos_ok C tot" and "authx_inv C s" and run: "DeductFee C a amt s = (r, s')" "r \<noteq> Panic"
  shows "books C tot (\<lambda>c d. 0) s s'"
  using run(1) unfolding DeductFee_def
  by (rule on_bank_books [OF assms(2) bank_okD(7) [OF cosmos_okD(6) [OF C]]
        balance_okD(9) [OF cosmos_okD(7) [OF C]] _ run(2)])

lemma DeductInt64CetFee_books:
  assumes C: "cosmos_ok C tot" and "authx_inv C s"
    and run: "DeductInt64CetFee C a amt s = (r, s')" "r \<noteq> Panic"
  shows "books C tot (\<lambda>c d. 0) s s'"
proof (cases "NewCetCoins C amt")
  case (Ok cs)
  then have "DeductFee C a cs s = (r, s')" using run by (simp add: DeductInt64CetFee_def and_then_def lift_def)
  then show ?thesis using DeductFee_books [OF C assms(2)] run(2) by blast
qed (use run assms(2) books_refl in \<open>auto simp: DeductInt64CetFee_def and_then_def lift_def\<close>)

lemma InputOutputCoins_books:
  assumes C: "cosmos_ok C tot" and "authx_inv C s" and run: "InputOutputCoins C i outs s = (r, s')" "r \<noteq> Panic"
  shows "books C tot (\<lambda>c d. 0) s s'"
  using run(1) unfolding InputOutputCoins_def
  by (rule on_bank_books [OF assms(2) bank_okD(6) [OF cosmos_okD(6) [OF C]]
        balance_okD(8) [OF cosmos_okD(7) [OF C]] _ run(2)])

end
