(* ===== verification/BankxLock.thy ===== *)
theory BankxLock
  imports BankxInv
begin

section \<open>Locked sends and early unlocks\<close>

text \<open>
  A locked send takes the coins from the sender, appends them to the locked coins of the receiver
  with an entry of the unlock queue, and raises \<open>SendLock\<close> of their tokens; an early unlock removes
  exactly the coin it was asked for and pays it out. Both keep the books.
\<close>

definition locked_coin :: "addr \<Rightarrow> addr \<Rightarrow> int \<Rightarrow> int \<Rightarrow> bool \<Rightarrow> coin \<Rightarrow> LockedCoin" where
  "locked_coin fromAddr supervisor unlockTime reward isSupervised c =
     \<lparr>lc_Coin = c, lc_UnlockTime = unlockTime,
      lc_FromAddress = (if isSupervised then fromAddr else []),
      lc_Supervisor = (if isSupervised then supervisor else []),
      lc_Reward = (if isSupervised then reward else 0)\<rparr>"

lemma new_locked_coin:
  assumes "coins_ok S"
    and "(if isSupervised then NewSupervisedLockedCoin S (Denom c) (Amount c) unlockTime fromAddr supervisor reward
      else NewLockedCoin S (Denom c) (Amount c) unlockTime) = Ok l"
  shows "l = locked_coin fromAddr supervisor unlockTime reward isSupervised c"
  using assms(2) coins_okD(1) [OF assms(1)]
  by (auto simp: NewSupervisedLockedCoin_def NewLockedCoin_def locked_coin_def split: if_splits)

lemma lock_coins_Ok:
  assumes C: "coins_ok S" "int_ok S"
  shows "asset_inv s \<Longrightarrow> lock_coins S fromAddr supervisor t reward isS cs ax s = (Ok ax', s') \<Longrightarrow>
    asset_inv s' \<and> (\<forall>d. send_lock s' d = send_lock s d + coin_sum cs d) \<and> (\<forall>d. token_body s' d = token_body s d) \<and>
    ax' = ax\<lparr>ax_LockedCoins := ax_LockedCoins ax @ map (locked_coin fromAddr supervisor t reward isS) cs\<rparr> \<and>
    (\<exists>as. s' = s\<lparr>asset_store := as\<rparr>)"
proof (induction cs arbitrary: ax s)
  case Nil
  then have "s' = s" "ax' = ax" by (simp_all add: return_Ok)
  moreover have "s = s\<lparr>asset_store := asset_store s\<rparr>" by simp
  ultimately show ?case using Nil.prems(1) by (auto intro: exI [of _ "asset_store s"])
next
  case (Cons c cs)
  obtain l s1 where l: "(if isS then NewSupervisedLockedCoin S (Denom c) (Amount c) t fromAddr supervisor reward
      else NewLockedCoin S (Denom c) (Amount c) t) = Ok l"
    and upd: "UpdateTokenSendLock S (Denom c) (Amount c) True s = (Ok (), s1)"
    and rest: "lock_coins S fromAddr supervisor t reward isS cs (ax\<lparr>ax_LockedCoins := ax_LockedCoins ax @ [l]\<rparr>) s1
      = (Ok ax', s')"
    using Cons.prems(2) by (auto simp: and_then_Ok lift_Ok)
  have inv1: "asset_inv s1" by (rule UpdateTokenSendLock_inv [OF C(2) Cons.prems(1) upd]) simp
  obtain as where s1: "s1 = s\<lparr>asset_store := as\<rparr>" using UpdateTokenSendLock_frame [OF upd] by blast
  from Cons.IH [OF inv1 rest] obtain as' where
    "asset_inv s'" "\<forall>d. send_lock s' d = send_lock s1 d + coin_sum cs d" "\<forall>d. token_body s' d = token_body s1 d"
    "ax' = ax\<lparr>ax_LockedCoins := (ax_LockedCoins ax @ [l]) @ map (locked_coin fromAddr supervisor t reward isS) cs\<rparr>"
    "s' = s1\<lparr>asset_store := as'\<rparr>" by auto
  moreover have "send_lock s1 d = send_lock s d + (if d = Denom c then Amount c else 0)" for d
    using UpdateTokenSendLock_Ok [OF C(2) Cons.prems(1) upd] by simp
  moreover have "token_body s1 d = token_body s d" for d using UpdateTokenSendLock_body [OF Cons.prems(1) upd] by simp
  ultimately show ?case
    using new_locked_coin [OF C(1) l] s1 by auto
qed

lemma locked_sum_map: "locked_sum (map (locked_coin f v t r isS) cs) d = coin_sum cs d"
  by (induction cs) (simp_all add: locked_coin_def)

lemma lock_fee_books:
  assumes C: "cosmos_ok C tot" and "authx_inv C s" and run: "lock_fee C ctx a t p s = (r, s')" "r \<noteq> Panic"
  shows "books C tot (\<lambda>c d. 0) s s'"
proof -
  have "s' = s \<or> (\<exists>amt. DeductInt64CetFee C a amt s = (r, s'))"
    using run(1) by (auto simp: lock_fee_def Let_def fail_def return_def DeductInt64CetFee_def split: if_splits)
  then show ?thesis using DeductInt64CetFee_books [OF C assms(2) _ run(2)] books_refl [OF assms(2)] by blast
qed

lemma ensure_account_books:
  fixes s :: "('b, 'z) authx_state_scheme"
  assumes C: "cosmos_ok C tot" and inv: "authx_inv C s"
    and run: "whenever (\<not> acc_exists C (bank s) a) (AddCoins C a []) s = (Ok u, s')"
  shows "books C tot (\<lambda>c d. 0) s s' \<and> acc_exists C (bank s') a \<and>
    (\<forall>c d. balance C (bank s') c d = balance C (bank s) c d) \<and> (\<forall>c. locked s' c = locked s c)"
proof (cases "acc_exists C (bank s) a")
  case True
  then show ?thesis using run books_refl [OF inv] by (simp add: whenever_def return_Ok)
next
  case False
  note laws = cosmos_okD [OF C]
  obtain b where add: "bank_AddCoins C a [] (bank s) = (Ok (), b)" and s': "s' = s\<lparr>bank := b\<rparr>"
    using run False by (auto simp: whenever_def AddCoins_def on_bank_Ok)
  have zero: "coins_AmountOf C [] d = 0" for d by (rule coins_AmountOf_simps [OF laws(5)])
  have "books C tot (\<lambda>c d. 0) s s'"
  proof (rule on_bank_books [OF inv])
    show "moves tot (\<lambda>d. 0) (bank_AddCoins C a [])"
      using bank_okD(3) [OF laws(6), of "[]" a] by (simp add: zero)
    show "grows C (bank_AddCoins C a [])" by (rule balance_okD(5) [OF laws(7)])
    show "on_bank (bank_AddCoins C a []) s = (Ok (), s')" using add by (simp add: on_bank_def s')
  qed simp
  then show ?thesis
    using balance_okD(1,11) [OF laws(7) add] by (simp add: s' zero locked_def)
qed

text \<open>
  A write of the locked coins of one account that goes with the bank and with \<open>SendLock\<close>: what is
  locked in all changes by \<open>\<delta>\<close>, and so do the tokens, and the bank holds that much less.
\<close>

lemma locked_write_books:
  assumes inv: "authx_inv C s" and ok: "accx_inv C s'" "asset_inv s'"
    and get: "\<And>c. GetAccountX s' c = (if c = a then Some x else GetAccountX s c)"
    and fr: "\<And>d. coin_sum (ax_FrozenCoins x) d = frozen s a d"
    and tots: "\<And>d. totals (accx_store s') d = (locked_total s d + \<delta> d, frozen_total s d)"
    and lock: "\<And>d. send_lock s' d = send_lock s d + \<delta> d" and body: "\<And>d. token_body s' d = token_body s d"
    and bank: "\<And>d. tot (bank s') d = tot (bank s) d - \<delta> d"
    and ex: "\<And>c. acc_exists C (bank s) c \<Longrightarrow> acc_exists C (bank s') c" "acc_exists C (bank s') a"
    and frame: "\<exists>b ax as. s' = s\<lparr>bank := b, accx_store := ax, asset_store := as\<rparr>"
  shows "books C tot (\<lambda>c d. 0) s s'"
proof -
  have sums: "locked_total s' d = locked_total s d + \<delta> d" "frozen_total s' d = frozen_total s d" for d
    using tots [of d] by (simp_all add: totals_def locked_total_def frozen_total_def)
  have "lock_inv s'" using inv lock sums by (simp add: authx_inv_def lock_inv_def)
  moreover have "accounts_exist C s'"
    using inv ex by (auto simp: authx_inv_def accounts_exist_def get)
  ultimately have "authx_inv C s'" using ok by (simp add: authx_inv_def)
  moreover have "frozen s' c d = frozen s c d" for c d using fr by (simp add: frozen_def get)
  moreover have "total_coins tot s' d = total_coins tot s d" for d
    using sums bank by (simp add: total_coins_def)
  ultimately show ?thesis using frame body by (simp add: books_def)
qed

text \<open>The store after the coins are appended and their time is queued.\<close>

definition append_locked :: "'y sdk_scheme \<Rightarrow> accx_val kv \<Rightarrow> AccountX \<Rightarrow> int \<Rightarrow> bool \<Rightarrow> accx_val kv" where
  "append_locked S st x t nonempty =
     (let st' = kv_set (AddressStoreKey (ax_Address x)) (VAccX x) st
      in if nonempty then kv_set (KeyUnlockedCoinsQueue S t (ax_Address x)) (VAddr (ax_Address x)) st' else st')"

lemma kv_set_commute:
  "k \<noteq> k' \<Longrightarrow> kv_set k v (kv_set k' v' st) = kv_set k' v' (kv_set k v st)"
  by (induction st) auto

lemma append_locked_facts:
  assumes S: "keys_ok S" and inv: "accx_inv S s" and t: "time_fits t" and x: "accx_wf x"
    and ls: "ax_LockedCoins x = locked s (ax_Address x) @ new" "\<forall>l \<in> set new. lc_UnlockTime l = t"
    and ne: "nonempty \<longleftrightarrow> new \<noteq> []" and st: "st = append_locked S (accx_store s) x t nonempty"
    and fr: "coin_sum (ax_FrozenCoins x) d = frozen s (ax_Address x) d"
  shows "accx_store_ok S st"
    and "kv_get st (AddressStoreKey c) =
      (if c = ax_Address x then Some (VAccX x) else kv_get (accx_store s) (AddressStoreKey c))"
    and "totals st d = (locked_total s d + locked_sum new d, frozen_total s d)"
proof -
  define a where "a = ax_Address x"
  define q where "q = (if nonempty then kv_set (KeyUnlockedCoinsQueue S t a) (VAddr a) (accx_store s) else accx_store s)"
  have q: "accx_store_ok S q" using inv accx_store_ok_enqueue [OF S inv t, of a] by (simp add: q_def)
  have st': "st = kv_set (AddressStoreKey a) (VAccX x) q"
    by (simp add: st append_locked_def q_def a_def Let_def
        kv_set_commute [of "AddressStoreKey (ax_Address x)" "KeyUnlockedCoinsQueue S t (ax_Address x)"])
  have fits: "\<forall>l \<in> set (ax_LockedCoins x). time_fits (lc_UnlockTime l)" using x by (simp add: accx_wf_def)
  have old: "queued S (accx_store s) a (locked s a)"
    using accx_inv_account(3) [OF inv, of a] by (cases "GetAccountX s a") (auto simp: locked_def queued_def)
  have "queued S q a (ax_LockedCoins x)"
  proof (cases nonempty)
    case True
    then show ?thesis
      using queued_enqueue [OF S t fits] old ls by (auto simp: q_def queued_def a_def)
  next
    case False
    then show ?thesis using old ls(1) ne by (simp add: q_def a_def)
  qed
  then show "accx_store_ok S st"
    unfolding st' a_def using accx_store_ok_set [OF q x] by (simp add: a_def)
  show "kv_get st (AddressStoreKey c) =
      (if c = ax_Address x then Some (VAccX x) else kv_get (accx_store s) (AddressStoreKey c))"
    by (simp add: st' q_def a_def)
  have kv: "kv_ok q" using q by (simp add: accx_store_ok_def)
  have same: "totals q d = (locked_total s d, frozen_total s d)"
    using totals_queue(1) [OF inv t] by (simp add: q_def totals_def locked_total_def frozen_total_def)
  have "kv_val f q (AddressStoreKey a) = kv_val f (accx_store s) (AddressStoreKey a)" for f
    by (simp add: kv_val_def q_def)
  then show "totals st d = (locked_total s d + locked_sum new d, frozen_total s d)"
    unfolding st' using totals_account [OF kv, of a x d] same account_value [OF inv, of d a] ls fr
    by (simp add: a_def locked_def frozen_def split: option.splits)
qed

text \<open>What a successful locked send does.\<close>

lemma lock_fee_frame:
  assumes "balance_ok C" and "lock_fee C ctx a t p s = (Ok u, s')"
  obtains b where "s' = s\<lparr>bank := b\<rparr>" and "\<And>c. acc_exists C (bank s) c \<Longrightarrow> acc_exists C b c"
proof -
  have g: "grows C (supply_AccToModule C a FeeCollectorName cs)" for cs by (rule balance_okD(9) [OF assms(1)])
  have "s' = s \<or> (\<exists>cs b. supply_AccToModule C a FeeCollectorName cs (bank s) = (Ok u, b) \<and> s' = s\<lparr>bank := b\<rparr>)"
    using assms(2) by (auto simp: lock_fee_def Let_def fail_def return_Ok DeductFee_def on_bank_Ok and_then_Ok
        lift_Ok split: if_splits)
  then show thesis
  proof
    assume "s' = s"
    then show thesis using that [of "bank s"] by simp
  next
    assume "\<exists>cs b. supply_AccToModule C a FeeCollectorName cs (bank s) = (Ok u, b) \<and> s' = s\<lparr>bank := b\<rparr>"
    then show thesis using that g unfolding grows_def by blast
  qed
qed

lemma send_locked_tail:
  assumes C: "cosmos_ok C tot" and inv: "authx_inv C s" and t: "time_fits unlockTime"
    and ex: "acc_exists C (bank s) toAddr"
    and r3: "SubtractCoins C fromAddr amt s = (Ok (), s3)"
    and r4: "GetOrCreateAccountX toAddr s3 = (Ok x, s4)"
    and r5: "lock_coins C fromAddr supervisor unlockTime reward isS amt x s4 = (Ok x', s5)"
    and r6: "SetAccountX x' s5 = (Ok (), s6)"
    and r7: "whenever (amt \<noteq> []) (InsertUnlockedCoinsQueue C unlockTime toAddr) s6 = (Ok u, s')"
  shows "books C tot (\<lambda>c d. 0) s s' \<and> coins_IsValid C amt \<and>
    (\<forall>c. locked s' c = (if c = toAddr
      then locked s c @ map (locked_coin fromAddr supervisor unlockTime reward isS) amt else locked s c))"
proof -
  note laws = cosmos_okD [OF C]
  define new where "new = map (locked_coin fromAddr supervisor unlockTime reward isS) amt"
  obtain b where sub: "bank_SubtractCoins C fromAddr amt (bank s) = (Ok (), b)" and s3: "s3 = s\<lparr>bank := b\<rparr>"
    using r3 by (auto simp: SubtractCoins_def on_bank_Ok)
  have valid: "coins_IsValid C amt" by (rule bank_okD(5) [OF laws(6) sub])
  have grow: "acc_exists C (bank s) y \<Longrightarrow> acc_exists C b y" for y
    using balance_okD(6) [OF laws(7)] sub by (auto simp: grows_def)
  have accx: "accx_inv C s" and asset: "asset_inv s" using inv by (simp_all add: authx_inv_def)
  have x: "x = account_or_new s toAddr"
    and s4: "s4 = s3 \<or> s4 = put_account (NewAccountXWithAddress toAddr) s3"
    using GetOrCreateAccountX_run [of toAddr s3] r4 by (auto simp: s3 account_or_new_def)
  note facts = account_or_new_facts [OF accx, of toAddr, folded x]
  have asset4: "asset_inv s4" and lock4: "\<And>d. send_lock s4 d = send_lock s d" "\<And>d. token_body s4 d = token_body s d"
    using s4 s3 asset by auto
  from lock_coins_Ok [OF laws(5,3) asset4 r5] obtain as where
    as5: "asset_inv s5" "\<forall>d. send_lock s5 d = send_lock s4 d + coin_sum amt d" "\<forall>d. token_body s5 d = token_body s4 d"
    and x': "x' = x\<lparr>ax_LockedCoins := ax_LockedCoins x @ new\<rparr>"
    and s5: "s5 = s4\<lparr>asset_store := as\<rparr>" unfolding new_def by blast
  have ax': "ax_Address x' = toAddr" "ax_FrozenCoins x' = ax_FrozenCoins x" "ax_LockedCoins x' = locked s toAddr @ new"
    using facts(1,5) x' by simp_all
  have put: "put_account x' s4 = put_account x' s3"
    using s4 put_twice [of x' "NewAccountXWithAddress toAddr" s3] ax'(1) new_account_wf(3) by auto
  have "s6 = (put_account x' s4)\<lparr>asset_store := as\<rparr>"
    using r6 by (intro authx_state.equality) (auto simp: SetAccountX_run s5)
  then have s': "s' = s\<lparr>bank := b, asset_store := as,
      accx_store := append_locked C (accx_store s) x' unlockTime (amt \<noteq> [])\<rparr>"
    using r7 unfolding put by (cases "amt = []")
      (simp_all add: s3 whenever_def return_Ok InsertUnlockedCoinsQueue_def modify_Ok append_locked_def ax'(1))
  have "\<And>c. c \<in> set amt \<Longrightarrow> 0 < Amount c" using coins_okD(15) [OF laws(5) valid] by blast
  then have wf: "accx_wf x'"
    using facts(2) t unfolding accx_wf_def x' new_def by (auto simp: locked_coin_def less_imp_le)
  have times: "\<forall>l \<in> set new. lc_UnlockTime l = unlockTime" by (auto simp: new_def locked_coin_def)
  have ne: "amt \<noteq> [] \<longleftrightarrow> new \<noteq> []" by (simp add: new_def)
  have fr: "coin_sum (ax_FrozenCoins x') d = frozen s toAddr d" for d using facts(4) ax'(2) by simp
  note store = append_locked_facts [OF laws(2) accx t wf ax'(3) [folded ax'(1)] times ne refl
      fr [folded ax'(1)], folded s']
  have sorted: "coins_sorted amt" by (rule coins_okD(9) [OF laws(5) valid])
  have get: "GetAccountX s' c = (if c = toAddr then Some x' else GetAccountX s c)" for c
    unfolding GetAccountX_def s' by (simp add: store(2) ax'(1))
  have "books C tot (\<lambda>c d. 0) s s'"
  proof (rule locked_write_books [OF inv, where \<delta> = "coin_sum amt"])
    show "accx_inv C s'" unfolding s' using store(1) by simp
    show "asset_inv s'" using as5(1) by (simp add: s' asset_inv_def s5)
    show "totals (accx_store s') d = (locked_total s d + coin_sum amt d, frozen_total s d)" for d
      unfolding s' using store(3) by (simp add: new_def locked_sum_map)
    show "send_lock s' d = send_lock s d + coin_sum amt d" for d
      using as5(2) lock4 by (simp add: send_lock_def GetToken_def s' s5)
    show "token_body s' d = token_body s d" for d using as5(3) lock4 by (simp add: token_body_def GetToken_def s' s5)
    show "tot (bank s') d = tot (bank s) d - coin_sum amt d" for d
      using movesD_Ok [OF bank_okD(2) [OF laws(6)] sub, of d] coins_okD(13) [OF laws(5) sorted] by (simp add: s')
    show "acc_exists C (bank s') toAddr" using ex grow by (simp add: s')
    show "acc_exists C (bank s') c" if "acc_exists C (bank s) c" for c using that grow by (simp add: s')
    show "\<exists>b ax as. s' = s\<lparr>bank := b, accx_store := ax, asset_store := as\<rparr>"
      unfolding s' by (intro exI [of _ b] exI [of _ as]
          exI [of _ "append_locked C (accx_store s) x' unlockTime (amt \<noteq> [])"]) simp
  qed (rule get, rule fr)
  then show ?thesis using valid ax'(3) by (simp add: locked_def get new_def)
qed

lemma SendLockedCoins_Ok:
  assumes C: "cosmos_ok C tot" and inv: "authx_inv C s" and t: "time_fits unlockTime"
    and run: "SendLockedCoins C ctx fromAddr toAddr supervisor amt unlockTime reward isS s = (Ok u, s')"
  shows "books C tot (\<lambda>c d. 0) s s'"
    and "locked s' c = (if c = toAddr
      then locked s c @ map (locked_coin fromAddr supervisor unlockTime reward isS) amt else locked s c)"
    and "coins_IsValid C amt" and "\<not> IsSendForbidden s amt fromAddr"
proof -
  show forbidden: "\<not> IsSendForbidden s amt fromAddr"
    using run by (auto simp: SendLockedCoins_def split: if_splits)
  obtain s1 s2 s3 s4 s5 s6 x x' where
    r1: "whenever (\<not> acc_exists C (bank s) toAddr) (AddCoins C toAddr []) s = (Ok (), s1)" and
    r2: "lock_fee C ctx fromAddr unlockTime (bankx_params s) s1 = (Ok (), s2)" and
    tail: "SubtractCoins C fromAddr amt s2 = (Ok (), s3)" "GetOrCreateAccountX toAddr s3 = (Ok x, s4)"
      "lock_coins C fromAddr supervisor unlockTime reward isS amt x s4 = (Ok x', s5)"
      "SetAccountX x' s5 = (Ok (), s6)"
      "whenever (amt \<noteq> []) (InsertUnlockedCoinsQueue C unlockTime toAddr) s6 = (Ok u, s')"
    using run forbidden by (auto simp: SendLockedCoins_def and_then_Ok)
  have b1: "books C tot (\<lambda>c d. 0) s s1" "acc_exists C (bank s1) toAddr" "\<And>c. locked s1 c = locked s c"
    using ensure_account_books [OF C inv r1] by auto
  have b2: "books C tot (\<lambda>c d. 0) s1 s2" by (rule lock_fee_books [OF C booksD(1) [OF b1(1)] r2]) simp
  obtain b where s2: "s2 = s1\<lparr>bank := b\<rparr>" "\<And>c. acc_exists C (bank s1) c \<Longrightarrow> acc_exists C b c"
    using lock_fee_frame [OF cosmos_okD(7) [OF C] r2] by blast
  have ex: "acc_exists C (bank s2) toAddr" using s2 b1(2) by simp
  have l2: "locked s2 c = locked s c" for c using b1(3) by (simp add: s2(1) locked_def)
  note b3 = send_locked_tail [OF C booksD(1) [OF b2] t ex tail]
  show "books C tot (\<lambda>c d. 0) s s'"
    using books_trans [OF books_trans [OF b1(1) b2]] b3 by fastforce
  show "coins_IsValid C amt" using b3 by blast
  show "locked s' c = (if c = toAddr
      then locked s c @ map (locked_coin fromAddr supervisor unlockTime reward isS) amt else locked s c)"
    using b3 l2 by simp
qed

subsection \<open>Early unlocks\<close>

text \<open>The search finds the first coin equal to the one asked for, and whether another one shares its time.\<close>

lemma LockedCoin_IsEqual_iff: "coins_ok S \<Longrightarrow> LockedCoin_IsEqual S a b \<longleftrightarrow> a = b"
  using coins_okD(14) [of S] by (auto simp: LockedCoin_IsEqual_def)

lemma find_locked_found:
  "find_locked S coin t i ls (True, h, k) = (True, h \<or> (\<exists>l \<in> set ls. lc_UnlockTime l = t), k)"
  by (induction ls arbitrary: i h) auto

lemma find_locked_None:
  "coins_ok S \<Longrightarrow> coin \<notin> set ls \<Longrightarrow> fst (find_locked S coin t i ls (False, h, k)) = False"
  by (induction ls arbitrary: i h) (auto simp: LockedCoin_IsEqual_iff)

lemma find_locked_Some:
  "coins_ok S \<Longrightarrow> coin \<notin> set pre \<Longrightarrow>
    find_locked S coin (lc_UnlockTime coin) i (pre @ coin # post) (False, h, k) =
      (True, h \<or> (\<exists>l \<in> set pre \<union> set post. lc_UnlockTime l = lc_UnlockTime coin), i + length pre)"
proof (induction pre arbitrary: i h)
  case Nil
  then show ?case by (simp add: LockedCoin_IsEqual_iff find_locked_found)
next
  case (Cons l pre)
  then show ?case by (auto simp: LockedCoin_IsEqual_iff)
qed

lemma pay_unlocked_Ok:
  assumes C: "cosmos_ok C tot" and "0 \<le> reward" "0 \<le> Amount amt"
    and run: "pay_unlocked C receiver supervisor amt reward s = (Ok cs, s')"
  shows "\<exists>b. s' = s\<lparr>bank := b\<rparr> \<and> (\<forall>d. tot b d = tot (bank s) d + (if Denom amt = d then Amount amt else 0)) \<and>
    (\<forall>c. acc_exists C (bank s) c \<longrightarrow> acc_exists C b c) \<and>
    (\<forall>c d. balance C b c d = balance C (bank s) c d + (if Denom amt = d then
       (if supervisor = [] then (if c = receiver then Amount amt else 0)
        else (if c = receiver then Amount amt - reward else 0) + (if c = supervisor then reward else 0)) else 0))"
proof -
  note laws = cosmos_okD [OF C]
  have add: "tot b' d = tot b d + (if Denom k = d then Amount k else 0)"
      "balance C b' c d = balance C b c d + (if c = a \<and> Denom k = d then Amount k else 0)"
      "acc_exists C b c \<Longrightarrow> acc_exists C b' c"
    if "NewCoins C [k] = Ok cs" "0 \<le> Amount k" "bank_AddCoins C a cs b = (Ok (), b')" for k cs a b b' c d
  proof -
    have amt: "coins_AmountOf C cs d = (if Denom k = d then Amount k else 0)" for d
      using that(1) coins_okD(2) [OF laws(5) that(2)] coins_AmountOf_simps [OF laws(5)] by (auto split: if_splits)
    show "tot b' d = tot b d + (if Denom k = d then Amount k else 0)"
      using movesD_Ok [OF bank_okD(3) [OF laws(6)] that(3)] amt by simp
    show "balance C b' c d = balance C b c d + (if c = a \<and> Denom k = d then Amount k else 0)"
      using balance_okD(1) [OF laws(7) that(3)] amt by simp
    show "acc_exists C b c \<Longrightarrow> acc_exists C b' c"
      using balance_okD(5) [OF laws(7)] that(3) by (auto simp: grows_def)
  qed
  show ?thesis
  proof (cases "supervisor = []")
    case True
    then obtain b where b: "NewCoins C [amt] = Ok cs" "bank_AddCoins C receiver cs (bank s) = (Ok (), b)" "s' = s\<lparr>bank := b\<rparr>"
      using run by (auto simp: pay_unlocked_def Ok_simps AddCoins_def on_bank_Ok)
    note add [OF b(1) assms(3) b(2)]
    then show ?thesis using b(3) True by (intro exI [of _ b]) (auto split: if_splits)
  next
    case False
    define k where "k = \<lparr>Denom = Denom amt, Amount = Amount amt - reward\<rparr>"
    define w where "w = \<lparr>Denom = Denom amt, Amount = reward\<rparr>"
    have coin: "NewCoin C d x = Ok c \<Longrightarrow> 0 \<le> x \<and> c = \<lparr>Denom = d, Amount = x\<rparr>" for d x c
      using coins_okD(1) [OF laws(5)] by (simp split: if_splits)
    obtain b ws where k: "NewCoins C [k] = Ok cs" "0 \<le> Amount k"
        "bank_AddCoins C receiver cs (bank s) = (Ok (), b)"
      and s': "reward > 0 \<and> NewCoins C [w] = Ok ws \<and>
          (\<exists>b'. bank_AddCoins C supervisor ws b = (Ok (), b') \<and> s' = s\<lparr>bank := b'\<rparr>) \<or>
        \<not> reward > 0 \<and> s' = s\<lparr>bank := b\<rparr>"
      using run False
      by (auto simp: pay_unlocked_def Ok_simps AddCoins_def on_bank_Ok int_okD [OF laws(3)]
          whenever_def k_def w_def split: if_splits dest!: coin)
    note one = add [OF k]
    from s' show ?thesis
    proof (elim disjE conjE exE)
      fix b'
      assume r: "reward > 0" and w: "NewCoins C [w] = Ok ws" "bank_AddCoins C supervisor ws b = (Ok (), b')" "s' = s\<lparr>bank := b'\<rparr>"
      have "0 \<le> Amount w" using r by (simp add: w_def)
      note two = add [OF w(1) this w(2)]
      show ?thesis using one two w(3) False
        by (intro exI [of _ b']) (auto simp: k_def w_def split: if_splits)
    next
      assume "\<not> reward > 0" "s' = s\<lparr>bank := b\<rparr>"
      then show ?thesis using one assms(2) False by (intro exI [of _ b]) (auto simp: k_def split: if_splits)
    qed
  qed
qed

text \<open>The store after a coin is taken out and, when it was the last one of its time, its queue entry.\<close>

lemma remove_locked_facts:
  assumes S: "keys_ok S" and inv: "accx_inv S s" and x: "GetAccountX s a = Some x"
    and ls: "ax_LockedCoins x = pre @ l # post"
    and y: "y = x\<lparr>ax_LockedCoins := pre @ post\<rparr>"
    and st: "st = (if \<exists>l' \<in> set pre \<union> set post. lc_UnlockTime l' = lc_UnlockTime l
      then kv_set (AddressStoreKey a) (VAccX y) (accx_store s)
      else kv_delete (KeyUnlockedCoinsQueue S (lc_UnlockTime l) a) (kv_set (AddressStoreKey a) (VAccX y) (accx_store s)))"
  shows "accx_store_ok S st"
    and "kv_get st (AddressStoreKey c) = (if c = a then Some (VAccX y) else kv_get (accx_store s) (AddressStoreKey c))"
    and "totals st d = (locked_total s d - (if Denom (lc_Coin l) = d then Amount (lc_Coin l) else 0), frozen_total s d)"
proof -
  define w where "w = kv_set (AddressStoreKey a) (VAccX y) (accx_store s)"
  have ax: "ax_Address y = a" using accx_inv_account(1) [OF inv x] by (simp add: y)
  have wf: "accx_wf y" and t: "time_fits (lc_UnlockTime l)"
    using accx_inv_account(2) [OF inv x] ls by (auto simp: accx_wf_def y)
  have q: "queued S (accx_store s) a (pre @ post)"
    using accx_inv_account(3) [OF inv x] ls by (auto simp: queued_def)
  have w_ok: "accx_store_ok S w"
    unfolding w_def using accx_store_ok_set [OF inv wf] q ax by (simp add: y)
  show "accx_store_ok S st"
  proof (cases "\<exists>l' \<in> set pre \<union> set post. lc_UnlockTime l' = lc_UnlockTime l")
    case True
    then show ?thesis using w_ok by (simp add: st w_def)
  next
    case False
    have "accx_store_ok S (kv_delete (KeyUnlockedCoinsQueue S (lc_UnlockTime l) a) w)"
      by (rule accx_store_ok_dequeue [OF S w_ok t]) (use False in \<open>auto simp: w_def y\<close>)
    then show ?thesis using False by (simp add: st w_def)
  qed
  show "kv_get st (AddressStoreKey c) = (if c = a then Some (VAccX y) else kv_get (accx_store s) (AddressStoreKey c))"
    by (simp add: st)
  have kv: "kv_ok (accx_store s)" using inv by (simp add: accx_store_ok_def)
  have "totals st d = totals w d"
    using totals_queue(2) [OF w_ok t] by (simp add: st w_def)
  then show "totals st d = (locked_total s d - (if Denom (lc_Coin l) = d then Amount (lc_Coin l) else 0), frozen_total s d)"
    unfolding w_def totals_account [OF kv] using account_value [OF inv, of d a] x ls
    by (simp add: y totals_def locked_total_def frozen_total_def)
qed

lemma EarlierUnlockCoin_Ok:
  assumes C: "cosmos_ok C tot" and inv: "authx_inv C s" and "0 \<le> reward"
    and run: "EarlierUnlockCoin C ctx fromAddr toAddr supervisor amt unlockTime reward isReturned s = (Ok u, s')"
  shows "books C tot (\<lambda>c d. 0) s s'"
    and "\<exists>pre post. locked s toAddr = pre @ locked_coin fromAddr supervisor unlockTime reward True amt # post \<and>
      locked_coin fromAddr supervisor unlockTime reward True amt \<notin> set pre \<and>
      locked s' toAddr = pre @ post \<and> (\<forall>c. c \<noteq> toAddr \<longrightarrow> locked s' c = locked s c)"
    and "balance C (bank s') c d = balance C (bank s) c d + (if Denom amt = d then
       (if supervisor = [] then (if c = (if isReturned then fromAddr else toAddr) then Amount amt else 0)
        else (if c = (if isReturned then fromAddr else toAddr) then Amount amt - reward else 0) +
          (if c = supervisor then reward else 0)) else 0)"
proof -
  note laws = cosmos_okD [OF C]
  define coin where "coin = locked_coin fromAddr supervisor unlockTime reward True amt"
  define receiver where "receiver = (if isReturned then fromAddr else toAddr)"
  have accx: "accx_inv C s" and asset: "asset_inv s" using inv by (simp_all add: authx_inv_def)
  obtain x where x: "GetAccountX s toAddr = Some x"
    using run by (auto simp: EarlierUnlockCoin_def split: option.splits)
  have new: "NewSupervisedLockedCoin C (Denom amt) (Amount amt) unlockTime fromAddr supervisor reward = Ok l \<Longrightarrow> l = coin" for l
    using new_locked_coin [OF laws(5), of True] by (simp add: coin_def)
  obtain found hasOther i where find: "find_locked C coin unlockTime 0 (ax_LockedCoins x) (False, False, 0) = (found, hasOther, i)"
    by (cases "find_locked C coin unlockTime 0 (ax_LockedCoins x) (False, False, 0)")
  obtain s1 s2 s3 cs where found: "found"
    and upd: "UpdateTokenSendLock C (Denom amt) (Amount amt) False s = (Ok (), s1)"
    and pay: "pay_unlocked C receiver supervisor amt reward s1 = (Ok cs, s2)"
    and put: "SetAccountX (x\<lparr>ax_LockedCoins := take i (ax_LockedCoins x) @ drop (Suc i) (ax_LockedCoins x)\<rparr>) s2 = (Ok (), s3)"
    and deq: "whenever (\<not> hasOther) (RemoveFromUnlockedCoinsQueue C unlockTime toAddr) s3 = (Ok (), s')"
    using run x find by (auto simp: EarlierUnlockCoin_def Ok_simps receiver_def dest!: new split: if_splits)
  have t: "lc_UnlockTime coin = unlockTime" by (simp add: coin_def locked_coin_def)
  have "coin \<in> set (ax_LockedCoins x)"
    using find_locked_None [OF laws(5), of coin "ax_LockedCoins x" unlockTime 0 False 0] find found by auto
  then obtain pre post where ls: "ax_LockedCoins x = pre @ coin # post" "coin \<notin> set pre"
    by (metis split_list_first)
  have i: "i = length pre" "hasOther \<longleftrightarrow> (\<exists>l \<in> set pre \<union> set post. lc_UnlockTime l = lc_UnlockTime coin)"
    using find_locked_Some [OF laws(5) ls(2), of 0 post False 0] find ls(1) t by auto
  define y where "y = x\<lparr>ax_LockedCoins := pre @ post\<rparr>"
  define st where "st = (if \<exists>l \<in> set pre \<union> set post. lc_UnlockTime l = lc_UnlockTime coin
      then kv_set (AddressStoreKey toAddr) (VAccX y) (accx_store s)
      else kv_delete (KeyUnlockedCoinsQueue C (lc_UnlockTime coin) toAddr) (kv_set (AddressStoreKey toAddr) (VAccX y) (accx_store s)))"
  note store = remove_locked_facts [OF laws(2) accx x ls(1) y_def st_def]
  obtain as where s1: "s1 = s\<lparr>asset_store := as\<rparr>" using UpdateTokenSendLock_frame [OF upd] by blast
  have amt: "0 \<le> Amount amt"
    using accx_inv_account(2) [OF accx x] ls(1) by (auto simp: accx_wf_def coin_def locked_coin_def)
  from pay_unlocked_Ok [OF C assms(3) amt pay] obtain b where s2: "s2 = s1\<lparr>bank := b\<rparr>"
    and b: "\<And>d. tot b d = tot (bank s) d + (if Denom amt = d then Amount amt else 0)"
      "\<And>c. acc_exists C (bank s) c \<Longrightarrow> acc_exists C b c"
      "\<And>c d. balance C b c d = balance C (bank s) c d + (if Denom amt = d then
       (if supervisor = [] then (if c = receiver then Amount amt else 0)
        else (if c = receiver then Amount amt - reward else 0) + (if c = supervisor then reward else 0)) else 0)"
    by (auto simp: s1)
  have ax: "ax_Address x = toAddr" using accx_inv_account(1) [OF accx x] .
  have st: "st = (if hasOther then kv_set (AddressStoreKey toAddr) (VAccX y) (accx_store s)
      else kv_delete (KeyUnlockedCoinsQueue C unlockTime toAddr) (kv_set (AddressStoreKey toAddr) (VAccX y) (accx_store s)))"
    unfolding st_def i(2) t by (rule refl)
  have s': "s' = s\<lparr>bank := b, asset_store := as, accx_store := st\<rparr>"
    using put deq unfolding st by (cases hasOther; intro authx_state.equality)
      (auto simp: SetAccountX_run whenever_def return_Ok RemoveFromUnlockedCoinsQueue_def
        RemoveFromUnlockedCoinsQueueByKey_def modify_Ok s2 s1 ax y_def ls(1) i(1) t)
  have get: "GetAccountX s' c = (if c = toAddr then Some y else GetAccountX s c)" for c
    unfolding GetAccountX_def s' by (simp add: store(2))
  have upd_lock: "send_lock s1 d = send_lock s d - (if Denom amt = d then Amount amt else 0)" for d
    using UpdateTokenSendLock_Ok [OF laws(3) asset upd] by auto
  show "books C tot (\<lambda>c d. 0) s s'"
  proof (rule locked_write_books [OF inv, where \<delta> = "\<lambda>d. - (if Denom amt = d then Amount amt else 0)"])
    show "accx_inv C s'" unfolding s' using store(1) by simp
    show "asset_inv s'"
      using UpdateTokenSendLock_inv [OF laws(3) asset upd] by (simp add: s' s1 asset_inv_def)
    show "coin_sum (ax_FrozenCoins y) d = frozen s toAddr d" for d by (simp add: y_def frozen_def x)
    show "totals (accx_store s') d = (locked_total s d + - (if Denom amt = d then Amount amt else 0), frozen_total s d)" for d
      unfolding s' using store(3) by (simp add: coin_def locked_coin_def)
    show "send_lock s' d = send_lock s d + - (if Denom amt = d then Amount amt else 0)" for d
      using upd_lock [of d] by (simp add: s' s1 send_lock_def GetToken_def)
    show "token_body s' d = token_body s d" for d
      using UpdateTokenSendLock_body [OF asset upd] by (simp add: s' s1 token_body_def GetToken_def)
    show "tot (bank s') d = tot (bank s) d - - (if Denom amt = d then Amount amt else 0)" for d
      using b(1) by (simp add: s')
    show "acc_exists C (bank s') toAddr"
      using inv x b(2) by (auto simp: s' authx_inv_def accounts_exist_def)
    show "acc_exists C (bank s') c" if "acc_exists C (bank s) c" for c using that b(2) by (simp add: s')
    show "\<exists>b ax as. s' = s\<lparr>bank := b, accx_store := ax, asset_store := as\<rparr>"
      unfolding s' by (intro exI [of _ b] exI [of _ as] exI [of _ st]) simp
  qed (rule get)
  show "\<exists>pre post. locked s toAddr = pre @ locked_coin fromAddr supervisor unlockTime reward True amt # post \<and>
      locked_coin fromAddr supervisor unlockTime reward True amt \<notin> set pre \<and>
      locked s' toAddr = pre @ post \<and> (\<forall>c. c \<noteq> toAddr \<longrightarrow> locked s' c = locked s c)"
    using ls x by (intro exI [of _ pre] exI [of _ post]) (simp add: locked_def get y_def coin_def)
  show "balance C (bank s') c d = balance C (bank s) c d + (if Denom amt = d then
       (if supervisor = [] then (if c = (if isReturned then fromAddr else toAddr) then Amount amt else 0)
        else (if c = (if isReturned then fromAddr else toAddr) then Amount amt - reward else 0) +
          (if c = supervisor then reward else 0)) else 0)"
    using b(3) by (simp add: s' receiver_def)
qed

end
