(* ===== verification/BankxHandler.thy ===== *)
theory BankxHandler
  imports BankxLock DexTypes
begin

section \<open>The bankx messages and their handler\<close>

text \<open>
  \<open>src/modules/bankx/handler.go\<close> with \<open>internal/types/msgs.go\<close> and \<open>locked_send.go\<close>: the checks of
  \<open>ValidateBasic\<close>, the signers, and what each message does to the state. \<open>sub\<close> is the message
  producer's \<open>IsSubscribed\<close>.
\<close>

subsection \<open>Messages (\<open>msgs.go\<close>)\<close>

record MsgSend =
  ms_FromAddress :: addr
  ms_ToAddress :: addr
  ms_Amount :: coins
  ms_UnlockTime :: int

record MsgMultiSend =
  mm_Inputs :: "(addr \<times> coins) list"
  mm_Outputs :: "(addr \<times> coins) list"

record MsgSetMemoRequired =
  mr_Address :: addr
  mr_Required :: bool

record MsgSupervisedSend =
  mv_FromAddress :: addr
  mv_Supervisor :: addr
  mv_ToAddress :: addr
  mv_Amount :: coin
  mv_UnlockTime :: int
  mv_Reward :: int
  mv_Operation :: nat

abbreviation Create :: nat where "Create \<equiv> 0"
abbreviation Return :: nat where "Return \<equiv> 1"
abbreviation EarlierUnlockBySender :: nat where "EarlierUnlockBySender \<equiv> 2"
abbreviation EarlierUnlockBySupervisor :: nat where "EarlierUnlockBySupervisor \<equiv> 3"

definition MaxUnlockTime :: int where
  "MaxUnlockTime = go_quo (2 ^ 63 - 1) 1000000000"

definition MsgSend_ValidateBasic :: "'y sdk_scheme \<Rightarrow> MsgSend \<Rightarrow> unit ret" where
  "MsgSend_ValidateBasic S msg =
     (if ms_FromAddress msg = [] then Err (SdkErr ''ErrInvalidAddress'')
      else if ms_ToAddress msg = [] then Err (SdkErr ''ErrInvalidAddress'')
      else if \<not> coins_IsValid S (ms_Amount msg) then Err (SdkErr ''ErrInvalidCoins'')
      else if \<not> coins_IsAllPositive S (ms_Amount msg) then Err (SdkErr ''ErrInsufficientCoins'')
      else if ms_UnlockTime msg < 0 then Err BankxErrUnlockTime
      else if ms_UnlockTime msg > MaxUnlockTime then Err BankxErrUnlockTime
      else Ok ())"

definition MsgSetMemoRequired_ValidateBasic :: "MsgSetMemoRequired \<Rightarrow> unit ret" where
  "MsgSetMemoRequired_ValidateBasic msg =
     (if mr_Address msg = [] then Err (SdkErr ''ErrInvalidAddress'') else Ok ())"

fun sum_checked ::
    "'y sdk_scheme \<Rightarrow> (addr \<times> coins \<Rightarrow> unit ret) \<Rightarrow> coins \<Rightarrow> (addr \<times> coins) list \<Rightarrow> coins ret" where
  "sum_checked S validate acc [] = Ok acc"
| "sum_checked S validate acc (x # xs) =
     ret_bind (validate x) (\<lambda>_. sum_checked S validate (coins_Add S acc (snd x)) xs)"

definition ValidateInputsOutputs ::
    "'y sdk_scheme \<Rightarrow> (addr \<times> coins) list \<Rightarrow> (addr \<times> coins) list \<Rightarrow> unit ret" where
  "ValidateInputsOutputs S inputs outputs =
     ret_bind (sum_checked S (input_ValidateBasic S) [] inputs) (\<lambda>totalIn.
     ret_bind (sum_checked S (output_ValidateBasic S) [] outputs) (\<lambda>totalOut.
     if \<not> coins_IsEqual S totalIn totalOut then Err BankxErrInputOutputMismatch else Ok ()))"

definition MsgMultiSend_ValidateBasic :: "'y sdk_scheme \<Rightarrow> MsgMultiSend \<Rightarrow> unit ret" where
  "MsgMultiSend_ValidateBasic S msg =
     (if length (mm_Inputs msg) = 0 then Err BankxErrNoInputs
      else if length (mm_Outputs msg) = 0 then Err BankxErrNoOutputs
      else ValidateInputsOutputs S (mm_Inputs msg) (mm_Outputs msg))"

definition by_supervisor :: "nat \<Rightarrow> bool" where
  "by_supervisor operation \<longleftrightarrow> operation = Return \<or> operation = EarlierUnlockBySupervisor"

definition MsgSupervisedSend_ValidateBasic :: "'y sdk_scheme \<Rightarrow> MsgSupervisedSend \<Rightarrow> unit ret" where
  "MsgSupervisedSend_ValidateBasic S msg =
     (if mv_FromAddress msg = [] then Err (SdkErr ''ErrInvalidAddress'')
      else if mv_ToAddress msg = [] then Err (SdkErr ''ErrInvalidAddress'')
      else if mv_Supervisor msg = [] \<and> by_supervisor (mv_Operation msg) then Err (SdkErr ''ErrInvalidAddress'')
      else if \<not> coin_IsValid S (mv_Amount msg) then Err (SdkErr ''ErrInvalidCoins'')
      else if \<not> Amount (mv_Amount msg) > 0 then Err (SdkErr ''ErrInsufficientCoins'')
      else if mv_UnlockTime msg \<le> 0 then Err BankxErrUnlockTime
      else if mv_UnlockTime msg > MaxUnlockTime then Err BankxErrUnlockTime
      else if mv_Reward msg < 0 then Err (SdkErr ''ErrInsufficientCoins'')
      else if mv_Reward msg > Amount (mv_Amount msg) then Err BankxErrRewardExceedsAmount
      else if mv_Operation msg < Create \<or> mv_Operation msg > EarlierUnlockBySupervisor
        then Err BankxErrInvalidOperation
      else Ok ())"

definition MsgSend_GetSigners :: "MsgSend \<Rightarrow> addr list" where
  "MsgSend_GetSigners msg = [ms_FromAddress msg]"

definition MsgSetMemoRequired_GetSigners :: "MsgSetMemoRequired \<Rightarrow> addr list" where
  "MsgSetMemoRequired_GetSigners msg = [mr_Address msg]"

definition MsgMultiSend_GetSigners :: "MsgMultiSend \<Rightarrow> addr list" where
  "MsgMultiSend_GetSigners msg = map fst (mm_Inputs msg)"

definition MsgSupervisedSend_GetSigners :: "MsgSupervisedSend \<Rightarrow> addr list" where
  "MsgSupervisedSend_GetSigners msg =
     (if by_supervisor (mv_Operation msg) then [mv_Supervisor msg] else [mv_FromAddress msg])"

subsection \<open>The message queue's record of a locked send (\<open>locked_send.go\<close>)\<close>

definition LockedSendMsg :: "addr \<Rightarrow> addr \<Rightarrow> coins \<Rightarrow> int \<Rightarrow> addr \<Rightarrow> int \<Rightarrow> json" where
  "LockedSendMsg fromAddr toAddr amount unlockTime supervisor reward = JObj (
     [(''from_address'', JAddr fromAddr), (''to_address'', JAddr toAddr),
      (''amount'', JCoins amount), (''unlock_time'', JInt unlockTime)] @
     (if supervisor = [] then [] else [(''supervisor'', JAddr supervisor)]) @
     (if reward = 0 then [] else [(''reward'', JInt reward)]))"

definition NewLockedSendMsg :: "addr \<Rightarrow> addr \<Rightarrow> coins \<Rightarrow> int \<Rightarrow> json" where
  "NewLockedSendMsg fromAddr toAddr amount unlockTime = LockedSendMsg fromAddr toAddr amount unlockTime [] 0"

definition NewSupervisedSendMsg ::
    "'y sdk_scheme \<Rightarrow> addr \<Rightarrow> addr \<Rightarrow> addr \<Rightarrow> coin \<Rightarrow> int \<Rightarrow> int \<Rightarrow> json ret" where
  "NewSupervisedSendMsg S fromAddr toAddr supervisor amount unlockTime reward =
     ret_map (\<lambda>cs. LockedSendMsg fromAddr toAddr cs unlockTime supervisor reward) (NewCoins S [amount])"

subsection \<open>The handler (\<open>handler.go\<close>)\<close>

definition fillMsgQueue ::
    "(string \<Rightarrow> bool) \<Rightarrow> string \<Rightarrow> json \<Rightarrow> (('b, 'z) base_state_scheme, unit) op" where
  "fillMsgQueue sub key msg = whenever (sub Topic_bankx) (FillMsgs key msg)"

definition lockedSend ::
    "('b, 'y) cosmos_scheme \<Rightarrow> (string \<Rightarrow> bool) \<Rightarrow> ctx \<Rightarrow> addr \<Rightarrow> addr \<Rightarrow> coins \<Rightarrow> int \<Rightarrow>
      (('b, 'z) bankx_state_scheme, unit) op" where
  "lockedSend C sub ctx fromAddr toAddr amt unlockTime =
     (if unlockTime < Unix ctx then fail BankxErrUnlockTime
      else and_then (SendLockedCoins C ctx fromAddr toAddr [] amt unlockTime 0 False) (\<lambda>_.
           and_then (fillMsgQueue sub ''send_lock_coins'' (NewLockedSendMsg fromAddr toAddr amt unlockTime)) (\<lambda>_.
           emit [Event ''transfer'' [(''sender'', AStr (addr_String C fromAddr)),
                   (''recipient'', AStr (addr_String C toAddr)), (''amount'', AStr (coins_String C amt))],
                 Event ''message'' [(''sender'', AStr (addr_String C fromAddr))]])))"

definition normalSend ::
    "('b, 'y) cosmos_scheme \<Rightarrow> addr \<Rightarrow> addr \<Rightarrow> coins \<Rightarrow> (('b, 'z) bankx_state_scheme, unit) op" where
  "normalSend C fromAddr toAddr amt =
     and_then (SendCoins C fromAddr toAddr amt)
       (\<lambda>_. emit [Event ''transfer'' [(''sender'', AStr (addr_String C fromAddr))]])"

text \<open>The refusal when a token of the coins is forbidden for the sender.\<close>

definition forbidden_err :: "('b, 'z) asset_state_scheme \<Rightarrow> coins \<Rightarrow> err" where
  "forbidden_err s amt =
     (if IsTokensExist s amt \<noteq> None then BankxErrInvalidTokenSymbol else BankxErrTokenForbiddenByOwner)"

definition handleMsgSend ::
    "('b, 'y) cosmos_scheme \<Rightarrow> (string \<Rightarrow> bool) \<Rightarrow> ctx \<Rightarrow> MsgSend \<Rightarrow> (('b, 'z) bankx_state_scheme, unit) op" where
  "handleMsgSend C sub ctx msg s =
     (if \<not> bank_SendEnabled C (bank s) then (Err (SdkErr ''ErrSendDisabled''), s)
      else if bank_Blacklisted C (ms_ToAddress msg) then (Err (SdkErr ''ErrUnauthorized''), s)
      else if IsSendForbidden s (ms_Amount msg) (ms_FromAddress msg) then (Err (forbidden_err s (ms_Amount msg)), s)
      else if \<not> HasCoins C ctx (ms_FromAddress msg) (ms_Amount msg) s then (Err (SdkErr ''ErrInsufficientCoins''), s)
      else and_then (DeductActivationFee C (ms_FromAddress msg) (ms_ToAddress msg) (ms_Amount msg)) (\<lambda>amt.
           and_then (emit [Event ''message'' [(''module'', AStr ModuleName_bankx)]]) (\<lambda>_.
           if ms_UnlockTime msg \<noteq> 0
           then lockedSend C sub ctx (ms_FromAddress msg) (ms_ToAddress msg) amt (ms_UnlockTime msg)
           else normalSend C (ms_FromAddress msg) (ms_ToAddress msg) amt)) s)"

definition handleMsgMultiSend ::
    "('b, 'y) cosmos_scheme \<Rightarrow> ctx \<Rightarrow> MsgMultiSend \<Rightarrow> (('b, 'z) bankx_state_scheme, unit) op" where
  "handleMsgMultiSend C ctx msg s =
     (if \<not> bank_SendEnabled C (bank s) then (Err (SdkErr ''ErrSendDisabled''), s)
      else if list_ex (\<lambda>out. bank_Blacklisted C (fst out)) (mm_Outputs msg) then (Err (SdkErr ''ErrUnauthorized''), s)
      else (case find (\<lambda>i. IsSendForbidden s (snd i) (fst i)) (mm_Inputs msg) of
          Some i \<Rightarrow> (Err (forbidden_err s (snd i)), s)
        | None \<Rightarrow>
            let addrs = PreCheckFreshAccounts C s (mm_Outputs msg)
            in and_then (InputOutputCoins C (mm_Inputs msg) (mm_Outputs msg)) (\<lambda>_.
               and_then (DeductActivationFeeForFreshAccounts C addrs) (\<lambda>_.
               emit [Event ''message'' [(''module'', AStr ModuleName_bankx)]])) s))"

definition handleMsgSetMemoRequired ::
    "('b, 'y) cosmos_scheme \<Rightarrow> MsgSetMemoRequired \<Rightarrow> (('b, 'z) bankx_state_scheme, unit) op" where
  "handleMsgSetMemoRequired C msg =
     (if bank_Blacklisted C (mr_Address msg) then fail (SdkErr ''ErrUnauthorized'')
      else and_then (SetMemoRequired C (mr_Address msg) (mr_Required msg)) (\<lambda>_.
           emit [Event ''message'' [(''module'', AStr ModuleName_bankx), (''sender'', AStr (addr_String C (mr_Address msg)))],
                 Event ''transfer'' [(''memo-required'', AStr (if mr_Required msg then ''true'' else ''false''))]]))"

definition supervised_checks ::
    "('b, 'y) cosmos_scheme \<Rightarrow> ctx \<Rightarrow> MsgSupervisedSend \<Rightarrow> ('b, 'z) bankx_state_scheme \<Rightarrow> unit ret" where
  "supervised_checks C ctx msg s =
     (if \<not> bank_SendEnabled C (bank s) then Err (SdkErr ''ErrSendDisabled'')
      else if \<not> acc_exists C (bank s) (mv_ToAddress msg) then Err (SdkErr ''ErrUnknownAddress'')
      else if bank_Blacklisted C (mv_ToAddress msg) then Err (SdkErr ''ErrUnauthorized'')
      else if mv_Supervisor msg \<noteq> [] \<and> \<not> acc_exists C (bank s) (mv_Supervisor msg) then Err (SdkErr ''ErrUnknownAddress'')
      else if mv_Supervisor msg \<noteq> [] \<and> bank_Blacklisted C (mv_Supervisor msg) then Err (SdkErr ''ErrUnauthorized'')
      else if mv_UnlockTime msg < Unix ctx then Err BankxErrUnlockTime
      else if IsTokensExist s [mv_Amount msg] \<noteq> None then Err BankxErrInvalidTokenSymbol
      else Ok ())"

definition handleMsgSupervisedSend ::
    "('b, 'y) cosmos_scheme \<Rightarrow> (string \<Rightarrow> bool) \<Rightarrow> ctx \<Rightarrow> MsgSupervisedSend \<Rightarrow> (('b, 'z) bankx_state_scheme, unit) op" where
  "handleMsgSupervisedSend C sub ctx msg s =
     and_then (lift (supervised_checks C ctx msg s)) (\<lambda>_.
     and_then
       (if mv_Operation msg = Create
        then and_then (lift (NewCoins C [mv_Amount msg])) (\<lambda>amt.
             and_then (guard (HasCoins C ctx (mv_FromAddress msg) amt s) (SdkErr ''ErrInsufficientCoins'')) (\<lambda>_.
             and_then (SendLockedCoins C ctx (mv_FromAddress msg) (mv_ToAddress msg) (mv_Supervisor msg) amt
                 (mv_UnlockTime msg) (mv_Reward msg) True) (\<lambda>_.
             and_then (lift (NewSupervisedSendMsg C (mv_FromAddress msg) (mv_ToAddress msg) (mv_Supervisor msg)
                 (mv_Amount msg) (mv_UnlockTime msg) (mv_Reward msg))) (\<lambda>info.
             fillMsgQueue sub ''send_lock_coins'' info))))
        else and_then (EarlierUnlockCoin C ctx (mv_FromAddress msg) (mv_ToAddress msg) (mv_Supervisor msg)
                 (mv_Amount msg) (mv_UnlockTime msg) (mv_Reward msg) (mv_Operation msg = Return)) (\<lambda>unlockInfo.
             fillMsgQueue sub ''notify_unlock'' unlockInfo)) (\<lambda>_.
     emit [Event ''message'' [(''module'', AStr ModuleName_bankx),
             (''sender'', AStr (addr_String C (if by_supervisor (mv_Operation msg) then mv_Supervisor msg
                else mv_FromAddress msg)))],
           Event ''transfer'' [(''recipient'', AStr (addr_String C (mv_ToAddress msg))),
             (''amount'', AStr (coin_String C (mv_Amount msg)))]])) s"

datatype bankx_msg = BankxSend MsgSend | BankxSetMemoRequired MsgSetMemoRequired
  | BankxMultiSend MsgMultiSend | BankxSupervisedSend MsgSupervisedSend | BankxUnknown

fun bankx_route ::
    "('b, 'y) cosmos_scheme \<Rightarrow> (string \<Rightarrow> bool) \<Rightarrow> ctx \<Rightarrow> bankx_msg \<Rightarrow> (('b, 'z) bankx_state_scheme, unit) op" where
  "bankx_route C sub ctx (BankxSend msg) = handleMsgSend C sub ctx msg"
| "bankx_route C sub ctx (BankxSetMemoRequired msg) = handleMsgSetMemoRequired C msg"
| "bankx_route C sub ctx (BankxMultiSend msg) = handleMsgMultiSend C ctx msg"
| "bankx_route C sub ctx (BankxSupervisedSend msg) = handleMsgSupervisedSend C sub ctx msg"
| "bankx_route C sub ctx BankxUnknown = fail (SdkErr ''ErrUnknownRequest'')"

definition bankx_Handler ::
    "('b, 'y) cosmos_scheme \<Rightarrow> (string \<Rightarrow> bool) \<Rightarrow> ctx \<Rightarrow> bankx_msg \<Rightarrow> (('b, 'z) bankx_state_scheme, unit) op" where
  "bankx_Handler C sub ctx msg = and_then new_event_manager (\<lambda>_. bankx_route C sub ctx msg)"

fun bankx_ValidateBasic :: "'y sdk_scheme \<Rightarrow> bankx_msg \<Rightarrow> unit ret" where
  "bankx_ValidateBasic S (BankxSend msg) = MsgSend_ValidateBasic S msg"
| "bankx_ValidateBasic S (BankxSetMemoRequired msg) = MsgSetMemoRequired_ValidateBasic msg"
| "bankx_ValidateBasic S (BankxMultiSend msg) = MsgMultiSend_ValidateBasic S msg"
| "bankx_ValidateBasic S (BankxSupervisedSend msg) = MsgSupervisedSend_ValidateBasic S msg"
| "bankx_ValidateBasic S BankxUnknown = Ok ()"

end
