(* ===== verification/BankxHandlerInv.thy ===== *)
theory BankxHandlerInv
  imports BankxHandler
begin

section \<open>Every bankx message conserves coins\<close>

text \<open>
  A message that passes \<open>ValidateBasic\<close> and is executed without error keeps the invariant of the
  accounts, the total of every denomination and everybody's frozen coins, whichever of the four
  kinds it is; and the signer of a message is the one who pays.
\<close>

text \<open>A ledger says of a denomination how many coins there are and what its token is.\<close>

type_synonym ledger = "string \<Rightarrow> int \<times> token option"

definition ledger_of :: "('b \<Rightarrow> string \<Rightarrow> int) \<Rightarrow> ('b, 'z) authx_state_scheme \<Rightarrow> ledger" where
  "ledger_of tot s d = (total_coins tot s d, token_body s d)"

definition book_inv ::
    "('b, 'y) cosmos_scheme \<Rightarrow> ('b \<Rightarrow> string \<Rightarrow> int) \<Rightarrow> ledger \<Rightarrow> (addr \<Rightarrow> string \<Rightarrow> int) \<Rightarrow>
      ('b, 'z) authx_state_scheme \<Rightarrow> bool" where
  "book_inv C tot T F s \<longleftrightarrow> authx_inv C s \<and> ledger_of tot s = T \<and> (\<forall>a d. frozen s a d = F a d)"

lemma book_inv_books: "book_inv C tot T F s \<Longrightarrow> books C tot (\<lambda>a d. 0) s s' \<Longrightarrow> book_inv C tot T F s'"
  by (auto simp: book_inv_def books_def ledger_of_def fun_eq_iff)

lemma book_inv_events [simp]: "book_inv C tot T F (s\<lparr>events := es\<rparr>) = book_inv C tot T F s"
  by (simp add: book_inv_def authx_inv_def accx_store_ok_def asset_inv_def lock_inv_def send_lock_def GetToken_def token_body_def
      locked_total_def accounts_exist_def ledger_of_def fun_eq_iff total_coins_def frozen_total_def frozen_def)

text \<open>\<open>bank_inv\<close> also says that nothing but the stores of these modules differs from a state \<open>s0\<close>.\<close>

definition same_beyond :: "('b, 'z) authx_state_scheme \<Rightarrow> ('b, 'z) authx_state_scheme \<Rightarrow> bool" where
  "same_beyond s0 s \<longleftrightarrow>
     s0\<lparr>bank := bank s, accx_store := accx_store s, asset_store := asset_store s, events := events s\<rparr> = s"

definition bank_inv ::
    "('b, 'y) cosmos_scheme \<Rightarrow> ('b \<Rightarrow> string \<Rightarrow> int) \<Rightarrow> ledger \<Rightarrow> (addr \<Rightarrow> string \<Rightarrow> int) \<Rightarrow>
      ('b, 'z) authx_state_scheme \<Rightarrow> ('b, 'z) authx_state_scheme \<Rightarrow> bool" where
  "bank_inv C tot T F s0 s \<longleftrightarrow> book_inv C tot T F s \<and> same_beyond s0 s"

lemma bank_inv_refl: "book_inv C tot T F s \<Longrightarrow> bank_inv C tot T F s s"
  by (simp add: bank_inv_def same_beyond_def)

lemma same_beyond_update:
  assumes "same_beyond s0 s"
  shows "same_beyond s0 (s\<lparr>bank := b, accx_store := ax, asset_store := as\<rparr>)"
    and "same_beyond s0 (s\<lparr>events := es\<rparr>)"
proof -
  have s: "s = s0\<lparr>bank := bank s, accx_store := accx_store s, asset_store := asset_store s, events := events s\<rparr>"
    using assms by (simp add: same_beyond_def)
  show "same_beyond s0 (s\<lparr>bank := b, accx_store := ax, asset_store := as\<rparr>)" "same_beyond s0 (s\<lparr>events := es\<rparr>)"
    by (subst s, simp add: same_beyond_def)+
qed

lemma bank_inv_books: "bank_inv C tot T F s0 s \<Longrightarrow> books C tot (\<lambda>a d. 0) s s' \<Longrightarrow> bank_inv C tot T F s0 s'"
  unfolding bank_inv_def using book_inv_books same_beyond_update(1) by (metis books_def)

lemma bank_inv_events [simp]: "bank_inv C tot T F s0 (s\<lparr>events := es\<rparr>) = bank_inv C tot T F s0 s"
proof -
  have "s = (s\<lparr>events := es\<rparr>)\<lparr>events := events s\<rparr>" by simp
  then have "same_beyond s0 (s\<lparr>events := es\<rparr>) = same_beyond s0 s" using same_beyond_update(2) by metis
  then show ?thesis by (simp add: bank_inv_def)
qed

lemma book_inv_keep_okI:
  "(\<And>s a s'. authx_inv C s \<Longrightarrow> m s = (Ok a, s') \<Longrightarrow> books C tot (\<lambda>a d. 0) s s') \<Longrightarrow> keep_ok (bank_inv C tot T F s0) m"
  by (rule keep_okI) (metis bank_inv_books book_inv_def bank_inv_def)

lemma keep_emit [keeps]: "(\<And>s es. I (s\<lparr>events := es\<rparr>) = I s) \<Longrightarrow> keep I (emit es)"
  by (simp add: emit_def keep_modify)

lemma keep_FillMsgs: "(\<And>s es. I (s\<lparr>events := es\<rparr>) = I s) \<Longrightarrow> keep I (FillMsgs key msg)"
  by (simp add: FillMsgs_def keep_emit)

lemmas keep_ok_simple [keeps_ok] =
  keep_return [THEN keep_imp_keep_ok] keep_lift [THEN keep_imp_keep_ok] keep_guard [THEN keep_imp_keep_ok]
  keep_gets [THEN keep_imp_keep_ok] keep_emit [THEN keep_imp_keep_ok] keep_FillMsgs [THEN keep_imp_keep_ok]

text \<open>For an operation that reads the state it starts in: what has to hold of its outcome.\<close>

definition after_ok :: "('s \<Rightarrow> bool) \<Rightarrow> 'a ret \<times> 's \<Rightarrow> bool" where
  "after_ok I x \<longleftrightarrow> (case x of (Ok a, s') \<Rightarrow> I s' | _ \<Rightarrow> True)"

lemma keep_ok_stateI: "(\<And>s. I s \<Longrightarrow> after_ok I (m s)) \<Longrightarrow> keep_ok I m"
  by (simp add: keep_ok_def after_ok_def)

lemma after_ok_run: "keep_ok I m \<Longrightarrow> (\<And>a. keep_ok I (f a)) \<Longrightarrow> I s \<Longrightarrow> after_ok I (and_then m f s)"
  using keep_ok_and_then [of I m f] by (simp add: keep_ok_def after_ok_def)

lemma after_ok_if: "(b \<Longrightarrow> after_ok I x) \<Longrightarrow> (\<not> b \<Longrightarrow> after_ok I y) \<Longrightarrow> after_ok I (if b then x else y)"
  and after_ok_Err: "after_ok I (Err e, s)"
  and after_ok_Panic: "after_ok I (Panic, s)"
  and after_ok_Ok: "I s \<Longrightarrow> after_ok I (Ok a, s)"
  and after_ok_option: "(q = None \<Longrightarrow> after_ok I y) \<Longrightarrow> (\<And>c. q = Some c \<Longrightarrow> after_ok I (f c)) \<Longrightarrow>
    after_ok I (case q of None \<Rightarrow> y | Some c \<Rightarrow> f c)"
  by (auto simp: after_ok_def split: option.split)

lemmas after_oks = after_ok_if after_ok_Err after_ok_Panic after_ok_Ok after_ok_option

lemma keep_ok_prod [keeps_ok]: "(\<And>a b. x = (a, b) \<Longrightarrow> keep_ok I (f a b)) \<Longrightarrow> keep_ok I (case x of (a, b) \<Rightarrow> f a b)"
  by (cases x) simp

lemma keep_SendCoins: "cosmos_ok C tot \<Longrightarrow> keep_ok (bank_inv C tot T F s0) (SendCoins C a b amt)"
  by (rule book_inv_keep_okI, rule SendCoins_books) auto

lemma keep_DeductFee: "cosmos_ok C tot \<Longrightarrow> keep_ok (bank_inv C tot T F s0) (DeductFee C a amt)"
  by (rule book_inv_keep_okI, rule DeductFee_books) auto

lemma keep_InputOutputCoins: "cosmos_ok C tot \<Longrightarrow> keep_ok (bank_inv C tot T F s0) (InputOutputCoins C i outs)"
  by (rule book_inv_keep_okI, rule InputOutputCoins_books) auto

lemma keep_SendLockedCoins:
  "cosmos_ok C tot \<Longrightarrow> time_fits t \<Longrightarrow> keep_ok (bank_inv C tot T F s0) (SendLockedCoins C ctx a b v amt t r sup')"
  by (rule book_inv_keep_okI, rule SendLockedCoins_Ok(1)) auto

lemma keep_EarlierUnlockCoin:
  "cosmos_ok C tot \<Longrightarrow> 0 \<le> r \<Longrightarrow> keep_ok (bank_inv C tot T F s0) (EarlierUnlockCoin C ctx a b v amt t r ret)"
  by (rule book_inv_keep_okI, rule EarlierUnlockCoin_Ok(1)) auto

lemma keep_DeductActivationFee:
  "cosmos_ok C tot \<Longrightarrow> keep_ok (bank_inv C tot T F s0) (DeductActivationFee C a b amt)"
  unfolding DeductActivationFee_def Let_def
  by (rule keep_ok_stateI) (intro after_oks after_ok_run keeps_ok keep_DeductFee, assumption+)

lemma keep_DeductActivationFeeForFreshAccounts:
  "cosmos_ok C tot \<Longrightarrow> keep_ok (bank_inv C tot T F s0) (DeductActivationFeeForFreshAccounts C addrs)"
  unfolding DeductActivationFeeForFreshAccounts_def
  by (rule keep_ok_stateI) (intro after_ok_run keeps_ok keep_DeductFee, assumption+)

text \<open>Writing an account that only differs in its flag, its referee or the time of its change.\<close>

lemma put_same_coins_books:
  assumes inv: "authx_inv C s" and ex: "acc_exists C (bank s) a"
    and x: "ax_Address x = a" "ax_LockedCoins x = ax_LockedCoins (account_or_new s a)"
      "ax_FrozenCoins x = ax_FrozenCoins (account_or_new s a)"
  shows "books C tot (\<lambda>c d. 0) s (put_account x s)"
proof -
  have accx: "accx_inv C s" using inv by (simp add: authx_inv_def)
  note facts = account_or_new_facts [OF accx, of a]
  have x': "accx_wf x" "ax_LockedCoins x = locked s a" "coin_sum (ax_FrozenCoins x) d = frozen s a d" for d
    using facts x by (simp_all add: accx_wf_def)
  have "authx_inv C (put_account x s)"
    using authx_inv_put [OF inv x'(1)] x x' facts(3) ex by simp
  moreover have "total_coins tot (put_account x s) d = total_coins tot s d" for d
    using put_account_totals [OF accx, of x d] x(1) x' by (simp add: total_coins_def)
  moreover have "frozen (put_account x s) c d = frozen s c d" for c d using x(1) x'(3) by (simp add: frozen_def)
  moreover have "\<exists>b ax as. put_account x s = s\<lparr>bank := b, accx_store := ax, asset_store := as\<rparr>"
    by (intro exI [of _ "bank s"] exI [of _ "kv_set (AddressStoreKey (ax_Address x)) (VAccX x) (accx_store s)"]
        exI [of _ "asset_store s"]) simp
  ultimately show ?thesis by (simp add: books_def)
qed

lemma SetMemoRequired_books:
  assumes inv: "authx_inv C s" and run: "SetMemoRequired C a required s = (Ok u, s')"
  shows "books C tot (\<lambda>c d. 0) s s'"
proof -
  have accx: "accx_inv C s" and ex: "acc_exists C (bank s) a"
    using inv run by (auto simp: authx_inv_def SetMemoRequired_def split: if_splits)
  have "s' = put_account ((account_or_new s a)\<lparr>ax_MemoRequired := required\<rparr>) s"
    using run ex update_account_run [OF accx, of "\<lambda>x. x\<lparr>ax_MemoRequired := required\<rparr>" a]
    by (simp add: SetMemoRequired_def)
  moreover have "books C tot (\<lambda>c d. 0) s (put_account ((account_or_new s a)\<lparr>ax_MemoRequired := required\<rparr>) s)"
    by (rule put_same_coins_books [OF inv ex]) (simp_all add: account_or_new_facts(1) [OF accx])
  ultimately show ?thesis by simp
qed

lemma GetOrCreateAccountX_books:
  assumes inv: "authx_inv C s" and ex: "acc_exists C (bank s) a" and run: "GetOrCreateAccountX a s = (r, s')"
  shows "books C tot (\<lambda>c d. 0) s s'" and "r = Ok (account_or_new s a)" and "account_or_new s' b = account_or_new s b"
proof -
  have accx: "accx_inv C s" using inv by (simp add: authx_inv_def)
  have "r = Ok (account_or_new s a) \<and>
      (s' = s \<or> GetAccountX s a = None \<and> s' = put_account (NewAccountXWithAddress a) s)"
    by (rule GetOrCreateAccountX_run [of a s]) (use run in auto)
  then show "r = Ok (account_or_new s a)" "books C tot (\<lambda>c d. 0) s s'" "account_or_new s' b = account_or_new s b"
    using books_refl [OF inv] put_same_coins_books [OF inv ex, of "NewAccountXWithAddress a"] new_account_wf(3)
    by (auto simp: account_or_new_def GetAccountX_def)
qed

text \<open>\<open>MsgSetReferee\<close> writes accounts, but moves no coin.\<close>

lemma handleMsgSetReferee_books:
  assumes inv: "authx_inv C s" and run: "handleMsgSetReferee C ctx msg s = (Ok u, s')"
  shows "\<exists>s1 es. books C tot (\<lambda>c d. 0) s s1 \<and> s' = s1\<lparr>events := es\<rparr>"
proof -
  let ?a = "sr_Sender msg" and ?r = "sr_Referee msg"
  have ex: "acc_exists C (bank s) ?a" "acc_exists C (bank s) ?r"
    using run by (auto simp: handleMsgSetReferee_def and_then_Ok preCheckAddr_def split: if_splits)
  obtain x s1 where s1: "GetOrCreateAccountX ?r s = (Ok x, s1)" and rest: "and_then (GetOrCreateAccountX ?a) (\<lambda>senderAccx.
      and_then (gets (\<lambda>s. RefereeChangeMinInterval (authx_params s))) (\<lambda>interval.
      and_then (lift (preCheckTime (UnixNano ctx) (ax_RefereeChangeTime senderAccx) interval)) (\<lambda>_.
      and_then (SetAccountX (UpdateRefereeAddr ?r (UnixNano ctx) senderAccx)) (\<lambda>_.
      emit [Event ''message'' [(''module'', AStr ModuleName_authx), (''sender'', AStr (addr_String C ?a))],
           Event ''set_referee'' [(''referee_addr'', AStr (addr_String C ?r))]])))) s1 = (Ok u, s')"
    using run ex by (auto simp: handleMsgSetReferee_def and_then_Ok preCheckAddr_def return_def fail_def split: if_splits)
  note b1 = GetOrCreateAccountX_books [OF inv ex(2) s1]
  have inv1: "authx_inv C s1" by (rule booksD(1) [OF b1(1)])
  have ex1: "acc_exists C (bank s1) ?a"
    using s1 ex(1) by (auto simp: GetOrCreateAccountX_def and_then_def SetAccountX_run return_def split: option.splits)
  obtain y s2 where s2: "GetOrCreateAccountX ?a s1 = (Ok y, s2)"
    and s': "s' = (put_account (UpdateRefereeAddr ?r (UnixNano ctx) y) s2)\<lparr>events := events s2 @
      [Event ''message'' [(''module'', AStr ModuleName_authx), (''sender'', AStr (addr_String C ?a))],
       Event ''set_referee'' [(''referee_addr'', AStr (addr_String C ?r))]]\<rparr>"
    using rest by (auto simp: and_then_Ok gets_def lift_def SetAccountX_run emit_def modify_def)
  note b2 = GetOrCreateAccountX_books [OF inv1 ex1 s2]
  have inv2: "authx_inv C s2" by (rule booksD(1) [OF b2(1)])
  have ex2: "acc_exists C (bank s2) ?a"
    using s2 ex1 by (auto simp: GetOrCreateAccountX_def and_then_def SetAccountX_run return_def split: option.splits)
  have y: "y = account_or_new s2 ?a" using b2(2,3) by simp
  have "ax_Address y = ?a" unfolding y using account_or_new_facts(1) inv2 by (metis authx_inv_def)
  then have "books C tot (\<lambda>c d. 0) s2 (put_account (UpdateRefereeAddr ?r (UnixNano ctx) y) s2)"
    by (intro put_same_coins_books [OF inv2 ex2]) (simp_all add: y UpdateRefereeAddr_def)
  from books_trans [OF b1(1) books_trans [OF b2(1) this]] show ?thesis using s' by auto
qed

lemma keep_SetMemoRequired: "keep_ok (bank_inv C tot T F s0) (SetMemoRequired C a r)"
  by (rule book_inv_keep_okI, rule SetMemoRequired_books) auto

lemma MaxUnlockTime_fits: "0 \<le> t \<Longrightarrow> t \<le> MaxUnlockTime \<Longrightarrow> time_fits t"
  by (simp add: MaxUnlockTime_def go_quo_def time_fits_def)

subsection \<open>The handlers\<close>

lemma keep_ok_const: "keep_ok I (\<lambda>s. (r, s))"
  by (cases r) (simp_all add: keep_ok_def)

lemmas book_keeps = keeps_ok keep_ok_const bank_inv_events keep_SendCoins keep_DeductFee keep_InputOutputCoins
  keep_SendLockedCoins keep_EarlierUnlockCoin keep_DeductActivationFee keep_DeductActivationFeeForFreshAccounts
  keep_SetMemoRequired

lemma keep_handleMsgSend:
  assumes C: "cosmos_ok C tot" and "MsgSend_ValidateBasic C msg = Ok ()"
  shows "keep_ok (bank_inv C tot T F s0) (handleMsgSend C sub ctx msg)"
proof -
  have t: "time_fits (ms_UnlockTime msg)"
    using assms(2) by (intro MaxUnlockTime_fits) (auto simp: MsgSend_ValidateBasic_def not_less split: if_splits)
  show ?thesis
    unfolding handleMsgSend_def
    unfolding lockedSend_def normalSend_def fillMsgQueue_def
    by (rule keep_ok_stateI) (intro after_oks after_ok_run book_keeps C t, assumption+)
qed

lemma keep_handleMsgMultiSend:
  assumes C: "cosmos_ok C tot"
  shows "keep_ok (bank_inv C tot T F s0) (handleMsgMultiSend C ctx msg)"
  unfolding handleMsgMultiSend_def
  unfolding Let_def
  by (rule keep_ok_stateI) (intro after_oks after_ok_run book_keeps C, assumption+)

lemma keep_handleMsgSetMemoRequired:
  assumes C: "cosmos_ok C tot"
  shows "keep_ok (bank_inv C tot T F s0) (handleMsgSetMemoRequired C msg)"
  unfolding handleMsgSetMemoRequired_def by (auto intro!: book_keeps C)

lemma keep_handleMsgSupervisedSend:
  assumes C: "cosmos_ok C tot" and "MsgSupervisedSend_ValidateBasic C msg = Ok ()"
  shows "keep_ok (bank_inv C tot T F s0) (handleMsgSupervisedSend C sub ctx msg)"
proof -
  have t: "time_fits (mv_UnlockTime msg)" "0 \<le> mv_Reward msg"
    using assms(2) by (auto intro!: MaxUnlockTime_fits simp: MsgSupervisedSend_ValidateBasic_def not_less not_le split: if_splits)
  show ?thesis
    unfolding handleMsgSupervisedSend_def
    unfolding fillMsgQueue_def
    by (rule keep_ok_stateI) (intro after_ok_run book_keeps C t, assumption+)
qed

lemma bankx_Handler_keeps:
  assumes C: "cosmos_ok C tot" and "bankx_ValidateBasic C msg = Ok ()"
  shows "keep_ok (bank_inv C tot T F s0) (bankx_Handler C sub ctx msg)"
  unfolding bankx_Handler_def new_event_manager_def
proof (rule keep_ok_and_then)
  show "keep_ok (bank_inv C tot T F s0) (modify (\<lambda>s. s\<lparr>events := []\<rparr>))"
    by (rule keep_imp_keep_ok, rule keep_modify) simp
  show "keep_ok (bank_inv C tot T F s0) (bankx_route C sub ctx msg)"
    using assms by (cases msg)
      (auto intro: keep_handleMsgSend keep_handleMsgMultiSend keep_handleMsgSetMemoRequired
        keep_handleMsgSupervisedSend keep_ok_fail)
qed

lemma bankx_Handler_Ok:
  assumes "cosmos_ok C tot" and "bankx_ValidateBasic C msg = Ok ()" and "book_inv C tot T F s"
    and "bankx_Handler C sub ctx msg s = (Ok u, s')"
  shows "book_inv C tot T F s'" and "same_beyond s s'"
  using keep_okD [OF bankx_Handler_keeps [OF assms(1,2)] bank_inv_refl [OF assms(3)] assms(4)] by (simp_all add: bank_inv_def)

end
