(* ===== verification/AssetInv.thy ===== *)
theory AssetInv
  imports AssetHandler BankxHandlerInv
begin

section \<open>The asset module keeps the books\<close>

text \<open>
  Every successful asset message changes at most one token, whose owner sent it, and mints or burns
  exactly the coins by which the token's recorded supply changes. \<open>supply_gap\<close> is how much the recorded
  supply of a token and the coins in existence differ; no message of the module changes it.
\<close>

subsection \<open>The supply keeper\<close>

definition supply_ok :: "('b, 'z) cosmos_scheme \<Rightarrow> ('b \<Rightarrow> string \<Rightarrow> int) \<Rightarrow> bool" where
  "supply_ok C tot \<longleftrightarrow>
     (\<forall>m amt. moves tot (\<lambda>d. coins_AmountOf C amt d) (supply_MintCoins C m amt)) \<and>
     (\<forall>m amt. moves tot (\<lambda>d. - coins_AmountOf C amt d) (supply_BurnCoins C m amt)) \<and>
     (\<forall>m amt. grows C (supply_MintCoins C m amt)) \<and> (\<forall>m amt. grows C (supply_BurnCoins C m amt))"

definition token_supply :: "('b, 'z) asset_state_scheme \<Rightarrow> string \<Rightarrow> int" where
  "token_supply s d = (case GetToken s d of None \<Rightarrow> 0 | Some t \<Rightarrow> TotalSupply t)"

definition supply_gap :: "('b \<Rightarrow> string \<Rightarrow> int) \<Rightarrow> ('b, 'z) authx_state_scheme \<Rightarrow> string \<Rightarrow> int" where
  "supply_gap tot s d = token_supply s d - total_coins tot s d"

text \<open>
  What a call did to the bank: the totals changed by \<open>delta\<close>, no account vanished, and nothing but the bank
  and the events changed.
\<close>

definition bank_change ::
    "('b, 'y) cosmos_scheme \<Rightarrow> ('b \<Rightarrow> string \<Rightarrow> int) \<Rightarrow> (string \<Rightarrow> int) \<Rightarrow> ('b, 'z) base_state_scheme \<Rightarrow> ('b, 'z) base_state_scheme \<Rightarrow> bool" where
  "bank_change C tot delta s s' \<longleftrightarrow> (\<forall>d. tot (bank s') d = tot (bank s) d + delta d) \<and>
     (\<forall>a. acc_exists C (bank s) a \<longrightarrow> acc_exists C (bank s') a) \<and> s' = s\<lparr>bank := bank s', events := events s'\<rparr>"

lemma bank_change_on_bank:
  assumes "moves tot delta m" and "grows C m" and "on_bank m s = (Ok u, s')"
  shows "bank_change C tot delta s s'"
proof -
  obtain b' where b': "m (bank s) = (Ok (), b')" "s' = s\<lparr>bank := b'\<rparr>"
    using assms(3) by (cases "m (bank s)") (auto simp: on_bank_def)
  have "tot b' d = tot (bank s) d + delta d" for d using assms(1) b'(1) unfolding moves_def by blast
  moreover have "acc_exists C b' a" if "acc_exists C (bank s) a" for a
    using assms(2) b'(1) that unfolding grows_def by blast
  ultimately show ?thesis by (simp add: bank_change_def b'(2))
qed

lemma bank_change_trans:
  assumes "bank_change C tot f s s1" and "bank_change C tot g s1 s2"
  shows "bank_change C tot (\<lambda>d. f d + g d) s s2"
proof -
  have s1: "s1 = s\<lparr>bank := bank s1, events := events s1\<rparr>" and s2: "s2 = s1\<lparr>bank := bank s2, events := events s2\<rparr>"
    using assms by (simp_all add: bank_change_def)
  have "s2 = s\<lparr>bank := bank s2, events := events s2\<rparr>" by (subst s2, subst s1) simp
  then show ?thesis using assms by (simp add: bank_change_def)
qed

lemma bank_change_emit: "emit es s = (Ok u, s') \<Longrightarrow> bank_change C tot (\<lambda>d. 0) s s'"
  by (auto simp: emit_def modify_def bank_change_def)

lemma bank_change_supply:
  assumes "cosmos_ok C tot" and "supply_ok C tot"
  shows "on_bank (supply_MintCoins C m cs) s = (Ok u, s') \<Longrightarrow> bank_change C tot (coins_AmountOf C cs) s s'"
    and "on_bank (supply_BurnCoins C m cs) s = (Ok u, s') \<Longrightarrow> bank_change C tot (\<lambda>d. - coins_AmountOf C cs d) s s'"
    and "SendCoinsFromAssetModuleToAccount C a cs s = (Ok u, s') \<Longrightarrow> bank_change C tot (\<lambda>d. 0) s s'"
    and "SendCoinsFromAccountToAssetModule C a cs s = (Ok u, s') \<Longrightarrow> bank_change C tot (\<lambda>d. 0) s s'"
    and "DeductFee C a cs s = (Ok u, s') \<Longrightarrow> bank_change C tot (\<lambda>d. 0) s s'"
proof -
  note b = cosmos_okD(6) [OF assms(1), unfolded bank_ok_def] and g = balance_okD(9,10) [OF cosmos_okD(7) [OF assms(1)]]
    and sup' = assms(2) [unfolded supply_ok_def]
  show "on_bank (supply_MintCoins C m cs) s = (Ok u, s') \<Longrightarrow> bank_change C tot (coins_AmountOf C cs) s s'"
    using sup' by (intro bank_change_on_bank) auto
  show "on_bank (supply_BurnCoins C m cs) s = (Ok u, s') \<Longrightarrow> bank_change C tot (\<lambda>d. - coins_AmountOf C cs d) s s'"
    using sup' by (intro bank_change_on_bank) auto
  show "SendCoinsFromAssetModuleToAccount C a cs s = (Ok u, s') \<Longrightarrow> bank_change C tot (\<lambda>d. 0) s s'"
    unfolding SendCoinsFromAssetModuleToAccount_def using b g by (intro bank_change_on_bank) auto
  show "SendCoinsFromAccountToAssetModule C a cs s = (Ok u, s') \<Longrightarrow> bank_change C tot (\<lambda>d. 0) s s'"
    unfolding SendCoinsFromAccountToAssetModule_def using b g by (intro bank_change_on_bank) auto
  show "DeductFee C a cs s = (Ok u, s') \<Longrightarrow> bank_change C tot (\<lambda>d. 0) s s'"
    unfolding DeductFee_def using b g by (intro bank_change_on_bank) auto
qed

lemma NewTokenCoins_dex: "NewTokenCoins S d x = dex_NewCoins S d x"
  by (simp add: NewTokenCoins_def dex_NewCoins_def)

lemma token_coins:
  assumes "cosmos_ok C tot" and "NewTokenCoins C symbol x = Ok cs"
  shows "coins_AmountOf C cs = (\<lambda>d. if d = symbol then x else 0)"
  using dex_NewCoins_Ok [OF cosmos_okD(5) [OF assms(1)] assms(2) [unfolded NewTokenCoins_dex]] by auto

subsection \<open>Steps of the module\<close>

definition asset_frame :: "('b, 'y) cosmos_scheme \<Rightarrow> ('b, 'z) asset_state_scheme \<Rightarrow> ('b, 'z) asset_state_scheme \<Rightarrow> bool" where
  "asset_frame C s s' \<longleftrightarrow> s' = s\<lparr>bank := bank s', asset_store := asset_store s', events := events s'\<rparr> \<and>
     (\<forall>a. acc_exists C (bank s) a \<longrightarrow> acc_exists C (bank s') a)"

definition asset_step ::
    "('b, 'y) cosmos_scheme \<Rightarrow> ('b \<Rightarrow> string \<Rightarrow> int) \<Rightarrow> string \<Rightarrow> ('b, 'z) asset_state_scheme \<Rightarrow> ('b, 'z) asset_state_scheme \<Rightarrow> bool" where
  "asset_step C tot symbol s s' \<longleftrightarrow> asset_inv s' \<and> asset_frame C s s' \<and> (\<forall>d. send_lock s' d = send_lock s d) \<and>
     (\<forall>d. d \<noteq> symbol \<longrightarrow> GetToken s' d = GetToken s d) \<and>
     (\<forall>d. token_supply s' d - tot (bank s') d = token_supply s d - tot (bank s) d)"

text \<open>Stores with the same tokens, that differ in the address lists only.\<close>

definition tokens_same :: "asset_val kv \<Rightarrow> asset_val kv \<Rightarrow> bool" where
  "tokens_same st st' \<longleftrightarrow> kv_ok st' \<and> (\<forall>k t. kv_get st' k = Some (VToken t) \<longleftrightarrow> kv_get st k = Some (VToken t))"

lemma tokens_same_refl: "asset_inv s \<Longrightarrow> tokens_same (asset_store s) (asset_store s)"
  by (simp add: tokens_same_def asset_inv_def)

lemma GetToken_Some: "GetToken s d = Some t \<longleftrightarrow> kv_get (asset_store s) (GetTokenStoreKey d) = Some (VToken t)"
  by (auto simp: GetToken_def split: option.splits asset_val.splits)

lemma tokens_same_GetToken:
  assumes "tokens_same (asset_store s) st"
  shows "GetToken (s\<lparr>asset_store := st\<rparr>) d = GetToken s d"
proof -
  have "GetToken (s\<lparr>asset_store := st\<rparr>) d = Some t \<longleftrightarrow> GetToken s d = Some t" for t
    using assms by (auto simp: GetToken_Some tokens_same_def)
  then show ?thesis by (metis not_None_eq)
qed

lemma tokens_same_inv: "asset_inv s \<Longrightarrow> tokens_same (asset_store s) st \<Longrightarrow> asset_inv (s\<lparr>asset_store := st\<rparr>)"
  by (simp add: asset_inv_def tokens_same_def)

lemma asset_inv_cong: "asset_store s' = asset_store s \<Longrightarrow> asset_inv s' = asset_inv s"
  and GetToken_cong: "asset_store s' = asset_store s \<Longrightarrow> GetToken s' d = GetToken s d"
  by (simp_all add: asset_inv_def GetToken_def)

lemma asset_step_put:
  assumes inv: "asset_inv s" and st: "tokens_same (asset_store s) st" and valid: "token_Validate t = Ok ()" and sym: "Symbol t = symbol"
    and lock: "SendLock t = send_lock s symbol" and frame: "asset_frame C s s'"
    and put: "asset_store s' = kv_set (GetTokenStoreKey symbol) (VToken t) st"
    and tot: "\<And>d. tot (bank s') d = tot (bank s) d + (if d = symbol then TotalSupply t - token_supply s symbol else 0)"
  shows "asset_step C tot symbol s s'"
proof -
  let ?s = "s\<lparr>asset_store := st\<rparr>"
  have inv1: "asset_inv ?s" by (rule tokens_same_inv [OF inv st])
  obtain s2 where s2: "SetToken t ?s = (Ok (), s2)" by (simp add: SetToken_def modify_def)
  have lk: "SendLock t < 2 ^ 255" using send_lock_range [OF inv] lock by simp
  have "asset_inv s2" by (rule asset_inv_SetToken [OF inv1 valid lk s2])
  moreover have store: "asset_store s' = asset_store s2" using s2 put sym by (simp add: SetToken_Ok)
  ultimately have "asset_inv s'" using asset_inv_cong [of s' s2] by simp
  moreover have tok: "GetToken s' d = (if d = symbol then Some t else GetToken s d)" for d
    using GetToken_SetToken [OF s2] tokens_same_GetToken [OF st] GetToken_cong [OF store] sym by simp
  moreover have "send_lock s' d = send_lock s d" for d
    using tok lock by (auto simp: send_lock_def split: option.splits)
  moreover have "token_supply s' d - tot (bank s') d = token_supply s d - tot (bank s) d" for d
    using tok tot by (auto simp: token_supply_def)
  ultimately show ?thesis using frame by (simp add: asset_step_def)
qed

lemma asset_step_lists:
  assumes inv: "asset_inv s" and st: "tokens_same (asset_store s) (asset_store s')" and frame: "asset_frame C s s'"
    and tot: "\<And>d. tot (bank s') d = tot (bank s) d"
  shows "asset_step C tot symbol s s'"
proof -
  have "GetToken s' d = GetToken s d" for d
    using tokens_same_GetToken [OF st] GetToken_cong [of s' "s\<lparr>asset_store := asset_store s'\<rparr>" d] by simp
  moreover have "asset_inv s'"
    using tokens_same_inv [OF inv st] asset_inv_cong [of s' "s\<lparr>asset_store := asset_store s'\<rparr>"] by simp
  ultimately show ?thesis using frame tot by (simp add: asset_step_def send_lock_def token_supply_def)
qed

text \<open>The frame of the calls a handler makes.\<close>

lemma asset_frame_refl: "asset_frame C s s"
  by (simp add: asset_frame_def)

lemma asset_frame_trans:
  assumes "asset_frame C s s1" and "asset_frame C s1 s2"
  shows "asset_frame C s s2"
proof -
  have s1: "s1 = s\<lparr>bank := bank s1, asset_store := asset_store s1, events := events s1\<rparr>"
    and s2: "s2 = s1\<lparr>bank := bank s2, asset_store := asset_store s2, events := events s2\<rparr>"
    using assms by (simp_all add: asset_frame_def)
  have "s2 = s\<lparr>bank := bank s2, asset_store := asset_store s2, events := events s2\<rparr>" by (subst s2, subst s1) simp
  then show ?thesis using assms by (simp add: asset_frame_def)
qed

lemma bank_change_frame:
  assumes "bank_change C tot delta s s'"
  shows "asset_frame C s s'" and "asset_store s' = asset_store s" and "tot (bank s') d = tot (bank s) d + delta d"
proof -
  have s': "s' = s\<lparr>bank := bank s', events := events s'\<rparr>" using assms by (simp add: bank_change_def)
  then have "asset_store s' = asset_store (s\<lparr>bank := bank s', events := events s'\<rparr>)" by (rule arg_cong)
  then show store: "asset_store s' = asset_store s" by simp
  have "s' = s\<lparr>bank := bank s', asset_store := asset_store s', events := events s'\<rparr>" by (subst s') (simp add: store)
  then show "asset_frame C s s'" "tot (bank s') d = tot (bank s) d + delta d" using assms by (simp_all add: asset_frame_def bank_change_def)
qed

lemma SetToken_frame: "SetToken t s = (Ok u, s') \<Longrightarrow> asset_frame C s s' \<and> bank s' = bank s"
  by (auto simp: SetToken_Ok asset_frame_def)

subsection \<open>The messages\<close>

lemma checkPrecondition_Ok: "checkPrecondition s symbol owner = Ok t \<longleftrightarrow> GetToken s symbol = Some t \<and> Owner t = owner"
  by (auto simp: checkPrecondition_def split: option.splits)

lemma NewToken_Ok:
  assumes "NewToken name symbol totalSupply owner mintable burnable addrForbiddable tokenForbiddable url description identity = Ok t"
  shows "token_Validate t = Ok ()" and "Symbol t = symbol" and "TotalSupply t = totalSupply" and "SendLock t = 0" and "Owner t = owner"
    and "\<not> IsForbidden t"
  using assms
  by (auto simp: NewToken_def Ok_simps SetName_def SetOwner_def SetSymbol_def ValidateTokenSymbol_def SetTotalSupply_def SetURL_def
      SetDescription_def SetIdentity_def SetTotalMint_def SetTotalBurn_def SetSendLock_def Let_def token_Validate_iff not_less
      split: if_splits)

lemma NewToken_fields:
  "NewToken name symbol totalSupply owner mintable burnable addrForbiddable tokenForbiddable url description identity = Ok t \<Longrightarrow>
   t = \<lparr>Name = name, Symbol = symbol, TotalSupply = totalSupply, SendLock = 0, Owner = owner, Mintable = mintable,
     Burnable = burnable, AddrForbiddable = addrForbiddable, TokenForbiddable = tokenForbiddable, TotalBurn = 0, TotalMint = 0,
     IsForbidden = False, URL = url, Description = description, Identity = identity\<rparr>"
  by (auto simp: NewToken_def Ok_simps SetName_def SetOwner_def SetSymbol_def ValidateTokenSymbol_def SetTotalSupply_def SetURL_def
      SetDescription_def SetIdentity_def SetTotalMint_def SetTotalBurn_def SetSendLock_def Let_def zero_token_def split: if_splits)

lemma asset_event_change: "asset_event C a typ attrs s = (Ok u, s') \<Longrightarrow> bank_change D tot (\<lambda>d. 0) s s'"
  unfolding asset_event_def by (rule bank_change_emit)

lemma deduct_fee_change:
  "cosmos_ok C tot \<Longrightarrow> supply_ok C tot \<Longrightarrow> DeductIssueFee C a x s = (Ok u, s') \<Longrightarrow> bank_change C tot (\<lambda>d. 0) s s'"
  by (auto simp: DeductIssueFee_def DeductInt64CetFee_def Ok_simps intro: bank_change_supply(5))

lemma issue_token_Ok:
  assumes C: "cosmos_ok C tot" "supply_ok C tot" and inv: "asset_inv s" and run: "handleMsgIssueToken C msg s = (Ok (), s')"
  shows "asset_step C tot (it_Symbol msg) s s'" and "GetToken s (it_Symbol msg) = None"
    and "\<exists>t. GetToken s' (it_Symbol msg) = Some t \<and> NewToken (it_Name msg) (it_Symbol msg) (it_TotalSupply msg) (it_Owner msg)
      (it_Mintable msg) (it_Burnable msg) (it_AddrForbiddable msg) (it_TokenForbiddable msg) (it_URL msg) (it_Description msg)
      (it_Identity msg) = Ok t"
    and "\<not> bank_Blacklisted C (it_Owner msg)"
    and "IsReservedSymbol (it_Symbol msg) \<and> it_Symbol msg \<noteq> CET \<or> IsSuffixSymbol (it_Symbol msg) \<Longrightarrow>
      \<exists>c. GetToken s CET = Some c \<and> Owner c = it_Owner msg"
proof -
  let ?sym = "it_Symbol msg"
  obtain s1 s2 cs s3 attrs where fee: "DeductIssueFee C (it_Owner msg) (GetIssueTokenFee (asset_params s) ?sym) s = (Ok (), s1)"
    and issue: "IssueToken C (it_Name msg) ?sym (it_TotalSupply msg) (it_Owner msg) (it_Mintable msg) (it_Burnable msg)
      (it_AddrForbiddable msg) (it_TokenForbiddable msg) (it_URL msg) (it_Description msg) (it_Identity msg) s1 = (Ok (), s2)"
    and send: "SendCoinsFromAssetModuleToAccount C (it_Owner msg) cs s2 = (Ok (), s3)"
    and ev: "asset_event C (it_Owner msg) ''issue_token'' attrs s3 = (Ok (), s')"
    using run by (simp add: handleMsgIssueToken_def Let_def Ok_simps) blast
  obtain t cs' s1a where new: "IsTokenExists s1 ?sym = False"
    and t: "NewToken (it_Name msg) ?sym (it_TotalSupply msg) (it_Owner msg) (it_Mintable msg) (it_Burnable msg)
      (it_AddrForbiddable msg) (it_TokenForbiddable msg) (it_URL msg) (it_Description msg) (it_Identity msg) = Ok t"
    and set: "SetToken t s1 = (Ok (), s1a)" and cs': "NewTokenCoins C ?sym (it_TotalSupply msg) = Ok cs'"
    and mint: "on_bank (supply_MintCoins C ModuleName_asset cs') s1a = (Ok (), s2)"
    using issue by (auto simp: IssueToken_def Let_def Ok_simps split: if_splits)
  note new_t = t
  note t = NewToken_Ok [OF t]
  note b1 = bank_change_frame [OF deduct_fee_change [OF C fee]]
    and b2 = bank_change_frame [OF bank_change_supply(1) [OF C mint]]
    and b3 = bank_change_frame [OF bank_change_supply(3) [OF C send]]
    and b4 = bank_change_frame [OF asset_event_change [OF ev, of C tot]]
  note f = SetToken_frame [OF set, of C]
  have store: "asset_store s' = kv_set (GetTokenStoreKey ?sym) (VToken t) (asset_store s)"
    using b1(2) b2(2) b3(2) b4(2) set t(2) by (simp add: SetToken_Ok)
  have tok: "GetToken s' ?sym = Some t" by (simp add: GetToken_def store)
  have none: "GetToken s ?sym = None" using new GetToken_cong [OF b1(2)] by (simp add: IsTokenExists_def)
  show "asset_step C tot ?sym s s'"
  proof (rule asset_step_put [OF inv tokens_same_refl [OF inv] t(1,2) _ _ store])
    show "SendLock t = send_lock s ?sym" using none t(4) by (simp add: send_lock_def)
    show "asset_frame C s s'" using b1(1) f b2(1) b3(1) b4(1) asset_frame_trans by blast
    show "tot (bank s') d = tot (bank s) d + (if d = ?sym then TotalSupply t - token_supply s ?sym else 0)" for d
      using b1(3) f b2(3) b3(3) b4(3) token_coins [OF C(1) cs'] none t(3) by (simp add: token_supply_def)
  qed
  show "GetToken s ?sym = None" by (rule none)
  show "\<exists>t. GetToken s' ?sym = Some t \<and> NewToken (it_Name msg) ?sym (it_TotalSupply msg) (it_Owner msg)
      (it_Mintable msg) (it_Burnable msg) (it_AddrForbiddable msg) (it_TokenForbiddable msg) (it_URL msg) (it_Description msg)
      (it_Identity msg) = Ok t" using tok new_t by blast
  show "\<not> bank_Blacklisted C (it_Owner msg)" using issue by (auto simp: IssueToken_def Let_def fail_Ok split: if_splits)
  assume "IsReservedSymbol ?sym \<and> ?sym \<noteq> CET \<or> IsSuffixSymbol ?sym"
  then have "\<exists>c. GetToken s1 CET = Some c \<and> Owner c = it_Owner msg"
    using issue by (auto simp: IssueToken_def Let_def fail_Ok split: if_splits option.splits)
  then show "\<exists>c. GetToken s CET = Some c \<and> Owner c = it_Owner msg" using GetToken_cong [OF b1(2)] by simp
qed

text \<open>A change of one stored token with the coins that go with it.\<close>

lemma change_token:
  assumes C: "cosmos_ok C tot" and inv: "asset_inv s" and old: "GetToken s symbol = Some t"
    and new: "token_Validate t' = Ok ()" "Symbol t' = Symbol t" "SendLock t' = SendLock t"
    and before: "bank_change C tot f s s1" and set: "SetToken t' s1 = (Ok (), s2)" and after: "bank_change C tot g s2 s'"
    and moved: "\<And>d. f d + g d = (if d = symbol then TotalSupply t' - TotalSupply t else 0)"
  shows "asset_step C tot symbol s s'" and "GetToken s' symbol = Some t'"
proof -
  have sym: "Symbol t' = symbol" using GetToken_valid [OF inv old] new(2) by simp
  note b1 = bank_change_frame [OF before] and b2 = bank_change_frame [OF after] and fr = SetToken_frame [OF set, of C]
  have store: "asset_store s' = kv_set (GetTokenStoreKey symbol) (VToken t') (asset_store s)"
    using b1(2) b2(2) set sym by (simp add: SetToken_Ok)
  show "GetToken s' symbol = Some t'" by (simp add: GetToken_def store)
  show "asset_step C tot symbol s s'"
  proof (rule asset_step_put [OF inv tokens_same_refl [OF inv] new(1) sym _ _ store])
    show "SendLock t' = send_lock s symbol" using old new(3) by (simp add: send_lock_def)
    show "asset_frame C s s'" using b1(1) fr b2(1) asset_frame_trans by blast
    show "tot (bank s') d = tot (bank s) d + (if d = symbol then TotalSupply t' - token_supply s symbol else 0)" for d
      using b1(3) [of d] fr b2(3) [of d] moved [of d] old by (simp add: token_supply_def split: if_splits)
  qed
qed

lemma no_bank_change: "bank_change C tot (\<lambda>d. 0) s s"
  by (simp add: bank_change_def)

lemma mint_token_Ok:
  assumes C: "cosmos_ok C tot" "supply_ok C tot" and inv: "asset_inv s" and run: "handleMsgMintToken C msg s = (Ok (), s')"
  shows "asset_step C tot (mt_Symbol msg) s s'"
    and "\<exists>t t'. GetToken s (mt_Symbol msg) = Some t \<and> Owner t = mt_OwnerAddress msg \<and> Mintable t \<and>
      GetToken s' (mt_Symbol msg) = Some t' \<and> TotalSupply t' = TotalSupply t + mt_Amount msg"
proof -
  let ?sym = "mt_Symbol msg" and ?x = "mt_Amount msg"
  obtain s2 cs' s3 attrs where op: "MintToken C ?sym (mt_OwnerAddress msg) ?x s = (Ok (), s2)"
    and send: "SendCoinsFromAssetModuleToAccount C (mt_OwnerAddress msg) cs' s2 = (Ok (), s3)"
    and ev: "asset_event C (mt_OwnerAddress msg) ''mint_token'' attrs s3 = (Ok (), s')"
    using run by (simp add: handleMsgMintToken_def Ok_simps) blast
  obtain t m t1 n t2 s1 cs where pre: "checkPrecondition s ?sym (mt_OwnerAddress msg) = Ok t" and "Mintable t"
    and m: "int_Add C (TotalMint t) ?x = Ok m" "SetTotalMint m t = Ok t1"
    and n: "int_Add C (TotalSupply t1) ?x = Ok n" "SetTotalSupply n t1 = Ok t2"
    and set: "SetToken t2 s = (Ok (), s1)" and cs: "NewTokenCoins C ?sym ?x = Ok cs"
    and mint: "on_bank (supply_MintCoins C ModuleName_asset cs) s1 = (Ok (), s2)"
    using op by (simp add: MintToken_def Ok_simps split: if_splits) blast
  have t: "GetToken s ?sym = Some t" "Owner t = mt_OwnerAddress msg" using pre by (simp_all add: checkPrecondition_Ok)
  have t2: "t2 = t\<lparr>TotalMint := m, TotalSupply := n\<rparr>" "0 \<le> m" "0 < n" "n = TotalSupply t + ?x"
    using m n int_okD(1) [OF cosmos_okD(3) [OF C(1)]]
    by (auto simp: SetTotalMint_def SetTotalSupply_def split: if_splits)
  note after = bank_change_trans [OF bank_change_trans [OF bank_change_supply(1) [OF C mint] bank_change_supply(3) [OF C send]]
      asset_event_change [OF ev]]
  have valid: "token_Validate t2 = Ok ()"
    using GetToken_valid [OF inv t(1)] t2 \<open>Mintable t\<close> by (auto simp: token_Validate_iff)
  note step = change_token [OF C(1) inv t(1) valid _ _ no_bank_change set after]
  show "asset_step C tot ?sym s s'" by (rule step(1)) (simp_all add: t2(1,4) token_coins [OF C(1) cs])
  have "GetToken s' ?sym = Some t2" by (rule step(2)) (simp_all add: t2(1,4) token_coins [OF C(1) cs])
  then show "\<exists>t t'. GetToken s ?sym = Some t \<and> Owner t = mt_OwnerAddress msg \<and> Mintable t \<and>
      GetToken s' ?sym = Some t' \<and> TotalSupply t' = TotalSupply t + ?x"
    using t t2 \<open>Mintable t\<close> by simp
qed

lemma burn_token_Ok:
  assumes C: "cosmos_ok C tot" "supply_ok C tot" and inv: "asset_inv s" and run: "handleMsgBurnToken C msg s = (Ok (), s')"
  shows "asset_step C tot (bt_Symbol msg) s s'"
    and "\<exists>t t'. GetToken s (bt_Symbol msg) = Some t \<and> Owner t = bt_OwnerAddress msg \<and> Burnable t \<and>
      GetToken s' (bt_Symbol msg) = Some t' \<and> TotalSupply t' = TotalSupply t - bt_Amount msg"
proof -
  let ?sym = "bt_Symbol msg" and ?x = "bt_Amount msg"
  obtain cs' s0 s2 attrs where send: "SendCoinsFromAccountToAssetModule C (bt_OwnerAddress msg) cs' s = (Ok (), s0)"
    and op: "BurnToken C ?sym (bt_OwnerAddress msg) ?x s0 = (Ok (), s2)"
    and ev: "asset_event C (bt_OwnerAddress msg) ''burn_token'' attrs s2 = (Ok (), s')"
    using run by (simp add: handleMsgBurnToken_def Ok_simps) blast
  obtain t m t1 n t2 s1 cs where pre: "checkPrecondition s0 ?sym (bt_OwnerAddress msg) = Ok t" and "Burnable t"
    and m: "int_Add C (TotalBurn t) ?x = Ok m" "SetTotalBurn m t = Ok t1"
    and n: "int_Sub C (TotalSupply t1) ?x = Ok n" "SetTotalSupply n t1 = Ok t2"
    and set: "SetToken t2 s0 = (Ok (), s1)" and cs: "NewTokenCoins C ?sym ?x = Ok cs"
    and burn: "on_bank (supply_BurnCoins C ModuleName_asset cs) s1 = (Ok (), s2)"
    using op by (simp add: BurnToken_def Ok_simps split: if_splits) blast
  note before = bank_change_supply(4) [OF C send]
  have t: "GetToken s ?sym = Some t" "Owner t = bt_OwnerAddress msg"
    using pre GetToken_cong [OF bank_change_frame(2) [OF before]] by (simp_all add: checkPrecondition_Ok)
  have t2: "t2 = t\<lparr>TotalBurn := m, TotalSupply := n\<rparr>" "0 \<le> m" "0 < n" "n = TotalSupply t - ?x"
    using m n int_okD(1,2) [OF cosmos_okD(3) [OF C(1)]]
    by (auto simp: SetTotalBurn_def SetTotalSupply_def split: if_splits)
  note after = bank_change_trans [OF bank_change_supply(2) [OF C burn] asset_event_change [OF ev]]
  have valid: "token_Validate t2 = Ok ()"
    using GetToken_valid [OF inv t(1)] t2 \<open>Burnable t\<close> by (auto simp: token_Validate_iff)
  note step = change_token [OF C(1) inv t(1) valid _ _ before set after]
  show "asset_step C tot ?sym s s'" by (rule step(1)) (simp_all add: t2(1,4) token_coins [OF C(1) cs])
  have "GetToken s' ?sym = Some t2" by (rule step(2)) (simp_all add: t2(1,4) token_coins [OF C(1) cs])
  then show "\<exists>t t'. GetToken s ?sym = Some t \<and> Owner t = bt_OwnerAddress msg \<and> Burnable t \<and>
      GetToken s' ?sym = Some t' \<and> TotalSupply t' = TotalSupply t - ?x"
    using t t2 \<open>Burnable t\<close> by simp
qed

lemma transfer_ownership_Ok:
  assumes C: "cosmos_ok C tot" and inv: "asset_inv s" and run: "handleMsgTransferOwnership C msg s = (Ok (), s')"
  shows "asset_step C tot (to_Symbol msg) s s'"
    and "\<exists>t. GetToken s (to_Symbol msg) = Some t \<and> Owner t = to_OriginalOwner msg \<and>
      GetToken s' (to_Symbol msg) = Some (t\<lparr>Owner := to_NewOwner msg\<rparr>)"
proof -
  obtain t s1 attrs where t: "GetToken s (to_Symbol msg) = Some t" "Owner t = to_OriginalOwner msg" and "to_NewOwner msg \<noteq> []"
    and set: "SetToken (t\<lparr>Owner := to_NewOwner msg\<rparr>) s = (Ok (), s1)"
    and ev: "asset_event C (to_OriginalOwner msg) ''transfer_ownership'' attrs s1 = (Ok (), s')"
    using run by (simp add: handleMsgTransferOwnership_def TransferOwnership_def Ok_simps checkPrecondition_Ok SetOwner_def
        split: if_splits) blast
  have valid: "token_Validate (t\<lparr>Owner := to_NewOwner msg\<rparr>) = Ok ()"
    using GetToken_valid [OF inv t(1)] \<open>to_NewOwner msg \<noteq> []\<close> by (auto simp: token_Validate_iff)
  note step = change_token [OF C inv t(1) valid _ _ no_bank_change set asset_event_change [OF ev]]
  show "asset_step C tot (to_Symbol msg) s s'" by (rule step(1)) simp_all
  have "GetToken s' (to_Symbol msg) = Some (t\<lparr>Owner := to_NewOwner msg\<rparr>)" by (rule step(2)) simp_all
  with t show "\<exists>t. GetToken s (to_Symbol msg) = Some t \<and> Owner t = to_OriginalOwner msg \<and>
      GetToken s' (to_Symbol msg) = Some (t\<lparr>Owner := to_NewOwner msg\<rparr>)" by simp
qed

text \<open>Forbidding a token and lifting the ban, which differ in the flag they ask for and the flag they set.\<close>

lemma set_forbidden_Ok:
  assumes C: "cosmos_ok C tot" and inv: "asset_inv s" and t: "GetToken s symbol = Some t" "TokenForbiddable t"
    and set: "SetToken (t\<lparr>IsForbidden := b\<rparr>) s = (Ok (), s1)" and ev: "asset_event C a typ attrs s1 = (Ok (), s')"
  shows "asset_step C tot symbol s s' \<and> GetToken s' symbol = Some (t\<lparr>IsForbidden := b\<rparr>)"
proof -
  have valid: "token_Validate (t\<lparr>IsForbidden := b\<rparr>) = Ok ()"
    using GetToken_valid [OF inv t(1)] t(2) by (auto simp: token_Validate_iff)
  show ?thesis using change_token [OF C inv t(1) valid _ _ no_bank_change set asset_event_change [OF ev]] by simp
qed

lemma forbid_token_Ok:
  assumes C: "cosmos_ok C tot" and inv: "asset_inv s" and run: "handleMsgForbidToken C msg s = (Ok (), s')"
  shows "asset_step C tot (ft_Symbol msg) s s'"
    and "\<exists>t. GetToken s (ft_Symbol msg) = Some t \<and> Owner t = ft_OwnerAddress msg \<and> TokenForbiddable t \<and> \<not> IsForbidden t \<and>
      GetToken s' (ft_Symbol msg) = Some (t\<lparr>IsForbidden := True\<rparr>)"
  using run set_forbidden_Ok [OF C inv]
  by (auto simp: handleMsgForbidToken_def ForbidToken_def Ok_simps checkPrecondition_Ok split: if_splits) 

lemma unforbid_token_Ok:
  assumes C: "cosmos_ok C tot" and inv: "asset_inv s" and run: "handleMsgUnForbidToken C msg s = (Ok (), s')"
  shows "asset_step C tot (uf_Symbol msg) s s'"
    and "\<exists>t. GetToken s (uf_Symbol msg) = Some t \<and> Owner t = uf_OwnerAddress msg \<and> TokenForbiddable t \<and> IsForbidden t \<and>
      GetToken s' (uf_Symbol msg) = Some (t\<lparr>IsForbidden := False\<rparr>)"
  using run set_forbidden_Ok [OF C inv]
  by (auto simp: handleMsgUnForbidToken_def UnForbidToken_def Ok_simps checkPrecondition_Ok split: if_splits)

subsection \<open>The address lists\<close>

definition mark_all :: "(addr \<Rightarrow> string) \<Rightarrow> addr list \<Rightarrow> asset_val kv \<Rightarrow> asset_val kv" where
  "mark_all K xs st = fold (\<lambda>a st. if a \<noteq> [] then kv_set (K a) VMark st else st) xs st"

definition unmark_all :: "(addr \<Rightarrow> string) \<Rightarrow> addr list \<Rightarrow> asset_val kv \<Rightarrow> asset_val kv" where
  "unmark_all K xs st = fold (\<lambda>a st. if a \<noteq> [] then kv_delete (K a) st else st) xs st"

lemma foreach_mark:
  "foreach (\<lambda>a. whenever (a \<noteq> []) (asset_set (K a))) xs s = (Ok (), s\<lparr>asset_store := mark_all K xs (asset_store s)\<rparr>)"
  by (induction xs arbitrary: s) (simp_all add: mark_all_def op_simps asset_set_def)

lemma foreach_unmark:
  "foreach (\<lambda>a. whenever (a \<noteq> []) (asset_delete (K a))) xs s = (Ok (), s\<lparr>asset_store := unmark_all K xs (asset_store s)\<rparr>)"
  by (induction xs arbitrary: s) (simp_all add: unmark_all_def op_simps asset_delete_def)

lemma get_mark_all:
  "kv_get (mark_all K xs st) k = (if \<exists>a \<in> set xs. a \<noteq> [] \<and> k = K a then Some VMark else kv_get st k)"
  unfolding mark_all_def by (induction xs arbitrary: st) auto

lemma get_unmark_all:
  "kv_get (unmark_all K xs st) k = (if \<exists>a \<in> set xs. a \<noteq> [] \<and> k = K a then None else kv_get st k)"
  unfolding unmark_all_def by (induction xs arbitrary: st) auto

lemma tokens_same_marks:
  assumes inv: "asset_inv s" and K: "\<And>a x. K a \<noteq> GetTokenStoreKey x"
  shows "tokens_same (asset_store s) (mark_all K xs (asset_store s))"
    and "tokens_same (asset_store s) (unmark_all K xs (asset_store s))"
proof -
  have no: "kv_get (asset_store s) (K a) \<noteq> Some (VToken t)" for a t
    using inv K unfolding asset_inv_def by metis
  have "kv_ok st \<Longrightarrow> kv_ok (mark_all K xs st)" "kv_ok st \<Longrightarrow> kv_ok (unmark_all K xs st)" for st
    unfolding mark_all_def unmark_all_def by (induction xs arbitrary: st) simp_all
  then show "tokens_same (asset_store s) (mark_all K xs (asset_store s))"
    "tokens_same (asset_store s) (unmark_all K xs (asset_store s))"
    using inv no by (auto simp: tokens_same_def get_mark_all get_unmark_all asset_inv_def)
qed

lemma tokens_same_lists:
  assumes "asset_inv s"
  shows "tokens_same (asset_store s) (mark_all (GetWhitelistStoreKey symbol) xs (asset_store s))"
    and "tokens_same (asset_store s) (unmark_all (GetWhitelistStoreKey symbol) xs (asset_store s))"
    and "tokens_same (asset_store s) (mark_all (GetForbiddenAddrStoreKey symbol) xs (asset_store s))"
    and "tokens_same (asset_store s) (unmark_all (GetForbiddenAddrStoreKey symbol) xs (asset_store s))"
  using assms by (simp_all add: tokens_same_marks)

text \<open>The four list messages: who may send them, and the store they leave.\<close>

lemma list_step:
  assumes inv: "asset_inv s" and st: "tokens_same (asset_store s) st"
    and ev: "asset_event C a typ attrs (s\<lparr>asset_store := st\<rparr>) = (Ok (), s')"
  shows "asset_step C tot symbol s s' \<and> asset_store s' = st"
proof -
  note b = bank_change_frame [OF asset_event_change [OF ev, of C tot]]
  have store: "asset_store s' = st" using b(2) by simp
  have "asset_frame C s (s\<lparr>asset_store := st\<rparr>)" by (simp add: asset_frame_def)
  then have "asset_frame C s s'" using b(1) by (rule asset_frame_trans)
  moreover have "tot (bank s') d = tot (bank s) d" for d using b(3) by simp
  ultimately show ?thesis using asset_step_lists [OF inv, of s' C tot symbol] st store by simp
qed

lemma whitelist_Ok:
  assumes inv: "asset_inv s" and run: "handleMsgAddTokenWhitelist C msg s = (Ok (), s')"
  shows "asset_step C tot (aw_Symbol msg) s s' \<and>
    (\<exists>t. GetToken s (aw_Symbol msg) = Some t \<and> Owner t = aw_OwnerAddress msg \<and> TokenForbiddable t) \<and>
    asset_store s' = mark_all (GetWhitelistStoreKey (aw_Symbol msg)) (aw_Whitelist msg) (asset_store s)"
  using run
  by (auto simp: handleMsgAddTokenWhitelist_def AddTokenWhitelist_def addWhitelist_def foreach_mark Ok_simps checkPrecondition_Ok
      dest!: list_step [where tot = tot and symbol = "aw_Symbol msg", OF inv tokens_same_lists(1) [OF inv]] split: if_splits)

lemma unwhitelist_Ok:
  assumes inv: "asset_inv s" and run: "handleMsgRemoveTokenWhitelist C msg s = (Ok (), s')"
  shows "asset_step C tot (rw_Symbol msg) s s' \<and>
    (\<exists>t. GetToken s (rw_Symbol msg) = Some t \<and> Owner t = rw_OwnerAddress msg \<and> TokenForbiddable t) \<and>
    asset_store s' = unmark_all (GetWhitelistStoreKey (rw_Symbol msg)) (rw_Whitelist msg) (asset_store s)"
  using run
  by (auto simp: handleMsgRemoveTokenWhitelist_def RemoveTokenWhitelist_def removeWhitelist_def foreach_unmark Ok_simps
      checkPrecondition_Ok dest!: list_step [where tot = tot and symbol = "rw_Symbol msg", OF inv tokens_same_lists(2) [OF inv]] split: if_splits)

lemma forbid_addr_Ok:
  assumes inv: "asset_inv s" and run: "handleMsgForbidAddr C msg s = (Ok (), s')"
  shows "asset_step C tot (fa_Symbol msg) s s' \<and>
    (\<exists>t. GetToken s (fa_Symbol msg) = Some t \<and> Owner t = fa_OwnerAddr msg \<and> AddrForbiddable t) \<and>
    asset_store s' = mark_all (GetForbiddenAddrStoreKey (fa_Symbol msg)) (fa_Addresses msg) (asset_store s)"
  using run
  by (auto simp: handleMsgForbidAddr_def ForbidAddress_def addForbiddenAddress_def foreach_mark Ok_simps checkPrecondition_Ok
      dest!: list_step [where tot = tot and symbol = "fa_Symbol msg", OF inv tokens_same_lists(3) [OF inv]] split: if_splits)

lemma unforbid_addr_Ok:
  assumes inv: "asset_inv s" and run: "handleMsgUnForbidAddr C msg s = (Ok (), s')"
  shows "asset_step C tot (ua_Symbol msg) s s' \<and>
    (\<exists>t. GetToken s (ua_Symbol msg) = Some t \<and> Owner t = ua_OwnerAddr msg \<and> AddrForbiddable t) \<and>
    asset_store s' = unmark_all (GetForbiddenAddrStoreKey (ua_Symbol msg)) (ua_Addresses msg) (asset_store s)"
  using run
  by (auto simp: handleMsgUnForbidAddr_def UnForbidAddress_def removeForbiddenAddress_def foreach_unmark Ok_simps
      checkPrecondition_Ok dest!: list_step [where tot = tot and symbol = "ua_Symbol msg", OF inv tokens_same_lists(4) [OF inv]] split: if_splits)

subsection \<open>Changing a token's properties\<close>

definition token_edit :: "token \<Rightarrow> token \<Rightarrow> bool" where
  "token_edit t t' \<longleftrightarrow> Symbol t' = Symbol t \<and> SendLock t' = SendLock t \<and> Owner t' = Owner t \<and>
     (token_Validate t = Ok () \<longrightarrow> token_Validate t' = Ok ())"

lemma token_edit_trans: "token_edit t u \<Longrightarrow> token_edit u v \<Longrightarrow> token_edit t v"
  by (simp add: token_edit_def)

definition token_reset :: "token \<Rightarrow> token \<Rightarrow> bool" where
  "token_reset t t' \<longleftrightarrow> token_edit t t' \<and> TotalSupply t' = TotalSupply t"

lemma token_reset_refl: "token_reset t t"
  and token_reset_trans: "token_reset t u \<Longrightarrow> token_reset u v \<Longrightarrow> token_reset t v"
  by (simp_all add: token_reset_def token_edit_def)

lemma setter_reset:
  "SetName x t = Ok t' \<Longrightarrow> token_reset t t'" "SetURL x t = Ok t' \<Longrightarrow> token_reset t t'"
  "SetDescription x t = Ok t' \<Longrightarrow> token_reset t t'" "SetIdentity x t = Ok t' \<Longrightarrow> token_reset t t'"
  by (auto simp: token_reset_def token_edit_def token_Validate_iff SetName_def SetURL_def SetDescription_def SetIdentity_def
      not_less split: if_splits)

lemma switch_reset:
  "(if \<not> b then SetTotalMint 0 (t\<lparr>Mintable := b\<rparr>) else Ok (t\<lparr>Mintable := b\<rparr>)) = Ok t' \<Longrightarrow> token_reset t t'"
  "(if \<not> b then SetTotalBurn 0 (t\<lparr>Burnable := b\<rparr>) else Ok (t\<lparr>Burnable := b\<rparr>)) = Ok t' \<Longrightarrow> token_reset t t'"
  "Ok (if \<not> b then t\<lparr>TokenForbiddable := b, IsForbidden := False\<rparr> else t\<lparr>TokenForbiddable := b\<rparr>) = Ok t' \<Longrightarrow> token_reset t t'"
  by (auto simp: token_reset_def token_edit_def token_Validate_iff SetTotalMint_def SetTotalBurn_def split: if_splits)

lemma when_new_reset: "when_new x y m t = Ok t' \<Longrightarrow> (m = Ok t' \<Longrightarrow> token_reset t t') \<Longrightarrow> token_reset t t'"
  by (auto simp: when_new_def token_reset_refl split: if_splits)

lemma sealed_Ok: "sealed b m = Ok t' \<longleftrightarrow> \<not> b \<and> m = Ok t'"
  by (simp add: sealed_def)

lemma stage_reset:
  shows "modify_texts url description identity t = Ok t' \<Longrightarrow> token_reset t t'"
    and "when_new name (Name t) (sealed b (SetName name t)) t = Ok t' \<Longrightarrow> token_reset t t'"
    and "modify_mint_burn mintable burnable b t = Ok t' \<Longrightarrow> token_reset t t'"
    and "modify_token_forbiddable tokenForbiddable b t = Ok t' \<Longrightarrow> token_reset t t'"
proof -
  show "token_reset t t'" if w: "modify_texts url description identity t = Ok t'"
  proof -
    obtain u v where "when_new url (URL t) (SetURL url t) t = Ok u"
      "when_new description (Description u) (SetDescription description u) u = Ok v"
      "when_new identity (Identity v) (SetIdentity identity v) v = Ok t'"
      using w by (auto simp: modify_texts_def Ok_simps)
    then have "token_reset t u" "token_reset u v" "token_reset v t'"
      by (auto elim!: when_new_reset intro: setter_reset)
    then show ?thesis by (blast intro: token_reset_trans)
  qed
  show "token_reset t t'" if "when_new name (Name t) (sealed b (SetName name t)) t = Ok t'"
    by (rule when_new_reset [OF that]) (auto simp: sealed_Ok intro: setter_reset)
  show "token_reset t t'" if w: "modify_mint_burn mintable burnable b t = Ok t'"
  proof -
    obtain u where u: "when_new mintable (Mintable t) (sealed (b \<and> mintable) (if \<not> mintable then SetTotalMint 0 (t\<lparr>Mintable := mintable\<rparr>)
          else Ok (t\<lparr>Mintable := mintable\<rparr>))) t = Ok u"
      "when_new burnable (Burnable u) (sealed (b \<and> \<not> burnable) (if \<not> burnable then SetTotalBurn 0 (u\<lparr>Burnable := burnable\<rparr>)
          else Ok (u\<lparr>Burnable := burnable\<rparr>))) u = Ok t'"
      using w by (auto simp: modify_mint_burn_def Let_def Ok_simps)
    have "token_reset t u" by (rule when_new_reset [OF u(1)]) (simp only: sealed_Ok, blast intro: switch_reset(1))
    moreover have "token_reset u t'" by (rule when_new_reset [OF u(2)]) (simp only: sealed_Ok, blast intro: switch_reset(2))
    ultimately show ?thesis by (rule token_reset_trans)
  qed
  show "token_reset t t'" if "modify_token_forbiddable tokenForbiddable b t = Ok t'"
    by (rule when_new_reset [OF that [unfolded modify_token_forbiddable_def Let_def]])
      (simp only: sealed_Ok, blast intro: switch_reset(3))
qed

lemma modify_supply_Ok:
  assumes C: "cosmos_ok C tot" "supply_ok C tot" and amt: "distributed = (ownerAmt \<noteq> TotalSupply t)"
    and run: "modify_supply C symbol owner totalSupply ownerAmt distributed t s = (Ok t', s')"
  shows "bank_change C tot (\<lambda>d. if d = symbol then TotalSupply t' - TotalSupply t else 0) s s' \<and> token_edit t t'"
proof (cases "totalSupply = TotalSupply t")
  case True
  then show ?thesis using run by (simp add: modify_supply_def return_def bank_change_def token_edit_def)
next
  case False
  note int = int_okD(2) [OF cosmos_okD(3) [OF C(1)]]
  show ?thesis
  proof (cases "totalSupply > ownerAmt")
    case True
    then obtain cs s1 where own: "ownerAmt = TotalSupply t" and t': "t' = t\<lparr>TotalSupply := totalSupply\<rparr>" "0 < totalSupply"
      and cs: "NewTokenCoins C symbol (totalSupply - ownerAmt) = Ok cs"
      and mint: "on_bank (supply_MintCoins C ModuleName_asset cs) s = (Ok (), s1)"
      and send: "SendCoinsFromAssetModuleToAccount C owner cs s1 = (Ok (), s')"
      using run False amt int by (auto simp: modify_supply_def Ok_simps sealed_def SetTotalSupply_def split: if_splits)
    from bank_change_trans [OF bank_change_supply(1) [OF C mint] bank_change_supply(3) [OF C send]]
    show ?thesis using own t' by (auto simp: token_coins [OF C(1) cs] token_edit_def token_Validate_iff cong: if_cong)
  next
    case less: False
    then obtain cs s1 where own: "ownerAmt = TotalSupply t" and t': "t' = t\<lparr>TotalSupply := totalSupply\<rparr>" "0 < totalSupply"
      and cs: "NewTokenCoins C symbol (ownerAmt - totalSupply) = Ok cs"
      and send: "SendCoinsFromAccountToAssetModule C owner cs s = (Ok (), s1)"
      and burn: "on_bank (supply_BurnCoins C ModuleName_asset cs) s1 = (Ok (), s')"
      using run False amt int by (auto simp: modify_supply_def Ok_simps sealed_def SetTotalSupply_def split: if_splits)
    from bank_change_trans [OF bank_change_supply(4) [OF C send] bank_change_supply(2) [OF C burn]]
    show ?thesis using own t' by (auto simp: token_coins [OF C(1) cs] token_edit_def token_Validate_iff if_distrib cong: if_cong)
  qed
qed

lemma removeForbidden_run:
  "removeForbiddenAddress symbol xs s =
     (Ok (), s\<lparr>asset_store := unmark_all (GetForbiddenAddrStoreKey symbol) xs (asset_store s)\<rparr>)"
  by (simp add: removeForbiddenAddress_def foreach_unmark)

lemma modify_addr_forbiddable_Ok:
  assumes inv: "asset_inv s" and run: "modify_addr_forbiddable symbol b distributed t s = (Ok t', s')"
  shows "token_edit t t' \<and> TotalSupply t' = TotalSupply t \<and> bank s' = bank s \<and> asset_frame C s s' \<and>
    tokens_same (asset_store s) (asset_store s')"
proof (cases "b = AddrForbiddable t \<or> b")
  case True
  then have "s' = s" and t': "t' = t \<or> t' = t\<lparr>AddrForbiddable := b\<rparr>"
    using run by (auto simp: modify_addr_forbiddable_def op_simps split: if_splits)
  then show ?thesis using inv by (auto simp: token_edit_def token_Validate_iff asset_frame_refl tokens_same_refl)
next
  case False
  then have "s' = s\<lparr>asset_store := unmark_all (GetForbiddenAddrStoreKey symbol) (GetForbiddenAddresses s symbol) (asset_store s)\<rparr>"
    "t' = t\<lparr>AddrForbiddable := False\<rparr>"
    using run by (auto simp: modify_addr_forbiddable_def removeForbidden_run whenever_def Ok_simps)
  then show ?thesis using inv tokens_same_lists(4) [OF inv]
    by (auto simp: token_edit_def token_Validate_iff asset_frame_def)
qed

lemma modify_info_Ok:
  assumes C: "cosmos_ok C tot" "supply_ok C tot" and inv: "asset_inv s" and run: "handleMsgModifyTokenInfo C msg s = (Ok (), s')"
  shows "asset_step C tot (md_Symbol msg) s s'"
    and "\<exists>t. GetToken s (md_Symbol msg) = Some t \<and> Owner t = md_OwnerAddress msg"
proof -
  let ?sym = "md_Symbol msg" and ?owner = "md_OwnerAddress msg"
  obtain tk info where "GetToken s ?sym = Some tk" and "CollectTokenModificationInfo C tk msg = Ok info"
    using run by (auto simp: handleMsgModifyTokenInfo_def Ok_simps split: option.splits)
  moreover obtain u d i n x m b a f where "info = (u, d, i, n, x, m, b, a, f)" by (metis prod.exhaust)
  ultimately obtain sf where info: "ModifyTokenInfo C ?sym ?owner u d i n x m b a f s = (Ok (), sf)"
    and ev: "\<exists>attrs. asset_event C ?owner ''modify_token_info'' attrs sf = (Ok (), s')"
    using run by (simp add: handleMsgModifyTokenInfo_def Ok_simps) blast
  obtain t t1 t2 t3 s1 t4 t5 s2 t6 dist where t: "GetToken s ?sym = Some t" "Owner t = ?owner"
    and e1: "modify_texts u d i t = Ok t1"
    and dist: "dist = (coins_AmountOf C (GetTotalCoins C s ?owner) ?sym \<noteq> TotalSupply t1)"
    and e2: "when_new n (Name t1) (sealed dist (SetName n t1)) t1 = Ok t2"
    and e3: "modify_supply C ?sym ?owner x (coins_AmountOf C (GetTotalCoins C s ?owner) ?sym) dist t2 s = (Ok t3, s1)"
    and e4: "modify_mint_burn m b dist t3 = Ok t4"
    and e5: "modify_addr_forbiddable ?sym a dist t4 s1 = (Ok t5, s2)"
    and e6: "modify_token_forbiddable f dist t5 = Ok t6" and set: "SetToken t6 s2 = (Ok (), sf)"
    using info by (simp add: ModifyTokenInfo_def Let_def Ok_simps checkPrecondition_Ok) blast
  have r12: "token_reset t t2" using stage_reset(1) [OF e1] stage_reset(2) [OF e2] by (rule token_reset_trans)
  then have "TotalSupply t1 = TotalSupply t2" using stage_reset(1) [OF e1] by (simp add: token_reset_def)
  with modify_supply_Ok [OF C _ e3] have b3: "bank_change C tot (\<lambda>d. if d = ?sym then TotalSupply t3 - TotalSupply t2 else 0) s s1"
    and t23: "token_edit t2 t3" using dist by simp_all
  note f3 = bank_change_frame [OF b3]
  have inv1: "asset_inv s1" using inv asset_inv_cong [OF f3(2)] by simp
  note f5 = modify_addr_forbiddable_Ok [OF inv1 e5, of C]
  have r36: "token_reset t3 t6"
    using token_reset_trans [OF stage_reset(3) [OF e4]] token_reset_trans [OF _ stage_reset(4) [OF e6]] f5
    unfolding token_reset_def by (metis token_edit_trans)
  have edit: "token_edit t t6" using r12 t23 r36 unfolding token_reset_def by (blast intro: token_edit_trans)
  have tv: "Symbol t = ?sym" "token_Validate t = Ok ()" using GetToken_valid [OF inv t(1)] by simp_all
  obtain attrs where ev: "asset_event C ?owner ''modify_token_info'' attrs sf = (Ok (), s')" using ev ..
  note b6 = bank_change_frame [OF asset_event_change [OF ev, of C tot]] and fr = SetToken_frame [OF set, of C]
  have store: "asset_store s' = kv_set (GetTokenStoreKey ?sym) (VToken t6) (asset_store s2)"
    using b6(2) set edit tv by (simp add: SetToken_Ok token_edit_def)
  show "asset_step C tot ?sym s s'"
  proof (rule asset_step_put [OF inv _ _ _ _ _ store])
    show "tokens_same (asset_store s) (asset_store s2)" using f5 f3(2) by simp
    show "token_Validate t6 = Ok ()" "Symbol t6 = ?sym" "SendLock t6 = send_lock s ?sym"
      using edit tv t(1) by (simp_all add: token_edit_def send_lock_def)
    show "asset_frame C s s'" using f3(1) f5 fr b6(1) asset_frame_trans by blast
    show "tot (bank s') d = tot (bank s) d + (if d = ?sym then TotalSupply t6 - token_supply s ?sym else 0)" for d
      using f3(3) [of d] f5 fr b6(3) [of d] r12 r36 t(1) by (simp add: token_supply_def token_reset_def)
  qed
  show "\<exists>t. GetToken s ?sym = Some t \<and> Owner t = ?owner" using t by blast
qed

subsection \<open>The whole handler\<close>

fun asset_symbol :: "asset_msg \<Rightarrow> string" where
  "asset_symbol (IssueTokenMsg msg) = it_Symbol msg"
| "asset_symbol (TransferOwnershipMsg msg) = to_Symbol msg"
| "asset_symbol (MintTokenMsg msg) = mt_Symbol msg"
| "asset_symbol (BurnTokenMsg msg) = bt_Symbol msg"
| "asset_symbol (ForbidTokenMsg msg) = ft_Symbol msg"
| "asset_symbol (UnForbidTokenMsg msg) = uf_Symbol msg"
| "asset_symbol (AddTokenWhitelistMsg msg) = aw_Symbol msg"
| "asset_symbol (RemoveTokenWhitelistMsg msg) = rw_Symbol msg"
| "asset_symbol (ForbidAddrMsg msg) = fa_Symbol msg"
| "asset_symbol (UnForbidAddrMsg msg) = ua_Symbol msg"
| "asset_symbol (ModifyTokenInfoMsg msg) = md_Symbol msg"
| "asset_symbol AssetUnknown = []"

lemma asset_route_Ok:
  assumes C: "cosmos_ok C tot" "supply_ok C tot" and inv: "asset_inv s" and run: "asset_route C msg s = (Ok (), s')"
  shows "asset_step C tot (asset_symbol msg) s s' \<and>
    (case GetToken s (asset_symbol msg) of None \<Rightarrow> \<exists>m. msg = IssueTokenMsg m
      | Some t \<Rightarrow> asset_GetSigners msg = [Owner t])"
proof (cases msg)
  case (IssueTokenMsg m)
  then show ?thesis using issue_token_Ok [OF C inv] run by simp
next
  case (TransferOwnershipMsg m)
  then show ?thesis using transfer_ownership_Ok [OF C(1) inv] run by fastforce
next
  case (MintTokenMsg m)
  then show ?thesis using mint_token_Ok [OF C inv] run by fastforce
next
  case (BurnTokenMsg m)
  then show ?thesis using burn_token_Ok [OF C inv] run by fastforce
next
  case (ForbidTokenMsg m)
  then show ?thesis using forbid_token_Ok [OF C(1) inv] run by fastforce
next
  case (UnForbidTokenMsg m)
  then show ?thesis using unforbid_token_Ok [OF C(1) inv] run by fastforce
next
  case (AddTokenWhitelistMsg m)
  then show ?thesis using whitelist_Ok [OF inv] run by fastforce
next
  case (RemoveTokenWhitelistMsg m)
  then show ?thesis using unwhitelist_Ok [OF inv] run by fastforce
next
  case (ForbidAddrMsg m)
  then show ?thesis using forbid_addr_Ok [OF inv] run by fastforce
next
  case (UnForbidAddrMsg m)
  then show ?thesis using unforbid_addr_Ok [OF inv] run by fastforce
next
  case (ModifyTokenInfoMsg m)
  then show ?thesis using modify_info_Ok [OF C inv] run by fastforce
qed (use run in \<open>simp add: fail_Ok\<close>)

text \<open>A step of the module keeps the books of the accounts; only the totals of its token may change.\<close>

lemma asset_frame_fields:
  assumes "asset_frame C s (s' :: ('b, 'z) authx_state_scheme)"
  shows "accx_store s' = accx_store s" and "authx_params s' = authx_params s"
proof -
  have s': "s' = s\<lparr>bank := bank s', asset_store := asset_store s', events := events s'\<rparr>" using assms by (simp add: asset_frame_def)
  show "accx_store s' = accx_store s" "authx_params s' = authx_params s" by (subst s', simp)+
qed

lemma asset_step_authx:
  assumes step: "asset_step C tot symbol s s'" and inv: "authx_inv C s"
  shows "authx_inv C s'" and "\<And>a d. frozen s' a d = frozen s a d" and "\<And>a. locked s' a = locked s a"
    and "\<And>d. supply_gap tot s' d = supply_gap tot s d"
proof -
  have ax: "accx_store s' = accx_store s" using step asset_frame_fields(1) by (auto simp: asset_step_def)
  have get: "GetAccountX s' a = GetAccountX s a" for a by (simp add: GetAccountX_def ax)
  show "frozen s' a d = frozen s a d" "locked s' a = locked s a" for a d by (simp_all add: frozen_def locked_def get)
  have "lock_inv s'" using inv step by (simp add: authx_inv_def lock_inv_def asset_step_def locked_total_def ax)
  moreover have "accounts_exist C s'" using inv step by (auto simp: authx_inv_def accounts_exist_def asset_step_def asset_frame_def get)
  ultimately show "authx_inv C s'" using inv step by (simp add: authx_inv_def asset_step_def ax)
  show "supply_gap tot s' d = supply_gap tot s d" for d
    using step by (simp add: asset_step_def supply_gap_def total_coins_def locked_total_def frozen_total_def ax algebra_simps)
qed

lemma asset_Handler_Ok:
  assumes C: "cosmos_ok C tot" "supply_ok C tot" and inv: "authx_inv C s" and run: "asset_Handler C msg s = (Ok (), s')"
  shows "\<exists>s0. s0 = s\<lparr>events := []\<rparr> \<and> asset_step C tot (asset_symbol msg) s0 s' \<and> authx_inv C s0 \<and>
    (case GetToken s (asset_symbol msg) of None \<Rightarrow> \<exists>m. msg = IssueTokenMsg m
      | Some t \<Rightarrow> asset_GetSigners msg = [Owner t])"
proof -
  define s0 where "s0 = s\<lparr>events := []\<rparr>"
  have inv0: "authx_inv C s0" "asset_inv s0" using inv
    by (simp_all add: s0_def authx_inv_def asset_inv_def lock_inv_def locked_total_def send_lock_def GetToken_def accounts_exist_def
        GetAccountX_def)
  have "asset_route C msg s0 = (Ok (), s')"
    using run by (simp add: asset_Handler_def new_event_manager_def and_then_def modify_def s0_def)
  from asset_route_Ok [OF C inv0(2) this] show ?thesis
    using inv0 by (intro exI [of _ s0]) (simp add: s0_def GetToken_def)
qed

end
