(* ===== verification/RefState.thy ===== *)
theory RefState
  imports RefCosmos AssetInv
begin

section \<open>A concrete state\<close>

text \<open>
  A state of the accounts and tokens over the reference implementation of the framework: a token
  with 5 coins locked, an account that holds them until second 100 and has frozen and
  spendable coins of two denominations. The witnesses of the theorems evaluate the model on it.
\<close>

lemma ref_supply_ok: "supply_ok ref_cosmos ref_tot"
  using ref_moves_Add ref_moves_Subtract ref_exists_Add ref_exists_Subtract
  by (simp add: supply_ok_def grows_def)

definition alice :: addr where "alice = ''alice000000000000000''"
definition bob :: addr where "bob = ''bob00000000000000000''"

definition ref_token :: token where
  "ref_token = \<lparr>Name = ''ABC'', Symbol = ''abc'', TotalSupply = 100, SendLock = 5, Owner = bob,
     Mintable = True, Burnable = True, AddrForbiddable = True, TokenForbiddable = True, TotalBurn = 0,
     TotalMint = 0, IsForbidden = False, URL = [], Description = [], Identity = ''id''\<rparr>"

definition ref_cet :: token where
  "ref_cet = ref_token\<lparr>Name := ''CET'', Symbol := ''cet'', TotalSupply := 2000000000, SendLock := 0, Owner := alice\<rparr>"

definition ref_locked :: LockedCoin where
  "ref_locked = \<lparr>lc_Coin = \<lparr>Denom = ''abc'', Amount = 5\<rparr>, lc_UnlockTime = 100, lc_FromAddress = bob,
     lc_Supervisor = [], lc_Reward = 0\<rparr>"

definition ref_account :: AccountX where
  "ref_account = \<lparr>ax_Address = alice, ax_MemoRequired = False, ax_LockedCoins = [ref_locked],
     ax_FrozenCoins = [\<lparr>Denom = ''abc'', Amount = 7\<rparr>, \<lparr>Denom = ''cet'', Amount = 40\<rparr>], ax_Referee = [], ax_RefereeChangeTime = 0\<rparr>"

definition ref_bank0 :: ref_bank where
  "ref_bank0 = \<lparr>accounts = [(alice, [\<lparr>Denom = ''abc'', Amount = 20\<rparr>, \<lparr>Denom = ''cet'', Amount = 300\<rparr>]),
     (bob, [\<lparr>Denom = ''abc'', Amount = 68\<rparr>, \<lparr>Denom = ''cet'', Amount = 1000000000\<rparr>])], send_enabled = True\<rparr>"

definition ref_state :: "ref_bank bankx_state" where
  "ref_state = \<lparr>bank = ref_bank0, events = [],
     asset_store = kv_set (GetTokenStoreKey ''cet'') (VToken ref_cet) (kv_set (GetTokenStoreKey ''abc'') (VToken ref_token) []), asset_params = asset_DefaultParams,
     accx_store = kv_set (AddressStoreKey alice) (VAccX ref_account)
       (kv_set (KeyUnlockedCoinsQueue ref_cosmos 100 alice) (VAddr alice) []),
     authx_params = authx_DefaultParams, bankx_params = bankx_DefaultParams\<rparr>"

lemma ref_state_simps [simp]:
  "bank ref_state = ref_bank0" "events ref_state = []"
  "asset_store ref_state =
     kv_set (GetTokenStoreKey ''cet'') (VToken ref_cet) (kv_set (GetTokenStoreKey ''abc'') (VToken ref_token) [])"
  "asset_params ref_state = asset_DefaultParams"
  "accx_store ref_state = kv_set (AddressStoreKey alice) (VAccX ref_account)
       (kv_set (KeyUnlockedCoinsQueue ref_cosmos 100 alice) (VAddr alice) [])"
  "authx_params ref_state = authx_DefaultParams" "bankx_params ref_state = bankx_DefaultParams"
  by (simp_all add: ref_state_def)

lemma ref_token_valid: "token_Validate ref_token = Ok ()" "token_Validate ref_cet = Ok ()"
  by code_simp+

lemma ref_account_simps [simp]:
  "ax_Address ref_account = alice" "ax_LockedCoins ref_account = [ref_locked]"
  "ax_FrozenCoins ref_account = [\<lparr>Denom = ''abc'', Amount = 7\<rparr>, \<lparr>Denom = ''cet'', Amount = 40\<rparr>]"
  "lc_Coin ref_locked = \<lparr>Denom = ''abc'', Amount = 5\<rparr>" "lc_UnlockTime ref_locked = 100"
  by (simp_all add: ref_account_def ref_locked_def)

lemma time_fits_100: "time_fits 100"
  by (simp add: time_fits_def)

lemma ref_asset_inv: "asset_inv ref_state"
  using ref_token_valid
  by (simp del: kv_set.simps add: asset_inv_def) (simp add: ref_token_def ref_cet_def)

lemma ref_accx_store_ok: "accx_store_ok ref_cosmos (accx_store ref_state)"
proof -
  have "accx_store_ok ref_cosmos (kv_set (KeyUnlockedCoinsQueue ref_cosmos 100 alice) (VAddr alice) [])"
    by (rule accx_store_ok_enqueue [OF ref_keys_ok _ time_fits_100]) (simp add: accx_store_ok_def)
  moreover have "accx_wf ref_account"
  proof -
    have "coins_sorted (ax_FrozenCoins ref_account)" by code_simp
    then show ?thesis using time_fits_100 by (simp add: accx_wf_def)
  qed
  moreover have "queued ref_cosmos (kv_set (KeyUnlockedCoinsQueue ref_cosmos 100 alice) (VAddr alice) [])
      (ax_Address ref_account) (ax_LockedCoins ref_account)"
    by (simp del: kv_set.simps add: queued_def)
  ultimately have "accx_store_ok ref_cosmos (kv_set (AddressStoreKey (ax_Address ref_account)) (VAccX ref_account)
      (kv_set (KeyUnlockedCoinsQueue ref_cosmos 100 alice) (VAddr alice) []))"
    by (rule accx_store_ok_set)
  then show ?thesis by simp
qed

lemma ref_GetAccountX: "GetAccountX ref_state a = (if a = alice then Some ref_account else None)"
  by (simp del: kv_set.simps add: GetAccountX_def)

lemma ref_authx_inv: "authx_inv ref_cosmos ref_state"
proof -
  have kv: "kv_ok (kv_set (KeyUnlockedCoinsQueue ref_cosmos 100 alice) (VAddr alice) [])" by (simp del: kv_set.simps)
  have "kv_sum f (accx_store ref_state) = f (VAddr alice) + f (VAccX ref_account)" for f
    using kv_sum_set [OF kv, of f "AddressStoreKey alice" "VAccX ref_account"]
    by (simp del: kv_set.simps add: kv_sum_set kv_val_def) (simp add: kv_sum_def)
  then have "locked_total ref_state d = (if d = ''abc'' then 5 else 0)" for d
    unfolding locked_total_def by (simp add: locked_of_def)
  moreover have "send_lock ref_state d = (if d = ''abc'' then 5 else 0)" for d
    by (simp del: kv_set.simps add: send_lock_def GetToken_def) (simp add: ref_token_def ref_cet_def)
  ultimately have "lock_inv ref_state" by (simp add: lock_inv_def)
  moreover have "accounts_exist ref_cosmos ref_state"
    by (auto simp: accounts_exist_def ref_GetAccountX ref_bank0_def split: if_splits)
  ultimately show ?thesis using ref_accx_store_ok ref_asset_inv by (simp add: authx_inv_def)
qed

end
