(* ===== verification/AccountProps.thy ===== *)
theory AccountProps
  imports RefState
begin

section \<open>Properties of authx and bankx\<close>

text \<open>
  The properties of the two modules that keep accounts, each with a witness on the concrete state of
  \<open>RefState\<close>.
\<close>

definition ref_ctx :: "int \<Rightarrow> ctx" where
  "ref_ctx t = \<lparr>BlockHeight = 20, BlockTime = t * 1000000000, ChainID = ''coinexdex'', DataHash = []\<rparr>"

lemma ref_ctx_Unix [simp]: "Unix (ref_ctx t) = t"
  by (simp add: Unix_def ref_ctx_def)

lemma ref_locked [simp]: "locked ref_state a = (if a = alice then [ref_locked] else [])"
  by (simp add: locked_def ref_GetAccountX)

lemma ref_frozen [simp]:
  "frozen ref_state a d = (if a = alice then if d = ''abc'' then 7 else if d = ''cet'' then 40 else 0 else 0)"
  by (simp add: frozen_def ref_GetAccountX)

lemma due_of_locked: "due_of t d (GetAccountX s a) = due_sum t (locked s a) d"
  by (simp add: due_of_def locked_def due_sum_def split: option.split)

text \<open>C26. The authx end blocker always succeeds. It takes out of every account exactly the locked
  coins whose unlock time has come, adds exactly those to the account's spendable coins, leaves
  frozen coins and the total of every denomination as they are, and keeps the invariant of the
  accounts, the queue and the tokens' \<open>SendLock\<close>.\<close>

theorem end_blocker_releases_due_coins:
  assumes "cosmos_ok C tot" and "authx_inv C s" and "time_fits (Unix ctx)"
  shows "\<exists>s'. authx_EndBlocker C q ctx s = (Ok (), s') \<and> authx_inv C s' \<and>
    (\<forall>a. locked s' a = filter (\<lambda>l. Unix ctx < lc_UnlockTime l) (locked s a)) \<and>
    (\<forall>a d. balance C (bank s') a d = balance C (bank s) a d + due_sum (Unix ctx) (locked s a) d) \<and>
    (\<forall>a d. frozen s' a d = frozen s a d) \<and> (\<forall>d. total_coins tot s' d = total_coins tot s d)"
proof -
  obtain s' where run: "authx_EndBlocker C q ctx s = (Ok (), s')" and rel: "releases C tot (Unix ctx) UNIV s s'"
    using authx_EndBlocker_releases [OF assms, of q] by blast
  have acc: "GetAccountX s' a = map_option (released (Unix ctx)) (GetAccountX s a)" for a
    using rel by (simp add: releases_def)
  have "locked s' a = filter (\<lambda>l. Unix ctx < lc_UnlockTime l) (locked s a)" for a
    by (simp add: locked_def acc released_def not_le split: option.split)
  moreover have "frozen s' a d = frozen s a d" for a d
    by (simp add: frozen_def acc split: option.split)
  ultimately show ?thesis
    using run rel by (auto simp: releases_def due_of_locked)
qed

theorem end_blocker_releases_due_coins_witness:
  "\<exists>s'. authx_EndBlocker ref_cosmos ''kafka'' (ref_ctx 200) ref_state = (Ok (), s') \<and> authx_inv ref_cosmos s' \<and>
    locked s' alice = [] \<and> balance ref_cosmos (bank s') alice ''abc'' = 25 \<and> frozen s' alice ''abc'' = 7"
proof -
  have "time_fits (Unix (ref_ctx 200))" by (simp add: time_fits_def)
  from end_blocker_releases_due_coins [OF ref_cosmos_ok ref_authx_inv this, of "''kafka''"]
  obtain s' where s': "authx_EndBlocker ref_cosmos ''kafka'' (ref_ctx 200) ref_state = (Ok (), s')" "authx_inv ref_cosmos s'"
    and l: "\<And>a. locked s' a = filter (\<lambda>l. Unix (ref_ctx 200) < lc_UnlockTime l) (locked ref_state a)"
    and b: "\<And>a d. balance ref_cosmos (bank s') a d =
      balance ref_cosmos (bank ref_state) a d + due_sum (Unix (ref_ctx 200)) (locked ref_state a) d"
    and f: "\<And>a d. frozen s' a d = frozen ref_state a d" by blast
  have "balance ref_cosmos ref_bank0 alice ''abc'' = 20" by code_simp
  then have "balance ref_cosmos (bank s') alice ''abc'' = 25" using b [of alice "''abc''"] by (simp add: due_sum_def)
  moreover have "locked s' alice = []" "frozen s' alice ''abc'' = 7" using l [of alice] f [of alice "''abc''"] by simp_all
  ultimately show ?thesis using s' by blast
qed

text \<open>C27. A successful freeze moves exactly the given coins from the account's spendable to its frozen
  coins, touches nobody else, makes or loses no coin, and happens only for coins in valid form none
  of which is forbidden for the account by the token's issuer.\<close>

theorem freeze_moves_spendable_to_frozen:
  assumes "cosmos_ok C tot" and "authx_inv C s" and "FreezeCoins C a amt s = (Ok (), s')"
  shows "authx_inv C s' \<and> coins_IsValid C amt \<and> \<not> IsSendForbidden s amt a \<and>
    (\<forall>c d. frozen s' c d = frozen s c d + (if c = a then coins_AmountOf C amt d else 0)) \<and>
    (\<forall>c d. balance C (bank s') c d = balance C (bank s) c d - (if c = a then coins_AmountOf C amt d else 0)) \<and>
    (\<forall>c. locked s' c = locked s c) \<and> (\<forall>d. total_coins tot s' d = total_coins tot s d)"
  using FreezeCoins_books [OF assms] by (auto simp: books_def)

theorem freeze_moves_spendable_to_frozen_witness:
  "let s' = snd (FreezeCoins ref_cosmos alice [\<lparr>Denom = ''abc'', Amount = 3\<rparr>] ref_state)
   in authx_inv ref_cosmos s' \<and> frozen s' alice ''abc'' = 10"
proof -
  have "fst (FreezeCoins ref_cosmos alice [\<lparr>Denom = ''abc'', Amount = 3\<rparr>] ref_state) = Ok ()" by code_simp
  then have run: "FreezeCoins ref_cosmos alice [\<lparr>Denom = ''abc'', Amount = 3\<rparr>] ref_state =
      (Ok (), snd (FreezeCoins ref_cosmos alice [\<lparr>Denom = ''abc'', Amount = 3\<rparr>] ref_state))"
    by (metis prod.collapse)
  note facts = freeze_moves_spendable_to_frozen [OF ref_cosmos_ok ref_authx_inv run]
  have "frozen (snd (FreezeCoins ref_cosmos alice [\<lparr>Denom = ''abc'', Amount = 3\<rparr>] ref_state)) alice ''abc'' = 7 + 3"
    using facts [THEN conjunct2, THEN conjunct2, THEN conjunct2, THEN conjunct1, rule_format, of alice "''abc''"]
    by (simp add: ref_AmountOf_def)
  with facts show ?thesis unfolding Let_def by simp
qed

text \<open>C28. Unfreezing coins in valid form succeeds exactly when the account is known and has at least
  that much frozen of every denomination; then it moves them back to the spendable coins, and
  otherwise it returns an error and changes nothing. It never panics.\<close>

theorem unfreeze_succeeds_iff_frozen:
  assumes "cosmos_ok C tot" and "authx_inv C s" and "coins_IsValid C amt"
  shows "if GetAccountX s a \<noteq> None \<and> (\<forall>d. coins_AmountOf C amt d \<le> frozen s a d)
    then \<exists>s'. UnFreezeCoins C a amt s = (Ok (), s') \<and> authx_inv C s' \<and>
      (\<forall>c d. frozen s' c d = frozen s c d - (if c = a then coins_AmountOf C amt d else 0)) \<and>
      (\<forall>c d. balance C (bank s') c d = balance C (bank s) c d + (if c = a then coins_AmountOf C amt d else 0)) \<and>
      (\<forall>d. total_coins tot s' d = total_coins tot s d)
    else \<exists>e. UnFreezeCoins C a amt s = (Err e, s)"
proof (cases "GetAccountX s a \<noteq> None \<and> (\<forall>d. coins_AmountOf C amt d \<le> frozen s a d)")
  case True
  then obtain s' where "UnFreezeCoins C a amt s = (Ok (), s')"
    "books C tot (\<lambda>c d. if c = a then - coins_AmountOf C amt d else 0) s s'"
    "\<forall>c d. balance C (bank s') c d = balance C (bank s) c d + (if c = a then coins_AmountOf C amt d else 0)"
    using UnFreezeCoins_books [OF assms, of a] by blast
  with True show ?thesis by (auto simp: books_def)
next
  case False
  then have "\<exists>e. UnFreezeCoins C a amt s = (Err e, s)"
    using UnFreezeCoins_refused [OF assms, of a] by (auto simp: not_le)
  with False show ?thesis by (simp only: if_False)
qed

theorem unfreeze_succeeds_iff_frozen_witness:
  "(\<exists>s'. UnFreezeCoins ref_cosmos alice [\<lparr>Denom = ''abc'', Amount = 7\<rparr>] ref_state = (Ok (), s') \<and>
     frozen s' alice ''abc'' = 0) \<and>
   (\<exists>e. UnFreezeCoins ref_cosmos alice [\<lparr>Denom = ''abc'', Amount = 8\<rparr>] ref_state = (Err e, ref_state))"
proof -
  have valid: "coins_IsValid ref_cosmos [\<lparr>Denom = ''abc'', Amount = 7\<rparr>]"
    "coins_IsValid ref_cosmos [\<lparr>Denom = ''abc'', Amount = 8\<rparr>]" by code_simp+
  have le: "coins_AmountOf ref_cosmos [\<lparr>Denom = ''abc'', Amount = 7\<rparr>] d \<le> frozen ref_state alice d" for d
    by (simp add: ref_AmountOf_def)
  have gt: "\<not> coins_AmountOf ref_cosmos [\<lparr>Denom = ''abc'', Amount = 8\<rparr>] ''abc'' \<le> frozen ref_state alice ''abc''"
    by (simp add: ref_AmountOf_def)
  have known: "GetAccountX ref_state alice \<noteq> None" by (simp add: ref_GetAccountX)
  obtain s' where s': "UnFreezeCoins ref_cosmos alice [\<lparr>Denom = ''abc'', Amount = 7\<rparr>] ref_state = (Ok (), s')"
    and f: "\<forall>c d. frozen s' c d = frozen ref_state c d -
      (if c = alice then coins_AmountOf ref_cosmos [\<lparr>Denom = ''abc'', Amount = 7\<rparr>] d else 0)"
    using unfreeze_succeeds_iff_frozen [OF ref_cosmos_ok ref_authx_inv valid(1), of alice] known le
    by (simp only: simp_thms if_True) blast
  have "frozen s' alice ''abc'' = 0" using f [rule_format, of alice "''abc''"] by (simp add: ref_AmountOf_def)
  moreover have "\<not> (GetAccountX ref_state alice \<noteq> None \<and>
      (\<forall>d. coins_AmountOf ref_cosmos [\<lparr>Denom = ''abc'', Amount = 8\<rparr>] d \<le> frozen ref_state alice d))"
    using gt by blast
  then have "\<exists>e. UnFreezeCoins ref_cosmos alice [\<lparr>Denom = ''abc'', Amount = 8\<rparr>] ref_state = (Err e, ref_state)"
    using unfreeze_succeeds_iff_frozen [OF ref_cosmos_ok ref_authx_inv valid(2), of alice] by (simp only: if_False)
  ultimately show ?thesis using s' by blast
qed

text \<open>C29. A successful locked send appends, for every coin of the amount, one locked coin with the given
  unlock time (and, in a supervised send, sender, supervisor and reward) to the receiver's locked
  coins and changes nobody else's. The invariant is kept - so each of these coins has its entry in
  the unlock queue and is counted in its token's \<open>SendLock\<close> - frozen coins do not change and no
  coin is made or lost.\<close>

theorem locked_send_locks_the_amount:
  assumes "cosmos_ok C tot" and "authx_inv C s" and "time_fits unlockTime"
    and "SendLockedCoins C ctx fromAddr toAddr supervisor amt unlockTime reward isS s = (Ok (), s')"
  shows "authx_inv C s' \<and> coins_IsValid C amt \<and> \<not> IsSendForbidden s amt fromAddr \<and>
    locked s' toAddr = locked s toAddr @ map (locked_coin fromAddr supervisor unlockTime reward isS) amt \<and>
    (\<forall>c. c \<noteq> toAddr \<longrightarrow> locked s' c = locked s c) \<and>
    (\<forall>c d. frozen s' c d = frozen s c d) \<and> (\<forall>d. total_coins tot s' d = total_coins tot s d)"
  using SendLockedCoins_Ok [OF assms] by (auto simp: books_def)

lemma run_pair: "fst x = r \<Longrightarrow> x = (r, snd x)"
  by (metis prod.collapse)

theorem locked_send_locks_the_amount_witness:
  "let s' = snd (SendLockedCoins ref_cosmos (ref_ctx 50) alice bob alice [\<lparr>Denom = ''abc'', Amount = 3\<rparr>] 300 1 True ref_state)
   in authx_inv ref_cosmos s' \<and>
     locked s' bob = [locked_coin alice alice 300 1 True \<lparr>Denom = ''abc'', Amount = 3\<rparr>]"
proof -
  have "fst (SendLockedCoins ref_cosmos (ref_ctx 50) alice bob alice [\<lparr>Denom = ''abc'', Amount = 3\<rparr>] 300 1 True ref_state) = Ok ()"
    by code_simp
  note run = run_pair [OF this]
  have "time_fits 300" by (simp add: time_fits_def)
  from locked_send_locks_the_amount [OF ref_cosmos_ok ref_authx_inv this run] show ?thesis
    unfolding Let_def by (simp add: alice_def bob_def)
qed

text \<open>C30. A successful early unlock (by the sender, by the supervisor, or a return) finds a locked coin
  of the receiver that equals the one named in every field, removes the first such coin and nothing
  else, and pays out its full amount: the reward to the supervisor if there is one, the rest to the
  receiver, or to the sender for a return. The invariant is kept, the queue entry disappears only with
  the last coin of that time, and no coin is made or lost.\<close>

theorem early_unlock_pays_out_the_coin:
  assumes "cosmos_ok C tot" and "authx_inv C s" and "0 \<le> reward"
    and "EarlierUnlockCoin C ctx fromAddr toAddr supervisor amt unlockTime reward isReturned s = (Ok u, s')"
  shows "authx_inv C s' \<and> (\<forall>d. total_coins tot s' d = total_coins tot s d) \<and>
    (\<exists>pre post. locked s toAddr = pre @ locked_coin fromAddr supervisor unlockTime reward True amt # post \<and>
      locked_coin fromAddr supervisor unlockTime reward True amt \<notin> set pre \<and>
      locked s' toAddr = pre @ post \<and> (\<forall>c. c \<noteq> toAddr \<longrightarrow> locked s' c = locked s c)) \<and>
    (\<forall>c d. balance C (bank s') c d = balance C (bank s) c d + (if Denom amt = d then
       (if supervisor = [] then (if c = (if isReturned then fromAddr else toAddr) then Amount amt else 0)
        else (if c = (if isReturned then fromAddr else toAddr) then Amount amt - reward else 0) +
          (if c = supervisor then reward else 0)) else 0))"
  using EarlierUnlockCoin_Ok [OF assms] booksD [OF EarlierUnlockCoin_Ok(1) [OF assms]] by blast

theorem early_unlock_pays_out_the_coin_witness:
  "let s' = snd (EarlierUnlockCoin ref_cosmos (ref_ctx 50) bob alice [] \<lparr>Denom = ''abc'', Amount = 5\<rparr> 100 0 True ref_state)
   in authx_inv ref_cosmos s' \<and> balance ref_cosmos (bank s') bob ''abc'' = 73"
proof -
  define s' where "s' = snd (EarlierUnlockCoin ref_cosmos (ref_ctx 50) bob alice [] \<lparr>Denom = ''abc'', Amount = 5\<rparr> 100 0 True ref_state)"
  have "case fst (EarlierUnlockCoin ref_cosmos (ref_ctx 50) bob alice [] \<lparr>Denom = ''abc'', Amount = 5\<rparr> 100 0 True ref_state)
      of Ok _ \<Rightarrow> True | _ \<Rightarrow> False" by code_simp
  then obtain u where "EarlierUnlockCoin ref_cosmos (ref_ctx 50) bob alice [] \<lparr>Denom = ''abc'', Amount = 5\<rparr> 100 0 True ref_state
      = (Ok u, s')" by (auto simp: s'_def prod_eq_iff split: ret.splits)
  note facts = early_unlock_pays_out_the_coin [OF ref_cosmos_ok ref_authx_inv _ this]
  have "balance ref_cosmos ref_bank0 bob ''abc'' = 68" by code_simp
  then have "balance ref_cosmos (bank s') bob ''abc'' = 73"
    using facts [simplified, THEN conjunct2, THEN conjunct2, THEN conjunct2, rule_format, of bob "''abc''"] by simp
  then show ?thesis using facts unfolding Let_def s'_def [symmetric] by simp
qed

text \<open>C31. Any bankx message that passes \<open>ValidateBasic\<close> and is executed without error - a plain or a
  locked send, a multi-send, a supervised send or unlock, a memo flag - keeps the invariant of the
  accounts, makes or loses no coin of any denomination (fees included), and changes nobody's
  frozen coins.\<close>

theorem bankx_messages_conserve_coins:
  assumes "cosmos_ok C tot" and "authx_inv C s" and "bankx_ValidateBasic C msg = Ok ()"
    and "bankx_Handler C sub ctx msg s = (Ok (), s')"
  shows "authx_inv C s' \<and> (\<forall>d. total_coins tot s' d = total_coins tot s d) \<and> (\<forall>a d. frozen s' a d = frozen s a d)"
proof -
  have "book_inv C tot (ledger_of tot s) (frozen s) s" using assms(2) by (simp add: book_inv_def)
  from bankx_Handler_Ok(1) [OF assms(1,3) this assms(4)] show ?thesis by (simp add: book_inv_def ledger_of_def fun_eq_iff)
qed

definition ref_send :: bankx_msg where
  "ref_send = BankxSend \<lparr>ms_FromAddress = alice, ms_ToAddress = bob,
     ms_Amount = [\<lparr>Denom = ''abc'', Amount = 3\<rparr>], ms_UnlockTime = 300\<rparr>"

theorem bankx_messages_conserve_coins_witness:
  "let s' = snd (bankx_Handler ref_cosmos (\<lambda>t. True) (ref_ctx 50) ref_send ref_state)
   in authx_inv ref_cosmos s' \<and> total_coins ref_tot s' ''abc'' = total_coins ref_tot ref_state ''abc''"
proof -
  have "fst (bankx_Handler ref_cosmos (\<lambda>t. True) (ref_ctx 50) ref_send ref_state) = Ok ()"
    and "bankx_ValidateBasic ref_cosmos ref_send = Ok ()" by code_simp+
  from bankx_messages_conserve_coins [OF ref_cosmos_ok ref_authx_inv this(2) run_pair [OF this(1)]]
  show ?thesis unfolding Let_def by blast
qed

end
