(* ===== verification/MarketKeeper.thy ===== *)
theory MarketKeeper
  imports BankxHandlerInv MarketTypes
begin

section \<open>The market's keepers\<close>

text \<open>
  \<open>src/modules/market/internal/keepers\<close>: one store for the order book of every pair, the markets,
  the delist requests and the day of the last clean-up. An order is stored under its identifier;
  the queue (by height) and the bid and ask lists (by price) are keys without a value that end in
  the identifier, so that an iterator over a range of keys finds the orders in their order.
\<close>

subsection \<open>The state and its keys\<close>

text \<open>The values of the store: a marshalled order or market, a number, a symbol, or no information.\<close>

datatype market_val = VOrder order | VMarket MarketInfo | VNum int | VSymbol string | VMark

record 'b market_state = "'b bankx_state" +
  market_store :: "market_val kv"
  market_params :: market_params

definition OrderBookKeyPrefix :: string where "OrderBookKeyPrefix = [byte 17]"
definition BidListKeyPrefix :: string where "BidListKeyPrefix = [byte 18]"
definition AskListKeyPrefix :: string where "AskListKeyPrefix = [byte 19]"
definition OrderQueueKeyPrefix :: string where "OrderQueueKeyPrefix = [byte 20]"
definition NewlyAddedKeyPrefix :: string where "NewlyAddedKeyPrefix = [byte 102]"
definition NewlyAddedKeyEnd :: string where "NewlyAddedKeyEnd = [byte 103]"
definition LastOrderCleanUpDayKey :: string where "LastOrderCleanUpDayKey = [byte 32]"
definition MarketIdentifierPrefix :: string where "MarketIdentifierPrefix = [byte 21]"
definition DelistKey :: string where "DelistKey = [byte 64]"
definition DelistRevKey :: string where "DelistRevKey = [byte 66]"

abbreviation x00 :: string where "x00 \<equiv> [byte 0]"
abbreviation x01 :: string where "x01 \<equiv> [byte 1]"

definition int64ToBigEndianBytes :: "int \<Rightarrow> string ret" where
  "int64ToBigEndianBytes n = (if n < 0 then Panic else Ok (be_bytes 8 (nat n)))"

definition orderBookKey :: "string \<Rightarrow> string" where
  "orderBookKey orderID = ConcatKeys [OrderBookKeyPrefix, x00, orderID]"

definition bidListKey :: "'y sdk_scheme \<Rightarrow> string \<Rightarrow> order \<Rightarrow> string" where
  "bidListKey S symbol odr =
     ConcatKeys [BidListKeyPrefix, symbol, x00, DecToBigEndianBytes (Price odr), OrderID S odr]"

definition askListKey :: "'y sdk_scheme \<Rightarrow> string \<Rightarrow> order \<Rightarrow> string" where
  "askListKey S symbol odr =
     ConcatKeys [AskListKeyPrefix, symbol, x00, DecToBigEndianBytes (Price odr), OrderID S odr]"

definition orderQueueKey :: "'y sdk_scheme \<Rightarrow> string \<Rightarrow> order \<Rightarrow> string ret" where
  "orderQueueKey S symbol odr = ret_map
     (\<lambda>h. ConcatKeys [OrderQueueKeyPrefix, symbol, x00, h, OrderID S odr]) (int64ToBigEndianBytes (Height odr))"

definition store_set :: "string \<Rightarrow> market_val \<Rightarrow> (('b, 'z) market_state_scheme, unit) op" where
  "store_set k v = modify (\<lambda>s. s\<lparr>market_store := kv_set k v (market_store s)\<rparr>)"

definition store_delete :: "string \<Rightarrow> (('b, 'z) market_state_scheme, unit) op" where
  "store_delete k = modify (\<lambda>s. s\<lparr>market_store := kv_delete k (market_store s)\<rparr>)"

subsection \<open>The clean-up day\<close>

definition GetUnixTime :: "('b, 'z) market_state_scheme \<Rightarrow> int" where
  "GetUnixTime s = (case kv_get (market_store s) LastOrderCleanUpDayKey of Some (VNum t) \<Rightarrow> t | _ \<Rightarrow> 0)"

definition SetUnixTime :: "int \<Rightarrow> (('b, 'z) market_state_scheme, unit) op" where
  "SetUnixTime t = store_set LastOrderCleanUpDayKey (VNum t)"

subsection \<open>The order keeper of one pair\<close>

definition getOrder :: "('b, 'z) market_state_scheme \<Rightarrow> string \<Rightarrow> order option" where
  "getOrder s orderID = (case kv_get (market_store s) (orderBookKey orderID) of Some (VOrder x) \<Rightarrow> Some x | _ \<Rightarrow> None)"

definition Update :: "'y sdk_scheme \<Rightarrow> string \<Rightarrow> order \<Rightarrow> (('b, 'z) market_state_scheme, unit) op" where
  "Update S symbol odr =
     and_then (store_set (orderBookKey (OrderID S odr)) (VOrder odr)) (\<lambda>_.
     and_then (lift (orderQueueKey S symbol odr)) (\<lambda>key.
     and_then (store_set key VMark) (\<lambda>_.
     and_then (whenever (Side odr = BID) (store_set (bidListKey S symbol odr) VMark)) (\<lambda>_.
     whenever (Side odr = ASK) (store_set (askListKey S symbol odr) VMark)))))"

definition Add :: "'y sdk_scheme \<Rightarrow> string \<Rightarrow> order \<Rightarrow> (('b, 'z) market_state_scheme, unit) op" where
  "Add S symbol odr = and_then (store_set (NewlyAddedKeyPrefix @ symbol) VMark) (\<lambda>_. Update S symbol odr)"

definition Remove :: "'y sdk_scheme \<Rightarrow> string \<Rightarrow> order \<Rightarrow> (('b, 'z) market_state_scheme, unit) op" where
  "Remove S symbol odr s =
     (if getOrder s (OrderID S odr) = None then (Err MarketErrNoExistKeyInStore, s)
      else and_then (store_delete (orderBookKey (OrderID S odr))) (\<lambda>_.
           and_then (lift (orderQueueKey S symbol odr)) (\<lambda>key.
           and_then (store_delete key) (\<lambda>_.
           and_then (whenever (Side odr = BID) (store_delete (bidListKey S symbol odr))) (\<lambda>_.
           whenever (Side odr = ASK) (store_delete (askListKey S symbol odr)))))) s)"

text \<open>
  The pointers an iterator over the queue gives: \<open>nil\<close> (\<open>None\<close>) would be an entry without order.
\<close>

definition GetOlderThan :: "string \<Rightarrow> int \<Rightarrow> ('b, 'z) market_state_scheme \<Rightarrow> order option list ret" where
  "GetOlderThan symbol height s = ret_map (\<lambda>h.
     let start = ConcatKeys [OrderQueueKeyPrefix, symbol, x00];
         en = ConcatKeys [OrderQueueKeyPrefix, symbol, x00, h]
     in map (\<lambda>e. getOrder s (drop (length en) (fst e))) (kv_reverse_iterator start en (market_store s)))
     (int64ToBigEndianBytes height)"

definition GetOrdersAtHeight :: "string \<Rightarrow> int \<Rightarrow> ('b, 'z) market_state_scheme \<Rightarrow> order option list ret" where
  "GetOrdersAtHeight symbol height s = ret_bind (int64ToBigEndianBytes height) (\<lambda>h. ret_map (\<lambda>h1.
     let start = ConcatKeys [OrderQueueKeyPrefix, symbol, x00, h];
         en = ConcatKeys [OrderQueueKeyPrefix, symbol, x00, h1]
     in map (\<lambda>e. getOrder s (drop (length en) (fst e))) (kv_iterator start en (market_store s)))
     (int64ToBigEndianBytes (i64 (height + 1))))"

text \<open>
  The candidates for matching. Every key of a list has the price at the positions sliced here (the
  lists only hold keys of \<open>bidListKey\<close> and \<open>askListKey\<close>).
\<close>

definition price_part :: "nat \<Rightarrow> string \<Rightarrow> string" where
  "price_part priceStartPos key = take DecByteCount (drop priceStartPos key)"

definition id_part :: "nat \<Rightarrow> string \<Rightarrow> string" where
  "id_part priceStartPos key = drop (priceStartPos + DecByteCount) key"

definition candidate_ids :: "string \<Rightarrow> ('b, 'z) market_state_scheme \<Rightarrow> string list" where
  "candidate_ids symbol s =
     (let pos = length symbol + 2;
          bids = map fst (kv_reverse_iterator (ConcatKeys [BidListKeyPrefix, symbol, x00])
            (ConcatKeys [BidListKeyPrefix, symbol, x01]) (market_store s));
          asks = map fst (kv_iterator (ConcatKeys [AskListKeyPrefix, symbol, x00])
            (ConcatKeys [AskListKeyPrefix, symbol, x01]) (market_store s))
      in case (bids, asks) of
          (firstBidKey # bidKeys, firstAskKey # askKeys) \<Rightarrow>
            if price_part pos firstAskKey > price_part pos firstBidKey then []
            else [id_part pos firstBidKey, id_part pos firstAskKey] @
              map (id_part pos) (takeWhile (\<lambda>k. \<not> price_part pos k > price_part pos firstBidKey) askKeys) @
              map (id_part pos) (takeWhile (\<lambda>k. \<not> price_part pos firstAskKey > price_part pos k) bidKeys)
        | _ \<Rightarrow> [])"

definition GetMatchingCandidates :: "string \<Rightarrow> (('b, 'z) market_state_scheme, order list) op" where
  "GetMatchingCandidates symbol =
     and_then (store_delete (NewlyAddedKeyPrefix @ symbol)) (\<lambda>_.
     gets (\<lambda>s. List.map_filter (getOrder s) (candidate_ids symbol s)))"

subsection \<open>The global order keeper\<close>

definition QueryOrder :: "('b, 'z) market_state_scheme \<Rightarrow> string \<Rightarrow> order option" where
  "QueryOrder s orderID = (case kv_get (market_store s) (orderBookKey orderID) of Some (VOrder x) \<Rightarrow> Some x | _ \<Rightarrow> None)"

definition order_of :: "market_val \<Rightarrow> order option" where
  "order_of v = (case v of VOrder x \<Rightarrow> Some x | _ \<Rightarrow> None)"

definition GetAllOrders :: "('b, 'z) market_state_scheme \<Rightarrow> order list" where
  "GetAllOrders s = List.map_filter (\<lambda>e. order_of (snd e))
     (kv_iterator (ConcatKeys [OrderBookKeyPrefix, x00]) (ConcatKeys [OrderBookKeyPrefix, x01]) (market_store s))"

definition GetOrdersFromUser :: "('b, 'z) market_state_scheme \<Rightarrow> string \<Rightarrow> string list" where
  "GetOrdersFromUser s user =
     (let key = orderBookKey (user @ ''-''); nextKey = orderBookKey (user @ [byte 255]);
          startPos = length key - length user - 1
      in map (\<lambda>e. drop startPos (fst e)) (kv_iterator key nextKey (market_store s)))"

definition SetOrder :: "'y sdk_scheme \<Rightarrow> order \<Rightarrow> (('b, 'z) market_state_scheme, unit) op" where
  "SetOrder S odr = Add S (TradingPair odr) odr"

definition GetMarketsWithNewlyAddedOrder :: "('b, 'z) market_state_scheme \<Rightarrow> string list" where
  "GetMarketsWithNewlyAddedOrder s =
     map (\<lambda>e. drop 1 (fst e)) (kv_iterator NewlyAddedKeyPrefix NewlyAddedKeyEnd (market_store s))"

subsection \<open>Markets\<close>

definition marketStoreKey :: "string \<Rightarrow> string list \<Rightarrow> string" where
  "marketStoreKey prefix params = prefix @ concat params"

definition SetMarket :: "MarketInfo \<Rightarrow> (('b, 'z) market_state_scheme, unit) op" where
  "SetMarket info = store_set (marketStoreKey MarketIdentifierPrefix [MarketInfo_GetSymbol info]) (VMarket info)"

definition RemoveMarket :: "string \<Rightarrow> (('b, 'z) market_state_scheme, unit) op" where
  "RemoveMarket symbol = store_delete (marketStoreKey MarketIdentifierPrefix [symbol])"

definition market_of :: "market_val \<Rightarrow> MarketInfo option" where
  "market_of v = (case v of VMarket x \<Rightarrow> Some x | _ \<Rightarrow> None)"

definition GetAllMarketInfos :: "('b, 'z) market_state_scheme \<Rightarrow> MarketInfo list" where
  "GetAllMarketInfos s =
     List.map_filter (\<lambda>e. market_of (snd e)) (kv_prefix_iterator MarketIdentifierPrefix (market_store s))"

definition MarketCountOfStock :: "('b, 'z) market_state_scheme \<Rightarrow> string \<Rightarrow> int" where
  "MarketCountOfStock s stock = int (length (kv_prefix_iterator
     (marketStoreKey MarketIdentifierPrefix [stock, [SymbolSeparator]]) (market_store s)))"

definition GetMarketInfo :: "('b, 'z) market_state_scheme \<Rightarrow> string \<Rightarrow> MarketInfo option" where
  "GetMarketInfo s symbol =
     (case kv_get (market_store s) (marketStoreKey MarketIdentifierPrefix [symbol]) of Some (VMarket x) \<Rightarrow> Some x | _ \<Rightarrow> None)"

definition IsMarketExist :: "('b, 'z) market_state_scheme \<Rightarrow> string \<Rightarrow> bool" where
  "IsMarketExist s symbol = (GetMarketInfo s symbol \<noteq> None)"

definition GetMarketLastExePrice :: "('b, 'z) market_state_scheme \<Rightarrow> string \<Rightarrow> dec ret" where
  "GetMarketLastExePrice s symbol =
     (case GetMarketInfo s symbol of None \<Rightarrow> Err PlainErr | Some mi \<Rightarrow> Ok (mi_LastExecutedPrice mi))"

definition MarketOwner :: "('b, 'z) market_state_scheme \<Rightarrow> MarketInfo \<Rightarrow> addr ret" where
  "MarketOwner s info = (case GetToken s (mi_Stock info) of None \<Rightarrow> Panic | Some t \<Rightarrow> Ok (Owner t))"

definition GetMarketVolume ::
    "'y sdk_scheme \<Rightarrow> ('b, 'z) market_state_scheme \<Rightarrow> string \<Rightarrow> string \<Rightarrow> dec \<Rightarrow> dec \<Rightarrow> dec" where
  "GetMarketVolume S s stock money stockVolume moneyVolume =
     (if stock = CET then stockVolume
      else if money = CET then moneyVolume
      else case GetMarketInfo s (GetSymbol CET money) of
        Some mi \<Rightarrow> if mi_LastExecutedPrice mi = 0 then 0 else dec_Quo S moneyVolume (mi_LastExecutedPrice mi)
      | None \<Rightarrow> (case GetMarketInfo s (GetSymbol CET stock) of
          Some mi \<Rightarrow> if mi_LastExecutedPrice mi = 0 then 0 else dec_Quo S stockVolume (mi_LastExecutedPrice mi)
        | None \<Rightarrow> (case GetMarketInfo s (GetSymbol money CET) of
            Some mi \<Rightarrow> dec_Mul S moneyVolume (mi_LastExecutedPrice mi)
          | None \<Rightarrow> (case GetMarketInfo s (GetSymbol stock CET) of
              Some mi \<Rightarrow> dec_Mul S stockVolume (mi_LastExecutedPrice mi)
            | None \<Rightarrow> 0))))"

definition QuerySeqWithAddr :: "('b, 'y) cosmos_scheme \<Rightarrow> ('b, 'z) base_state_scheme \<Rightarrow> addr \<Rightarrow> nat ret" where
  "QuerySeqWithAddr C s a =
     (if acc_exists C (bank s) a then Ok (acc_Sequence C (bank s) a) else Err (SdkErr ''ErrUnknownAddress''))"

text \<open>The market's keeper gives \<open>nil\<close> for every empty referee.\<close>

definition market_GetRefereeAddr :: "('b, 'z) authx_state_scheme \<Rightarrow> addr \<Rightarrow> addr option" where
  "market_GetRefereeAddr s a = (case GetRefereeAddr s a of None \<Rightarrow> None
    | Some r \<Rightarrow> if length r = 0 then None else Some r)"

subsection \<open>Delist requests\<close>

definition getDelistKey :: "int \<Rightarrow> string \<Rightarrow> string ret" where
  "getDelistKey t symbol = ret_map (\<lambda>b. ConcatKeys [DelistKey, b, x00, symbol]) (int64ToBigEndianBytes t)"

definition getDelistKeyRangeByTime :: "int \<Rightarrow> (string \<times> string) ret" where
  "getDelistKeyRangeByTime t = ret_bind (int64ToBigEndianBytes 0) (\<lambda>b0. ret_map
     (\<lambda>b. (ConcatKeys [DelistKey, b0, x00], ConcatKeys [DelistKey, b, x01])) (int64ToBigEndianBytes t))"

definition AddDelistRequest :: "int \<Rightarrow> string \<Rightarrow> (('b, 'z) market_state_scheme, unit) op" where
  "AddDelistRequest t symbol =
     and_then (lift (getDelistKey t symbol)) (\<lambda>key.
     and_then (store_set key (VSymbol symbol)) (\<lambda>_. store_set (DelistRevKey @ symbol) (VNum t)))"

definition HasDelistRequest :: "('b, 'z) market_state_scheme \<Rightarrow> string \<Rightarrow> bool" where
  "HasDelistRequest s symbol = kv_has (market_store s) (DelistRevKey @ symbol)"

definition GetDelistSymbolsBeforeTime :: "('b, 'z) market_state_scheme \<Rightarrow> int \<Rightarrow> string list ret" where
  "GetDelistSymbolsBeforeTime s t = ret_map
     (\<lambda>(start, en). map (\<lambda>e. drop (length start) (fst e)) (kv_iterator start en (market_store s)))
     (getDelistKeyRangeByTime t)"

definition symbol_of :: "market_val \<Rightarrow> string" where
  "symbol_of v = (case v of VSymbol x \<Rightarrow> x | _ \<Rightarrow> [])"

definition RemoveDelistRequestsBeforeTime :: "int \<Rightarrow> (('b, 'z) market_state_scheme, unit) op" where
  "RemoveDelistRequestsBeforeTime t s =
     and_then (lift (getDelistKeyRangeByTime t)) (\<lambda>(start, en).
       let entries = kv_iterator start en (market_store s)
       in and_then (foreach (\<lambda>e. store_delete (fst e)) entries) (\<lambda>_.
          foreach (\<lambda>e. store_delete (DelistRevKey @ symbol_of (snd e))) entries)) s"

end
