(* ===== verification/MarketMsgs.thy ===== *)
theory MarketMsgs
  imports MarketKeeper
begin

section \<open>The market's messages\<close>

text \<open>\<open>src/modules/market/internal/types/msgs.go\<close>: the five messages, their basic checks and signers.\<close>

record MsgCreateTradingPair =
  ctp_Stock :: string
  ctp_Money :: string
  ctp_Creator :: addr
  ctp_PricePrecision :: nat
  ctp_OrderPrecision :: nat

record MsgCreateOrder =
  co_Sender :: addr
  co_Identify :: nat
  co_TradingPair :: string
  co_OrderType :: nat
  co_PricePrecision :: nat
  co_Price :: int
  co_Quantity :: int
  co_Side :: nat
  co_TimeInForce :: int
  co_ExistBlocks :: int

record MsgCancelOrder =
  ca_Sender :: addr
  ca_OrderID :: string

record MsgCancelTradingPair =
  ct_Sender :: addr
  ct_TradingPair :: string
  ct_EffectiveTime :: int

record MsgModifyPricePrecision =
  mp_Sender :: addr
  mp_TradingPair :: string
  mp_PricePrecision :: nat

definition IsValidTradingPair :: "string list \<Rightarrow> bool" where
  "IsValidTradingPair tokens =
     (if length tokens \<noteq> 2 then False
      else ValidateTokenSymbol (tokens ! 0) = Ok () \<and> ValidateTokenSymbol (tokens ! 1) = Ok ())"

definition MsgCreateTradingPair_ValidateBasic :: "'y sdk_scheme \<Rightarrow> MsgCreateTradingPair \<Rightarrow> unit ret" where
  "MsgCreateTradingPair_ValidateBasic S msg =
     (if \<not> addr_Verify S (ctp_Creator msg) then Err MarketErrInvalidAddress
      else if \<not> IsValidTradingPair [ctp_Stock msg, ctp_Money msg] then Err MarketErrInvalidSymbol
      else if ctp_PricePrecision msg > MaxTokenPricePrecision then Err MarketErrInvalidPricePrecision
      else if ctp_Money msg = ctp_Stock msg then Err MarketErrStockAndMoneyAreSame
      else Ok ())"

definition MsgCreateTradingPair_GetSigners :: "MsgCreateTradingPair \<Rightarrow> addr list" where
  "MsgCreateTradingPair_GetSigners msg = [ctp_Creator msg]"

definition MsgCreateOrder_ValidateBasic :: "'y sdk_scheme \<Rightarrow> MsgCreateOrder \<Rightarrow> unit ret" where
  "MsgCreateOrder_ValidateBasic S msg =
     (if \<not> addr_Verify S (co_Sender msg) then Err MarketErrInvalidAddress
      else if \<not> IsValidTradingPair (split_on SymbolSeparator (co_TradingPair msg)) then Err MarketErrInvalidSymbol
      else if co_OrderType msg \<noteq> LimitOrder then Err MarketErrInvalidOrderType
      else if co_PricePrecision msg > MaxTokenPricePrecision then Err MarketErrInvalidPricePrecision
      else if co_Price msg \<le> 0 then Err MarketErrInvalidPrice
      else if co_Quantity msg \<le> 0 then Err MarketErrOrderAmountTooSmall
      else if co_Side msg \<noteq> BUY \<and> co_Side msg \<noteq> SELL then Err MarketErrInvalidTradeSide
      else if co_TimeInForce msg \<noteq> GTE \<and> co_TimeInForce msg \<noteq> IOC then Err MarketErrInvalidTimeInForce
      else if co_ExistBlocks msg < 0 then Err MarketErrInvalidExistBlocks
      else Ok ())"

definition MsgCreateOrder_GetSigners :: "MsgCreateOrder \<Rightarrow> addr list" where
  "MsgCreateOrder_GetSigners msg = [co_Sender msg]"

definition IsGTEOrder :: "MsgCreateOrder \<Rightarrow> bool" where
  "IsGTEOrder msg = (co_TimeInForce msg = GTE)"

text \<open>
  \<open>strconv.Atoi\<close> without error and with a non-negative value: an optional sign (\<open>-0\<close> is zero), at
  least one digit and nothing else, and a value below \<open>2 ^ 63\<close>.
\<close>

definition is_digit :: "char \<Rightarrow> bool" where
  "is_digit c = (48 \<le> (of_char c :: nat) \<and> (of_char c :: nat) \<le> 57)"

definition digits_value :: "string \<Rightarrow> int" where
  "digits_value ds = foldl (\<lambda>n c. 10 * n + (int (of_char c) - 48)) 0 ds"

definition Atoi_nonneg :: "string \<Rightarrow> bool" where
  "Atoi_nonneg x =
     (let (neg, ds) = (case x of [] \<Rightarrow> (False, []) | c # cs \<Rightarrow>
            if c = CHR ''+'' then (False, cs) else if c = CHR ''-'' then (True, cs) else (False, c # cs))
      in ds \<noteq> [] \<and> list_all is_digit ds \<and> digits_value ds < 2 ^ 63 \<and> (neg \<longrightarrow> digits_value ds = 0))"

definition ValidateOrderID :: "'y sdk_scheme \<Rightarrow> string \<Rightarrow> unit ret" where
  "ValidateOrderID S oid =
     (let contents = split_on OrderIDSeparator oid
      in if length contents \<noteq> 2 then Err MarketErrInvalidOrderID
         else if \<not> Atoi_nonneg (contents ! 1) then Err MarketErrInvalidOrderID
         else if addr_FromBech32 S (contents ! 0) = None then Err MarketErrInvalidAddress
         else Ok ())"

definition MsgCancelOrder_ValidateBasic :: "'y sdk_scheme \<Rightarrow> MsgCancelOrder \<Rightarrow> unit ret" where
  "MsgCancelOrder_ValidateBasic S msg =
     (if \<not> addr_Verify S (ca_Sender msg) then Err MarketErrInvalidAddress
      else ValidateOrderID S (ca_OrderID msg))"

definition MsgCancelOrder_GetSigners :: "MsgCancelOrder \<Rightarrow> addr list" where
  "MsgCancelOrder_GetSigners msg = [ca_Sender msg]"

definition MsgCancelTradingPair_ValidateBasic :: "'y sdk_scheme \<Rightarrow> MsgCancelTradingPair \<Rightarrow> unit ret" where
  "MsgCancelTradingPair_ValidateBasic S msg =
     (if \<not> addr_Verify S (ct_Sender msg) then Err MarketErrInvalidAddress
      else if \<not> IsValidTradingPair (split_on SymbolSeparator (ct_TradingPair msg)) then Err MarketErrInvalidSymbol
      else if ct_EffectiveTime msg < 0 then Err MarketErrInvalidCancelTime
      else Ok ())"

definition MsgCancelTradingPair_GetSigners :: "MsgCancelTradingPair \<Rightarrow> addr list" where
  "MsgCancelTradingPair_GetSigners msg = [ct_Sender msg]"

definition MsgModifyPricePrecision_ValidateBasic :: "'y sdk_scheme \<Rightarrow> MsgModifyPricePrecision \<Rightarrow> unit ret" where
  "MsgModifyPricePrecision_ValidateBasic S msg =
     (if \<not> addr_Verify S (mp_Sender msg) then Err MarketErrInvalidAddress
      else if \<not> IsValidTradingPair (split_on SymbolSeparator (mp_TradingPair msg)) then Err MarketErrInvalidSymbol
      else if mp_PricePrecision msg > MaxTokenPricePrecision then Err MarketErrInvalidPricePrecision
      else Ok ())"

definition MsgModifyPricePrecision_GetSigners :: "MsgModifyPricePrecision \<Rightarrow> addr list" where
  "MsgModifyPricePrecision_GetSigners msg = [mp_Sender msg]"

text \<open>The keys of the message queue's events and the reasons a cancelled order is given.\<close>

definition CreateMarketInfoKey :: string where "CreateMarketInfoKey = ''create_market_info''"
definition CreateOrderInfoKey :: string where "CreateOrderInfoKey = ''create_order_info''"
definition FillOrderInfoKey :: string where "FillOrderInfoKey = ''fill_order_info''"
definition CancelOrderInfoKey :: string where "CancelOrderInfoKey = ''del_order_info''"

definition CancelOrderByManual :: string where "CancelOrderByManual = ''Manually cancel the order''"
definition CancelOrderByAllFilled :: string where "CancelOrderByAllFilled = ''The order was fully filled''"
definition CancelOrderByGteTimeOut :: string where "CancelOrderByGteTimeOut = ''GTE order timeout''"
definition CancelOrderByIocType :: string where "CancelOrderByIocType = ''IOC order cancel ''"
definition CancelOrderByNoEnoughMoney :: string where "CancelOrderByNoEnoughMoney = ''Insufficient freeze money''"
definition CancelOrderByNotKnow :: string where "CancelOrderByNotKnow = ''Don'' @ [CHR 39] @ ''t know''"

end
