(* ===== verification/Bancor.thy ===== *)
theory Bancor
  imports MarketMsgs
begin

section \<open>The bancorlite module: pools, messages and keeper\<close>

text \<open>
  \<open>src/modules/bancorlite\<close>: a pool that sells a token along a price curve and buys it back. The curve is
  linear, or a power function read off a table of 6001 by 1001 numbers with interpolation between its columns.
  \<open>table.go\<close> is written by the generator in \<open>bancortable\<close>, so the table is a parameter; so are the
  decimal operations this module needs beyond those of \<open>Sdk\<close>, with the panic of a result that is too big.
\<close>

record bancor_lib =
  chk_Add :: "dec \<Rightarrow> dec \<Rightarrow> dec ret"
  chk_Sub :: "dec \<Rightarrow> dec \<Rightarrow> dec ret"
  chk_Mul :: "dec \<Rightarrow> dec \<Rightarrow> dec ret"
  chk_MulTruncate :: "dec \<Rightarrow> dec \<Rightarrow> dec ret"
  chk_MulInt :: "dec \<Rightarrow> int \<Rightarrow> dec ret"
  chk_Quo :: "dec \<Rightarrow> dec \<Rightarrow> dec ret"
  chk_QuoTruncate :: "dec \<Rightarrow> dec \<Rightarrow> dec ret"
  int_Mul :: "int \<Rightarrow> int \<Rightarrow> int ret"
  NewDecFromStr :: "string \<Rightarrow> dec option"
  BancorTable :: "nat \<Rightarrow> nat \<Rightarrow> int"

definition int_Quo_ret :: "int \<Rightarrow> int \<Rightarrow> int ret" where
  "int_Quo_ret a b = (if b = 0 then Panic else Ok (go_quo a b))"

subsection \<open>Constants, errors and parameters (\<open>keys.go\<close>, \<open>errors.go\<close>, \<open>params.go\<close>)\<close>

definition ModuleName_bancor :: string where "ModuleName_bancor = ''bancorlite''"
definition Topic_bancor :: string where "Topic_bancor = ModuleName_bancor"

definition BancorErrInvalidSymbol :: err where "BancorErrInvalidSymbol = ModErr ModuleName_bancor 1001"
definition BancorErrNonPositiveSupply :: err where "BancorErrNonPositiveSupply = ModErr ModuleName_bancor 1002"
definition BancorErrNonPositivePrice :: err where "BancorErrNonPositivePrice = ModErr ModuleName_bancor 1003"
definition BancorErrNonPositiveAmount :: err where "BancorErrNonPositiveAmount = ModErr ModuleName_bancor 1004"
definition BancorErrTradeAmountIsTooLarge :: err where "BancorErrTradeAmountIsTooLarge = ModErr ModuleName_bancor 1005"
definition BancorErrBancorAlreadyExists :: err where "BancorErrBancorAlreadyExists = ModErr ModuleName_bancor 1006"
definition BancorErrNoSuchToken :: err where "BancorErrNoSuchToken = ModErr ModuleName_bancor 1007"
definition BancorErrNonOwnerIsProhibited :: err where "BancorErrNonOwnerIsProhibited = ModErr ModuleName_bancor 1008"
definition BancorErrNoBancorExists :: err where "BancorErrNoBancorExists = ModErr ModuleName_bancor 1009"
definition BancorErrOwnerIsProhibited :: err where "BancorErrOwnerIsProhibited = ModErr ModuleName_bancor 1010"
definition BancorErrStockInPoolOutofBound :: err where "BancorErrStockInPoolOutofBound = ModErr ModuleName_bancor 1011"
definition BancorErrMoneyCrossLimit :: err where "BancorErrMoneyCrossLimit = ModErr ModuleName_bancor 1012"
definition BancorErrNegativePrice :: err where "BancorErrNegativePrice = ModErr ModuleName_bancor 1015"
definition BancorErrNotBancorOwner :: err where "BancorErrNotBancorOwner = ModErr ModuleName_bancor 1017"
definition BancorErrEarliestCancelTimeNotArrive :: err where
  "BancorErrEarliestCancelTimeNotArrive = ModErr ModuleName_bancor 1018"
definition BancorErrPriceConfiguration :: err where "BancorErrPriceConfiguration = ModErr ModuleName_bancor 1020"
definition BancorErrEarliestCancelTimeIsNegative :: err where
  "BancorErrEarliestCancelTimeIsNegative = ModErr ModuleName_bancor 1021"
definition BancorErrTokenForbiddenByOwner :: err where "BancorErrTokenForbiddenByOwner = ModErr ModuleName_bancor 1023"
definition BancorErrStockSupplyPrecisionNotMatch :: err where
  "BancorErrStockSupplyPrecisionNotMatch = ModErr ModuleName_bancor 1024"
definition BancorErrPriceFmt :: err where "BancorErrPriceFmt = ModErr ModuleName_bancor 1025"
definition BancorErrStockAmountPrecisionNotMatch :: err where
  "BancorErrStockAmountPrecisionNotMatch = ModErr ModuleName_bancor 1026"
definition BancorErrTradeMoneyNotPositive :: err where "BancorErrTradeMoneyNotPositive = ModErr ModuleName_bancor 1027"
definition BancorErrMaxSupplyTooBig :: err where "BancorErrMaxSupplyTooBig = ModErr ModuleName_bancor 1028"
definition BancorErrPriceTooBig :: err where "BancorErrPriceTooBig = ModErr ModuleName_bancor 1029"
definition BancorErrAlphaBreakLimit :: err where "BancorErrAlphaBreakLimit = ModErr ModuleName_bancor 1030"
definition BancorErrMaxMoneyTooBig :: err where "BancorErrMaxMoneyTooBig = ModErr ModuleName_bancor 1031"
definition BancorErrNegativeMaxMoney :: err where "BancorErrNegativeMaxMoney = ModErr ModuleName_bancor 1032"

record bancor_params =
  CreateBancorFee :: int
  CancelBancorFee :: int
  TradeFeeRate :: int

definition bancor_DefaultParams :: bancor_params where
  "bancor_DefaultParams = \<lparr>CreateBancorFee = 10000000000, CancelBancorFee = 10000000000, TradeFeeRate = 10\<rparr>"

definition bancor_ValidateGenesis :: "bancor_params \<Rightarrow> unit ret" where
  "bancor_ValidateGenesis p =
     (if CreateBancorFee p \<le> 0 \<or> CancelBancorFee p \<le> 0 then Err PlainErr
      else if TradeFeeRate p < 0 \<or> TradeFeeRate p \<ge> pow10_i64 4 then Err PlainErr
      else Ok ())"

subsection \<open>Messages (\<open>msgs.go\<close>)\<close>

definition MaxTradeAmount :: int where
  "MaxTradeAmount = 10000 * 10000 * 10000 * 10000 * 100"

record MsgBancorInit =
  bn_Owner :: addr
  bn_Stock :: string
  bn_Money :: string
  bn_InitPrice :: string
  bn_MaxSupply :: int
  bn_MaxPrice :: string
  bn_MaxMoney :: int
  bn_StockPrecision :: nat
  bn_EarliestCancelTime :: int

record MsgBancorCancel =
  bc_Owner :: addr
  bc_Stock :: string
  bc_Money :: string

record MsgBancorTrade =
  tr_Sender :: addr
  tr_Stock :: string
  tr_Money :: string
  tr_Amount :: int
  tr_IsBuy :: bool
  tr_MoneyLimit :: int

definition MsgBancorInit_GetSymbol :: "MsgBancorInit \<Rightarrow> string" where
  "MsgBancorInit_GetSymbol msg = GetSymbol (bn_Stock msg) (bn_Money msg)"

definition MsgBancorCancel_GetSymbol :: "MsgBancorCancel \<Rightarrow> string" where
  "MsgBancorCancel_GetSymbol msg = GetSymbol (bc_Stock msg) (bc_Money msg)"

definition MsgBancorTrade_GetSymbol :: "MsgBancorTrade \<Rightarrow> string" where
  "MsgBancorTrade_GetSymbol msg = GetSymbol (tr_Stock msg) (tr_Money msg)"

definition CheckStockPrecision :: "int \<Rightarrow> nat \<Rightarrow> bool" where
  "CheckStockPrecision amount precision =
     (let precision = (if precision > 8 then 0 else precision)
      in if precision \<noteq> 0 then amount mod pow10_i64 precision = 0 else True)"

text \<open>A deferred \<open>recover\<close>: a panic becomes the value \<open>x\<close>.\<close>

definition recover :: "'a \<Rightarrow> 'a ret \<Rightarrow> 'a ret" where
  "recover x m = (case m of Panic \<Rightarrow> Ok x | _ \<Rightarrow> m)"

definition MaxAR :: int where "MaxAR = 5000"
definition ARSamples :: int where "ARSamples = 1000"
definition SupplyRatioSamples :: int where "SupplyRatioSamples = 1000"

definition CalculateAR :: "'y sdk_scheme \<Rightarrow> bancor_lib \<Rightarrow> int \<Rightarrow> int \<Rightarrow> dec \<Rightarrow> dec \<Rightarrow> int ret" where
  "CalculateAR S D maxSupply maxMoney initPrice maxPrice =
     (if maxPrice = initPrice then Ok 0
      else ret_bind (chk_MulInt D initPrice maxSupply) (\<lambda>least.
        if NewDec S maxMoney \<le> least then Ok 0
        else ret_bind (chk_MulInt D maxPrice maxSupply) (\<lambda>most.
             ret_bind (chk_Sub D most (NewDec S maxMoney)) (\<lambda>above.
             ret_bind (chk_Sub D (NewDec S maxMoney) least) (\<lambda>below.
             ret_bind (chk_QuoTruncate D above below) (\<lambda>q.
             ret_bind (chk_MulInt D q ARSamples) (dec_TruncateInt64 S)))))))"

definition CheckAR :: "'y sdk_scheme \<Rightarrow> bancor_lib \<Rightarrow> int \<Rightarrow> int \<Rightarrow> dec \<Rightarrow> dec \<Rightarrow> (int \<times> bool) ret" where
  "CheckAR S D maxSupply maxMoney initPrice maxPrice = recover (0, False)
     (if maxMoney \<noteq> 0
      then ret_map (\<lambda>ar. if ar = 0 then (0, False) else (ar, True)) (CalculateAR S D maxSupply maxMoney initPrice maxPrice)
      else Ok (0, True))"

definition checkMaxPrice :: "'y sdk_scheme \<Rightarrow> bancor_lib \<Rightarrow> dec \<Rightarrow> dec \<Rightarrow> int \<Rightarrow> unit ret" where
  "checkMaxPrice S D initPrice maxPrice maxSupply =
     (if initPrice > maxPrice then Err BancorErrPriceConfiguration
      else ret_bind (recover True
         (ret_bind (chk_Add D initPrice maxPrice) (\<lambda>x.
          ret_bind (dec_QuoInt_ret S x 2) (\<lambda>x.
          ret_map (\<lambda>x. x > NewDec S MaxTradeAmount) (chk_MulInt D x maxSupply))))) (\<lambda>big.
        if big then Err BancorErrPriceTooBig else Ok ()))"

definition MsgBancorInit_ValidateBasic :: "'y sdk_scheme \<Rightarrow> bancor_lib \<Rightarrow> MsgBancorInit \<Rightarrow> unit ret" where
  "MsgBancorInit_ValidateBasic S D msg =
     (if length (bn_Owner msg) = 0 then Err (SdkErr ''ErrInvalidAddress'')
      else if length (bn_Stock msg) = 0 \<or> length (bn_Money msg) = 0 then Err BancorErrInvalidSymbol
      else if \<not> IsValidTradingPair [bn_Stock msg, bn_Money msg] then Err BancorErrInvalidSymbol
      else if \<not> 0 < bn_MaxSupply msg then Err BancorErrNonPositiveSupply
      else if bn_MaxSupply msg > MaxTradeAmount then Err BancorErrMaxSupplyTooBig
      else if bn_MaxMoney msg < 0 then Err BancorErrNegativeMaxMoney
      else if bn_MaxMoney msg > MaxTradeAmount then Err BancorErrMaxMoneyTooBig
      else case NewDecFromStr D (bn_MaxPrice msg) of None \<Rightarrow> Err BancorErrPriceFmt | Some maxPrice \<Rightarrow>
        if \<not> 0 < maxPrice then Err BancorErrNonPositivePrice
        else case NewDecFromStr D (bn_InitPrice msg) of None \<Rightarrow> Err BancorErrPriceFmt | Some initPrice \<Rightarrow>
          if initPrice < 0 then Err BancorErrNegativePrice
          else ret_bind (CheckAR S D (bn_MaxSupply msg) (bn_MaxMoney msg) initPrice maxPrice) (\<lambda>(ar, ok).
            if ar > MaxAR \<or> ar < 0 \<or> \<not> ok then Err BancorErrAlphaBreakLimit
            else ret_bind (if ar = 0 then checkMaxPrice S D initPrice maxPrice (bn_MaxSupply msg) else Ok ()) (\<lambda>_.
              if \<not> CheckStockPrecision (bn_MaxSupply msg) (bn_StockPrecision msg)
              then Err BancorErrStockSupplyPrecisionNotMatch
              else if bn_EarliestCancelTime msg < 0 then Err BancorErrEarliestCancelTimeIsNegative
              else Ok ())))"

definition MsgBancorCancel_ValidateBasic :: "MsgBancorCancel \<Rightarrow> unit ret" where
  "MsgBancorCancel_ValidateBasic msg =
     (if length (bc_Owner msg) = 0 then Err (SdkErr ''ErrInvalidAddress'')
      else if length (bc_Stock msg) = 0 \<or> length (bc_Money msg) = 0 then Err BancorErrInvalidSymbol
      else Ok ())"

definition MsgBancorTrade_ValidateBasic :: "MsgBancorTrade \<Rightarrow> unit ret" where
  "MsgBancorTrade_ValidateBasic msg =
     (if length (tr_Sender msg) = 0 then Err (SdkErr ''ErrInvalidAddress'')
      else if length (tr_Stock msg) = 0 \<or> length (tr_Money msg) = 0 \<or> tr_Stock msg = ''cet'' then Err BancorErrInvalidSymbol
      else if \<not> IsValidTradingPair [tr_Stock msg, tr_Money msg] then Err BancorErrInvalidSymbol
      else if tr_Amount msg \<le> 0 then Err BancorErrNonPositiveAmount
      else if tr_Amount msg > MaxTradeAmount then Err BancorErrTradeAmountIsTooLarge
      else Ok ())"

definition MsgBancorInit_GetSigners :: "MsgBancorInit \<Rightarrow> addr list" where "MsgBancorInit_GetSigners msg = [bn_Owner msg]"
definition MsgBancorCancel_GetSigners :: "MsgBancorCancel \<Rightarrow> addr list" where "MsgBancorCancel_GetSigners msg = [bc_Owner msg]"
definition MsgBancorTrade_GetSigners :: "MsgBancorTrade \<Rightarrow> addr list" where "MsgBancorTrade_GetSigners msg = [tr_Sender msg]"

subsection \<open>Pools (\<open>bancor_info.go\<close>)\<close>

record bancor_info =
  bi_Owner :: addr
  bi_Stock :: string
  bi_Money :: string
  bi_InitPrice :: dec
  bi_MaxSupply :: int
  bi_StockPrecision :: nat
  bi_MaxPrice :: dec
  bi_MaxMoney :: int
  bi_AR :: int
  bi_Price :: dec
  bi_StockInPool :: int
  bi_MoneyInPool :: int
  bi_EarliestCancelTime :: int

definition bancor_GetSymbol :: "bancor_info \<Rightarrow> string" where
  "bancor_GetSymbol bi = GetSymbol (bi_Stock bi) (bi_Money bi)"

definition TableLookup :: "'y sdk_scheme \<Rightarrow> bancor_lib \<Rightarrow> int \<Rightarrow> int \<Rightarrow> dec ret" where
  "TableLookup S D x y =
     (if 0 \<le> x \<and> x < 6001 \<and> 0 \<le> y \<and> y < 1001
      then Ok (dec_Quo S (NewDec S (BancorTable D (nat x) (nat y))) (NewDec S (2 ^ 31 - 1))) else Panic)"

text \<open>The linear curve: price and money for the stock supplied so far.\<close>

definition linear_price :: "'y sdk_scheme \<Rightarrow> bancor_lib \<Rightarrow> bancor_info \<Rightarrow> int \<Rightarrow> dec ret" where
  "linear_price S D bi supplied =
     ret_bind (chk_Sub D (bi_MaxPrice bi) (bi_InitPrice bi)) (\<lambda>x.
     ret_bind (chk_MulInt D x supplied) (\<lambda>x.
     ret_bind (dec_QuoInt_ret S x (bi_MaxSupply bi)) (\<lambda>x. chk_Add D x (bi_InitPrice bi))))"

definition linear_money :: "'y sdk_scheme \<Rightarrow> bancor_lib \<Rightarrow> bancor_info \<Rightarrow> dec \<Rightarrow> int \<Rightarrow> int ret" where
  "linear_money S D bi price supplied =
     ret_bind (chk_Add D price (bi_InitPrice bi)) (\<lambda>x.
     ret_bind (chk_MulInt D x supplied) (\<lambda>x.
     ret_map (dec_RoundInt S) (dec_QuoInt_ret S x 2)))"

text \<open>The table's value between two columns.\<close>

definition interpolate :: "'y sdk_scheme \<Rightarrow> bancor_lib \<Rightarrow> bancor_info \<Rightarrow> int \<Rightarrow> int \<Rightarrow> dec \<Rightarrow> dec \<Rightarrow> dec ret" where
  "interpolate S D bi factoredStock s near ratio =
     ret_bind (chk_Sub D near ratio) (\<lambda>x.
     ret_bind (ret_bind (int_Mul D s (bi_MaxSupply bi)) (int_Sub S factoredStock)) (\<lambda>above.
     ret_bind (chk_MulInt D x above) (\<lambda>x.
     ret_bind (chk_Quo D x (NewDec S (bi_MaxSupply bi))) (\<lambda>x. chk_Add D x ratio))))"

definition curve_money :: "'y sdk_scheme \<Rightarrow> bancor_lib \<Rightarrow> bancor_info \<Rightarrow> dec \<Rightarrow> int \<Rightarrow> int ret" where
  "curve_money S D bi ratio supplied =
     ret_bind (chk_MulInt D (bi_InitPrice bi) (bi_MaxSupply bi)) (\<lambda>least.
     ret_bind (int_Sub S (bi_MaxMoney bi) (dec_TruncateInt S least)) (\<lambda>above.
     ret_bind (chk_MulInt D ratio above) (\<lambda>x.
     ret_bind (chk_MulInt D (bi_InitPrice bi) supplied) (\<lambda>y.
     ret_map (dec_TruncateInt S) (chk_Add D x y)))))"

definition curve_price :: "bancor_lib \<Rightarrow> bancor_info \<Rightarrow> dec \<Rightarrow> dec ret" where
  "curve_price D bi priceRatio =
     ret_bind (chk_Sub D (bi_MaxPrice bi) (bi_InitPrice bi)) (\<lambda>x.
     ret_bind (chk_MulTruncate D priceRatio x) (\<lambda>x. chk_Add D x (bi_InitPrice bi)))"

text \<open>
  The two powers of the supplied ratio, for the money and for the price, at \<open>factoredStock\<close> thousandths of
  \<open>MaxSupply\<close>, of which \<open>s\<close> are whole.
\<close>

definition power_ratios :: "'y sdk_scheme \<Rightarrow> bancor_lib \<Rightarrow> bancor_info \<Rightarrow> int \<Rightarrow> int \<Rightarrow> (dec \<times> dec) ret" where
  "power_ratios S D bi factoredStock s =
     ret_bind (int_Mul D s (bi_MaxSupply bi)) (\<lambda>contrast.
     ret_bind (TableLookup S D (i64 (bi_AR bi + ARSamples)) s) (\<lambda>ratio.
     ret_bind (TableLookup S D (bi_AR bi) s) (\<lambda>priceRatio.
     if factoredStock > contrast
     then ret_bind (TableLookup S D (i64 (bi_AR bi + ARSamples)) (i64 (s + 1))) (\<lambda>ratioNear.
          ret_bind (interpolate S D bi factoredStock s ratioNear ratio) (\<lambda>ratio.
          ret_bind (TableLookup S D (bi_AR bi) (i64 (s + 1))) (\<lambda>priceRatioNear.
          ret_map (\<lambda>priceRatio. (ratio, priceRatio)) (interpolate S D bi factoredStock s priceRatioNear priceRatio))))
     else Ok (ratio, priceRatio))))"

text \<open>The pool after the call, and whether it is allowed.\<close>

definition UpdateStockInPool :: "'y sdk_scheme \<Rightarrow> bancor_lib \<Rightarrow> bancor_info \<Rightarrow> int \<Rightarrow> (bancor_info \<times> bool) ret" where
  "UpdateStockInPool S D bi stockInPool =
     (if stockInPool < 0 \<or> stockInPool > bi_MaxSupply bi then Ok (bi, False)
      else let bi = bi\<lparr>bi_StockInPool := stockInPool\<rparr> in
        ret_bind (int_Sub S (bi_MaxSupply bi) (bi_StockInPool bi)) (\<lambda>supplied.
        if bi_MaxMoney bi = 0
        then ret_bind (linear_price S D bi supplied) (\<lambda>price.
             ret_bind (linear_money S D bi price supplied) (\<lambda>money.
             Ok (bi\<lparr>bi_Price := price, bi_MoneyInPool := money\<rparr>, True)))
        else ret_bind (int_Mul D supplied SupplyRatioSamples) (\<lambda>factoredStock.
             ret_bind (ret_bind (int_Quo_ret factoredStock (bi_MaxSupply bi)) to_Int64) (\<lambda>s.
             if s > SupplyRatioSamples then Ok (bi, False)
             else ret_bind (power_ratios S D bi factoredStock s) (\<lambda>(ratio, priceRatio).
                  ret_bind (curve_money S D bi ratio supplied) (\<lambda>money.
                  ret_bind (curve_price D bi priceRatio) (\<lambda>price.
                  Ok (bi\<lparr>bi_MoneyInPool := money, bi_Price := price\<rparr>, True))))))))"

definition IsConsistent :: "'y sdk_scheme \<Rightarrow> bancor_lib \<Rightarrow> bancor_info \<Rightarrow> bool ret" where
  "IsConsistent S D bi =
     (if bi_StockInPool bi < 0 \<or> bi_StockInPool bi > bi_MaxSupply bi then Ok False
      else ret_bind (int_Sub S (bi_MaxSupply bi) (bi_StockInPool bi)) (\<lambda>supplied.
        if bi_InitPrice bi = bi_MaxPrice bi
        then ret_bind (chk_MulInt D (bi_InitPrice bi) (bi_MaxSupply bi)) (\<lambda>most.
             if bi_MaxMoney bi \<noteq> dec_TruncateInt S most \<or> bi_AR bi \<noteq> 0 then Ok False
             else ret_map (\<lambda>x. x = NewDec S (bi_MoneyInPool bi)) (chk_MulInt D (bi_InitPrice bi) supplied))
        else if bi_MaxMoney bi = 0
        then ret_bind (linear_price S D bi supplied) (\<lambda>price.
             ret_map (\<lambda>money. price = bi_Price bi \<and> money = bi_MoneyInPool bi \<and> bi_AR bi = 0)
               (linear_money S D bi price supplied))
        else if bi_MoneyInPool bi < 0 then Ok False
        else ret_bind (chk_MulInt D (bi_MaxPrice bi) (bi_MaxSupply bi)) (\<lambda>most.
             if bi_MoneyInPool bi > dec_TruncateInt S most then Ok False
             else ret_bind (chk_MulInt D (bi_InitPrice bi) (bi_MaxSupply bi)) (\<lambda>least.
             if bi_MaxMoney bi < dec_TruncateInt S least then Ok False
             else ret_bind (CheckAR S D (bi_MaxSupply bi) (bi_MaxMoney bi) (bi_InitPrice bi) (bi_MaxPrice bi)) (\<lambda>(ar, ok).
             if ok \<or> ar \<noteq> bi_AR bi then Ok False
             else ret_map (\<lambda>(biNew, ok). ok \<and> bi_MoneyInPool bi = bi_MoneyInPool biNew \<and> bi_Price bi = bi_Price biNew)
               (UpdateStockInPool S D bi (bi_StockInPool bi)))))))"

text \<open>\<open>NewBancorInfoDisplay\<close>: the price shown, and the JSON object with it.\<close>

definition current_price :: "'y sdk_scheme \<Rightarrow> bancor_lib \<Rightarrow> bancor_info \<Rightarrow> dec ret" where
  "current_price S D bi =
     ret_bind (int_Sub S (bi_MaxSupply bi) (bi_StockInPool bi)) (\<lambda>supplied.
     if bi_MaxMoney bi > 0
     then ret_bind (ret_bind (ret_bind (int_Mul D supplied SupplyRatioSamples) (\<lambda>x. int_Quo_ret x (bi_MaxSupply bi))) to_Int64) (\<lambda>s.
          if s = SupplyRatioSamples then Ok (bi_MaxPrice bi)
          else if s = 0 \<and> bi_MoneyInPool bi = 0 then Ok (bi_InitPrice bi)
          else ret_bind (TableLookup S D (i64 (bi_AR bi + ARSamples)) s) (\<lambda>ratio.
               ret_bind (TableLookup S D (i64 (bi_AR bi + ARSamples)) (i64 (s + 1))) (\<lambda>ratioNext.
               ret_bind (chk_Sub D (bi_MaxPrice bi) (bi_InitPrice bi)) (\<lambda>x.
               ret_bind (chk_MulInt D x ARSamples) (\<lambda>x.
               ret_bind (chk_MulInt D x ARSamples) (\<lambda>x.
               ret_bind (dec_QuoInt_ret S x (i64 (bi_AR bi + ARSamples))) (\<lambda>x.
               ret_bind (chk_Sub D ratioNext ratio) (\<lambda>y.
               ret_bind (chk_Mul D x y) (chk_Add D (bi_InitPrice bi))))))))))
     else Ok (bi_Price bi))"

definition NewBancorInfoDisplay :: "'y sdk_scheme \<Rightarrow> bancor_lib \<Rightarrow> bancor_info \<Rightarrow> (string \<times> json) ret" where
  "NewBancorInfoDisplay S D bi = ret_map (\<lambda>price. (dec_String S price, JObj
     [(''owner'', JStr (addr_String S (bi_Owner bi))), (''stock'', JStr (bi_Stock bi)), (''money'', JStr (bi_Money bi)),
      (''init_price'', JStr (dec_String S (bi_InitPrice bi))), (''max_supply'', JStr (itoa (bi_MaxSupply bi))),
      (''stock_precision'', JStr (itoa (int (bi_StockPrecision bi)))), (''max_price'', JStr (dec_String S (bi_MaxPrice bi))),
      (''max_money'', JStr (itoa (bi_MaxMoney bi))), (''ar'', JStr (itoa (bi_AR bi))),
      (''current_price'', JStr (dec_String S price)), (''stock_in_pool'', JStr (itoa (bi_StockInPool bi))),
      (''money_in_pool'', JStr (itoa (bi_MoneyInPool bi))), (''earliest_cancel_time'', JInt (bi_EarliestCancelTime bi))]))
     (current_price S D bi)"

subsection \<open>The keeper (\<open>keeper.go\<close>)\<close>

record 'b bancor_state = "'b market_state" +
  bancor_store :: "bancor_info kv"
  bancor_params :: bancor_params

definition BancorInfoKey :: string where "BancorInfoKey = [byte 16]"
definition BancorInfoKeyEnd :: string where "BancorInfoKeyEnd = [byte 17]"

definition bancor_Save :: "bancor_info \<Rightarrow> (('b, 'z) bancor_state_scheme, unit) op" where
  "bancor_Save bi = modify (\<lambda>s. s\<lparr>bancor_store := kv_set (BancorInfoKey @ bancor_GetSymbol bi) bi (bancor_store s)\<rparr>)"

definition bancor_Remove :: "bancor_info \<Rightarrow> (('b, 'z) bancor_state_scheme, unit) op" where
  "bancor_Remove bi s =
     (let key = BancorInfoKey @ bancor_GetSymbol bi
      in whenever (kv_has (bancor_store s) key) (modify (\<lambda>s. s\<lparr>bancor_store := kv_delete key (bancor_store s)\<rparr>)) s)"

definition bancor_Load :: "('b, 'z) bancor_state_scheme \<Rightarrow> string \<Rightarrow> bancor_info option" where
  "bancor_Load s symbol = kv_get (bancor_store s) (BancorInfoKey @ symbol)"

definition bancor_Iterate :: "('b, 'z) bancor_state_scheme \<Rightarrow> bancor_info list" where
  "bancor_Iterate s = map snd (kv_iterator BancorInfoKey BancorInfoKeyEnd (bancor_store s))"

definition IsBancorExist :: "('b, 'z) bancor_state_scheme \<Rightarrow> string \<Rightarrow> bool" where
  "IsBancorExist s stock =
     (let key = BancorInfoKey @ stock @ [SymbolSeparator]
      in kv_iterator key (key @ [byte 255]) (bancor_store s) \<noteq> [])"

definition GetAllBancorInfos :: "('b, 'z) bancor_state_scheme \<Rightarrow> bancor_info list" where
  "GetAllBancorInfos s = bancor_Iterate s"

definition bancor_SetParams :: "bancor_params \<Rightarrow> (('b, 'z) bancor_state_scheme, unit) op" where
  "bancor_SetParams p = modify (\<lambda>s. s\<lparr>bancor_params := p\<rparr>)"

definition GetMarketFeeMin :: "('b, 'z) market_state_scheme \<Rightarrow> int" where
  "GetMarketFeeMin s = MarketFeeMin (market_params s)"

text \<open>\<open>GetRebate\<close>: the referee, the rebate, what is left for the fee, and whether there is a referee at all.\<close>

definition GetRebate :: "'y sdk_scheme \<Rightarrow> bancor_lib \<Rightarrow> ('b, 'z) authx_state_scheme \<Rightarrow> addr \<Rightarrow> int \<Rightarrow> (addr \<times> int \<times> int \<times> bool) ret" where
  "GetRebate S D s a amount =
     (let acc = (case GetRefereeAddr s a of None \<Rightarrow> [] | Some r \<Rightarrow> r)
      in if length acc = 0 then Ok (acc, 0, 0, False)
         else ret_bind (int_Mul D amount (GetRebateRatio s)) (\<lambda>x.
              ret_bind (int_Quo_ret x RebateRatioBase) (\<lambda>rebate.
              ret_map (\<lambda>rest. (acc, rebate, rest, True)) (int_Sub S amount rebate))))"

end
