(* ===== verification/BancorHandler.thy ===== *)
theory BancorHandler
  imports Bancor
begin

section \<open>The bancorlite module: handler and genesis\<close>

text \<open>\<open>src/modules/bancorlite\<close>: \<open>handler.go\<close> and \<open>genesis.go\<close>.\<close>

subsection \<open>Parts of the handler\<close>

definition fillBancorQueue :: "(string \<Rightarrow> bool) \<Rightarrow> string \<Rightarrow> json \<Rightarrow> (('b, 'z) base_state_scheme, unit) op" where
  "fillBancorQueue sub key msg = whenever (sub Topic_bancor) (FillMsgs key msg)"

definition getTradeFee ::
    "'y sdk_scheme \<Rightarrow> bancor_lib \<Rightarrow> MsgBancorTrade \<Rightarrow> int \<Rightarrow> ('b, 'z) bancor_state_scheme \<Rightarrow> int ret" where
  "getTradeFee S D msg amountOfMoney s =
     (let volume = GetMarketVolume S s (tr_Stock msg) (tr_Money msg) (NewDec S (tr_Amount msg)) (NewDec S amountOfMoney)
      in ret_bind (chk_Mul D volume (NewDec S (TradeFeeRate (bancor_params s)))) (\<lambda>x.
         ret_bind (ret_bind (dec_QuoInt_ret S x 10000) (dec_TruncateInt64 S)) (\<lambda>commission.
         let least = GetMarketFeeMin s in Ok (if commission < least then least else commission))))"

definition swapStockAndMoney ::
    "('b, 'y) cosmos_scheme \<Rightarrow> addr \<Rightarrow> addr \<Rightarrow> coins \<Rightarrow> coins \<Rightarrow> (('b, 'z) authx_state_scheme, unit) op" where
  "swapStockAndMoney C trader owner coinsFromPool coinsToPool =
     and_then (SendCoins C trader owner coinsToPool) (\<lambda>_.
     and_then (FreezeCoins C owner coinsToPool) (\<lambda>_.
     and_then (UnFreezeCoins C owner coinsFromPool) (\<lambda>_.
     SendCoins C owner trader coinsFromPool)))"

definition bancor_message_event :: "'y sdk_scheme \<Rightarrow> addr \<Rightarrow> event" where
  "bancor_message_event S sender =
     Event ''message'' [(''module'', AStr ModuleName_bancor), (''sender'', AStr (addr_String S sender))]"

subsection \<open>Creating a pool\<close>

definition new_bancor :: "MsgBancorInit \<Rightarrow> dec \<Rightarrow> dec \<Rightarrow> int \<Rightarrow> bancor_info" where
  "new_bancor msg initPrice maxPrice ar = \<lparr>bi_Owner = bn_Owner msg, bi_Stock = bn_Stock msg, bi_Money = bn_Money msg,
     bi_InitPrice = initPrice, bi_MaxSupply = bn_MaxSupply msg,
     bi_StockPrecision = (if bn_StockPrecision msg \<le> 8 then bn_StockPrecision msg else 0), bi_MaxPrice = maxPrice,
     bi_MaxMoney = bn_MaxMoney msg, bi_AR = ar, bi_Price = initPrice, bi_StockInPool = bn_MaxSupply msg, bi_MoneyInPool = 0,
     bi_EarliestCancelTime = bn_EarliestCancelTime msg\<rparr>"

definition handleMsgBancorInit ::
    "('b, 'y) cosmos_scheme \<Rightarrow> bancor_lib \<Rightarrow> (string \<Rightarrow> bool) \<Rightarrow> MsgBancorInit \<Rightarrow> (('b, 'z) bancor_state_scheme, unit) op" where
  "handleMsgBancorInit C D sub msg s =
     (if bancor_Load s (MsgBancorInit_GetSymbol msg) \<noteq> None then (Err BancorErrBancorAlreadyExists, s)
      else if \<not> IsTokenExists s (bn_Stock msg) \<or> \<not> IsTokenExists s (bn_Money msg) then (Err BancorErrNoSuchToken, s)
      else if \<not> IsTokenIssuer s (bn_Stock msg) (bn_Owner msg) then (Err BancorErrNonOwnerIsProhibited, s)
      else and_then (lift (NewCoin C (bn_Stock msg) (bn_MaxSupply msg))) (\<lambda>supplied.
           and_then (FreezeCoins C (bn_Owner msg) [supplied]) (\<lambda>_.
           and_then (DeductInt64CetFee C (bn_Owner msg) (CreateBancorFee (bancor_params s))) (\<lambda>_.
           case NewDecFromStr D (bn_InitPrice msg) of None \<Rightarrow> fail BancorErrPriceFmt | Some initPrice \<Rightarrow>
           case NewDecFromStr D (bn_MaxPrice msg) of None \<Rightarrow> fail BancorErrPriceFmt | Some maxPrice \<Rightarrow>
           and_then (lift (CalculateAR C D (bn_MaxSupply msg) (bn_MaxMoney msg) initPrice maxPrice)) (\<lambda>ar.
           let bi = new_bancor msg initPrice maxPrice ar
           in and_then (bancor_Save bi) (\<lambda>_.
              and_then (lift (NewBancorInfoDisplay C D bi)) (\<lambda>(_, info).
              and_then (fillBancorQueue sub ''bancor_create'' info) (\<lambda>_.
              emit [Event ''bancor_init'' [(''symbol'', AStr (bancor_GetSymbol bi)),
                      (''bancor_owner'', AStr (addr_String C (bi_Owner bi)))],
                    bancor_message_event C (bn_Owner msg)])))))) ) s)"

subsection \<open>Cancelling a pool\<close>

definition handleMsgBancorCancel ::
    "('b, 'y) cosmos_scheme \<Rightarrow> ctx \<Rightarrow> MsgBancorCancel \<Rightarrow> (('b, 'z) bancor_state_scheme, unit) op" where
  "handleMsgBancorCancel C ctx msg s =
     (case bancor_Load s (MsgBancorCancel_GetSymbol msg) of
        None \<Rightarrow> (Err BancorErrNoBancorExists, s)
      | Some bi \<Rightarrow>
          if bi_Owner bi \<noteq> bc_Owner msg then (Err BancorErrNotBancorOwner, s)
          else if Unix ctx < bi_EarliestCancelTime bi then (Err BancorErrEarliestCancelTimeNotArrive, s)
          else and_then (DeductInt64CetFee C (bc_Owner msg) (CancelBancorFee (bancor_params s))) (\<lambda>_.
               and_then (bancor_Remove bi) (\<lambda>_.
               and_then (lift (dex_NewCoins C (bi_Stock bi) (bi_StockInPool bi))) (\<lambda>stock.
               and_then (UnFreezeCoins C (bi_Owner bi) stock) (\<lambda>_.
               and_then (lift (dex_NewCoins C (bi_Money bi) (bi_MoneyInPool bi))) (\<lambda>money.
               and_then (UnFreezeCoins C (bi_Owner bi) money) (\<lambda>_.
               emit [Event ''bancor_cancel'' [(''symbol'', AStr (bancor_GetSymbol bi))],
                     bancor_message_event C (bc_Owner msg)])))))) s)"

subsection \<open>Trading with a pool\<close>

definition trade_checks :: "MsgBancorTrade \<Rightarrow> bancor_info \<Rightarrow> ('b, 'z) asset_state_scheme \<Rightarrow> unit ret" where
  "trade_checks msg bi s =
     (if bi_Owner bi = tr_Sender msg then Err BancorErrOwnerIsProhibited
      else if IsForbiddenByTokenIssuer s (bi_Stock bi) (tr_Sender msg) \<or> IsForbiddenByTokenIssuer s (bi_Money bi) (tr_Sender msg) \<or>
          IsForbiddenByTokenIssuer s (bi_Stock bi) (bi_Owner bi) \<or> IsForbiddenByTokenIssuer s (bi_Money bi) (bi_Owner bi)
      then Err BancorErrTokenForbiddenByOwner
      else if \<not> CheckStockPrecision (tr_Amount msg) (bi_StockPrecision bi) then Err BancorErrStockAmountPrecisionNotMatch
      else Ok ())"

text \<open>What changes hands: the money, the coins that leave the pool and those that enter it.\<close>

definition trade_amounts ::
    "'y sdk_scheme \<Rightarrow> MsgBancorTrade \<Rightarrow> bancor_info \<Rightarrow> bancor_info \<Rightarrow> (int \<times> coin \<times> coin) ret" where
  "trade_amounts S msg bi biNew =
     ret_bind (if tr_IsBuy msg then int_Sub S (bi_MoneyInPool biNew) (bi_MoneyInPool bi)
               else int_Sub S (bi_MoneyInPool bi) (bi_MoneyInPool biNew)) (\<lambda>diff.
     if \<not> 0 < diff then Err BancorErrTradeMoneyNotPositive
     else ret_bind (NewCoin S (tr_Money msg) diff) (\<lambda>money.
          ret_bind (NewCoin S (tr_Stock msg) (tr_Amount msg)) (\<lambda>stock.
          let crossed = (tr_MoneyLimit msg > 0 \<and>
                (if tr_IsBuy msg then diff > tr_MoneyLimit msg else diff < tr_MoneyLimit msg))
          in if crossed then Err BancorErrMoneyCrossLimit
             else Ok (diff, if tr_IsBuy msg then (stock, money) else (money, stock)))))"

definition charge_commission ::
    "('b, 'y) cosmos_scheme \<Rightarrow> bancor_lib \<Rightarrow> addr \<Rightarrow> int \<Rightarrow> (('b, 'z) authx_state_scheme, addr \<times> int \<times> int) op" where
  "charge_commission C D sender commission s =
     and_then (lift (GetRebate C D s sender commission)) (\<lambda>(rebateAcc, rebate, rest, exist).
     and_then
       (if exist
        then and_then (lift (NewCetCoins C rest)) (\<lambda>cs.
             and_then (DeductFee C sender cs) (\<lambda>_.
             and_then (lift (NewCetCoins C rebate)) (\<lambda>cs.
             SendCoins C sender rebateAcc cs)))
        else and_then (lift (NewCetCoins C commission)) (DeductFee C sender)) (\<lambda>_.
     return (rebateAcc, rebate, rest))) s"

definition trade_info ::
    "'y sdk_scheme \<Rightarrow> ctx \<Rightarrow> MsgBancorTrade \<Rightarrow> int \<Rightarrow> addr \<Rightarrow> int \<Rightarrow> int \<Rightarrow> json ret" where
  "trade_info S ctx msg diff rebateAcc rebate rest =
     ret_bind (dec_QuoInt_ret S (NewDec S diff) (tr_Amount msg)) (\<lambda>txPrice.
     ret_bind (to_Int64 rest) (\<lambda>usedCommission.
     ret_map (\<lambda>rebateAmount. JObj [(''sender'', JAddr (tr_Sender msg)), (''stock'', JStr (tr_Stock msg)),
       (''money'', JStr (tr_Money msg)), (''amount'', JInt (tr_Amount msg)),
       (''side'', JInt (int (if tr_IsBuy msg then BUY else SELL))), (''money_limit'', JInt (tr_MoneyLimit msg)),
       (''transaction_price'', JDec txPrice), (''used_commission'', JInt usedCommission),
       (''rebate_amount'', JInt rebateAmount), (''rebate_referee_addr'', JAddr rebateAcc), (''block_height'', JInt (BlockHeight ctx))])
       (to_Int64 rebate)))"

definition handleMsgBancorTrade ::
    "('b, 'y) cosmos_scheme \<Rightarrow> bancor_lib \<Rightarrow> (string \<Rightarrow> bool) \<Rightarrow> ctx \<Rightarrow> MsgBancorTrade \<Rightarrow>
      (('b, 'z) bancor_state_scheme, unit) op" where
  "handleMsgBancorTrade C D sub ctx msg s =
     (case bancor_Load s (MsgBancorTrade_GetSymbol msg) of
        None \<Rightarrow> (Err BancorErrNoBancorExists, s)
      | Some bi \<Rightarrow>
          and_then (lift (trade_checks msg bi s)) (\<lambda>_.
          and_then (lift (ret_bind (if tr_IsBuy msg then int_Sub C (bi_StockInPool bi) (tr_Amount msg)
              else int_Add C (bi_StockInPool bi) (tr_Amount msg)) (UpdateStockInPool C D bi))) (\<lambda>(biNew, ok).
          if \<not> ok then fail BancorErrStockInPoolOutofBound
          else
          and_then (lift (trade_amounts C msg bi biNew)) (\<lambda>(diff, fromPool, toPool).
          and_then (gets (getTradeFee C D msg diff)) (\<lambda>fee.
          and_then (lift fee) (\<lambda>commission.
          and_then (charge_commission C D (tr_Sender msg) commission) (\<lambda>(rebateAcc, rebate, rest).
          and_then (swapStockAndMoney C (tr_Sender msg) (bi_Owner bi) [fromPool] [toPool]) (\<lambda>_.
          and_then (bancor_Save biNew) (\<lambda>_.
          and_then (lift (trade_info C ctx msg diff rebateAcc rebate rest)) (\<lambda>m.
          and_then (lift (NewBancorInfoDisplay C D biNew)) (\<lambda>(price, info).
          and_then (fillBancorQueue sub ''bancor_trade'' m) (\<lambda>_.
          and_then (fillBancorQueue sub ''bancor_info'' info) (\<lambda>_.
          emit [Event ''bancor_trade'' [(''symbol'', AStr (bancor_GetSymbol bi)),
                  (''bancor_new_stock_in_pool'', AStr (itoa (bi_StockInPool biNew))),
                  (''bancor_new_money_in_pool'', AStr (itoa (bi_MoneyInPool biNew))),
                  (''bancor_new_price'', AStr price),
                  (''bancor_trade_side'', AStr (if tr_IsBuy msg then ''buy'' else ''sell'')),
                  (''bancor_coins_from_pool'', AStr (coins_String C [fromPool])),
                  (''bancor_coins_to_pool'', AStr (coins_String C [toPool])),
                  (''rebate_referee'', AStr (addr_String C rebateAcc)), (''rebate_amount'', AStr (itoa rebate))],
                bancor_message_event C (tr_Sender msg)])))))))))))) s)"

datatype bancor_msg = BancorInitMsg MsgBancorInit | BancorTradeMsg MsgBancorTrade | BancorCancelMsg MsgBancorCancel | BancorUnknown

fun bancor_route ::
    "('b, 'y) cosmos_scheme \<Rightarrow> bancor_lib \<Rightarrow> (string \<Rightarrow> bool) \<Rightarrow> ctx \<Rightarrow> bancor_msg \<Rightarrow> (('b, 'z) bancor_state_scheme, unit) op" where
  "bancor_route C D sub ctx (BancorInitMsg msg) = handleMsgBancorInit C D sub msg"
| "bancor_route C D sub ctx (BancorTradeMsg msg) = handleMsgBancorTrade C D sub ctx msg"
| "bancor_route C D sub ctx (BancorCancelMsg msg) = handleMsgBancorCancel C ctx msg"
| "bancor_route C D sub ctx BancorUnknown = fail (SdkErr ''ErrUnknownRequest'')"

definition bancor_Handler ::
    "('b, 'y) cosmos_scheme \<Rightarrow> bancor_lib \<Rightarrow> (string \<Rightarrow> bool) \<Rightarrow> ctx \<Rightarrow> bancor_msg \<Rightarrow> (('b, 'z) bancor_state_scheme, unit) op" where
  "bancor_Handler C D sub ctx msg = and_then new_event_manager (\<lambda>_. bancor_route C D sub ctx msg)"

fun bancor_ValidateBasic :: "'y sdk_scheme \<Rightarrow> bancor_lib \<Rightarrow> bancor_msg \<Rightarrow> unit ret" where
  "bancor_ValidateBasic S D (BancorInitMsg msg) = MsgBancorInit_ValidateBasic S D msg"
| "bancor_ValidateBasic S D (BancorTradeMsg msg) = MsgBancorTrade_ValidateBasic msg"
| "bancor_ValidateBasic S D (BancorCancelMsg msg) = MsgBancorCancel_ValidateBasic msg"
| "bancor_ValidateBasic S D BancorUnknown = Ok ()"

subsection \<open>Genesis (\<open>genesis.go\<close>)\<close>

text \<open>The map of pools is the list of its entries in the order Go's iteration takes.\<close>

record bancor_genesis =
  bg_Params :: bancor_params
  bg_BancorInfoMap :: "(string \<times> bancor_info) list"

definition bancor_DefaultGenesisState :: bancor_genesis where
  "bancor_DefaultGenesisState = \<lparr>bg_Params = bancor_DefaultParams, bg_BancorInfoMap = []\<rparr>"

definition bancor_InitGenesis :: "bancor_genesis \<Rightarrow> (('b, 'z) bancor_state_scheme, unit) op" where
  "bancor_InitGenesis data =
     and_then (foreach (\<lambda>(_, bi). bancor_Save bi) (bg_BancorInfoMap data)) (\<lambda>_. bancor_SetParams (bg_Params data))"

definition bancor_ExportGenesis :: "('b, 'z) bancor_state_scheme \<Rightarrow> bancor_genesis" where
  "bancor_ExportGenesis s =
     \<lparr>bg_Params = bancor_params s, bg_BancorInfoMap = map (\<lambda>bi. (bancor_GetSymbol bi, bi)) (bancor_Iterate s)\<rparr>"

definition bancor_entry_Validate :: "'y sdk_scheme \<Rightarrow> bancor_lib \<Rightarrow> string \<times> bancor_info \<Rightarrow> unit ret" where
  "bancor_entry_Validate S D = (\<lambda>(symbol, bi).
     let parts = split_on SymbolSeparator symbol
     in if length parts \<noteq> 2 then Err PlainErr
        else if parts ! 0 \<noteq> bi_Stock bi \<or> parts ! 1 \<noteq> bi_Money bi \<or> parts ! 0 = CET then Err PlainErr
        else if length (bi_Owner bi) = 0 \<or> length (bi_Stock bi) = 0 \<or> length (bi_Money bi) = 0 then Err PlainErr
        else if bi_InitPrice bi < 0 \<or> \<not> 0 < bi_MaxSupply bi \<or> \<not> 0 < bi_MaxPrice bi then Err PlainErr
        else if bi_StockInPool bi < 0 \<or> bi_MoneyInPool bi < 0 \<or> bi_EarliestCancelTime bi < 0 then Err PlainErr
        else if bi_StockPrecision bi > 8 then Err PlainErr
        else ret_bind (IsConsistent S D bi) (\<lambda>ok. if ok then Ok () else Err PlainErr))"

fun all_entries :: "('a \<Rightarrow> unit ret) \<Rightarrow> 'a list \<Rightarrow> unit ret" where
  "all_entries f [] = Ok ()"
| "all_entries f (x # xs) = ret_bind (f x) (\<lambda>_. all_entries f xs)"

definition bancor_Validate :: "'y sdk_scheme \<Rightarrow> bancor_lib \<Rightarrow> bancor_genesis \<Rightarrow> unit ret" where
  "bancor_Validate S D data =
     ret_bind (all_entries (bancor_entry_Validate S D) (bg_BancorInfoMap data)) (\<lambda>_. bancor_ValidateGenesis (bg_Params data))"

end
