(* ===== verification/BancorCurve.thy ===== *)
theory BancorCurve
  imports Bancor
begin

section \<open>The price curve of a pool\<close>

text \<open>
  What a pool holds is a function of the stock left in it: after any trade the pool is where
  \<open>UpdateStockInPool\<close> puts it for its stock, so a round trip of trades ends in the pool it started from. On
  both curves the money is never negative and the price stays between \<open>InitPrice\<close> and \<open>MaxPrice\<close>.

  \<open>bancor_ok\<close> states what is assumed of the decimal operations (they are exact where they can be, round to
  nearest or towards zero as their names say, and panic on a result of more than 315 bits, integers on one of
  more than 255) and of the table (its rows grow from 0 to the largest 32-bit integer, as the generated
  \<open>table.go\<close> does).
\<close>

definition dec_chk :: "int \<Rightarrow> dec ret" where
  "dec_chk x = (if \<bar>x\<bar> < 2 ^ 315 then Ok x else Panic)"

text \<open>The bound as a number, for evaluation.\<close>

lemma dec_chk_code [code]:
  "dec_chk x =
     (if \<bar>x\<bar> < 66749594872528440074844428317798503581334516323645399060845050244444366430645017188217565216768
      then Ok x else Panic)"
  by (simp add: dec_chk_def)

definition table_ok :: "(nat \<Rightarrow> nat \<Rightarrow> int) \<Rightarrow> bool" where
  "table_ok T \<longleftrightarrow> (\<forall>x < 6001. (\<forall>y < 1001. 0 \<le> T x y \<and> T x y \<le> 2 ^ 31 - 1) \<and>
     (\<forall>y < 1000. T x y \<le> T x (Suc y)) \<and> (0 < x \<longrightarrow> T x 0 = 0) \<and> T x 1000 = 2 ^ 31 - 1)"

definition bancor_ok :: "bancor_lib \<Rightarrow> bool" where
  "bancor_ok D \<longleftrightarrow>
     (\<forall>a b. chk_Add D a b = dec_chk (a + b)) \<and> (\<forall>a b. chk_Sub D a b = dec_chk (a - b)) \<and>
     (\<forall>a n. chk_MulInt D a n = dec_chk (a * n)) \<and>
     (\<forall>a b. chk_MulTruncate D a b = dec_chk (go_quo (a * b) dec_one)) \<and>
     (\<forall>a b. 0 < b \<longrightarrow> chk_QuoTruncate D a b = dec_chk (go_quo (a * dec_one) b)) \<and>
     (\<forall>a b. 0 \<le> a \<longrightarrow> 0 < b \<longrightarrow>
        (\<exists>r. chk_Quo D a b = dec_chk r \<and> 0 \<le> r \<and> (\<forall>q. a * dec_one \<le> q * b \<longrightarrow> r \<le> q))) \<and>
     (\<forall>a b. int_Mul D a b = (if \<bar>a * b\<bar> < 2 ^ 255 then Ok (a * b) else Panic)) \<and> table_ok (BancorTable D)"

lemma bancor_okD:
  assumes "bancor_ok D"
  shows "chk_Add D a b = dec_chk (a + b)" and "chk_Sub D a b = dec_chk (a - b)" and "chk_MulInt D a n = dec_chk (a * n)"
    and "chk_MulTruncate D a b = dec_chk (go_quo (a * b) dec_one)"
    and "0 < b \<Longrightarrow> chk_QuoTruncate D a b = dec_chk (go_quo (a * dec_one) b)"
    and "0 \<le> a \<Longrightarrow> 0 < b \<Longrightarrow> \<exists>r. chk_Quo D a b = dec_chk r \<and> 0 \<le> r \<and> (\<forall>q. a * dec_one \<le> q * b \<longrightarrow> r \<le> q)"
    and "int_Mul D a b = (if \<bar>a * b\<bar> < 2 ^ 255 then Ok (a * b) else Panic)"
    and "table_ok (BancorTable D)"
  using assms unfolding bancor_ok_def by blast+

lemma dec_chk_Ok [simp]: "dec_chk x = Ok y \<longleftrightarrow> \<bar>x\<bar> < 2 ^ 315 \<and> y = x"
  by (auto simp: dec_chk_def)

subsection \<open>The table\<close>

lemma table_mono:
  assumes "table_ok T" and "x < 6001" and "y \<le> z" and "z < 1001"
  shows "T x y \<le> T x z"
  using assms(3,4)
proof (induction z rule: dec_induct)
  case (step z)
  then have "T x z \<le> T x (Suc z)" using assms(1,2) by (simp add: table_ok_def)
  then show ?case using step by simp
qed simp

lemma drop_scale:
  assumes "0 < (k :: int)" and "\<bar>q * (m * k) - v * k\<bar> \<le> m * k"
  shows "\<bar>q * m - v\<bar> \<le> m"
proof -
  have "\<bar>q * m - v\<bar> * k = \<bar>(q * m - v) * k\<bar>" using assms(1) by (simp add: abs_mult)
  also have "(q * m - v) * k = q * (m * k) - v * k" by (simp add: algebra_simps)
  finally have "\<bar>q * m - v\<bar> * k \<le> m * k" using assms(2) by simp
  then show ?thesis using assms(1) by (rule mult_right_le_imp_le)
qed

lemma quo_table:
  assumes dec: "dec_ok S" and t: "0 \<le> t" "t \<le> 2 ^ 31 - 1"
  shows "0 \<le> dec_Quo S (NewDec S t) (NewDec S (2 ^ 31 - 1))" and "dec_Quo S (NewDec S t) (NewDec S (2 ^ 31 - 1)) \<le> dec_one"
    and "t = 0 \<Longrightarrow> dec_Quo S (NewDec S t) (NewDec S (2 ^ 31 - 1)) = 0"
    and "t \<le> u \<Longrightarrow> u \<le> 2 ^ 31 - 1 \<Longrightarrow>
      dec_Quo S (NewDec S t) (NewDec S (2 ^ 31 - 1)) \<le> dec_Quo S (NewDec S u) (NewDec S (2 ^ 31 - 1))"
proof -
  let ?m = "2 ^ 31 - 1 :: int"
  let ?q = "\<lambda>t. dec_Quo S (NewDec S t) (NewDec S ?m)"
  have nd: "NewDec S n = n * dec_one" for n by (rule dec_okD(1) [OF dec])
  have m: "0 < ?m * dec_one" by simp
  have near: "0 \<le> ?q v" "\<bar>?q v * ?m - v * dec_one\<bar> \<le> ?m" if "0 \<le> v" for v
  proof -
    have v: "0 \<le> v * dec_one" using that by simp
    show "0 \<le> ?q v" unfolding nd by (rule dec_okD(6) [OF dec v m])
    have "\<bar>?q v * (?m * dec_one) - v * dec_one * dec_one\<bar> \<le> ?m * dec_one"
      using dec_okD(7) [OF dec v m] unfolding nd .
    then show "\<bar>?q v * ?m - v * dec_one\<bar> \<le> ?m" by (rule drop_scale [rotated]) simp
  qed
  show "0 \<le> ?q t" by (rule near(1) [OF t(1)])
  have exact: "?q ?m = dec_one" "?q 0 = 0"
    by (rule dec_okD(8) [OF dec], simp_all add: nd)+
  show mono: "?q t \<le> ?q u" if "t \<le> u" "u \<le> ?m" for u
  proof (cases "t = u")
    case False
    then have "t + 1 \<le> u" using that by simp
    then have "(t + 1) * dec_one \<le> u * dec_one" by (rule mult_right_mono) simp
    then have "?q t * ?m \<le> ?q u * ?m" using near(2) [of t] near(2) [of u] t(1) that by (simp add: abs_le_iff)
    then show ?thesis by (rule mult_right_le_imp_le) simp
  qed simp
  show "?q t \<le> dec_one" using mono [of ?m] t(2) exact(1) by simp
  show "t = 0 \<Longrightarrow> ?q t = 0" using exact(2) by simp
qed

lemma TableLookup_Ok:
  assumes dec: "dec_ok S" and D: "bancor_ok D" and run: "TableLookup S D x y = Ok r"
  shows "0 \<le> r" and "r \<le> dec_one" and "0 < x \<Longrightarrow> y = 0 \<Longrightarrow> r = 0"
    and "TableLookup S D x z = Ok r' \<Longrightarrow> y \<le> z \<Longrightarrow> r \<le> r'"
proof -
  have T: "table_ok (BancorTable D)" by (rule bancor_okD(8) [OF D])
  have x: "nat x < 6001" "nat y < 1001" "0 \<le> x" "0 \<le> y"
    and r: "r = dec_Quo S (NewDec S (BancorTable D (nat x) (nat y))) (NewDec S (2 ^ 31 - 1))"
    using run by (auto simp: TableLookup_def split: if_splits)
  have t: "0 \<le> BancorTable D (nat x) (nat y)" "BancorTable D (nat x) (nat y) \<le> 2 ^ 31 - 1"
    using T x(1,2) by (auto simp: table_ok_def)
  show "0 \<le> r" "r \<le> dec_one" unfolding r by (rule quo_table [OF dec t])+
  show "r = 0" if "0 < x" "y = 0"
    unfolding r by (rule quo_table(3) [OF dec t]) (use T x(1) that in \<open>simp add: table_ok_def\<close>)
  assume z: "TableLookup S D x z = Ok r'" "y \<le> z"
  then have z': "nat z < 1001" "nat y \<le> nat z"
    and r': "r' = dec_Quo S (NewDec S (BancorTable D (nat x) (nat z))) (NewDec S (2 ^ 31 - 1))"
    using x by (auto simp: TableLookup_def split: if_splits)
  show "r \<le> r'" unfolding r r'
    by (rule quo_table(4) [OF dec t table_mono [OF T x(1) z'(2,1)]]) (use T x(1) z'(1) in \<open>simp add: table_ok_def\<close>)
qed

subsection \<open>The linear curve\<close>

text \<open>What the terms of a pool say, as \<open>ValidateBasic\<close> and the handler leave them.\<close>

definition pool_terms :: "bancor_info \<Rightarrow> bool" where
  "pool_terms bi \<longleftrightarrow> 0 < bi_MaxSupply bi \<and> 0 \<le> bi_InitPrice bi \<and> bi_InitPrice bi \<le> bi_MaxPrice bi \<and>
     0 \<le> bi_AR bi \<and> bi_AR bi \<le> MaxAR \<and> (bi_MaxMoney bi = 0 \<longrightarrow> bi_AR bi = 0) \<and>
     (bi_MaxMoney bi \<noteq> 0 \<longrightarrow> 0 < bi_AR bi \<and> bi_InitPrice bi * bi_MaxSupply bi \<le> bi_MaxMoney bi * dec_one)"

lemma QuoInt_ret_Ok:
  assumes "dec_ok S" and "0 < n" and "0 \<le> x"
  shows "dec_QuoInt_ret S x n = Ok (x div n)"
  using assms dec_okD(9) [OF assms(1,2)] by (simp add: dec_QuoInt_ret_def go_quo_pos)

lemma share_le:
  assumes "0 \<le> (x :: int)" and "0 \<le> n" and "n \<le> m" and "0 < m"
  shows "0 \<le> x * n div m" and "x * n div m \<le> x"
proof -
  show "0 \<le> x * n div m" using assms by (simp add: pos_imp_zdiv_nonneg_iff)
  have "x * n div m \<le> x * m div m" using assms by (intro zdiv_mono1 mult_left_mono) auto
  then show "x * n div m \<le> x" using assms(4) by simp
qed

lemma linear_price_Ok:
  assumes dec: "dec_ok S" and D: "bancor_ok D" and bi: "pool_terms bi" and n: "0 \<le> n" "n \<le> bi_MaxSupply bi"
    and run: "linear_price S D bi n = Ok p"
  shows "bi_InitPrice bi \<le> p" and "p \<le> bi_MaxPrice bi"
    and "p = (bi_MaxPrice bi - bi_InitPrice bi) * n div bi_MaxSupply bi + bi_InitPrice bi"
proof -
  have x: "0 \<le> bi_MaxPrice bi - bi_InitPrice bi" "0 < bi_MaxSupply bi" using bi by (simp_all add: pool_terms_def)
  then have "0 \<le> (bi_MaxPrice bi - bi_InitPrice bi) * n" using n by simp
  then show p: "p = (bi_MaxPrice bi - bi_InitPrice bi) * n div bi_MaxSupply bi + bi_InitPrice bi"
    using run x by (simp add: linear_price_def ret_bind_Ok bancor_okD [OF D] QuoInt_ret_Ok [OF dec])
  show "bi_InitPrice bi \<le> p" "p \<le> bi_MaxPrice bi" using share_le [OF x(1) n x(2)] by (simp_all add: p)
qed

lemma RoundInt_nonneg: "dec_ok S \<Longrightarrow> 0 \<le> x \<Longrightarrow> 0 \<le> dec_RoundInt S x"
proof (rule ccontr)
  assume "dec_ok S" "0 \<le> x" "\<not> 0 \<le> dec_RoundInt S x"
  moreover from this(3) have "dec_RoundInt S x * dec_one \<le> - 1 * dec_one" by (intro mult_right_mono) simp_all
  ultimately show False using dec_okD(12) [of S x] by (simp add: abs_le_iff)
qed

lemma linear_money_Ok:
  assumes dec: "dec_ok S" and D: "bancor_ok D" and bi: "pool_terms bi" and n: "0 \<le> n" and p: "bi_InitPrice bi \<le> p"
    and run: "linear_money S D bi p n = Ok m"
  shows "m = dec_RoundInt S ((p + bi_InitPrice bi) * n div 2)" and "0 \<le> m"
proof -
  have x: "0 \<le> (p + bi_InitPrice bi) * n" using bi n p by (simp add: pool_terms_def)
  then show m: "m = dec_RoundInt S ((p + bi_InitPrice bi) * n div 2)"
    using run by (auto simp: linear_money_def ret_bind_Ok bancor_okD [OF D] QuoInt_ret_Ok [OF dec] ret_map_Ok)
  show "0 \<le> m" unfolding m by (rule RoundInt_nonneg [OF dec]) (use x in simp)
qed

subsection \<open>The power curve\<close>

lemma interpolate_Ok:
  assumes nd: "dec_ok S" and int: "int_ok S" and D: "bancor_ok D" and MS: "0 < bi_MaxSupply bi" and r: "r \<le> near"
    and f: "s * bi_MaxSupply bi \<le> f" "f \<le> (s + 1) * bi_MaxSupply bi"
    and run: "interpolate S D bi f s near r = Ok x"
  shows "r \<le> x" and "x \<le> near"
proof -
  let ?a = "(near - r) * (f - s * bi_MaxSupply bi)" and ?b = "bi_MaxSupply bi * dec_one"
  have a: "0 \<le> ?a" "0 < ?b" using r f MS by simp_all
  obtain q where q: "chk_Quo D ?a ?b = dec_chk q" "0 \<le> q" "\<And>u. ?a * dec_one \<le> u * ?b \<Longrightarrow> q \<le> u"
    using bancor_okD(6) [OF D a] by blast
  have x: "x = q + r"
    using run q(1) by (auto simp: interpolate_def ret_bind_Ok bancor_okD [OF D] int_okD [OF int] dec_okD(1) [OF nd] split: if_splits)
  then show "r \<le> x" using q(2) by simp
  have "?a \<le> (near - r) * bi_MaxSupply bi" using r f(2) by (intro mult_left_mono) (simp_all add: algebra_simps)
  then have "?a * dec_one \<le> (near - r) * bi_MaxSupply bi * dec_one" by (rule mult_right_mono) simp
  then have "q \<le> near - r" by (intro q(3)) (simp add: mult.assoc)
  then show "x \<le> near" by (simp add: x)
qed

text \<open>\<open>s\<close> is the number of whole thousandths in \<open>f\<close>.\<close>

lemma power_ratios_Ok:
  assumes dec: "dec_ok S" and int: "int_ok S" and D: "bancor_ok D" and MS: "0 < bi_MaxSupply bi"
    and f: "s * bi_MaxSupply bi \<le> f" "f \<le> (s + 1) * bi_MaxSupply bi"
    and s: "in_i64 (s + 1)"
    and run: "power_ratios S D bi f s = Ok (x, y)"
  shows "0 \<le> x" and "x \<le> dec_one" and "0 \<le> y" and "y \<le> dec_one"
proof -
  have i: "i64 (s + 1) = s + 1" using s by (simp add: i64_id in_i64_def)
  have within: "0 \<le> r \<and> r \<le> dec_one"
    if run: "TableLookup S D a s = Ok b" "TableLookup S D a (s + 1) = Ok c" "interpolate S D bi f s c b = Ok r" for a b c r
  proof -
    have "b \<le> c" by (rule TableLookup_Ok(4) [OF dec D run(1,2)]) simp
    from interpolate_Ok [OF dec int D MS this f run(3)] TableLookup_Ok(1,2) [OF dec D run(1)] TableLookup_Ok(1,2) [OF dec D run(2)]
    show ?thesis by simp
  qed
  note look = TableLookup_Ok(1,2) [OF dec D]
  have "0 \<le> x \<and> x \<le> dec_one \<and> 0 \<le> y \<and> y \<le> dec_one"
  proof (cases "s * bi_MaxSupply bi < f")
    case True
    then show ?thesis
      using run within by (auto simp: power_ratios_def ret_bind_Ok ret_map_Ok bancor_okD(7) [OF D] i split: if_splits)
  next
    case False
    then show ?thesis
      using run look by (auto simp: power_ratios_def ret_bind_Ok bancor_okD(7) [OF D] split: if_splits)
  qed
  then show "0 \<le> x" "x \<le> dec_one" "0 \<le> y" "y \<le> dec_one" by simp_all
qed

lemma curve_money_Ok:
  assumes dec: "dec_ok S" and int: "int_ok S" and D: "bancor_ok D" and bi: "pool_terms bi" "bi_MaxMoney bi \<noteq> 0"
    and n: "0 \<le> n" "n \<le> bi_MaxSupply bi" and r: "0 \<le> r" "r \<le> dec_one"
    and run: "curve_money S D bi r n = Ok m"
  shows "0 \<le> m" and "m \<le> bi_MaxMoney bi"
proof -
  let ?p = "bi_InitPrice bi" and ?M = "bi_MaxSupply bi"
  let ?least = "?p * ?M div dec_one"
  have p: "0 \<le> ?p" "0 < ?M" "?p * ?M \<le> bi_MaxMoney bi * dec_one" using bi by (simp_all add: pool_terms_def)
  have trunc: "dec_TruncateInt S x = x div dec_one" if "0 \<le> x" for x
    using that dec_okD(11) [OF dec] by (simp add: go_quo_pos)
  have "?least \<le> bi_MaxMoney bi * dec_one div dec_one" by (rule zdiv_mono1 [OF p(3)]) simp
  then have above: "0 \<le> bi_MaxMoney bi - ?least" by simp
  have x: "0 \<le> r * (bi_MaxMoney bi - ?least) + ?p * n" using r above p n by simp
  have "0 \<le> ?p * ?M" using p by simp
  then have m: "m = (r * (bi_MaxMoney bi - ?least) + ?p * n) div dec_one"
    using run x trunc
    by (auto simp: curve_money_def ret_bind_Ok ret_map_Ok bancor_okD [OF D] int_okD [OF int] split: if_splits)
  show "0 \<le> m" unfolding m using x by (simp add: pos_imp_zdiv_nonneg_iff)
  have "r * (bi_MaxMoney bi - ?least) \<le> dec_one * (bi_MaxMoney bi - ?least)" by (rule mult_right_mono [OF r(2) above])
  moreover have "?p * n \<le> ?p * ?M" using p n by (intro mult_left_mono) auto
  moreover have "?p * ?M = dec_one * ?least + ?p * ?M mod dec_one" by simp
  moreover have "dec_one * (bi_MaxMoney bi - ?least) = dec_one * bi_MaxMoney bi - dec_one * ?least" by (simp only: right_diff_distrib)
  ultimately have "r * (bi_MaxMoney bi - ?least) + ?p * n \<le> dec_one * bi_MaxMoney bi + ?p * ?M mod dec_one" by linarith
  then have "m \<le> (dec_one * bi_MaxMoney bi + ?p * ?M mod dec_one) div dec_one" unfolding m by (rule zdiv_mono1) simp
  also have "\<dots> = bi_MaxMoney bi" by (simp add: div_add1_eq)
  finally show "m \<le> bi_MaxMoney bi" .
qed

lemma curve_price_Ok:
  assumes D: "bancor_ok D" and bi: "pool_terms bi" and y: "0 \<le> y" "y \<le> dec_one" and run: "curve_price D bi y = Ok p"
  shows "bi_InitPrice bi \<le> p" and "p \<le> bi_MaxPrice bi"
proof -
  let ?x = "bi_MaxPrice bi - bi_InitPrice bi"
  have x: "0 \<le> ?x" using bi by (simp add: pool_terms_def)
  then have "0 \<le> y * ?x" using y by simp
  then have p: "p = y * ?x div dec_one + bi_InitPrice bi"
    using run by (auto simp: curve_price_def ret_bind_Ok bancor_okD [OF D] go_quo_pos)
  show "bi_InitPrice bi \<le> p" "p \<le> bi_MaxPrice bi"
    using share_le [OF x y] by (simp_all add: p mult.commute)
qed

subsection \<open>Pools on their curve\<close>

definition on_curve :: "'y sdk_scheme \<Rightarrow> bancor_lib \<Rightarrow> bancor_info \<Rightarrow> bool" where
  "on_curve S D bi \<longleftrightarrow> UpdateStockInPool S D bi (bi_StockInPool bi) = Ok (bi, True)"

definition moved :: "bancor_info \<Rightarrow> int \<Rightarrow> dec \<Rightarrow> int \<Rightarrow> bancor_info" where
  "moved bi stock price money = bi\<lparr>bi_StockInPool := stock, bi_Price := price, bi_MoneyInPool := money\<rparr>"

lemma moved_simps [simp]:
  "bi_Owner (moved bi k p m) = bi_Owner bi" "bi_Stock (moved bi k p m) = bi_Stock bi" "bi_Money (moved bi k p m) = bi_Money bi"
  "bi_InitPrice (moved bi k p m) = bi_InitPrice bi" "bi_MaxSupply (moved bi k p m) = bi_MaxSupply bi"
  "bi_StockPrecision (moved bi k p m) = bi_StockPrecision bi" "bi_MaxPrice (moved bi k p m) = bi_MaxPrice bi"
  "bi_MaxMoney (moved bi k p m) = bi_MaxMoney bi" "bi_AR (moved bi k p m) = bi_AR bi"
  "bi_EarliestCancelTime (moved bi k p m) = bi_EarliestCancelTime bi"
  "bi_StockInPool (moved bi k p m) = k" "bi_Price (moved bi k p m) = p" "bi_MoneyInPool (moved bi k p m) = m"
  "bancor_GetSymbol (moved bi k p m) = bancor_GetSymbol bi" "pool_terms (moved bi k p m) = pool_terms bi"
  by (simp_all add: moved_def bancor_GetSymbol_def pool_terms_def)

text \<open>The outcome depends on the terms of the pool and the new stock only, not on the pool's holdings.\<close>

lemma Update_moved:
  "UpdateStockInPool S D (moved bi a b c) k = Ok (bi', True) \<longleftrightarrow> UpdateStockInPool S D bi k = Ok (bi', True)"
proof -
  have lp: "linear_price S D (bi\<lparr>bi_StockInPool := k, bi_Price := b, bi_MoneyInPool := c\<rparr>) = linear_price S D (bi\<lparr>bi_StockInPool := k\<rparr>)"
      "linear_money S D (bi\<lparr>bi_StockInPool := k, bi_Price := b, bi_MoneyInPool := c\<rparr>) = linear_money S D (bi\<lparr>bi_StockInPool := k\<rparr>)"
    by (simp_all add: linear_price_def linear_money_def fun_eq_iff)
  have ip: "interpolate S D (bi\<lparr>bi_StockInPool := k, bi_Price := b, bi_MoneyInPool := c\<rparr>) = interpolate S D (bi\<lparr>bi_StockInPool := k\<rparr>)"
    by (simp add: interpolate_def fun_eq_iff)
  have cp: "power_ratios S D (bi\<lparr>bi_StockInPool := k, bi_Price := b, bi_MoneyInPool := c\<rparr>) = power_ratios S D (bi\<lparr>bi_StockInPool := k\<rparr>)"
      "curve_money S D (bi\<lparr>bi_StockInPool := k, bi_Price := b, bi_MoneyInPool := c\<rparr>) = curve_money S D (bi\<lparr>bi_StockInPool := k\<rparr>)"
      "curve_price D (bi\<lparr>bi_StockInPool := k, bi_Price := b, bi_MoneyInPool := c\<rparr>) = curve_price D (bi\<lparr>bi_StockInPool := k\<rparr>)"
    by (simp_all add: power_ratios_def curve_money_def curve_price_def fun_eq_iff ip cong: if_cong)
  have m: "(moved bi a b c)\<lparr>bi_StockInPool := k\<rparr> = bi\<lparr>bi_StockInPool := k, bi_Price := b, bi_MoneyInPool := c\<rparr>"
    by (simp add: moved_def)
  show ?thesis
    unfolding UpdateStockInPool_def Let_def m
    by (auto simp: ret_bind_Ok lp cp split: if_splits prod.splits)
qed

lemma thousandths:
  assumes "0 \<le> n" and "n \<le> M" and "(0 :: int) < M" and "s = n * SupplyRatioSamples div M"
  shows "s * M \<le> n * SupplyRatioSamples" and "n * SupplyRatioSamples \<le> (s + 1) * M" and "0 \<le> s" and "s \<le> SupplyRatioSamples"
proof -
  have "s * M + n * SupplyRatioSamples mod M = n * SupplyRatioSamples" unfolding assms(4) by simp
  moreover have "0 \<le> n * SupplyRatioSamples mod M" "n * SupplyRatioSamples mod M < M" using assms(3) by simp_all
  ultimately show "s * M \<le> n * SupplyRatioSamples" "n * SupplyRatioSamples \<le> (s + 1) * M" by (simp_all add: algebra_simps)
  show "0 \<le> s" "s \<le> SupplyRatioSamples"
    using share_le [of SupplyRatioSamples n M] assms by (simp_all add: SupplyRatioSamples_def mult.commute)
qed

lemma UpdateStockInPool_Ok:
  assumes dec: "dec_ok S" and int: "int_ok S" and D: "bancor_ok D" and bi: "pool_terms bi"
    and run: "UpdateStockInPool S D bi k = Ok (bi', True)"
  shows "\<exists>p m. bi' = moved bi k p m \<and> bi_InitPrice bi \<le> p \<and> p \<le> bi_MaxPrice bi \<and> 0 \<le> m \<and> (bi_MaxMoney bi \<noteq> 0 \<longrightarrow> m \<le> bi_MaxMoney bi)"
    and "0 \<le> k" and "k \<le> bi_MaxSupply bi"
proof -
  show k: "0 \<le> k" "k \<le> bi_MaxSupply bi" using run by (auto simp: UpdateStockInPool_def split: if_splits)
  let ?bi = "bi\<lparr>bi_StockInPool := k\<rparr>" and ?n = "bi_MaxSupply bi - k" and ?M = "bi_MaxSupply bi"
  have bi': "pool_terms ?bi" "0 < ?M" using bi by (simp_all add: pool_terms_def)
  have n: "0 \<le> ?n" "?n \<le> ?M" using k by simp_all
  show "\<exists>p m. bi' = moved bi k p m \<and> bi_InitPrice bi \<le> p \<and> p \<le> bi_MaxPrice bi \<and> 0 \<le> m \<and> (bi_MaxMoney bi \<noteq> 0 \<longrightarrow> m \<le> bi_MaxMoney bi)"
  proof (cases "bi_MaxMoney bi = 0")
    case True
    then obtain p m where pm: "linear_price S D ?bi ?n = Ok p" "linear_money S D ?bi p ?n = Ok m" "bi' = moved bi k p m"
      using run k by (auto simp: UpdateStockInPool_def Let_def ret_bind_Ok int_okD [OF int] moved_def split: if_splits)
    note p = linear_price_Ok [OF dec D bi'(1) n(1) _ pm(1)]
    have "bi_InitPrice bi \<le> p" "p \<le> bi_MaxPrice bi" using p(1,2) n(2) by simp_all
    moreover have "0 \<le> m" using linear_money_Ok(2) [OF dec D bi'(1) n(1) _ pm(2)] calculation(1) by simp
    ultimately show ?thesis using True pm(3) by blast
  next
    case False
    define s where "s = ?n * SupplyRatioSamples div ?M"
    note s = thousandths [OF n bi'(2) s_def]
    have quo: "go_quo (?n * SupplyRatioSamples) ?M = s" unfolding s_def using n(1) bi'(2) by (simp add: go_quo_pos SupplyRatioSamples_def)
    obtain r y p m where u: "power_ratios S D ?bi (?n * SupplyRatioSamples) s = Ok (r, y)"
        "curve_money S D ?bi r ?n = Ok m" "curve_price D ?bi y = Ok p" "bi' = moved bi k p m"
      using run k False bi'(2)
      by (auto simp: UpdateStockInPool_def Let_def ret_bind_Ok int_okD [OF int] bancor_okD(7) [OF D] int_Quo_ret_def to_Int64_def quo moved_def
          split: if_splits prod.splits)
    have i: "in_i64 (s + 1)" using s(3,4) by (simp add: in_i64_def SupplyRatioSamples_def)
    have "0 < bi_MaxSupply ?bi" using bi'(2) by simp
    note ry = power_ratios_Ok [OF dec int D this _ _ i u(1)]
    have ry': "0 \<le> r" "r \<le> dec_one" "0 \<le> y" "y \<le> dec_one" using ry s(1,2) by simp_all
    have "bi_InitPrice ?bi \<le> p" "p \<le> bi_MaxPrice ?bi" by (rule curve_price_Ok [OF D bi'(1) ry'(3,4) u(3)])+
    moreover have "0 \<le> m" "m \<le> bi_MaxMoney ?bi"
      using curve_money_Ok [OF dec int D bi'(1) _ n(1) _ ry'(1,2) u(2)] False n(2) by simp_all
    ultimately show ?thesis using u(4) by auto
  qed
qed

definition pool_ok :: "'y sdk_scheme \<Rightarrow> bancor_lib \<Rightarrow> bancor_info \<Rightarrow> bool" where
  "pool_ok S D bi \<longleftrightarrow> pool_terms bi \<and> on_curve S D bi"

lemma pool_okD:
  assumes "dec_ok S" and "int_ok S" and "bancor_ok D" and "pool_ok S D bi"
  shows "pool_terms bi" and "0 \<le> bi_StockInPool bi" and "bi_StockInPool bi \<le> bi_MaxSupply bi"
    and "0 \<le> bi_MoneyInPool bi" and "bi_InitPrice bi \<le> bi_Price bi" and "bi_Price bi \<le> bi_MaxPrice bi"
    and "bi_MaxMoney bi \<noteq> 0 \<Longrightarrow> bi_MoneyInPool bi \<le> bi_MaxMoney bi"
proof -
  show t: "pool_terms bi" using assms(4) by (simp add: pool_ok_def)
  have run: "UpdateStockInPool S D bi (bi_StockInPool bi) = Ok (bi, True)" using assms(4) by (simp add: pool_ok_def on_curve_def)
  show "0 \<le> bi_StockInPool bi" "bi_StockInPool bi \<le> bi_MaxSupply bi"
    by (rule UpdateStockInPool_Ok(2,3) [OF assms(1-3) t run])+
  obtain p m where pm: "bi = moved bi (bi_StockInPool bi) p m" "bi_InitPrice bi \<le> p" "p \<le> bi_MaxPrice bi" "0 \<le> m"
      "bi_MaxMoney bi \<noteq> 0 \<Longrightarrow> m \<le> bi_MaxMoney bi"
    using UpdateStockInPool_Ok(1) [OF assms(1-3) t run] by blast
  have "bi_Price bi = p" "bi_MoneyInPool bi = m" by (subst pm(1), simp)+
  then show "0 \<le> bi_MoneyInPool bi" "bi_InitPrice bi \<le> bi_Price bi" "bi_Price bi \<le> bi_MaxPrice bi"
    "bi_MaxMoney bi \<noteq> 0 \<Longrightarrow> bi_MoneyInPool bi \<le> bi_MaxMoney bi" using pm by simp_all
qed

lemma pool_ok_Update:
  assumes "dec_ok S" and "int_ok S" and "bancor_ok D" and "pool_ok S D bi" and run: "UpdateStockInPool S D bi k = Ok (bi', True)"
  shows "pool_ok S D bi'" and "\<exists>p m. bi' = moved bi k p m"
proof -
  have t: "pool_terms bi" using assms(4) by (simp add: pool_ok_def)
  show "\<exists>p m. bi' = moved bi k p m" using UpdateStockInPool_Ok(1) [OF assms(1-3) t run] by blast
  then obtain p m where bi': "bi' = moved bi k p m" by blast
  have "UpdateStockInPool S D bi' k = Ok (bi', True)" using run Update_moved [of S D bi k p m k] by (simp add: bi')
  then show "pool_ok S D bi'" using t by (simp add: pool_ok_def on_curve_def bi')
qed

subsection \<open>What the handler relies on\<close>

text \<open>
  A pool as its users see it: it can be moved to an amount of stock, and where it gets does not depend on
  the way it took.
\<close>

locale stock_curve =
  fixes move :: "'p \<Rightarrow> int \<Rightarrow> 'p option"
    and stock :: "'p \<Rightarrow> int"
    and ok :: "'p \<Rightarrow> bool"
  assumes move_ok: "ok p \<Longrightarrow> move p k = Some q \<Longrightarrow> ok q"
    and move_stock: "ok p \<Longrightarrow> move p k = Some q \<Longrightarrow> stock q = k"
    and stay: "ok p \<Longrightarrow> move p (stock p) = Some p"
    and path: "ok p \<Longrightarrow> move p j = Some q \<Longrightarrow> move q k = move p k"
begin

text \<open>\<open>q\<close> is where \<open>p\<close> gets with the stock of \<open>q\<close>; so is all that \<open>q\<close> moves to.\<close>

lemma onward:
  assumes "ok p" and "move p (stock q) = Some q" and "move q k = Some r"
  shows "move p (stock r) = Some r" and "stock r = k"
proof -
  have r: "move p k = Some r" using path [OF assms(1,2)] assms(3) by simp
  then show "stock r = k" by (rule move_stock [OF assms(1)])
  with r show "move p (stock r) = Some r" by simp
qed

lemma same_end: "ok p \<Longrightarrow> move p (stock q) = Some q \<Longrightarrow> stock q = stock p \<Longrightarrow> q = p"
  using stay by auto

end

definition curve_move :: "'y sdk_scheme \<Rightarrow> bancor_lib \<Rightarrow> bancor_info \<Rightarrow> int \<Rightarrow> bancor_info option" where
  "curve_move S D bi k = (case UpdateStockInPool S D bi k of Ok (bi', True) \<Rightarrow> Some bi' | _ \<Rightarrow> None)"

lemma curve_move_Some: "curve_move S D bi k = Some bi' \<longleftrightarrow> UpdateStockInPool S D bi k = Ok (bi', True)"
  by (auto simp: curve_move_def split: ret.split bool.split)

interpretation pool: stock_curve "curve_move S D" bi_StockInPool "\<lambda>bi. dec_ok S \<and> int_ok S \<and> bancor_ok D \<and> pool_ok S D bi"
  for S :: "'y sdk_scheme" and D
proof unfold_locales
  fix p q k
  assume ok: "dec_ok S \<and> int_ok S \<and> bancor_ok D \<and> pool_ok S D p"
  show "curve_move S D p (bi_StockInPool p) = Some p" using ok by (simp add: curve_move_Some pool_ok_def on_curve_def)
  assume run: "curve_move S D p k = Some q"
  note upd = pool_ok_Update [OF _ _ _ _ run [unfolded curve_move_Some]]
  show "dec_ok S \<and> int_ok S \<and> bancor_ok D \<and> pool_ok S D q" "bi_StockInPool q = k"
    using ok upd by auto
  fix j
  obtain a m where q: "q = moved p k a m" using ok upd(2) by blast
  have "curve_move S D q j = Some r \<longleftrightarrow> curve_move S D p j = Some r" for r
    unfolding curve_move_Some q by (rule Update_moved)
  then show "curve_move S D q j = curve_move S D p j" by (metis not_None_eq)
qed

end
