(* ===== verification/MarketEnd.thy ===== *)
theory MarketEnd
  imports MarketMsgs Match
begin

section \<open>The market's end blocker\<close>

text \<open>
  \<open>src/modules/market/endblocker.go\<close>: wrapping the orders of the book for the matching engine,
  executing a deal, removing orders with their fees, and the block's work: the daily clean-up or the
  matching of the markets with new orders. \<open>sub\<close> is the message producer's \<open>IsSubscribed\<close>.
\<close>

subsection \<open>Orders as the engine sees them\<close>

text \<open>\<open>RoundInt64\<close> panics beyond 64 bits; for an order of the book it never does.\<close>

definition notEnoughMoney :: "'y sdk_scheme \<Rightarrow> order \<Rightarrow> bool ret" where
  "notEnoughMoney S odr =
     (if Side odr = BUY
      then ret_map (\<lambda>m. Freeze odr < m) (dec_RoundInt64 S (dec_Mul S (Price odr) (NewDec S (LeftStock odr))))
      else Ok False)"

text \<open>
  The \<open>InfoForDeal\<close> of one market: the orders behind the pointers (numbered in the order they were
  wrapped), the changed ones by identifier, and the last price. The engine works on a pair of the
  chain's state and this record.
\<close>

record deal_info =
  wrapped :: "order list"
  changedOrders :: "(string \<times> nat) list"
  lastPrice :: dec

definition on_chain :: "('s, 'a) op \<Rightarrow> ('s \<times> deal_info, 'a) op" where
  "on_chain m = (\<lambda>(s, d). case m s of (r, s') \<Rightarrow> (r, (s', d)))"

definition set_order :: "nat \<Rightarrow> order \<Rightarrow> ('s \<times> deal_info, unit) op" where
  "set_order i x = modify (\<lambda>(s, d). (s, d\<lparr>wrapped := (wrapped d)[i := x]\<rparr>))"

text \<open>\<open>changedOrders[id] = order\<close>.\<close>

definition put_changed :: "string \<Rightarrow> nat \<Rightarrow> (string \<times> nat) list \<Rightarrow> (string \<times> nat) list" where
  "put_changed k i m = (if k \<in> fst ` set m then map (\<lambda>e. if fst e = k then (k, i) else e) m else m @ [(k, i)])"

definition FillOrderInfo :: "'y sdk_scheme \<Rightarrow> order \<Rightarrow> int \<Rightarrow> int \<Rightarrow> dec \<Rightarrow> int \<Rightarrow> json" where
  "FillOrderInfo S odr stockAmount moneyAmount price currentHeight = JObj [
     (''order_id'', JStr (OrderID S odr)), (''trading_pair'', JStr (TradingPair odr)),
     (''height'', JInt currentHeight), (''side'', JInt (int (Side odr))), (''price'', JDec (Price odr)),
     (''left_stock'', JInt (LeftStock odr)), (''freeze'', JInt (Freeze odr)),
     (''deal_stock'', JInt (DealStock odr)), (''deal_money'', JInt (DealMoney odr)),
     (''curr_stock'', JInt stockAmount), (''curr_money'', JInt moneyAmount), (''fill_price'', JDec price)]"

definition SendFillMsg ::
    "'y sdk_scheme \<Rightarrow> order \<Rightarrow> order \<Rightarrow> int \<Rightarrow> int \<Rightarrow> dec \<Rightarrow> int \<Rightarrow> (('b, 'z) base_state_scheme, unit) op" where
  "SendFillMsg S seller buyer stockAmount moneyAmount price currentHeight =
     and_then (FillMsgs FillOrderInfoKey (FillOrderInfo S seller stockAmount moneyAmount price currentHeight))
       (\<lambda>_. FillMsgs FillOrderInfoKey (FillOrderInfo S buyer stockAmount moneyAmount price currentHeight))"

text \<open>What a deal does to the two orders.\<close>

definition deal_buyer :: "int \<Rightarrow> int \<Rightarrow> order \<Rightarrow> order" where
  "deal_buyer amount moneyAmount b = b\<lparr>LeftStock := i64 (LeftStock b - amount),
     Freeze := i64 (Freeze b - moneyAmount), DealStock := i64 (DealStock b + amount),
     DealMoney := i64 (DealMoney b + moneyAmount)\<rparr>"

definition deal_seller :: "int \<Rightarrow> int \<Rightarrow> order \<Rightarrow> order" where
  "deal_seller amount moneyAmount x = x\<lparr>LeftStock := i64 (LeftStock x - amount),
     Freeze := i64 (Freeze x - amount), DealStock := i64 (DealStock x + amount),
     DealMoney := i64 (DealMoney x + moneyAmount)\<rparr>"

text \<open>The exchange of the coins; the results of the four calls are not looked at.\<close>

definition exchange_coins ::
    "('b, 'y) cosmos_scheme \<Rightarrow> addr \<Rightarrow> addr \<Rightarrow> coins \<Rightarrow> coins \<Rightarrow> (('b, 'z) authx_state_scheme, unit) op" where
  "exchange_coins C buyer seller stockCoins moneyCoins =
     and_then (ignore_err (UnFreezeCoins C seller stockCoins)) (\<lambda>_.
     and_then (ignore_err (SendCoins C seller buyer stockCoins)) (\<lambda>_.
     and_then (ignore_err (UnFreezeCoins C buyer moneyCoins)) (\<lambda>_.
     ignore_err (SendCoins C buyer seller moneyCoins))))"

definition wo_Deal ::
    "('b, 'y) cosmos_scheme \<Rightarrow> (string \<Rightarrow> bool) \<Rightarrow> ctx \<Rightarrow> nat \<Rightarrow> nat \<Rightarrow> int \<Rightarrow> dec \<Rightarrow>
      (('b, 'z) market_state_scheme \<times> deal_info, unit) op" where
  "wo_Deal C sub ctx cur otherSide amount price sd =
     (let wo = wrapped (snd sd) ! cur; other = wrapped (snd sd) ! otherSide;
          (ib, b, ix, x) = (if Side wo = SELL then (otherSide, other, cur, wo) else (cur, wo, otherSide, other))
      in and_then (lift (SplitSymbol (TradingPair b))) (\<lambda>(stock, money).
         and_then (lift (NewCoin C stock amount)) (\<lambda>stockCoin.
         let moneyAmount = dec_TruncateInt C (dec_MulInt C price amount) in
         and_then (lift (NewCoin C money moneyAmount)) (\<lambda>moneyCoin.
         if moneyAmount > MaxOrderAmount then return ()
         else and_then (lift (to_Int64 moneyAmount)) (\<lambda>moneyAmount.
           let b' = deal_buyer amount moneyAmount b; x' = deal_seller amount moneyAmount x in
           and_then (set_order ib b') (\<lambda>_.
           and_then (set_order ix x') (\<lambda>_.
           and_then (on_chain (exchange_coins C (Sender b') (Sender x') [stockCoin] [moneyCoin])) (\<lambda>_.
           and_then (modify (\<lambda>(s, d). (s, d\<lparr>changedOrders :=
               put_changed (OrderID C x') ix (put_changed (OrderID C b') ib (changedOrders d)),
               lastPrice := price\<rparr>))) (\<lambda>_.
           whenever (sub ModuleName_market)
             (on_chain (SendFillMsg C x' b' amount moneyAmount price (BlockHeight ctx))))))))))) sd)"

text \<open>\<open>sha\<close> is \<open>sha256.Sum256\<close> of the standard library; all the engine needs of it is a fixed value.\<close>

definition wrapped_order ::
    "('b, 'y) cosmos_scheme \<Rightarrow> (string \<Rightarrow> string) \<Rightarrow> (string \<Rightarrow> bool) \<Rightarrow> ctx \<Rightarrow>
      (('b, 'z) market_state_scheme \<times> deal_info) order_iface" where
  "wrapped_order C sha sub ctx = \<lparr>
     GetPrice = (\<lambda>sd i. Price (wrapped (snd sd) ! i)),
     GetAmount = (\<lambda>sd i. if notEnoughMoney C (wrapped (snd sd) ! i) = Ok True then 0
        else LeftStock (wrapped (snd sd) ! i)),
     GetHeight = (\<lambda>sd i. Height (wrapped (snd sd) ! i)),
     GetHash = (\<lambda>sd i. sha (OrderID C (wrapped (snd sd) ! i) @ DataHash ctx)),
     GetSide = (\<lambda>sd i. Side (wrapped (snd sd) ! i)),
     Deal = wo_Deal C sub ctx\<rparr>"

subsection \<open>Fees and removal\<close>

definition calRebateAmount :: "('b, 'z) authx_state_scheme \<Rightarrow> int \<Rightarrow> int ret" where
  "calRebateAmount s fee = to_Int64 (go_quo (fee * GetRebateRatio s) RebateRatioBase)"

definition chargeFee ::
    "('b, 'y) cosmos_scheme \<Rightarrow> int \<Rightarrow> addr \<Rightarrow> (('b, 'z) authx_state_scheme, unit) op" where
  "chargeFee C fee userAddr s =
     (case market_GetRefereeAddr s userAddr of
        None \<Rightarrow> ignore_err (DeductInt64CetFee C userAddr fee) s
      | Some refereeAddr \<Rightarrow>
          and_then (lift (calRebateAmount s fee)) (\<lambda>rebateAmount.
          and_then (whenever (rebateAmount > 0)
            (and_then (lift (NewCetCoins C rebateAmount))
              (\<lambda>cs. ignore_err (SendCoins C userAddr refereeAddr cs)))) (\<lambda>_.
          ignore_err (DeductInt64CetFee C userAddr (i64 (fee - rebateAmount))))) s)"

definition unfreezeCoinsInOrder ::
    "('b, 'y) cosmos_scheme \<Rightarrow> order \<Rightarrow> (('b, 'z) authx_state_scheme, unit) op" where
  "unfreezeCoinsInOrder C odr =
     and_then (lift (GetOrderUsedDenom odr)) (\<lambda>frozenToken.
     and_then (lift (dex_NewCoins C frozenToken (Freeze odr))) (\<lambda>cs.
     ignore_err (UnFreezeCoins C (Sender odr) cs)))"

definition chargeOrderCommission ::
    "('b, 'y) cosmos_scheme \<Rightarrow> order \<Rightarrow> int \<Rightarrow> (('b, 'z) authx_state_scheme, unit) op" where
  "chargeOrderCommission C odr feeForZeroDeal = whenever (FrozenCommission odr \<noteq> 0)
     (and_then (lift (NewCetCoins C (FrozenCommission odr))) (\<lambda>cs.
      and_then (ignore_err (UnFreezeCoins C (Sender odr) cs)) (\<lambda>_.
      and_then (lift (CalActualOrderCommissionInt64 C odr feeForZeroDeal)) (\<lambda>actualFee.
      chargeFee C actualFee (Sender odr)))))"

definition chargeOrderFeatureFee ::
    "('b, 'y) cosmos_scheme \<Rightarrow> ctx \<Rightarrow> order \<Rightarrow> int \<Rightarrow> (('b, 'z) authx_state_scheme, unit) op" where
  "chargeOrderFeatureFee C ctx odr freeTimeBlocks = whenever (TimeInForce odr = GTE \<and> FrozenFeatureFee odr \<noteq> 0)
     (and_then (lift (NewCetCoins C (FrozenFeatureFee odr))) (\<lambda>cs.
      and_then (ignore_err (UnFreezeCoins C (Sender odr) cs)) (\<lambda>_.
      and_then (lift (CalActualOrderFeatureFeeInt64 C ctx odr freeTimeBlocks)) (\<lambda>actualFee.
      chargeFee C actualFee (Sender odr)))))"

definition unfreezeCoinsForOrder ::
    "('b, 'y) cosmos_scheme \<Rightarrow> ctx \<Rightarrow> order \<Rightarrow> market_params \<Rightarrow> (('b, 'z) authx_state_scheme, unit) op" where
  "unfreezeCoinsForOrder C ctx odr p =
     and_then (unfreezeCoinsInOrder C odr) (\<lambda>_.
     and_then (chargeOrderCommission C odr (FeeForZeroDeal p)) (\<lambda>_.
     chargeOrderFeatureFee C ctx odr (GTEOrderLifetime p)))"

definition removeOrder ::
    "('b, 'y) cosmos_scheme \<Rightarrow> ctx \<Rightarrow> string \<Rightarrow> order \<Rightarrow> market_params \<Rightarrow> (('b, 'z) market_state_scheme, unit) op" where
  "removeOrder C ctx symbol odr p =
     and_then (whenever (Freeze odr \<noteq> 0 \<or> FrozenFeatureFee odr \<noteq> 0 \<or> FrozenCommission odr \<noteq> 0)
       (unfreezeCoinsForOrder C ctx odr p)) (\<lambda>_.
     ignore_err (Remove C symbol odr))"

subsection \<open>The record of a cancelled order\<close>

definition getRebateAmountInOrder :: "('b, 'z) authx_state_scheme \<Rightarrow> int \<Rightarrow> int \<Rightarrow> int ret" where
  "getRebateAmountInOrder s commission featureFee =
     ret_bind (calRebateAmount s commission) (\<lambda>x. ret_map (\<lambda>y. i64 (x + y)) (calRebateAmount s featureFee))"

definition getCancelOrderReason :: "'y sdk_scheme \<Rightarrow> order \<Rightarrow> string \<Rightarrow> string ret" where
  "getCancelOrderReason S odr delReason =
     (if length delReason \<noteq> 0 then Ok delReason
      else if TimeInForce odr = IOC then Ok CancelOrderByIocType
      else if LeftStock odr = 0 then Ok CancelOrderByAllFilled
      else ret_map (\<lambda>b. if b then CancelOrderByNoEnoughMoney else CancelOrderByNotKnow) (notEnoughMoney S odr))"

definition packageCancelOrderMsgWithDelReason ::
    "('b, 'y) cosmos_scheme \<Rightarrow> ctx \<Rightarrow> order \<Rightarrow> string \<Rightarrow> market_params \<Rightarrow> ('b, 'z) authx_state_scheme \<Rightarrow> json ret" where
  "packageCancelOrderMsgWithDelReason C ctx odr delReason p s =
     ret_bind (if FrozenFeatureFee odr \<noteq> 0 then CalActualOrderFeatureFeeInt64 C ctx odr (GTEOrderLifetime p) else Ok 0) (\<lambda>usedFeatureFee.
     ret_bind (CalActualOrderCommissionInt64 C odr (FeeForZeroDeal p)) (\<lambda>usedCommission.
     let refereeAddr = (case market_GetRefereeAddr s (Sender odr) of None \<Rightarrow> [] | Some r \<Rightarrow> addr_String C r) in
     ret_bind (if length refereeAddr \<noteq> 0 then getRebateAmountInOrder s usedCommission usedFeatureFee else Ok 0) (\<lambda>rebate.
     ret_bind (getCancelOrderReason C odr delReason) (\<lambda>reason. Ok (JObj [
       (''order_id'', JStr (OrderID C odr)), (''trading_pair'', JStr (TradingPair odr)),
       (''height'', JInt (BlockHeight ctx)), (''side'', JInt (int (Side odr))), (''price'', JDec (Price odr)),
       (''del_reason'', JStr reason), (''used_commission'', JInt usedCommission),
       (''used_feature_fee'', JInt usedFeatureFee), (''rebate_amount'', JInt rebate),
       (''rebate_referee_addr'', JStr refereeAddr), (''left_stock'', JInt (LeftStock odr)),
       (''remain_amount'', JInt (Freeze odr)), (''deal_stock'', JInt (DealStock odr)),
       (''deal_money'', JInt (DealMoney odr))])))))"

definition packageCancelOrderMsg ::
    "('b, 'y) cosmos_scheme \<Rightarrow> ctx \<Rightarrow> order \<Rightarrow> market_params \<Rightarrow> ('b, 'z) authx_state_scheme \<Rightarrow> json ret" where
  "packageCancelOrderMsg C ctx odr p s = packageCancelOrderMsgWithDelReason C ctx odr [] p s"

definition send_cancel ::
    "('b, 'y) cosmos_scheme \<Rightarrow> (string \<Rightarrow> bool) \<Rightarrow> ctx \<Rightarrow> order \<Rightarrow> string \<Rightarrow> market_params \<Rightarrow> (('b, 'z) authx_state_scheme, unit) op" where
  "send_cancel C sub ctx odr delReason p s = whenever (sub ModuleName_market)
     (and_then (lift (packageCancelOrderMsgWithDelReason C ctx odr delReason p s)) (FillMsgs CancelOrderInfoKey)) s"

subsection \<open>Matching one market\<close>

text \<open>
  The engine's loops may not end as far as the types tell, so the operations from here on give an
  option: \<open>None\<close> is a run that does not end.
\<close>

type_synonym ('s, 'a) lop = "'s \<Rightarrow> ('a ret \<times> 's) option"

definition lop :: "('s, 'a) op \<Rightarrow> ('s, 'a) lop" where
  "lop m = (\<lambda>s. Some (m s))"

definition lop_then :: "('s, 'a) lop \<Rightarrow> ('a \<Rightarrow> ('s, 'b) lop) \<Rightarrow> ('s, 'b) lop" where
  "lop_then m f = (\<lambda>s. case m s of None \<Rightarrow> None
    | Some (r, s') \<Rightarrow> (case r of Ok a \<Rightarrow> f a s' | Err e \<Rightarrow> Some (Err e, s') | Panic \<Rightarrow> Some (Panic, s')))"

text \<open>A \<open>nil\<close> pointer of a keeper's list panics when it is used.\<close>

fun deref :: "order option list \<Rightarrow> order list ret" where
  "deref [] = Ok []"
| "deref (None # xs) = Panic"
| "deref (Some x # xs) = ret_map ((#) x) (deref xs)"

definition filterCandidates ::
    "('b, 'z) asset_state_scheme \<Rightarrow> order list \<Rightarrow> string \<Rightarrow> string \<Rightarrow> order list" where
  "filterCandidates s ordersIn stock money = filter
     (\<lambda>x. \<not> (IsForbiddenByTokenIssuer s stock (Sender x) \<or> IsForbiddenByTokenIssuer s money (Sender x))) ordersIn"

definition add_ioc :: "'y sdk_scheme \<Rightarrow> (string \<times> order) list \<Rightarrow> order \<Rightarrow> (string \<times> order) list" where
  "add_ioc S m x = (if TimeInForce x = IOC \<and> OrderID S x \<notin> fst ` set m then m @ [(OrderID S x, x)] else m)"

text \<open>\<open>G\<close> is the library's sorting, \<open>sha\<close> its SHA-256.\<close>

definition runMatch ::
    "('b, 'y) cosmos_scheme \<Rightarrow> go_sorts \<Rightarrow> (string \<Rightarrow> string) \<Rightarrow> (string \<Rightarrow> bool) \<Rightarrow> ctx \<Rightarrow> dec \<Rightarrow> int \<Rightarrow> string \<Rightarrow> int \<Rightarrow>
      (('b, 'z) market_state_scheme, (string \<times> order) list \<times> dec) lop" where
  "runMatch C G sha sub ctx midPrice ratio symbol currHeight =
     (let lowPrice = dec_Quo C (dec_Mul C midPrice (NewDec C (i64 (100 - ratio)))) (NewDec C 100);
          highPrice = dec_Quo C (dec_Mul C midPrice (NewDec C (i64 (100 + ratio)))) (NewDec C 100)
      in lop_then (lop (lift (SplitSymbol symbol))) (\<lambda>(stock, money).
         lop_then (lop (GetMatchingCandidates symbol)) (\<lambda>candidates s.
           let orders = filterCandidates s candidates stock money;
               d = \<lparr>wrapped = orders, changedOrders = [], lastPrice = NewDec C 0\<rparr>;
               bidList = filter (\<lambda>i. Side (orders ! i) = BID) [0..<length orders];
               askList = filter (\<lambda>i. Side (orders ! i) \<noteq> BID) [0..<length orders]
           in case Match G (wrapped_order C sha sub ctx) highPrice midPrice lowPrice bidList askList (s, d) of
                None \<Rightarrow> None
              | Some (Panic, (s', d')) \<Rightarrow> Some (Panic, s')
              | Some (Err e, (s', d')) \<Rightarrow> Some (Err e, s')
              | Some (Ok left, (s', d')) \<Rightarrow>
                  let changed = map (\<lambda>(k, i). (k, wrapped d' ! i)) (changedOrders d')
                  in Some (ret_map (\<lambda>xs. (foldl (add_ioc C) changed xs, lastPrice d'))
                       (ret_bind (GetOrdersAtHeight symbol currHeight s') deref), s'))))"

subsection \<open>The daily clean-up\<close>

definition removeExpiredOrder_in ::
    "('b, 'y) cosmos_scheme \<Rightarrow> (string \<Rightarrow> bool) \<Rightarrow> ctx \<Rightarrow> market_params \<Rightarrow> MarketInfo \<Rightarrow> (('b, 'z) market_state_scheme, unit) op" where
  "removeExpiredOrder_in C sub ctx p mi s =
     and_then (lift (ret_bind (GetOlderThan (MarketInfo_GetSymbol mi) (BlockHeight ctx) s) deref))
       (foreach (\<lambda>odr. whenever (\<not> i64 (Height odr + ExistBlocks odr) > BlockHeight ctx)
          (and_then (removeOrder C ctx (MarketInfo_GetSymbol mi) odr p)
            (\<lambda>_. send_cancel C sub ctx odr CancelOrderByGteTimeOut p)))) s"

definition removeExpiredOrder ::
    "('b, 'y) cosmos_scheme \<Rightarrow> (string \<Rightarrow> bool) \<Rightarrow> ctx \<Rightarrow> MarketInfo list \<Rightarrow> market_params \<Rightarrow> (('b, 'z) market_state_scheme, unit) op" where
  "removeExpiredOrder C sub ctx marketInfoList p = foreach (removeExpiredOrder_in C sub ctx p) marketInfoList"

definition removeExpiredMarket_in ::
    "('b, 'y) cosmos_scheme \<Rightarrow> (string \<Rightarrow> bool) \<Rightarrow> ctx \<Rightarrow> market_params \<Rightarrow> string \<Rightarrow> (('b, 'z) market_state_scheme, unit) op" where
  "removeExpiredMarket_in C sub ctx p symbol s =
     and_then (lift (ret_bind (GetOlderThan symbol (i64 (BlockHeight ctx + 1)) s) deref)) (\<lambda>oldOrders.
     and_then (foreach (\<lambda>odr. and_then (removeOrder C ctx symbol odr p)
         (\<lambda>_. send_cancel C sub ctx odr CancelOrderByGteTimeOut p)) oldOrders) (\<lambda>_.
     RemoveMarket symbol)) s"

definition removeExpiredMarket ::
    "('b, 'y) cosmos_scheme \<Rightarrow> (string \<Rightarrow> bool) \<Rightarrow> ctx \<Rightarrow> market_params \<Rightarrow> (('b, 'z) market_state_scheme, unit) op" where
  "removeExpiredMarket C sub ctx p s =
     and_then (lift (GetDelistSymbolsBeforeTime s (UnixNano ctx))) (\<lambda>delistSymbols.
     and_then (foreach (removeExpiredMarket_in C sub ctx p) delistSymbols) (\<lambda>_.
     RemoveDelistRequestsBeforeTime (UnixNano ctx))) s"

text \<open>
  Of the standard library: the day of the month of a time in UTC (the civil calendar counts from
  the first of March of a 400-year era), the minute of the hour in the zone of the node (\<open>zone\<close>
  gives its offset in seconds), and \<open>strings.Contains\<close>.
\<close>

definition Day :: "int \<Rightarrow> int" where
  "Day t =
     (let z = t div 86400 + 719468;
          doe = z mod 146097;
          yoe = (doe - doe div 1460 + doe div 36524 - doe div 146096) div 365;
          doy = doe - (365 * yoe + yoe div 4 - yoe div 100);
          mp = (5 * doy + 2) div 153
      in doy - (153 * mp + 2) div 5 + 1)"

definition Minute :: "(int \<Rightarrow> int) \<Rightarrow> int \<Rightarrow> int" where
  "Minute zone t = (t + zone t) div 60 mod 60"

fun contains :: "string \<Rightarrow> string \<Rightarrow> bool" where
  "contains p [] = (p = [])"
| "contains p (c # cs) = (take (length p) (c # cs) = p \<or> contains p cs)"

definition need_remove :: "(int \<Rightarrow> int) \<Rightarrow> ctx \<Rightarrow> int \<Rightarrow> bool" where
  "need_remove zone ctx recordTime =
     (if \<not> contains IntegrationNetSubString (ChainID ctx)
      then Day recordTime \<noteq> Day (Unix ctx)
      else Minute zone recordTime \<noteq> Minute zone (Unix ctx))"

definition clean_up ::
    "('b, 'y) cosmos_scheme \<Rightarrow> (string \<Rightarrow> bool) \<Rightarrow> ctx \<Rightarrow> (('b, 'z) market_state_scheme, unit) op" where
  "clean_up C sub ctx s =
     (let p = market_params s; marketInfoList = GetAllMarketInfos s
      in and_then (SetUnixTime (Unix ctx)) (\<lambda>_.
         and_then (removeExpiredOrder C sub ctx marketInfoList p) (\<lambda>_.
         removeExpiredMarket C sub ctx p)) s)"

subsection \<open>The block's matching\<close>

fun match_markets ::
    "('b, 'y) cosmos_scheme \<Rightarrow> go_sorts \<Rightarrow> (string \<Rightarrow> string) \<Rightarrow> (string \<Rightarrow> bool) \<Rightarrow> ctx \<Rightarrow> int \<Rightarrow> MarketInfo list \<Rightarrow>
      (('b, 'z) market_state_scheme, (MarketInfo \<times> (string \<times> order) list \<times> dec) list) lop" where
  "match_markets C G sha sub ctx ratio [] = lop (return [])"
| "match_markets C G sha sub ctx ratio (mi # mis) =
     lop_then (\<lambda>s. if IsTokenForbidden s (mi_Stock mi) \<or> IsTokenForbidden s (mi_Money mi)
         then Some (Ok ([], 0), s)
         else runMatch C G sha sub ctx (mi_LastExecutedPrice mi) ratio (MarketInfo_GetSymbol mi) (BlockHeight ctx) s) (\<lambda>r.
     lop_then (match_markets C G sha sub ctx ratio mis) (\<lambda>rs. lop (return ((mi, r) # rs))))"

definition update_order ::
    "('b, 'y) cosmos_scheme \<Rightarrow> (string \<Rightarrow> bool) \<Rightarrow> ctx \<Rightarrow> market_params \<Rightarrow> string \<Rightarrow> order \<Rightarrow> (('b, 'z) market_state_scheme, unit) op" where
  "update_order C sub ctx p symbol odr =
     and_then (ignore_err (Update C symbol odr)) (\<lambda>_.
     and_then (if TimeInForce odr = IOC \<or> LeftStock odr = 0 then return True
        else lift (notEnoughMoney C odr)) (\<lambda>gone.
     whenever gone (and_then (removeOrder C ctx symbol odr p) (\<lambda>_. send_cancel C sub ctx odr [] p))))"

text \<open>\<open>rng\<close> is the order in which Go's \<open>range\<close> visits the entries of the map.\<close>

definition update_market ::
    "('b, 'y) cosmos_scheme \<Rightarrow> (string \<Rightarrow> bool) \<Rightarrow> ((string \<times> order) list \<Rightarrow> (string \<times> order) list) \<Rightarrow> ctx \<Rightarrow> market_params \<Rightarrow>
      MarketInfo \<times> (string \<times> order) list \<times> dec \<Rightarrow> (('b, 'z) market_state_scheme, unit) op" where
  "update_market C sub rng ctx p = (\<lambda>(mi, orders, newPrice).
     whenever (length orders \<noteq> 0)
       (and_then (foreach (\<lambda>e. update_order C sub ctx p (MarketInfo_GetSymbol mi) (snd e)) (rng orders)) (\<lambda>_.
        whenever (newPrice \<noteq> 0) (SetMarket (mi\<lparr>mi_LastExecutedPrice := newPrice\<rparr>)))))"

fun all_some :: "'a option list \<Rightarrow> 'a list option" where
  "all_some [] = Some []"
| "all_some (x # xs) = (case x of None \<Rightarrow> None | Some a \<Rightarrow> map_option ((#) a) (all_some xs))"

definition market_EndBlocker ::
    "('b, 'y) cosmos_scheme \<Rightarrow> go_sorts \<Rightarrow> (string \<Rightarrow> string) \<Rightarrow> (string \<Rightarrow> bool) \<Rightarrow>
      ((string \<times> order) list \<Rightarrow> (string \<times> order) list) \<Rightarrow> (int \<Rightarrow> int) \<Rightarrow> ctx \<Rightarrow> (('b, 'z) market_state_scheme, unit) lop" where
  "market_EndBlocker C G sha sub rng zone ctx s =
     (if need_remove zone ctx (GetUnixTime s) then Some (clean_up C sub ctx s)
      else let p = market_params s; markets = GetMarketsWithNewlyAddedOrder s
        in if length markets = 0 then Some (Ok (), s)
           else case all_some (map (GetMarketInfo s) markets) of
               None \<Rightarrow> Some (Ok (), s)
             | Some marketInfoList \<Rightarrow>
                 lop_then (match_markets C G sha sub ctx (MaxExecutedPriceChangeRatio p) marketInfoList)
                   (\<lambda>rs. lop (foreach (update_market C sub rng ctx p) rs)) s)"

end
