(* ===== verification/MarketHandler.thy ===== *)
theory MarketHandler
  imports MarketEnd
begin

section \<open>The market's handler and genesis\<close>

text \<open>
  \<open>src/modules/market/handlers.go\<close> and \<open>genesis.go\<close>: opening a market, placing and cancelling an
  order, asking for the end of a market, changing a market's price precision; the state written by
  and read for the genesis file.
\<close>

subsection \<open>Opening a market\<close>

definition checkMsgCreateTradingPair ::
    "('b, 'y) cosmos_scheme \<Rightarrow> ctx \<Rightarrow> MsgCreateTradingPair \<Rightarrow> ('b, 'z) market_state_scheme \<Rightarrow> unit ret" where
  "checkMsgCreateTradingPair C ctx msg s =
     (if IsMarketExist s (GetSymbol (ctp_Stock msg) (ctp_Money msg)) then Err MarketErrRepeatTradingPair
      else if \<not> IsTokenExists s (ctp_Money msg) \<or> \<not> IsTokenExists s (ctp_Stock msg) then Err MarketErrTokenNoExist
      else if \<not> IsTokenIssuer s (ctp_Stock msg) (ctp_Creator msg) then Err MarketErrInvalidTokenIssuer
      else ret_bind (NewCetCoins C (CreateMarketFee (market_params s))) (\<lambda>fee.
        if \<not> HasCoins C ctx (ctp_Creator msg) fee s then Err MarketErrInsufficientCoins else Ok ()))"

definition CreateMarketInfo_json :: "MsgCreateTradingPair \<Rightarrow> json" where
  "CreateMarketInfo_json msg = JObj [(''stock'', JStr (ctp_Stock msg)), (''money'', JStr (ctp_Money msg)),
     (''creator'', JAddr (ctp_Creator msg)), (''price_precision'', JInt (int (ctp_PricePrecision msg))),
     (''order_precision'', JInt (int (ctp_OrderPrecision msg)))]"

definition sendCreateMarketMsg ::
    "(string \<Rightarrow> bool) \<Rightarrow> MsgCreateTradingPair \<Rightarrow> (('b, 'z) base_state_scheme, unit) op" where
  "sendCreateMarketMsg sub market =
     whenever (sub ModuleName_market) (FillMsgs CreateMarketInfoKey (CreateMarketInfo_json market))"

definition message_event :: "'y sdk_scheme \<Rightarrow> addr \<Rightarrow> event" where
  "message_event S sender =
     Event ''message'' [(''module'', AStr ModuleName_market), (''sender'', AStr (addr_String S sender))]"

definition new_market :: "MsgCreateTradingPair \<Rightarrow> MarketInfo" where
  "new_market msg = \<lparr>mi_Stock = ctp_Stock msg, mi_Money = ctp_Money msg,
     mi_PricePrecision = ctp_PricePrecision msg, mi_LastExecutedPrice = 0,
     mi_OrderPrecision = (if ctp_OrderPrecision msg \<le> MaxOrderPrecision then ctp_OrderPrecision msg else 0)\<rparr>"

definition handleMsgCreateTradingPair ::
    "('b, 'y) cosmos_scheme \<Rightarrow> (string \<Rightarrow> bool) \<Rightarrow> ctx \<Rightarrow> MsgCreateTradingPair \<Rightarrow> (('b, 'z) market_state_scheme, unit) op" where
  "handleMsgCreateTradingPair C sub ctx msg s =
     and_then (lift (checkMsgCreateTradingPair C ctx msg s)) (\<lambda>_.
     and_then (SetMarket (new_market msg)) (\<lambda>_.
     and_then (DeductInt64CetFee C (ctp_Creator msg) (CreateMarketFee (market_params s))) (\<lambda>_.
     and_then (sendCreateMarketMsg sub msg) (\<lambda>_.
     emit [Event ''create_market''
         [(''trading_pair'', AStr (GetSymbol (ctp_Stock msg) (ctp_Money msg))),
          (''stock'', AStr (ctp_Stock msg)), (''money'', AStr (ctp_Money msg)),
          (''price_precision'', AStr (itoa (int (mi_PricePrecision (new_market msg))))),
          (''last_execute_price'', AStr (dec_String C (mi_LastExecutedPrice (new_market msg))))],
        message_event C (ctp_Creator msg)])))) s"

subsection \<open>What an order costs\<close>

definition calculateAmount :: "'y sdk_scheme \<Rightarrow> int \<Rightarrow> int \<Rightarrow> nat \<Rightarrow> dec ret" where
  "calculateAmount S price quantity pricePrecision =
     ret_bind (dec_Quo_ret S (NewDec S price) (NewDec S (pow10_i64 pricePrecision))) (\<lambda>actualPrice.
       let money = dec_Ceil S (dec_Mul S actualPrice (NewDec S quantity) + NewDec S ExtraFrozenMoney)
       in if money > NewDec S MaxOrderAmount then Err PlainErr else Ok money)"

definition CalCommission ::
    "'y sdk_scheme \<Rightarrow> ('b, 'z) market_state_scheme \<Rightarrow> dec \<Rightarrow> dec \<Rightarrow> string \<Rightarrow> string \<Rightarrow> int ret" where
  "CalCommission S s amountOfMoney amountOfStock stock money =
     (let p = market_params s;
          volume = GetMarketVolume S s stock money amountOfStock amountOfMoney;
          rate = dec_QuoInt S (NewDec S (MarketFeeRate p)) (pow10_i64 4)
      in ret_bind (dec_RoundInt64 S (dec_Ceil S (dec_Mul S volume rate))) (\<lambda>commission.
         if commission > MaxOrderAmount then Err MarketErrInvalidOrderAmount
         else Ok (if commission < MarketFeeMin p then MarketFeeMin p else commission)))"

text \<open>Any error of \<open>calculateAmount\<close> becomes the module's error.\<close>

definition with_err :: "err \<Rightarrow> 'a ret \<Rightarrow> 'a ret" where
  "with_err e r = (case r of Err _ \<Rightarrow> Err e | _ \<Rightarrow> r)"

definition calOrderCommission ::
    "'y sdk_scheme \<Rightarrow> ('b, 'z) market_state_scheme \<Rightarrow> MsgCreateOrder \<Rightarrow> int ret" where
  "calOrderCommission S s msg =
     ret_bind (with_err MarketErrInvalidOrderAmount
         (calculateAmount S (co_Price msg) (co_Quantity msg) (co_PricePrecision msg))) (\<lambda>moneyAmount.
     ret_bind (SplitSymbol (co_TradingPair msg)) (\<lambda>(stock, money).
       CalCommission S s moneyAmount (NewDec S (co_Quantity msg)) stock money))"

definition calFeatureFeeForExistBlocks :: "MsgCreateOrder \<Rightarrow> market_params \<Rightarrow> int ret" where
  "calFeatureFeeForExistBlocks msg p =
     (if co_TimeInForce msg = IOC then Ok 0
      else if co_ExistBlocks msg < GTEOrderLifetime p then Ok 0
      else let fee = i64 (co_ExistBlocks msg - GTEOrderLifetime p) * GTEOrderFeatureFeeByBlocks p
        in if fee > MaxOrderAmount then Ok MaxOrderAmount else to_Int64 fee)"

definition getDenomAndOrderAmount :: "'y sdk_scheme \<Rightarrow> MsgCreateOrder \<Rightarrow> (string \<times> int) ret" where
  "getDenomAndOrderAmount S msg =
     ret_bind (SplitSymbol (co_TradingPair msg)) (\<lambda>(stock, money).
     ret_bind (if co_Side msg = BUY
         then ret_bind (with_err MarketErrInvalidOrderAmount
             (calculateAmount S (co_Price msg) (co_Quantity msg) (co_PricePrecision msg))) (dec_RoundInt64 S)
         else Ok (co_Quantity msg)) (\<lambda>amount.
       if amount > MaxOrderAmount then Err MarketErrInvalidOrderAmount
       else Ok (if co_Side msg = BUY then money else stock, amount)))"

subsection \<open>Placing an order\<close>

definition handleFeeForCreateOrder ::
    "('b, 'y) cosmos_scheme \<Rightarrow> int \<Rightarrow> string \<Rightarrow> addr \<Rightarrow> int \<Rightarrow> int \<Rightarrow> (('b, 'z) authx_state_scheme, unit) op" where
  "handleFeeForCreateOrder C amount denom sender frozenFee featureFee =
     and_then (lift (NewCoin C denom amount)) (\<lambda>coin.
     and_then (FreezeCoins C sender [coin]) (\<lambda>_.
     and_then (whenever (frozenFee \<noteq> 0) (and_then (lift (NewCetCoins C frozenFee)) (FreezeCoins C sender))) (\<lambda>_.
     whenever (featureFee \<noteq> 0) (and_then (lift (NewCetCoins C featureFee)) (FreezeCoins C sender)))))"

definition CreateOrderInfo :: "'y sdk_scheme \<Rightarrow> order \<Rightarrow> json" where
  "CreateOrderInfo S odr = JObj [
     (''order_id'', JStr (OrderID S odr)), (''sender'', JStr (addr_String S (Sender odr))),
     (''trading_pair'', JStr (TradingPair odr)), (''order_type'', JInt (int (OrderType odr))),
     (''price'', JDec (Price odr)), (''quantity'', JInt (Quantity odr)), (''side'', JInt (int (Side odr))),
     (''time_in_force'', JInt (TimeInForce odr)), (''height'', JInt (Height odr)),
     (''frozen_commission'', JInt (FrozenCommission odr)), (''frozen_feature_fee'', JInt (FrozenFeatureFee odr)),
     (''freeze'', JInt (Freeze odr))]"

definition sendCreateOrderMsg ::
    "'y sdk_scheme \<Rightarrow> (string \<Rightarrow> bool) \<Rightarrow> order \<Rightarrow> (('b, 'z) base_state_scheme, unit) op" where
  "sendCreateOrderMsg S sub odr = whenever (sub ModuleName_market) (FillMsgs CreateOrderInfoKey (CreateOrderInfo S odr))"

definition check_cet_fee ::
    "('b, 'y) cosmos_scheme \<Rightarrow> ctx \<Rightarrow> addr \<Rightarrow> int \<Rightarrow> ('b, 'z) base_state_scheme \<Rightarrow> unit ret" where
  "check_cet_fee C ctx sender cetFee s =
     (if cetFee \<noteq> 0
      then ret_bind (NewCoin C CET cetFee) (\<lambda>coin.
        if \<not> HasCoins C ctx sender [coin] s then Err MarketErrInsufficientCoins else Ok ())
      else Ok ())"

definition checkMsgCreateOrder ::
    "('b, 'y) cosmos_scheme \<Rightarrow> ctx \<Rightarrow> MsgCreateOrder \<Rightarrow> int \<Rightarrow> int \<Rightarrow> string \<Rightarrow> nat \<Rightarrow> ('b, 'z) market_state_scheme \<Rightarrow> unit ret" where
  "checkMsgCreateOrder C ctx msg cetFee amount denom sq s =
     ret_bind (check_cet_fee C ctx (co_Sender msg) cetFee s) (\<lambda>_.
     ret_bind (SplitSymbol (co_TradingPair msg)) (\<lambda>(stock, money).
     ret_bind (if stock = CET \<and> co_Side msg = SELL \<or> money = CET \<and> co_Side msg = BUY
         then int_Add C amount cetFee else Ok amount) (\<lambda>totalAmount.
     ret_bind (NewCoin C denom totalAmount) (\<lambda>coin.
       if \<not> HasCoins C ctx (co_Sender msg) [coin] s then Err MarketErrInsufficientCoins
       else if QueryOrder s (AssemblyOrderID (addr_String C (co_Sender msg)) sq (co_Identify msg)) \<noteq> None
         then Err MarketErrOrderAlreadyExist
       else case GetMarketInfo s (co_TradingPair msg) of
           None \<Rightarrow> Err MarketErrInvalidMarket
         | Some marketInfo \<Rightarrow>
             if co_PricePrecision msg > mi_PricePrecision marketInfo then Err MarketErrInvalidPricePrecision
             else if IsTokenForbidden s stock \<or> IsTokenForbidden s money then Err MarketErrTokenForbidByIssuer
             else if IsForbiddenByTokenIssuer s stock (co_Sender msg) \<or> IsForbiddenByTokenIssuer s money (co_Sender msg)
               then Err MarketErrAddressForbidByIssuer
             else if go_rem (co_Quantity msg) (GetGranularityOfOrder (mi_OrderPrecision marketInfo)) \<noteq> 0
               then Err MarketErrInvalidOrderAmount
             else Ok ()))))"

definition new_order ::
    "'y sdk_scheme \<Rightarrow> ctx \<Rightarrow> market_params \<Rightarrow> MsgCreateOrder \<Rightarrow> nat \<Rightarrow> int \<Rightarrow> int \<Rightarrow> int \<Rightarrow> order" where
  "new_order S ctx p msg sq frozenFee featureFee amount = \<lparr>
     Sender = co_Sender msg, Sequence = sq, Identify = co_Identify msg, TradingPair = co_TradingPair msg,
     OrderType = co_OrderType msg,
     Price = dec_Quo S (NewDec S (co_Price msg)) (NewDec S (pow10_i64 (co_PricePrecision msg))),
     Quantity = co_Quantity msg, Side = co_Side msg, TimeInForce = co_TimeInForce msg,
     Height = BlockHeight ctx, FrozenCommission = frozenFee,
     ExistBlocks = (if co_ExistBlocks msg = 0 \<and> co_TimeInForce msg = GTE then GTEOrderLifetime p else co_ExistBlocks msg),
     FrozenFeatureFee = featureFee, FrozenFee = 0, LeftStock = co_Quantity msg, Freeze = amount,
     DealStock = 0, DealMoney = 0\<rparr>"

definition handleMsgCreateOrder ::
    "('b, 'y) cosmos_scheme \<Rightarrow> (string \<Rightarrow> bool) \<Rightarrow> ctx \<Rightarrow> MsgCreateOrder \<Rightarrow> (('b, 'z) market_state_scheme, unit) op" where
  "handleMsgCreateOrder C sub ctx msg s =
     and_then (lift (getDenomAndOrderAmount C msg)) (\<lambda>(denom, amount).
     and_then (lift (QuerySeqWithAddr C s (co_Sender msg))) (\<lambda>sq.
     and_then (lift (calOrderCommission C s msg)) (\<lambda>frozenFee.
     and_then (lift (calFeatureFeeForExistBlocks msg (market_params s))) (\<lambda>featureFee.
     let totalFee = i64 (frozenFee + featureFee);
         odr = new_order C ctx (market_params s) msg sq frozenFee featureFee amount
     in if featureFee > MaxOrderAmount \<or> frozenFee > MaxOrderAmount \<or> totalFee > MaxOrderAmount
        then fail MarketErrInvalidOrderAmount
        else and_then (lift (checkMsgCreateOrder C ctx msg totalFee amount denom sq s)) (\<lambda>_.
             and_then (Add C (TradingPair odr) odr) (\<lambda>_.
             and_then (handleFeeForCreateOrder C amount denom (Sender odr) frozenFee featureFee) (\<lambda>_.
             and_then (sendCreateOrderMsg C sub odr) (\<lambda>_.
             emit [Event ''create_order'' [(''order'', AStr (OrderID C odr)),
                     (''trading_pair'', AStr (TradingPair odr)), (''height'', AStr (itoa (Height odr)))],
                   message_event C (co_Sender msg)]))))))))
     s"

subsection \<open>Cancelling an order\<close>

definition checkMsgCancelOrder :: "MsgCancelOrder \<Rightarrow> ('b, 'z) market_state_scheme \<Rightarrow> unit ret" where
  "checkMsgCancelOrder msg s =
     (case QueryOrder s (ca_OrderID msg) of
        None \<Rightarrow> Err MarketErrOrderNotFound
      | Some odr \<Rightarrow> if Sender odr \<noteq> ca_Sender msg then Err MarketErrNotMatchSender else Ok ())"

definition sendCancelOrderMsg ::
    "('b, 'y) cosmos_scheme \<Rightarrow> (string \<Rightarrow> bool) \<Rightarrow> ctx \<Rightarrow> order \<Rightarrow> market_params \<Rightarrow> (('b, 'z) authx_state_scheme, unit) op" where
  "sendCancelOrderMsg C sub ctx odr p = send_cancel C sub ctx odr CancelOrderByManual p"

definition handleMsgCancelOrder ::
    "('b, 'y) cosmos_scheme \<Rightarrow> (string \<Rightarrow> bool) \<Rightarrow> ctx \<Rightarrow> MsgCancelOrder \<Rightarrow> (('b, 'z) market_state_scheme, unit) op" where
  "handleMsgCancelOrder C sub ctx msg s =
     and_then (lift (checkMsgCancelOrder msg s)) (\<lambda>_.
     case QueryOrder s (ca_OrderID msg) of
       None \<Rightarrow> panic
     | Some odr \<Rightarrow>
         and_then (removeOrder C ctx (TradingPair odr) odr (market_params s)) (\<lambda>_.
         and_then (sendCancelOrderMsg C sub ctx odr (market_params s)) (\<lambda>_.
         emit [Event ''cancel_order'' [(''order'', AStr (OrderID C odr)),
                 (''del_order_reason'', AStr CancelOrderByManual),
                 (''del_order_height'', AStr (itoa (BlockHeight ctx))),
                 (''trading_pair'', AStr (TradingPair odr))],
               message_event C (ca_Sender msg)]))) s"

subsection \<open>Ending a market\<close>

definition checkMsgCancelTradingPair ::
    "MsgCancelTradingPair \<Rightarrow> ctx \<Rightarrow> ('b, 'z) market_state_scheme \<Rightarrow> unit ret" where
  "checkMsgCancelTradingPair msg ctx s =
     (if ct_EffectiveTime msg < i64 (UnixNano ctx + MarketMinExpiredTime (market_params s))
      then Err MarketErrInvalidCancelTime
      else case GetMarketInfo s (ct_TradingPair msg) of
          None \<Rightarrow> Err MarketErrInvalidMarket
        | Some info \<Rightarrow> (case GetToken s (mi_Stock info) of
              None \<Rightarrow> Panic
            | Some t \<Rightarrow> if ct_Sender msg \<noteq> Owner t then Err MarketErrNotMatchSender else Ok ()))"

definition handleMsgCancelTradingPair ::
    "('b, 'y) cosmos_scheme \<Rightarrow> ctx \<Rightarrow> MsgCancelTradingPair \<Rightarrow> (('b, 'z) market_state_scheme, unit) op" where
  "handleMsgCancelTradingPair C ctx msg s =
     and_then (lift (checkMsgCancelTradingPair msg ctx s)) (\<lambda>_.
     if HasDelistRequest s (ct_TradingPair msg) then fail MarketErrDelistRequestExist
     else and_then (AddDelistRequest (ct_EffectiveTime msg) (ct_TradingPair msg)) (\<lambda>_.
          emit [Event ''cancel_market'' [(''trading_pair'', AStr (ct_TradingPair msg)),
                  (''effective_time'', AStr (itoa (ct_EffectiveTime msg)))],
                message_event C (ct_Sender msg)])) s"

subsection \<open>Changing the price precision\<close>

definition checkMsgModifyPricePrecision ::
    "MsgModifyPricePrecision \<Rightarrow> ('b, 'z) market_state_scheme \<Rightarrow> unit ret" where
  "checkMsgModifyPricePrecision msg s =
     (case GetMarketInfo s (mp_TradingPair msg) of
        None \<Rightarrow> Err MarketErrInvalidMarket
      | Some _ \<Rightarrow> ret_bind (SplitSymbol (mp_TradingPair msg)) (\<lambda>(stock, _). case GetToken s stock of
            None \<Rightarrow> Panic
          | Some t \<Rightarrow> if Owner t \<noteq> mp_Sender msg then Err MarketErrNotMatchSender else Ok ()))"

definition handleMsgModifyPricePrecision ::
    "('b, 'y) cosmos_scheme \<Rightarrow> MsgModifyPricePrecision \<Rightarrow> (('b, 'z) market_state_scheme, unit) op" where
  "handleMsgModifyPricePrecision C msg s =
     and_then (lift (checkMsgModifyPricePrecision msg s)) (\<lambda>_.
     case GetMarketInfo s (mp_TradingPair msg) of
       None \<Rightarrow> panic
     | Some oldInfo \<Rightarrow>
         let info = \<lparr>mi_Stock = mi_Stock oldInfo, mi_Money = mi_Money oldInfo,
               mi_PricePrecision = mp_PricePrecision msg,
               mi_LastExecutedPrice = mi_LastExecutedPrice oldInfo, mi_OrderPrecision = 0\<rparr>
         in and_then (SetMarket info) (\<lambda>_.
            emit [Event ''modify_price_precision'' [(''trading_pair'', AStr (mp_TradingPair msg)),
                    (''old_price_precision'', AStr (itoa (int (mi_PricePrecision oldInfo)))),
                    (''new_price_precision'', AStr (itoa (int (mi_PricePrecision info))))],
                  message_event C (mp_Sender msg)])) s"

subsection \<open>The handler\<close>

datatype market_msg = CreateTradingPair MsgCreateTradingPair | CreateOrder MsgCreateOrder
  | CancelOrder MsgCancelOrder | CancelTradingPair MsgCancelTradingPair
  | ModifyPricePrecision MsgModifyPricePrecision | MarketUnknown

fun market_route ::
    "('b, 'y) cosmos_scheme \<Rightarrow> (string \<Rightarrow> bool) \<Rightarrow> ctx \<Rightarrow> market_msg \<Rightarrow> (('b, 'z) market_state_scheme, unit) op" where
  "market_route C sub ctx (CreateTradingPair msg) = handleMsgCreateTradingPair C sub ctx msg"
| "market_route C sub ctx (CreateOrder msg) = handleMsgCreateOrder C sub ctx msg"
| "market_route C sub ctx (CancelOrder msg) = handleMsgCancelOrder C sub ctx msg"
| "market_route C sub ctx (CancelTradingPair msg) = handleMsgCancelTradingPair C ctx msg"
| "market_route C sub ctx (ModifyPricePrecision msg) = handleMsgModifyPricePrecision C msg"
| "market_route C sub ctx MarketUnknown = fail (SdkErr ''ErrUnknownRequest'')"

definition market_Handler ::
    "('b, 'y) cosmos_scheme \<Rightarrow> (string \<Rightarrow> bool) \<Rightarrow> ctx \<Rightarrow> market_msg \<Rightarrow> (('b, 'z) market_state_scheme, unit) op" where
  "market_Handler C sub ctx msg = and_then new_event_manager (\<lambda>_. market_route C sub ctx msg)"

fun market_ValidateBasic :: "'y sdk_scheme \<Rightarrow> market_msg \<Rightarrow> unit ret" where
  "market_ValidateBasic S (CreateTradingPair msg) = MsgCreateTradingPair_ValidateBasic S msg"
| "market_ValidateBasic S (CreateOrder msg) = MsgCreateOrder_ValidateBasic S msg"
| "market_ValidateBasic S (CancelOrder msg) = MsgCancelOrder_ValidateBasic S msg"
| "market_ValidateBasic S (CancelTradingPair msg) = MsgCancelTradingPair_ValidateBasic S msg"
| "market_ValidateBasic S (ModifyPricePrecision msg) = MsgModifyPricePrecision_ValidateBasic S msg"
| "market_ValidateBasic S MarketUnknown = Ok ()"

subsection \<open>Genesis\<close>

record market_genesis =
  mg_Params :: market_params
  mg_Orders :: "order list"
  mg_MarketInfos :: "MarketInfo list"
  mg_OrderCleanTime :: int

definition market_DefaultGenesisState :: market_genesis where
  "market_DefaultGenesisState = \<lparr>mg_Params = market_DefaultParams, mg_Orders = [], mg_MarketInfos = [],
     mg_OrderCleanTime = 0\<rparr>"

text \<open>The results of \<open>SetOrder\<close> and \<open>SetMarket\<close> are not looked at.\<close>

definition market_InitGenesis :: "'y sdk_scheme \<Rightarrow> market_genesis \<Rightarrow> (('b, 'z) market_state_scheme, unit) op" where
  "market_InitGenesis S data =
     and_then (modify (\<lambda>s. s\<lparr>market_params := mg_Params data\<rparr>)) (\<lambda>_.
     and_then (foreach (\<lambda>odr. ignore_err (SetOrder S odr)) (mg_Orders data)) (\<lambda>_.
     and_then (foreach (\<lambda>info. ignore_err (SetMarket info)) (mg_MarketInfos data)) (\<lambda>_.
     SetUnixTime (mg_OrderCleanTime data))))"

definition market_ExportGenesis :: "('b, 'z) market_state_scheme \<Rightarrow> market_genesis" where
  "market_ExportGenesis s = \<lparr>mg_Params = market_params s, mg_Orders = GetAllOrders s,
     mg_MarketInfos = GetAllMarketInfos s, mg_OrderCleanTime = GetUnixTime s\<rparr>"

definition market_Validate :: "'y sdk_scheme \<Rightarrow> market_genesis \<Rightarrow> unit ret" where
  "market_Validate S data =
     ret_bind (market_ValidateGenesis (mg_Params data)) (\<lambda>_.
     if \<not> distinct (map (OrderID S) (mg_Orders data)) then Err PlainErr
     else if \<not> distinct (map MarketInfo_GetSymbol (mg_MarketInfos data)) then Err PlainErr
     else Ok ())"

end
