(* ===== verification/OpRules.thy ===== *)
theory OpRules
  imports Prelude
begin

section \<open>Weakest preconditions\<close>

text \<open>
  \<open>wp m Q s\<close>: run from \<open>s\<close>, the operation returns no error, and if it does not panic its result and
  final state satisfy \<open>Q\<close>. The end blockers are checked with it: they go on after every call, so
  each of their steps has to leave a good state.
\<close>

definition wp :: "('s, 'a) op \<Rightarrow> ('a \<Rightarrow> 's \<Rightarrow> bool) \<Rightarrow> 's \<Rightarrow> bool" where
  "wp m Q s \<longleftrightarrow> (case m s of (Ok a, s') \<Rightarrow> Q a s' | (Err e, s') \<Rightarrow> False | (Panic, s') \<Rightarrow> True)"

named_theorems wps

lemma wp_then [wps]: "wp (and_then m f) Q s = wp m (\<lambda>a. wp (f a) Q) s"
  by (simp add: wp_def and_then_def split: prod.split ret.split)

lemma wp_lift [wps]: "wp (lift r) Q s = (case r of Ok a \<Rightarrow> Q a s | Err e \<Rightarrow> False | Panic \<Rightarrow> True)"
  by (simp add: wp_def lift_def split: ret.split)

lemma wp_return [wps]: "wp (return a) Q s = Q a s"
  by (simp add: wp_def return_def)

lemma wp_modify [wps]: "wp (modify f) Q s = Q () (f s)"
  by (simp add: wp_def modify_def)

lemma wp_gets [wps]: "wp (gets f) Q s = Q (f s) s"
  by (simp add: wp_def gets_def)

lemma wp_whenever [wps]: "wp (whenever b m) Q s = (if b then wp m Q s else Q () s)"
  by (simp add: whenever_def wp_return)

lemma wp_ignore_err [wps]:
  "wp (ignore_err m) Q s = (\<forall>r s'. m s = (r, s') \<longrightarrow> r \<noteq> Panic \<longrightarrow> Q () s')"
  by (cases "m s"; cases "fst (m s)") (auto simp: wp_def ignore_err_def)

lemma wp_same: "m s = n s \<Longrightarrow> wp n Q s \<Longrightarrow> wp m Q s"
  by (simp add: wp_def)

lemma wp_mono: "wp m Q s \<Longrightarrow> (\<And>a s'. Q a s' \<Longrightarrow> Q' a s') \<Longrightarrow> wp m Q' s"
  by (auto simp: wp_def split: prod.splits ret.splits)

lemma wp_keep: "keep I m \<Longrightarrow> I s \<Longrightarrow> wp (ignore_err m) (\<lambda>a. I) s"
  unfolding wp_ignore_err by (auto intro: keepD)

lemma wpD: "wp m Q s \<Longrightarrow> m s = (r, s') \<Longrightarrow> r \<noteq> Panic \<Longrightarrow> \<exists>a. r = Ok a \<and> Q a s'"
  by (cases r) (auto simp: wp_def)

lemma wpI: "(\<And>r s'. m s = (r, s') \<Longrightarrow> r \<noteq> Panic \<Longrightarrow> \<exists>a. r = Ok a \<and> Q a s') \<Longrightarrow> wp m Q s"
  by (cases "m s"; cases "fst (m s)") (auto simp: wp_def)

lemma wp_run: "m s = (Ok a, s') \<Longrightarrow> Q a s' \<Longrightarrow> wp m Q s"
  by (simp add: wp_def)

text \<open>A loop over a list, with an invariant that speaks of what is left to do.\<close>

lemma wp_foreach:
  assumes "\<And>x xs s. P (x # xs) s \<Longrightarrow> wp (f x) (\<lambda>_. P xs) s"
  shows "P xs s \<Longrightarrow> wp (foreach f xs) (\<lambda>_. P []) s"
proof (induction xs arbitrary: s)
  case Nil
  then show ?case by (simp add: wp_return)
next
  case (Cons x xs)
  have "wp (f x) (\<lambda>_. P xs) s" by (rule assms [OF Cons.prems])
  then have "wp (f x) (\<lambda>_. wp (foreach f xs) (\<lambda>_. P [])) s" by (rule wp_mono) (rule Cons.IH)
  then show ?case by (simp add: wp_then)
qed

text \<open>An operation that reads the state it starts in.\<close>

definition after :: "('s \<Rightarrow> bool) \<Rightarrow> 'a ret \<times> 's \<Rightarrow> bool" where
  "after I x \<longleftrightarrow> (case x of (Panic, s') \<Rightarrow> True | (_, s') \<Rightarrow> I s')"

lemma keep_stateI: "(\<And>s. I s \<Longrightarrow> after I (m s)) \<Longrightarrow> keep I m"
  by (simp add: keep_def after_def)

lemma after_run: "keep I m \<Longrightarrow> I s \<Longrightarrow> after I (m s)"
  by (simp add: keep_def after_def)

lemma after_and_then: "keep I m \<Longrightarrow> (\<And>a. keep I (f a)) \<Longrightarrow> I s \<Longrightarrow> after I (and_then m f s)"
  and after_ignore_err: "keep I m' \<Longrightarrow> I s \<Longrightarrow> after I (ignore_err m' s)"
  and after_whenever: "(b \<Longrightarrow> keep I n) \<Longrightarrow> I s \<Longrightarrow> after I (whenever b n s)"
  by (rule after_run, rule keeps, assumption+)+

lemmas afters = after_and_then after_ignore_err after_whenever

end
