(* ===== verification/MarketBook.thy ===== *)
theory MarketBook
  imports MarketKeeper
begin

section \<open>The order book is a map of orders\<close>

text \<open>
  What the keys of \<open>order_keeper.go\<close> stand for. The book's abstraction is the map from identifiers
  to orders; \<open>book_ok\<close> says that the queue and the bid and ask lists are the indexes of that map.
  The operations of the keeper are the operations of the map, and its range queries are exact.
\<close>

subsection \<open>Keys\<close>

lemma range_prefix:
  fixes pre lo hi k :: string
  shows "pre @ lo \<le> k \<and> k < pre @ hi \<longleftrightarrow> (\<exists>b. k = pre @ b \<and> lo \<le> b \<and> b < hi)"
proof (induction pre arbitrary: k)
  case Nil
  then show ?case by simp
next
  case (Cons c pre)
  show ?case
  proof (cases k)
    case Nil
    then show ?thesis by simp
  next
    case (Cons d k')
    then show ?thesis using Cons.IH [of k'] by auto
  qed
qed

lemma between_0_1: "x00 \<le> b \<and> b < x01 \<longleftrightarrow> (\<exists>c. b = byte 0 # c)"
proof (cases b)
  case Nil
  then show ?thesis by simp
next
  case (Cons x c)
  have "byte 0 < x \<Longrightarrow> x < byte 1 \<Longrightarrow> False"
    by (simp add: byte_def less_char_def)
  moreover have "byte 0 < byte 1" by (simp add: byte_less)
  ultimately show ?thesis using Cons by auto
qed

lemma prefix_range:
  "pre @ x00 \<le> k \<and> k < pre @ x01 \<longleftrightarrow> (\<exists>c. k = pre @ byte 0 # c)"
  using range_prefix [of pre x00 k x01] between_0_1 by auto

definition key_with :: "nat \<Rightarrow> string \<Rightarrow> string \<Rightarrow> string" where
  "key_with p symbol body = byte p # symbol @ byte 0 # body"

lemma key_with_inj:
  "byte 0 \<notin> set symbol \<Longrightarrow> byte 0 \<notin> set symbol' \<Longrightarrow> p < 256 \<Longrightarrow> p' < 256 \<Longrightarrow>
     key_with p symbol body = key_with p' symbol' body' \<longleftrightarrow> p = p' \<and> symbol = symbol' \<and> body = body'"
  using append_sep_inj [of "byte 0" symbol symbol' body body'] by (auto simp: key_with_def byte_eq)

definition height_bytes :: "int \<Rightarrow> string" where
  "height_bytes h = be_bytes 8 (nat h)"

lemma length_height_bytes [simp]: "length (height_bytes h) = 8"
  by (simp add: height_bytes_def)

definition height_fits :: "int \<Rightarrow> bool" where
  "height_fits h \<longleftrightarrow> 0 \<le> h \<and> h < 2 ^ 63"

lemma height_bytes_less: "height_fits g \<Longrightarrow> height_fits h \<Longrightarrow> height_bytes g < height_bytes h \<longleftrightarrow> g < h"
  and height_bytes_eq: "height_fits g \<Longrightarrow> height_fits h \<Longrightarrow> height_bytes g = height_bytes h \<longleftrightarrow> g = h"
  unfolding height_bytes_def height_fits_def
  by (subst be_bytes_less be_bytes_eq; simp add: nat_less_iff; linarith)+

lemma int64ToBigEndianBytes_fits: "height_fits h \<Longrightarrow> int64ToBigEndianBytes h = Ok (height_bytes h)"
  by (simp add: int64ToBigEndianBytes_def height_bytes_def height_fits_def)

subsection \<open>The keys of an order\<close>

text \<open>What an order of the book satisfies: its key fields fit the keys.\<close>

definition order_ok :: "order \<Rightarrow> bool" where
  "order_ok x \<longleftrightarrow> height_fits (Height x) \<and> price_fits (Price x) \<and> (Side x = BID \<or> Side x = ASK) \<and>
     byte 0 \<notin> set (TradingPair x)"

definition queue_key :: "'y sdk_scheme \<Rightarrow> order \<Rightarrow> string" where
  "queue_key S x = key_with 20 (TradingPair x) (height_bytes (Height x) @ OrderID S x)"

definition list_prefix :: "nat \<Rightarrow> nat" where
  "list_prefix side = (if side = BID then 18 else 19)"

definition list_key :: "'y sdk_scheme \<Rightarrow> order \<Rightarrow> string" where
  "list_key S x = key_with (list_prefix (Side x)) (TradingPair x) (DecToBigEndianBytes (Price x) @ OrderID S x)"

lemma orderQueueKey_ok: "order_ok x \<Longrightarrow> orderQueueKey S (TradingPair x) x = Ok (queue_key S x)"
  by (simp add: orderQueueKey_def order_ok_def int64ToBigEndianBytes_fits queue_key_def key_with_def
      ConcatKeys_def OrderQueueKeyPrefix_def)

lemma bidListKey_key: "Side x = BID \<Longrightarrow> bidListKey S (TradingPair x) x = list_key S x"
  by (simp add: bidListKey_def list_key_def key_with_def ConcatKeys_def BidListKeyPrefix_def list_prefix_def)

lemma askListKey_key: "Side x = ASK \<Longrightarrow> askListKey S (TradingPair x) x = list_key S x"
  by (simp add: askListKey_def list_key_def key_with_def ConcatKeys_def AskListKeyPrefix_def list_prefix_def)

text \<open>The index keys, and that they determine the order they belong to.\<close>

definition is_index :: "string \<Rightarrow> bool" where
  "is_index k \<longleftrightarrow> take 1 k = [byte 18] \<or> take 1 k = [byte 19] \<or> take 1 k = [byte 20]"

definition index_of :: "'y sdk_scheme \<Rightarrow> string \<Rightarrow> order \<Rightarrow> bool" where
  "index_of S k x \<longleftrightarrow> k = queue_key S x \<or> k = list_key S x"

lemma index_of_is_index: "index_of S k x \<Longrightarrow> is_index k"
  by (auto simp: index_of_def is_index_def queue_key_def list_key_def key_with_def list_prefix_def)

lemma index_of_OrderID:
  assumes "order_ok x" and "order_ok y" and "index_of S k x" and "index_of S k y"
  shows "OrderID S x = OrderID S y"
  using assms
  by (auto simp: index_of_def queue_key_def list_key_def key_with_inj order_ok_def list_prefix_def split: if_splits)

lemma not_index:
  "\<not> is_index (orderBookKey oid)" "\<not> is_index (NewlyAddedKeyPrefix @ symbol)" "\<not> is_index LastOrderCleanUpDayKey"
  "\<not> is_index (marketStoreKey MarketIdentifierPrefix ps)" "\<not> is_index (DelistRevKey @ symbol)"
  by (simp_all add: is_index_def orderBookKey_def ConcatKeys_def OrderBookKeyPrefix_def NewlyAddedKeyPrefix_def
      LastOrderCleanUpDayKey_def marketStoreKey_def MarketIdentifierPrefix_def DelistRevKey_def byte_eq)

text \<open>Two versions of an order that have the same keys.\<close>

definition same_place :: "order \<Rightarrow> order \<Rightarrow> bool" where
  "same_place x y \<longleftrightarrow> TradingPair x = TradingPair y \<and> Side x = Side y \<and> Price x = Price y \<and> Height x = Height y \<and>
     Sender x = Sender y \<and> Sequence x = Sequence y \<and> Identify x = Identify y"

lemma same_place_keys:
  "same_place x y \<Longrightarrow> OrderID S x = OrderID S y \<and> queue_key S x = queue_key S y \<and> list_key S x = list_key S y \<and>
     (order_ok x \<longleftrightarrow> order_ok y)"
  by (simp add: same_place_def OrderID_def queue_key_def list_key_def order_ok_def)

lemma same_place_index: "same_place x y \<Longrightarrow> index_of S k x \<longleftrightarrow> index_of S k y"
  using same_place_keys [of x y S] by (auto simp: index_of_def)

subsection \<open>The invariant\<close>

definition book :: "market_val kv \<Rightarrow> string \<Rightarrow> order option" where
  "book st oid = (case kv_get st (orderBookKey oid) of Some (VOrder x) \<Rightarrow> Some x | _ \<Rightarrow> None)"

definition book_ok :: "'y sdk_scheme \<Rightarrow> market_val kv \<Rightarrow> bool" where
  "book_ok S st \<longleftrightarrow> kv_ok st \<and>
     (\<forall>oid v. kv_get st (orderBookKey oid) = Some v \<longrightarrow> (\<exists>x. v = VOrder x \<and> OrderID S x = oid \<and> order_ok x)) \<and>
     (\<forall>k. is_index k \<longrightarrow> (kv_get st k \<noteq> None \<longleftrightarrow> (\<exists>oid x. book st oid = Some x \<and> index_of S k x)))"

lemma getOrder_book: "getOrder s oid = book (market_store s) oid"
  by (simp add: getOrder_def book_def)

lemma QueryOrder_book: "QueryOrder s oid = book (market_store s) oid"
  by (simp add: QueryOrder_def book_def)

lemma book_okD:
  assumes "book_ok S st"
  shows "kv_ok st"
    and "book st oid = Some x \<Longrightarrow> OrderID S x = oid \<and> order_ok x"
    and "is_index k \<Longrightarrow> kv_get st k \<noteq> None \<longleftrightarrow> (\<exists>oid x. book st oid = Some x \<and> index_of S k x)"
  using assms unfolding book_ok_def by (auto simp: book_def split: option.splits market_val.splits)

lemma orderBookKey_inj: "orderBookKey x = orderBookKey y \<longleftrightarrow> x = y"
  by (simp add: orderBookKey_def ConcatKeys_def)

text \<open>Writing keys that are neither orders nor indexes does not touch the book.\<close>

definition other_key :: "string \<Rightarrow> bool" where
  "other_key k \<longleftrightarrow> \<not> is_index k \<and> (\<forall>oid. k \<noteq> orderBookKey oid)"

lemma other_keys:
  "other_key (NewlyAddedKeyPrefix @ symbol)" "other_key LastOrderCleanUpDayKey"
  "other_key (marketStoreKey MarketIdentifierPrefix ps)" "other_key (DelistRevKey @ symbol)"
  by (auto simp: other_key_def not_index) (simp_all add: orderBookKey_def ConcatKeys_def OrderBookKeyPrefix_def
      NewlyAddedKeyPrefix_def LastOrderCleanUpDayKey_def marketStoreKey_def MarketIdentifierPrefix_def DelistRevKey_def byte_eq)

lemma other_key_delist: "getDelistKey t symbol = Ok k \<Longrightarrow> other_key k"
  by (auto simp: getDelistKey_def ret_map_Ok other_key_def is_index_def ConcatKeys_def DelistKey_def byte_eq
      orderBookKey_def OrderBookKeyPrefix_def)

lemma book_set_other: "other_key k \<Longrightarrow> book (kv_set k v st) = book st"
  and book_delete_other: "other_key k \<Longrightarrow> book (kv_delete k st) = book st"
  by (auto simp: book_def other_key_def fun_eq_iff)

lemma book_ok_set_other: "other_key k \<Longrightarrow> book_ok S st \<Longrightarrow> book_ok S (kv_set k v st)"
  unfolding book_ok_def by (auto simp: book_set_other) (auto simp: other_key_def)

lemma book_ok_delete_other: "other_key k \<Longrightarrow> book_ok S st \<Longrightarrow> book_ok S (kv_delete k st)"
  unfolding book_ok_def by (auto simp: book_delete_other) (auto simp: other_key_def)

text \<open>The stores after \<open>Update\<close> and \<open>Remove\<close> of an order.\<close>

definition put_order :: "'y sdk_scheme \<Rightarrow> order \<Rightarrow> market_val kv \<Rightarrow> market_val kv" where
  "put_order S x st =
     kv_set (list_key S x) VMark (kv_set (queue_key S x) VMark (kv_set (orderBookKey (OrderID S x)) (VOrder x) st))"

definition drop_order :: "'y sdk_scheme \<Rightarrow> order \<Rightarrow> market_val kv \<Rightarrow> market_val kv" where
  "drop_order S x st =
     kv_delete (list_key S x) (kv_delete (queue_key S x) (kv_delete (orderBookKey (OrderID S x)) st))"

lemma order_keys_distinct:
  "orderBookKey oid \<noteq> list_key S x" "orderBookKey oid \<noteq> queue_key S x"
  using not_index(1) [of oid] index_of_is_index [of S "list_key S x" x] index_of_is_index [of S "queue_key S x" x]
  by (auto simp: index_of_def)

lemma Update_run:
  assumes "order_ok x"
  shows "Update S (TradingPair x) x s = (Ok (), s\<lparr>market_store := put_order S x (market_store s)\<rparr>)"
proof -
  have "Side x = BID \<or> Side x = ASK" using assms by (simp add: order_ok_def)
  then show ?thesis
    using assms by (auto simp: Update_def op_simps store_set_def orderQueueKey_ok bidListKey_key askListKey_key put_order_def)
qed

lemma Remove_run:
  assumes "order_ok x" and "book (market_store s) (OrderID S x) \<noteq> None"
  shows "Remove S (TradingPair x) x s = (Ok (), s\<lparr>market_store := drop_order S x (market_store s)\<rparr>)"
proof -
  have "Side x = BID \<or> Side x = ASK" using assms by (simp add: order_ok_def)
  then show ?thesis
    using assms by (auto simp: Remove_def getOrder_book op_simps store_delete_def orderQueueKey_ok bidListKey_key
        askListKey_key drop_order_def)
qed

text \<open>They are the update of the map of orders; the invariant is kept.\<close>

lemma book_put: "book (put_order S x st) = (book st)(OrderID S x \<mapsto> x)"
  by (auto simp: book_def put_order_def orderBookKey_inj order_keys_distinct fun_eq_iff)

lemma book_drop: "book (drop_order S x st) = (book st)(OrderID S x := None)"
  by (auto simp: book_def drop_order_def orderBookKey_inj order_keys_distinct fun_eq_iff)

lemma get_put_index:
  "is_index k \<Longrightarrow> kv_get (put_order S x st) k \<noteq> None \<longleftrightarrow> index_of S k x \<or> kv_get st k \<noteq> None"
  using not_index(1) [of "OrderID S x"] by (auto simp: put_order_def index_of_def)

lemma get_drop_index:
  "is_index k \<Longrightarrow> kv_get (drop_order S x st) k \<noteq> None \<longleftrightarrow> \<not> index_of S k x \<and> kv_get st k \<noteq> None"
  using not_index(1) [of "OrderID S x"] by (auto simp: drop_order_def index_of_def)

lemma map_upd_ex: "(\<exists>i y. (m(a \<mapsto> x)) i = Some y \<and> P y) \<longleftrightarrow> P x \<or> (\<exists>i y. i \<noteq> a \<and> m i = Some y \<and> P y)"
  by (auto split: if_splits)

lemma map_del_ex: "(\<exists>i y. (m(a := None)) i = Some y \<and> P y) \<longleftrightarrow> (\<exists>i y. i \<noteq> a \<and> m i = Some y \<and> P y)"
  by auto

lemma book_ok_put:
  assumes "book_ok S st" and "order_ok x"
    and "\<And>y. book st (OrderID S x) = Some y \<Longrightarrow> same_place x y"
  shows "book_ok S (put_order S x st)"
proof -
  have index: "kv_get (put_order S x st) k \<noteq> None \<longleftrightarrow>
      (\<exists>oid y. book (put_order S x st) oid = Some y \<and> index_of S k y)" if "is_index k" for k
  proof -
    have "kv_get (put_order S x st) k \<noteq> None \<longleftrightarrow>
        index_of S k x \<or> (\<exists>oid y. book st oid = Some y \<and> index_of S k y)"
      using book_okD(3) [OF assms(1) that] get_put_index [OF that, of S x st] by simp
    also have "\<dots> \<longleftrightarrow> (\<exists>oid y. book (put_order S x st) oid = Some y \<and> index_of S k y)"
    proof -
      have "index_of S k x" if "book st (OrderID S x) = Some y" "index_of S k y" for y
        using same_place_index [OF assms(3) [OF that(1)], of S k] that(2) by simp
      then show ?thesis unfolding book_put map_upd_ex by metis
    qed
    finally show ?thesis .
  qed
  have orders: "\<exists>y. v = VOrder y \<and> OrderID S y = oid \<and> order_ok y"
    if "kv_get (put_order S x st) (orderBookKey oid) = Some v" for oid v
    using that assms(1,2) unfolding book_ok_def
    by (auto simp: put_order_def order_keys_distinct orderBookKey_inj split: if_splits)
  have "kv_ok (put_order S x st)"
    using book_okD(1) [OF assms(1)] by (simp add: put_order_def)
  with index orders show ?thesis unfolding book_ok_def by blast
qed

lemma book_ok_drop:
  assumes "book_ok S st" and "order_ok x"
    and "\<And>y. book st (OrderID S x) = Some y \<Longrightarrow> same_place x y"
  shows "book_ok S (drop_order S x st)"
proof -
  have index: "kv_get (drop_order S x st) k \<noteq> None \<longleftrightarrow>
      (\<exists>oid y. book (drop_order S x st) oid = Some y \<and> index_of S k y)" if "is_index k" for k
  proof -
    have "index_of S k x" if "book st (OrderID S x) = Some y" "index_of S k y" for y
      using same_place_index [OF assms(3) [OF that(1)], of S k] that(2) by simp
    moreover have "oid = OrderID S x" if "book st oid = Some y" "index_of S k y" "index_of S k x" for oid y
      using index_of_OrderID [OF assms(2) _ that(3,2)] book_okD(2) [OF assms(1) that(1)] by auto
    ultimately have "\<not> index_of S k x \<and> (\<exists>oid y. book st oid = Some y \<and> index_of S k y) \<longleftrightarrow>
        (\<exists>oid y. oid \<noteq> OrderID S x \<and> book st oid = Some y \<and> index_of S k y)"
      by metis
    then show ?thesis
      using book_okD(3) [OF assms(1) that] get_drop_index [OF that, of S x st] unfolding book_drop map_del_ex by simp
  qed
  have orders: "\<exists>y. v = VOrder y \<and> OrderID S y = oid \<and> order_ok y"
    if "kv_get (drop_order S x st) (orderBookKey oid) = Some v" for oid v
    using that assms(1) unfolding book_ok_def
    by (auto simp: drop_order_def order_keys_distinct orderBookKey_inj split: if_splits)
  have "kv_ok (drop_order S x st)"
    using book_okD(1) [OF assms(1)] by (simp add: drop_order_def)
  with index orders show ?thesis unfolding book_ok_def by blast
qed

subsection \<open>Reading the indexes\<close>

text \<open>The orders of a pair, in the map.\<close>

definition on_book :: "'y sdk_scheme \<Rightarrow> market_val kv \<Rightarrow> string \<Rightarrow> order \<Rightarrow> bool" where
  "on_book S st symbol x \<longleftrightarrow> book st (OrderID S x) = Some x \<and> TradingPair x = symbol"

lemma on_book_ok: "book_ok S st \<Longrightarrow> on_book S st symbol x \<Longrightarrow> order_ok x"
  using book_okD(2) by (fastforce simp: on_book_def)

lemma on_bookI: "book_ok S st \<Longrightarrow> book st oid = Some x \<Longrightarrow> TradingPair x = symbol \<Longrightarrow> on_book S st symbol x"
  using book_okD(2) by (fastforce simp: on_book_def)

text \<open>A list of entries whose keys are those of the orders with a property, as a list of orders.\<close>

lemma entries_orders:
  assumes "\<And>e. e \<in> set L \<Longrightarrow> \<exists>x. P x \<and> fst e = key x"
    and "\<And>x. P x \<Longrightarrow> key x \<in> fst ` set L"
    and "\<And>x. P x \<Longrightarrow> g (key x) = Some x"
    and "distinct (map fst L)"
  shows "\<exists>xs. map (\<lambda>e. g (fst e)) L = map Some xs \<and> set xs = {x. P x} \<and> map key xs = map fst L \<and> distinct xs"
proof -
  define xs where "xs = map (\<lambda>e. the (g (fst e))) L"
  have entry: "\<exists>x. P x \<and> fst e = key x \<and> g (fst e) = Some x" if "e \<in> set L" for e
    using assms(1) [OF that] assms(3) by metis
  have "map (\<lambda>e. g (fst e)) L = map Some xs"
    unfolding xs_def using entry by (fastforce simp: o_def)
  moreover have keys: "map key xs = map fst L"
    unfolding xs_def using entry by (fastforce simp: o_def)
  moreover have "set xs = {x. P x}"
  proof (intro equalityI subsetI CollectI)
    fix x
    assume "x \<in> set xs"
    then show "P x" unfolding xs_def using entry by fastforce
  next
    fix x
    assume "x \<in> {x. P x}"
    then have x: "P x" by simp
    then obtain e where "e \<in> set L" "fst e = key x" using assms(2) by fastforce
    then show "x \<in> set xs" unfolding xs_def using assms(3) [OF x] by (auto intro!: image_eqI [of _ _ e])
  qed
  moreover have "distinct xs"
    using assms(4) keys distinct_map [of key xs] by simp
  ultimately show ?thesis by blast
qed

definition pair_prefix :: "nat \<Rightarrow> string \<Rightarrow> string" where
  "pair_prefix p symbol = byte p # symbol"

lemma index_in_store:
  assumes "book_ok S st" and "on_book S st symbol x" and "index_of S k x"
  shows "kv_get st k \<noteq> None"
  using book_okD(3) [OF assms(1) index_of_is_index [OF assms(3)]] assms(2,3) unfolding on_book_def by metis

lemma store_index:
  assumes "book_ok S st" and "is_index k" and "kv_get st k \<noteq> None"
  shows "\<exists>x. book st (OrderID S x) = Some x \<and> index_of S k x \<and> order_ok x"
proof -
  obtain oid x where "book st oid = Some x" "index_of S k x"
    using book_okD(3) [OF assms(1,2)] assms(3) by metis
  then show ?thesis using book_okD(2) [OF assms(1)] by metis
qed

text \<open>The entries of the queue in a range of heights, and those of a list, are the orders there.\<close>

lemma key_with_app: "key_with p symbol body = pair_prefix p symbol @ byte 0 # body"
  by (simp add: key_with_def pair_prefix_def)

lemma queue_range:
  assumes "book_ok S st" and "byte 0 \<notin> set symbol" and "height_fits h" and "low = [] \<or> low = height_bytes l \<and> height_fits l"
  shows "(\<exists>v. (k, v) \<in> set (kv_iterator (pair_prefix 20 symbol @ byte 0 # low) (pair_prefix 20 symbol @ byte 0 # height_bytes h) st)) \<longleftrightarrow>
    (\<exists>x. on_book S st symbol x \<and> (low \<noteq> [] \<longrightarrow> l \<le> Height x) \<and> Height x < h \<and> k = queue_key S x)" (is "?L \<longleftrightarrow> ?R")
proof -
  let ?pre = "pair_prefix 20 symbol @ [byte 0]"
  have entry: "?L \<longleftrightarrow> kv_get st k \<noteq> None \<and> (\<exists>b. k = ?pre @ b \<and> low \<le> b \<and> b < height_bytes h)"
    using kv_iterator_exact [OF book_okD(1) [OF assms(1)], of k _ "?pre @ low" "?pre @ height_bytes h"]
      range_prefix [of ?pre low k "height_bytes h"] by auto
  have bounds: "low \<le> height_bytes (Height x) @ oid \<and> height_bytes (Height x) @ oid < height_bytes h \<longleftrightarrow>
      (low \<noteq> [] \<longrightarrow> l \<le> Height x) \<and> Height x < h" if "height_fits (Height x)" for x oid
  proof -
    have "height_bytes (Height x) @ oid < height_bytes h @ [] \<longleftrightarrow> Height x < h"
      by (subst less_append_same_length) (use assms(3) that height_bytes_less in auto)
    moreover have "height_bytes l @ [] \<le> height_bytes (Height x) @ oid \<longleftrightarrow> l \<le> Height x" if "height_fits l"
      by (subst less_eq_append_same_length)
        (use that \<open>height_fits (Height x)\<close> height_bytes_less height_bytes_eq in auto)
    ultimately show ?thesis using assms(4) by auto
  qed
  show ?thesis
  proof
    assume ?L
    then obtain b where k: "kv_get st k \<noteq> None" "k = ?pre @ b" "low \<le> b" "b < height_bytes h"
      using entry by blast
    then have "is_index k" by (simp add: is_index_def pair_prefix_def)
    then obtain x where x: "book st (OrderID S x) = Some x" "index_of S k x" "order_ok x"
      using store_index [OF assms(1)] k(1) by blast
    have "key_with 20 symbol b = k" using k(2) by (simp add: key_with_app)
    with x have "TradingPair x = symbol \<and> b = height_bytes (Height x) @ OrderID S x \<and> k = queue_key S x"
      using assms(2) by (auto simp: index_of_def queue_key_def list_key_def key_with_inj order_ok_def list_prefix_def split: if_splits)
    then show ?R using x k bounds by (auto simp: on_book_def order_ok_def)
  next
    assume ?R
    then obtain x where x: "on_book S st symbol x" "low \<noteq> [] \<longrightarrow> l \<le> Height x" "Height x < h" "k = queue_key S x" by blast
    then have "kv_get st k \<noteq> None" using index_in_store [OF assms(1) x(1)] by (simp add: index_of_def)
    moreover have "k = ?pre @ height_bytes (Height x) @ OrderID S x"
      using x by (simp add: queue_key_def key_with_app on_book_def)
    moreover have "height_fits (Height x)" using on_book_ok [OF assms(1) x(1)] by (simp add: order_ok_def)
    ultimately show ?L using entry bounds x(2,3) by blast
  qed
qed

lemma queue_key_drop:
  assumes "TradingPair x = symbol"
  shows "drop (length (pair_prefix 20 symbol @ byte 0 # height_bytes h)) (queue_key S x) = OrderID S x"
proof -
  have "queue_key S x = (pair_prefix 20 symbol @ byte 0 # height_bytes (Height x)) @ OrderID S x"
    using assms by (simp add: queue_key_def key_with_app)
  moreover have "length (pair_prefix 20 symbol @ byte 0 # height_bytes h) =
      length (pair_prefix 20 symbol @ byte 0 # height_bytes (Height x))" by simp
  ultimately show ?thesis by (metis append_eq_conv_conj)
qed

lemma queue_orders:
  assumes "book_ok S st" and "byte 0 \<notin> set symbol" and "height_fits h" and "low = [] \<or> low = height_bytes l \<and> height_fits l"
    and L: "L = kv_iterator (pair_prefix 20 symbol @ byte 0 # low) (pair_prefix 20 symbol @ byte 0 # height_bytes h) st"
    and "rv = rev \<or> rv = (\<lambda>x. x)"
  shows "\<exists>xs. map (\<lambda>e. book st (drop (length (pair_prefix 20 symbol @ byte 0 # height_bytes h)) (fst e))) (rv L) = map Some xs \<and>
    set xs = {x. on_book S st symbol x \<and> (low \<noteq> [] \<longrightarrow> l \<le> Height x) \<and> Height x < h} \<and>
    map (queue_key S) xs = map fst (rv L) \<and> distinct xs"
proof (rule entries_orders [where g = "\<lambda>k. book st (drop (length (pair_prefix 20 symbol @ byte 0 # height_bytes h)) k)"])
  have sets: "set (rv L) = set L" using assms(6) by auto
  have ex: "(\<exists>v. (k, v) \<in> set L) \<longleftrightarrow>
      (\<exists>x. on_book S st symbol x \<and> (low \<noteq> [] \<longrightarrow> l \<le> Height x) \<and> Height x < h \<and> k = queue_key S x)" for k
    unfolding L by (rule queue_range [OF assms(1-4)])
  show "\<exists>x. (on_book S st symbol x \<and> (low \<noteq> [] \<longrightarrow> l \<le> Height x) \<and> Height x < h) \<and> fst e = queue_key S x"
    if "e \<in> set (rv L)" for e
    using that ex [of "fst e"] unfolding sets by (metis prod.collapse)
  show "queue_key S x \<in> fst ` set (rv L)"
    if "on_book S st symbol x \<and> (low \<noteq> [] \<longrightarrow> l \<le> Height x) \<and> Height x < h" for x
    using that ex [of "queue_key S x"] unfolding sets by force
  show "book st (drop (length (pair_prefix 20 symbol @ byte 0 # height_bytes h)) (queue_key S x)) = Some x"
    if "on_book S st symbol x \<and> (low \<noteq> [] \<longrightarrow> l \<le> Height x) \<and> Height x < h" for x
    using that queue_key_drop [of x symbol h S] by (simp only: on_book_def)
  show "distinct (map fst (rv L))"
    using assms(6) kv_ok_distinct [OF book_okD(1) [OF assms(1)]] unfolding L
    by (auto simp: kv_iterator_def rev_map [symmetric] distinct_map_filter)
qed

lemma string_append_less: "(xs :: string) @ us < xs @ vs \<longleftrightarrow> us < vs"
  by (induction xs) auto

lemma queue_key_order:
  assumes "order_ok x" and "order_ok y" and "TradingPair x = TradingPair y" and "queue_key S x < queue_key S y"
  shows "Height x \<le> Height y"
proof (rule ccontr)
  assume "\<not> Height x \<le> Height y"
  then have "height_bytes (Height y) < height_bytes (Height x)"
    using assms(1,2) by (simp add: order_ok_def height_bytes_less)
  then have "queue_key S y < queue_key S x"
    using assms(3) less_append_same_length [of "height_bytes (Height y)" "height_bytes (Height x)"]
    by (simp add: queue_key_def key_with_app string_append_less)
  with assms(4) show False by simp
qed

lemma GetOlderThan_exact:
  assumes "book_ok S (market_store s)" and "byte 0 \<notin> set symbol" and "height_fits h"
  shows "\<exists>xs. GetOlderThan symbol h s = Ok (map Some xs) \<and> distinct xs \<and>
    set xs = {x. on_book S (market_store s) symbol x \<and> Height x < h} \<and> sorted_wrt (\<lambda>x y. Height y \<le> Height x) xs"
proof -
  let ?st = "market_store s"
  define L where "L = kv_iterator (pair_prefix 20 symbol @ byte 0 # []) (pair_prefix 20 symbol @ byte 0 # height_bytes h) ?st"
  obtain xs where xs: "map (\<lambda>e. book ?st (drop (length (pair_prefix 20 symbol @ byte 0 # height_bytes h)) (fst e))) (rev L) = map Some xs"
      "set xs = {x. on_book S ?st symbol x \<and> Height x < h}" "map (queue_key S) xs = map fst (rev L)" "distinct xs"
    using queue_orders [OF assms(1,2,3), of "[]" 0 L rev] unfolding L_def by auto
  have "sorted_wrt (\<lambda>x y. y < x) (map fst (rev L))"
    using kv_iterator_sorted [OF book_okD(1) [OF assms(1)]] unfolding L_def
    by (simp add: rev_map [symmetric] sorted_wrt_rev)
  then have sorted: "sorted_wrt (\<lambda>x y. queue_key S y < queue_key S x) xs"
    unfolding xs(3) [symmetric] by (simp add: sorted_wrt_map)
  have mono: "Height y \<le> Height x" if "x \<in> set xs" "y \<in> set xs" "queue_key S y < queue_key S x" for x y
  proof -
    have "on_book S ?st symbol x" "on_book S ?st symbol y" using that(1,2) xs(2) by auto
    then show ?thesis
      using queue_key_order [OF _ _ _ that(3)] on_book_ok [OF assms(1)] by (simp add: on_book_def)
  qed
  have "sorted_wrt (\<lambda>x y. Height y \<le> Height x) xs"
    by (rule sorted_wrt_mono_rel [OF mono sorted])
  moreover have "GetOlderThan symbol h s = Ok (map Some xs)"
    using xs(1) by (simp add: GetOlderThan_def int64ToBigEndianBytes_fits [OF assms(3)] Let_def ConcatKeys_def
        OrderQueueKeyPrefix_def kv_reverse_iterator_def L_def pair_prefix_def getOrder_book)
  ultimately show ?thesis using xs(2,4) by blast
qed

lemma GetOrdersAtHeight_exact:
  assumes "book_ok S (market_store s)" and "byte 0 \<notin> set symbol" and "height_fits (h + 1)" and "0 \<le> h"
  shows "\<exists>xs. GetOrdersAtHeight symbol h s = Ok (map Some xs) \<and> distinct xs \<and>
    set xs = {x. on_book S (market_store s) symbol x \<and> Height x = h}"
proof -
  let ?st = "market_store s"
  have h: "height_fits h" "i64 (h + 1) = h + 1" using assms(3,4) by (auto simp: height_fits_def i64_id)
  define L where "L = kv_iterator (pair_prefix 20 symbol @ byte 0 # height_bytes h) (pair_prefix 20 symbol @ byte 0 # height_bytes (h + 1)) ?st"
  have nonempty: "height_bytes h \<noteq> []" using length_height_bytes [of h] by (metis list.size(3) zero_neq_numeral)
  obtain xs where xs: "map (\<lambda>e. book ?st (drop (length (pair_prefix 20 symbol @ byte 0 # height_bytes (h + 1))) (fst e))) L = map Some xs"
      "set xs = {x. on_book S ?st symbol x \<and> h \<le> Height x \<and> Height x < h + 1}" "distinct xs"
    using queue_orders [OF assms(1,2,3), of "height_bytes h" h L "\<lambda>x. x"] h(1) nonempty unfolding L_def by auto
  have "GetOrdersAtHeight symbol h s = Ok (map Some xs)"
    using xs(1) by (simp add: GetOrdersAtHeight_def int64ToBigEndianBytes_fits h assms(3) Let_def ConcatKeys_def
        OrderQueueKeyPrefix_def L_def pair_prefix_def getOrder_book)
  moreover have "set xs = {x. on_book S ?st symbol x \<and> Height x = h}" using xs(2) by auto
  ultimately show ?thesis using xs(3) by blast
qed

subsection \<open>The candidates for matching\<close>

text \<open>The orders of one side of a pair, as the iterator over their list gives them.\<close>

definition on_side :: "'y sdk_scheme \<Rightarrow> market_val kv \<Rightarrow> string \<Rightarrow> nat \<Rightarrow> order \<Rightarrow> bool" where
  "on_side S st symbol side x \<longleftrightarrow> on_book S st symbol x \<and> Side x = side"

lemma list_range:
  assumes "book_ok S st" and "byte 0 \<notin> set symbol" and side: "side = BID \<or> side = ASK"
  shows "(\<exists>v. (k, v) \<in> set (kv_iterator (pair_prefix (list_prefix side) symbol @ x00) (pair_prefix (list_prefix side) symbol @ x01) st)) \<longleftrightarrow>
    (\<exists>x. on_side S st symbol side x \<and> k = list_key S x)" (is "?L \<longleftrightarrow> ?R")
proof -
  let ?pre = "pair_prefix (list_prefix side) symbol"
  have entry: "?L \<longleftrightarrow> kv_get st k \<noteq> None \<and> (\<exists>b. k = ?pre @ byte 0 # b)"
    using kv_iterator_exact [OF book_okD(1) [OF assms(1)], of k _ "?pre @ x00" "?pre @ x01"] prefix_range [of ?pre k] by auto
  have small: "list_prefix q < 20" for q by (simp add: list_prefix_def)
  show ?thesis
  proof
    assume ?L
    then obtain b where k: "kv_get st k \<noteq> None" "k = ?pre @ byte 0 # b" using entry by blast
    then have "is_index k" by (auto simp: is_index_def pair_prefix_def list_prefix_def)
    then obtain x where x: "book st (OrderID S x) = Some x" "index_of S k x" "order_ok x"
      using store_index [OF assms(1)] k(1) by blast
    have "key_with (list_prefix side) symbol b = k" using k(2) by (simp add: key_with_app)
    with x have "TradingPair x = symbol \<and> list_prefix (Side x) = list_prefix side \<and> k = list_key S x"
      using assms(2) small [of side] small [of "Side x"]
      by (auto simp: index_of_def queue_key_def list_key_def key_with_inj order_ok_def)
    then show ?R using x side by (auto simp: on_side_def on_book_def order_ok_def list_prefix_def split: if_splits)
  next
    assume ?R
    then obtain x where x: "on_book S st symbol x" "Side x = side" "k = list_key S x" by (auto simp: on_side_def)
    then have "kv_get st k \<noteq> None" using index_in_store [OF assms(1) x(1)] by (simp add: index_of_def)
    then show ?L using entry x by (auto simp: list_key_def key_with_app on_book_def)
  qed
qed

definition side_iter :: "'y sdk_scheme \<Rightarrow> market_val kv \<Rightarrow> string \<Rightarrow> nat \<Rightarrow> order list \<Rightarrow> bool" where
  "side_iter S st symbol side xs \<longleftrightarrow> set xs = {x. on_side S st symbol side x} \<and> distinct xs \<and>
     map (list_key S) xs = map fst (kv_iterator (pair_prefix (list_prefix side) symbol @ x00)
       (pair_prefix (list_prefix side) symbol @ x01) st) \<and>
     sorted_wrt (\<lambda>x y. Price x \<le> Price y) xs"

lemma list_key_order:
  assumes "order_ok x" and "order_ok y" and "TradingPair x = TradingPair y" and "Side x = Side y"
    and "list_key S x < list_key S y"
  shows "Price x \<le> Price y"
proof (rule ccontr)
  assume "\<not> Price x \<le> Price y"
  then have "DecToBigEndianBytes (Price y) < DecToBigEndianBytes (Price x)"
    using assms(1,2) by (simp add: order_ok_def DecToBigEndianBytes_less)
  then have "list_key S y < list_key S x"
    using assms(3,4) less_append_same_length [of "DecToBigEndianBytes (Price y)" "DecToBigEndianBytes (Price x)"]
    by (simp add: list_key_def key_with_app string_append_less)
  with assms(5) show False by simp
qed

lemma book_id_part:
  assumes "TradingPair x = symbol"
  shows "id_part (length symbol + 2) (list_key S x) = OrderID S x"
    and "price_part (length symbol + 2) (list_key S x) = DecToBigEndianBytes (Price x)"
proof -
  define pre where "pre = pair_prefix (list_prefix (Side x)) symbol @ [byte 0]"
  have key: "list_key S x = pre @ DecToBigEndianBytes (Price x) @ OrderID S x"
    using assms by (simp add: list_key_def key_with_app pre_def)
  have len: "length symbol + 2 = length pre" by (simp add: pre_def pair_prefix_def)
  show "price_part (length symbol + 2) (list_key S x) = DecToBigEndianBytes (Price x)"
    unfolding price_part_def len key by simp
  have "drop (length pre + DecByteCount) (pre @ DecToBigEndianBytes (Price x) @ OrderID S x) =
      drop DecByteCount (drop (length pre) (pre @ DecToBigEndianBytes (Price x) @ OrderID S x))"
    by (simp only: drop_drop add.commute)
  then show "id_part (length symbol + 2) (list_key S x) = OrderID S x"
    unfolding id_part_def len key by simp
qed

lemma side_iter_exists:
  assumes "book_ok S st" and "byte 0 \<notin> set symbol" and side: "side = BID \<or> side = ASK"
  shows "\<exists>xs. side_iter S st symbol side xs"
proof -
  define L where "L = kv_iterator (pair_prefix (list_prefix side) symbol @ x00) (pair_prefix (list_prefix side) symbol @ x01) st"
  have range: "(\<exists>v. (k, v) \<in> set L) \<longleftrightarrow> (\<exists>x. on_side S st symbol side x \<and> k = list_key S x)" for k
    unfolding L_def by (rule list_range [OF assms])
  have "\<exists>xs. map (\<lambda>e. book st (id_part (length symbol + 2) (fst e))) L = map Some xs \<and>
      set xs = {x. on_side S st symbol side x} \<and> map (list_key S) xs = map fst L \<and> distinct xs"
  proof (rule entries_orders [where g = "\<lambda>k. book st (id_part (length symbol + 2) k)"])
    show "\<exists>x. on_side S st symbol side x \<and> fst e = list_key S x" if "e \<in> set L" for e
      using that range [of "fst e"] by (metis prod.collapse)
    show "list_key S x \<in> fst ` set L" if "on_side S st symbol side x" for x
      using that range [of "list_key S x"] by force
    show "book st (id_part (length symbol + 2) (list_key S x)) = Some x" if "on_side S st symbol side x" for x
      using that book_id_part(1) [of x symbol S] by (auto simp: on_side_def on_book_def)
    show "distinct (map fst L)"
      using kv_ok_distinct [OF book_okD(1) [OF assms(1)]] by (simp add: L_def kv_iterator_def distinct_map_filter)
  qed
  then obtain xs where xs: "set xs = {x. on_side S st symbol side x}" "map (list_key S) xs = map fst L" "distinct xs"
    by blast
  have "sorted_wrt (<) (map fst L)"
    unfolding L_def by (rule kv_iterator_sorted [OF book_okD(1) [OF assms(1)]])
  then have sorted: "sorted_wrt (\<lambda>x y. list_key S x < list_key S y) xs"
    unfolding xs(2) [symmetric] by (simp add: sorted_wrt_map)
  have mono: "Price x \<le> Price y" if "x \<in> set xs" "y \<in> set xs" "list_key S x < list_key S y" for x y
  proof -
    have "on_side S st symbol side x" "on_side S st symbol side y" using that(1,2) xs(1) by auto
    then show ?thesis
      using list_key_order [OF _ _ _ _ that(3)] on_book_ok [OF assms(1)] by (simp add: on_side_def on_book_def)
  qed
  have "sorted_wrt (\<lambda>x y. Price x \<le> Price y) xs" by (rule sorted_wrt_mono_rel [OF mono sorted])
  then have "side_iter S st symbol side xs" using xs by (simp only: side_iter_def L_def)
  then show ?thesis ..
qed

lemma takeWhile_sorted:
  assumes "\<And>x y. R x y \<Longrightarrow> P y \<Longrightarrow> P x"
  shows "sorted_wrt R xs \<Longrightarrow> takeWhile P xs = filter P xs"
proof (induction xs)
  case Nil
  then show ?case by simp
next
  case (Cons x xs)
  then have "R x y" if "y \<in> set xs" for y using that by simp
  then have "\<not> P y" if "\<not> P x" "y \<in> set xs" for y using that assms [of x y] by blast
  then have "filter P xs = []" if "\<not> P x" using that by (simp add: filter_empty_conv)
  moreover have "takeWhile P xs = filter P xs" using Cons by simp
  ultimately show ?case by simp
qed

definition crossing :: "order list \<Rightarrow> order list \<Rightarrow> order list" where
  "crossing bids asks = (case (bids, asks) of
      (b # bs, a # as) \<Rightarrow> if Price a > Price b then []
        else b # a # takeWhile (\<lambda>x. Price x \<le> Price b) as @ takeWhile (\<lambda>x. Price a \<le> Price x) bs
    | _ \<Rightarrow> [])"

lemma crossing_set:
  assumes "sorted_wrt (\<lambda>x y. Price y \<le> Price x) bids" and "sorted_wrt (\<lambda>x y. Price x \<le> Price y) asks"
  shows "set (crossing bids asks) =
    {b \<in> set bids. \<exists>a \<in> set asks. Price a \<le> Price b} \<union> {a \<in> set asks. \<exists>b \<in> set bids. Price a \<le> Price b}"
proof (cases "bids = [] \<or> asks = []")
  case True
  then show ?thesis by (auto simp: crossing_def split: list.splits)
next
  case False
  then obtain b bs a as where eqs: "bids = b # bs" "asks = a # as" by (cases bids; cases asks) auto
  have tw: "takeWhile (\<lambda>x. Price x \<le> Price b) as = filter (\<lambda>x. Price x \<le> Price b) as"
    by (rule takeWhile_sorted [of "\<lambda>x y. Price x \<le> Price y"]) (use assms(2) in \<open>simp_all add: eqs\<close>)
  have tw': "takeWhile (\<lambda>x. Price a \<le> Price x) bs = filter (\<lambda>x. Price a \<le> Price x) bs"
    by (rule takeWhile_sorted [of "\<lambda>x y. Price y \<le> Price x"]) (use assms(1) in \<open>simp_all add: eqs\<close>)
  have max: "Price x \<le> Price b" if "x \<in> set bids" for x using that assms(1) eqs by auto
  have min: "Price a \<le> Price x" if "x \<in> set asks" for x using that assms(2) eqs by auto
  have asks': "(\<exists>y \<in> set asks. Price y \<le> Price x) \<longleftrightarrow> Price a \<le> Price x" for x
    using min eqs by force
  have bids': "(\<exists>x \<in> set bids. Price y \<le> Price x) \<longleftrightarrow> Price y \<le> Price b" for y
    using max eqs by force
  have "set (crossing bids asks) = {x \<in> set bids. Price a \<le> Price x} \<union> {y \<in> set asks. Price y \<le> Price b}"
  proof (cases "Price a > Price b")
    case True
    have "\<not> Price a \<le> Price x" if "x \<in> set bids" for x using True max [OF that] by linarith
    moreover have "\<not> Price y \<le> Price b" if "y \<in> set asks" for y using True min [OF that] by linarith
    ultimately show ?thesis using True by (auto simp: crossing_def eqs(1,2))
  next
    case False
    then show ?thesis by (auto simp: crossing_def eqs tw tw')
  qed
  then show ?thesis by (simp only: asks' bids')
qed

lemma crossing_distinct:
  assumes "distinct bids" and "distinct asks" and "set bids \<inter> set asks = {}"
  shows "distinct (crossing bids asks)"
proof (cases "bids = [] \<or> asks = []")
  case True
  then show ?thesis by (auto simp: crossing_def split: list.splits)
next
  case False
  then obtain b bs a as where eqs: "bids = b # bs" "asks = a # as" by (cases bids; cases asks) auto
  show ?thesis
    using assms by (auto simp: crossing_def eqs dest: set_takeWhileD)
qed

lemma takeWhile_cong_map:
  "takeWhile P (map f xs) = map f (takeWhile (\<lambda>x. P (f x)) xs)"
  by (induction xs) auto

lemma candidate_ids_crossing:
  assumes ok: "book_ok S (market_store s)"
    and bids: "side_iter S (market_store s) symbol BID bids" and asks: "side_iter S (market_store s) symbol ASK asks"
  shows "candidate_ids symbol s = map (OrderID S) (crossing (rev bids) asks)"
proof -
  let ?pos = "length symbol + 2"
  have placed: "TradingPair x = symbol \<and> price_fits (Price x)" if "x \<in> set bids \<union> set asks" for x
    using that bids asks on_book_ok [OF ok]
    by (auto simp: side_iter_def on_side_def on_book_def order_ok_def)
  have price: "price_part ?pos (list_key S y) > price_part ?pos (list_key S x) \<longleftrightarrow> Price y > Price x"
    if "x \<in> set bids \<union> set asks" "y \<in> set bids \<union> set asks" for x y
    using placed [OF that(1)] placed [OF that(2)] by (simp only: book_id_part(2) DecToBigEndianBytes_less)
  have ids: "map (\<lambda>x. id_part ?pos (list_key S x)) xs = map (OrderID S) xs" if "set xs \<subseteq> set bids \<union> set asks" for xs
    by (rule map_cong [OF refl]) (use placed that book_id_part(1) in blast)
  have keys: "map fst (kv_reverse_iterator (ConcatKeys [BidListKeyPrefix, symbol, x00]) (ConcatKeys [BidListKeyPrefix, symbol, x01])
        (market_store s)) = map (list_key S) (rev bids)"
      "map fst (kv_iterator (ConcatKeys [AskListKeyPrefix, symbol, x00]) (ConcatKeys [AskListKeyPrefix, symbol, x01])
        (market_store s)) = map (list_key S) asks"
    using bids asks
    by (simp_all add: side_iter_def kv_reverse_iterator_def ConcatKeys_def BidListKeyPrefix_def AskListKeyPrefix_def
        pair_prefix_def list_prefix_def rev_map [symmetric])
  show ?thesis
  proof (cases "rev bids = [] \<or> asks = []")
    case True
    then show ?thesis
      unfolding candidate_ids_def Let_def keys by (auto simp: crossing_def split: list.splits)
  next
    case False
    then obtain b bs a as where eqs: "rev bids = b # bs" "asks = a # as" by (cases "rev bids"; cases asks) auto
    have sub: "set (b # bs) \<subseteq> set bids \<union> set asks" "set (a # as) \<subseteq> set bids \<union> set asks"
      using eqs by (metis Un_iff set_rev subsetI)+
    have tw: "takeWhile (\<lambda>x. \<not> price_part ?pos (list_key S x) > price_part ?pos (list_key S b)) as =
        takeWhile (\<lambda>x. Price x \<le> Price b) as"
    proof (rule takeWhile_cong [OF refl])
      fix x
      assume "x \<in> set as"
      then have "x \<in> set bids \<union> set asks" "b \<in> set bids \<union> set asks" using sub by auto
      then show "(\<not> price_part ?pos (list_key S x) > price_part ?pos (list_key S b)) = (Price x \<le> Price b)"
        by (simp only: price not_less)
    qed
    have tw': "takeWhile (\<lambda>x. \<not> price_part ?pos (list_key S a) > price_part ?pos (list_key S x)) bs =
        takeWhile (\<lambda>x. Price a \<le> Price x) bs"
    proof (rule takeWhile_cong [OF refl])
      fix x
      assume "x \<in> set bs"
      then have "x \<in> set bids \<union> set asks" "a \<in> set bids \<union> set asks" using sub by auto
      then show "(\<not> price_part ?pos (list_key S a) > price_part ?pos (list_key S x)) = (Price a \<le> Price x)"
        by (simp only: price not_less)
    qed
    have ids_tw: "map (\<lambda>x. id_part ?pos (list_key S x)) (takeWhile Q as) = map (OrderID S) (takeWhile Q as)"
        "map (\<lambda>x. id_part ?pos (list_key S x)) (takeWhile Q bs) = map (OrderID S) (takeWhile Q bs)" for Q
      by (rule ids; use sub in \<open>auto dest: set_takeWhileD\<close>)+
    have "price_part ?pos (list_key S a) > price_part ?pos (list_key S b) \<longleftrightarrow> Price a > Price b"
      by (rule price) (use sub in auto)
    moreover have "id_part ?pos (list_key S b) = OrderID S b" "id_part ?pos (list_key S a) = OrderID S a"
      using ids [of "[a, b]"] sub by auto
    ultimately show ?thesis
      unfolding candidate_ids_def Let_def keys eqs
      by (simp only: list.map prod.case list.case takeWhile_cong_map map_map o_def tw tw' ids_tw crossing_def
          append_Cons append_Nil map_append if_distrib [where f = "map (OrderID S)"])
  qed
qed

text \<open>
  The candidates are the orders of the pair that some order of the other side meets in price. Fetching them
  takes the pair off the list of markets with new orders.
\<close>

definition meets :: "order \<Rightarrow> order \<Rightarrow> bool" where
  "meets x y \<longleftrightarrow> Side x = BID \<and> Side y = ASK \<and> Price y \<le> Price x \<or> Side x = ASK \<and> Side y = BID \<and> Price x \<le> Price y"

lemma GetMatchingCandidates_run:
  assumes ok: "book_ok S (market_store s)" and symbol: "byte 0 \<notin> set symbol"
  shows "\<exists>xs. GetMatchingCandidates symbol s =
      (Ok xs, s\<lparr>market_store := kv_delete (NewlyAddedKeyPrefix @ symbol) (market_store s)\<rparr>) \<and> distinct xs \<and>
    set xs = {x. on_book S (market_store s) symbol x \<and> (\<exists>y. on_book S (market_store s) symbol y \<and> meets x y)}"
proof -
  let ?s = "s\<lparr>market_store := kv_delete (NewlyAddedKeyPrefix @ symbol) (market_store s)\<rparr>"
  have ok': "book_ok S (market_store ?s)" using book_ok_delete_other [OF other_keys(1) ok] by simp
  have same: "book (market_store ?s) = book (market_store s)" by (simp add: book_delete_other other_keys)
  obtain bids asks where iters: "side_iter S (market_store ?s) symbol BID bids" "side_iter S (market_store ?s) symbol ASK asks"
    using side_iter_exists [OF ok' symbol] by metis
  define xs where "xs = crossing (rev bids) asks"
  have sets: "set bids = {x. on_side S (market_store s) symbol BID x}" "set asks = {x. on_side S (market_store s) symbol ASK x}"
    using iters by (simp_all add: side_iter_def on_side_def on_book_def book_delete_other other_keys)
  have set_xs: "set xs = {b \<in> set bids. \<exists>a \<in> set asks. Price a \<le> Price b} \<union> {a \<in> set asks. \<exists>b \<in> set bids. Price a \<le> Price b}"
    unfolding xs_def using crossing_set [of "rev bids" asks] iters by (simp add: side_iter_def sorted_wrt_rev)
  have "distinct xs"
    unfolding xs_def by (rule crossing_distinct) (use iters sets in \<open>auto simp: side_iter_def on_side_def\<close>)
  moreover have sides: "Side x = BID \<or> Side x = ASK" if "on_book S (market_store s) symbol x" for x
    using on_book_ok [OF ok that] by (simp add: order_ok_def)
  then have "set xs = {x. on_book S (market_store s) symbol x \<and> (\<exists>y. on_book S (market_store s) symbol y \<and> meets x y)}"
    unfolding set_xs sets by (auto simp: on_side_def meets_def)
  moreover have "List.map_filter (getOrder ?s) (candidate_ids symbol ?s) = xs"
  proof -
    have "getOrder ?s (OrderID S x) = Some x" if "x \<in> set xs" for x
      using that unfolding set_xs sets by (auto simp: getOrder_book on_side_def on_book_def book_delete_other other_keys)
    then have "List.map_filter (getOrder ?s) (map (OrderID S) xs) = xs"
      by (induction xs) (auto simp: List.map_filter_simps)
    then show ?thesis using candidate_ids_crossing [OF ok' iters] by (simp add: xs_def)
  qed
  ultimately show ?thesis
    by (intro exI [of _ xs]) (simp add: GetMatchingCandidates_def op_simps store_delete_def)
qed

end
