(* ===== verification/MarketEscrow.thy ===== *)
theory MarketEscrow
  imports OpRules MarketBook MarketEnd BankxHandlerInv
begin

section \<open>The coins behind an order\<close>

text \<open>
  What an open order keeps frozen, and that removing an order (\<open>removeOrder\<close> of \<open>endblocker.go\<close>)
  releases exactly that: the amount it still offers, its commission and its feature fee. Fees and
  rebates are paid out of the released coins, so they change nobody's frozen coins.
\<close>

subsection \<open>Orders in good form\<close>

definition used_denom :: "order \<Rightarrow> string" where
  "used_denom x = (case GetOrderUsedDenom x of Ok d \<Rightarrow> d | _ \<Rightarrow> [])"

definition owes :: "order \<Rightarrow> string \<Rightarrow> int" where
  "owes x d = (if used_denom x = d then Freeze x else 0) + (if CET = d then FrozenCommission x + FrozenFeatureFee x else 0)"

definition held :: "order \<Rightarrow> addr \<Rightarrow> string \<Rightarrow> int" where
  "held x a d = (if Sender x = a then owes x d else 0)"

text \<open>
  \<open>pair_ok\<close>: the pair splits into two denominations the SDK accepts. A buyer's frozen money covers
  what is left to buy at the order's price; a seller's frozen stock is what is left to sell.
\<close>

definition pair_ok :: "'y sdk_scheme \<Rightarrow> string \<Rightarrow> bool" where
  "pair_ok S symbol \<longleftrightarrow> byte 0 \<notin> set symbol \<and>
     (\<exists>stock money. SplitSymbol symbol = Ok (stock, money) \<and> denom_valid S stock \<and> denom_valid S money)"

definition order_wf :: "'y sdk_scheme \<Rightarrow> order \<Rightarrow> bool" where
  "order_wf S x \<longleftrightarrow> order_ok x \<and> pair_ok S (TradingPair x) \<and>
     0 \<le> LeftStock x \<and> LeftStock x < 2 ^ 63 \<and> 0 \<le> Freeze x \<and> Freeze x \<le> MaxOrderAmount \<and>
     0 \<le> FrozenCommission x \<and> 0 \<le> FrozenFeatureFee x \<and>
     (TimeInForce x \<noteq> GTE \<longrightarrow> FrozenFeatureFee x = 0) \<and>
     (Side x = BUY \<longrightarrow> Price x * LeftStock x \<le> Freeze x * dec_one) \<and>
     (Side x = SELL \<longrightarrow> Freeze x = LeftStock x)"

lemma order_wfD:
  assumes "order_wf S x"
  shows "order_ok x" and "pair_ok S (TradingPair x)"
    and "0 \<le> LeftStock x" and "LeftStock x < 2 ^ 63" and "0 \<le> Freeze x" and "Freeze x \<le> MaxOrderAmount"
    and "0 \<le> FrozenCommission x" and "0 \<le> FrozenFeatureFee x"
    and "TimeInForce x \<noteq> GTE \<Longrightarrow> FrozenFeatureFee x = 0"
    and "Side x = BUY \<Longrightarrow> Price x * LeftStock x \<le> Freeze x * dec_one"
    and "Side x = SELL \<Longrightarrow> Freeze x = LeftStock x"
  using assms by (simp_all add: order_wf_def)

lemma owes_nonneg: "order_wf S x \<Longrightarrow> 0 \<le> owes x d"
  by (simp add: owes_def order_wf_def)

lemma held_nonneg: "order_wf S x \<Longrightarrow> 0 \<le> held x a d"
  by (simp add: held_def owes_nonneg)

lemma used_denom_ok:
  assumes "pair_ok S (TradingPair x)"
  shows "GetOrderUsedDenom x = Ok (used_denom x)" and "denom_valid S (used_denom x)"
  using assms by (auto simp: pair_ok_def used_denom_def GetOrderUsedDenom_def)

subsection \<open>The books while the market's stores stay as they are\<close>

text \<open>What an operation of the market does not touch: the ledger and the part of the state beyond the market's.\<close>

definition base_of :: "('b \<Rightarrow> string \<Rightarrow> int) \<Rightarrow> ('b, 'z) market_state_scheme \<Rightarrow> ledger \<times> 'z" where
  "base_of tot s = (ledger_of tot s, market_state.more s)"

definition minv ::
    "('b, 'y) cosmos_scheme \<Rightarrow> ('b \<Rightarrow> string \<Rightarrow> int) \<Rightarrow> ledger \<times> 'z \<Rightarrow> (addr \<Rightarrow> string \<Rightarrow> int) \<Rightarrow>
      market_val kv \<Rightarrow> market_params \<Rightarrow> ('b, 'z) market_state_scheme \<Rightarrow> bool" where
  "minv C tot T G st p s \<longleftrightarrow> book_inv C tot (fst T) G s \<and> market_store s = st \<and> market_params s = p \<and>
     market_state.more s = snd T"

lemma minvD:
  assumes "minv C tot T G st p s"
  shows "authx_inv C s" and "base_of tot s = T" and "frozen s a d = G a d"
    and "market_store s = st" and "market_params s = p"
  using assms by (simp_all add: minv_def book_inv_def base_of_def)

lemma minv_books:
  assumes "minv C tot T G st p s" and "books C tot f s s'"
  shows "minv C tot T (\<lambda>a d. G a d + f a d) st p s'"
  using assms by (auto simp: minv_def book_inv_def books_def ledger_of_def fun_eq_iff)

lemma minv_events [simp]: "minv C tot T G st p (s\<lparr>events := es\<rparr>) = minv C tot T G st p s"
  by (simp add: minv_def)

lemma minv_keepI:
  assumes "\<And>s r s'. authx_inv C s \<Longrightarrow> m s = (r, s') \<Longrightarrow> r \<noteq> Panic \<Longrightarrow> books C tot (\<lambda>a d. 0) s s'"
  shows "keep (minv C tot T G st p) m"
proof (rule keepI)
  fix s r s'
  assume s: "minv C tot T G st p s" and run: "m s = (r, s')" "r \<noteq> Panic"
  have "books C tot (\<lambda>a d. 0) s s'" by (rule assms [OF minvD(1) [OF s] run])
  from minv_books [OF s this] show "minv C tot T G st p s'" by simp
qed

lemma keep_minv_SendCoins: "cosmos_ok C tot \<Longrightarrow> keep (minv C tot T G st p) (SendCoins C a b amt)"
  by (rule minv_keepI, rule SendCoins_books) auto

lemma keep_minv_DeductInt64CetFee: "cosmos_ok C tot \<Longrightarrow> keep (minv C tot T G st p) (DeductInt64CetFee C a amt)"
  by (rule minv_keepI, rule DeductInt64CetFee_books) auto

lemma keep_minv_FillMsgs: "keep (minv C tot T G st p) (FillMsgs key msg)"
  by (rule keep_FillMsgs) simp

lemmas minv_keeps = keeps keep_minv_SendCoins keep_minv_DeductInt64CetFee keep_minv_FillMsgs

lemma keep_minv_chargeFee: "cosmos_ok C tot \<Longrightarrow> keep (minv C tot T G st p) (chargeFee C fee a)"
  unfolding chargeFee_def
  by (rule keep_stateI) (auto split: option.split intro!: afters minv_keeps)

lemma keep_minv_send_cancel: "keep (minv C tot T G st p) (send_cancel C sub ctx x why q)"
  unfolding send_cancel_def
  by (rule keep_stateI) (auto intro!: afters minv_keeps)

text \<open>Unfreezing coins that are frozen succeeds and takes them off the account's frozen coins.\<close>

lemma wp_UnFreeze:
  assumes C: "cosmos_ok C tot" and inv: "minv C tot T G st p s" and valid: "coins_IsValid C amt"
    and enough: "\<And>d. coins_AmountOf C amt d \<le> G a d"
  shows "wp (ignore_err (UnFreezeCoins C a amt))
    (\<lambda>_. minv C tot T (\<lambda>c d. G c d - (if c = a then coins_AmountOf C amt d else 0)) st p) s"
  unfolding wp_ignore_err
proof (intro allI impI)
  fix r s'
  assume run: "UnFreezeCoins C a amt s = (r, s')" "r \<noteq> Panic"
  have le: "coins_AmountOf C amt d \<le> frozen s a d" for d using enough minvD(3) [OF inv] by simp
  show "minv C tot T (\<lambda>c d. G c d - (if c = a then coins_AmountOf C amt d else 0)) st p s'"
  proof (cases "GetAccountX s a")
    case None
    have "0 \<le> coins_AmountOf C amt d" for d using coins_okD(10) [OF cosmos_okD(5) [OF C] valid] .
    then have zero: "coins_AmountOf C amt d = 0" for d
      using le [of d] None by (simp add: frozen_def order_antisym)
    have "(\<lambda>c d. G c d - (if c = a then coins_AmountOf C amt d else 0)) = G"
      by (simp add: fun_eq_iff zero)
    moreover have "s' = s" using run None by (simp add: UnFreezeCoins_def)
    ultimately show ?thesis using inv by simp
  next
    case (Some x)
    then obtain s1 where s1: "UnFreezeCoins C a amt s = (Ok (), s1)"
        "books C tot (\<lambda>c d. if c = a then - coins_AmountOf C amt d else 0) s s1"
      using UnFreezeCoins_books [OF C minvD(1) [OF inv] valid le] by auto
    have eq: "(\<lambda>c d. G c d + (if c = a then - coins_AmountOf C amt d else 0)) =
        (\<lambda>c d. G c d - (if c = a then coins_AmountOf C amt d else 0))" by (simp add: fun_eq_iff)
    show ?thesis using minv_books [OF inv s1(2)] s1(1) run(1) unfolding eq by simp
  qed
qed

text \<open>The same for an amount of one denomination, as \<open>dex.NewCoins\<close> makes the coins.\<close>

lemma wp_unfreeze_amount:
  assumes C: "cosmos_ok C tot" and inv: "minv C tot T G st p s" and x: "0 \<le> x" "denom_valid C d"
    and enough: "x \<le> G a d" and nonneg: "\<And>d. 0 \<le> G a d"
  shows "wp (and_then (lift (dex_NewCoins C d x)) (\<lambda>cs. ignore_err (UnFreezeCoins C a cs)))
    (\<lambda>_. minv C tot T (\<lambda>c e. G c e - (if c = a \<and> e = d then x else 0)) st p) s"
proof -
  note coins = cosmos_okD(5) [OF C]
  obtain cs where cs: "dex_NewCoins C d x = Ok cs"
    using x coins by (simp add: dex_NewCoins_def coins_okD)
  note facts = dex_NewCoins_Ok [OF coins cs]
  have "wp (ignore_err (UnFreezeCoins C a cs))
      (\<lambda>_. minv C tot T (\<lambda>c d. G c d - (if c = a then coins_AmountOf C cs d else 0)) st p) s"
    by (rule wp_UnFreeze [OF C inv]) (use facts enough nonneg in auto)
  moreover have "(\<lambda>c e. G c e - (if c = a then coins_AmountOf C cs e else 0)) =
      (\<lambda>c e. G c e - (if c = a \<and> e = d then x else 0))"
    using facts by (auto simp: fun_eq_iff)
  ultimately show ?thesis using cs by (simp add: wps)
qed

subsection \<open>Releasing an order\<close>

lemma calc_no_err:
  shows "CalActualOrderCommissionInt64 C x fee \<noteq> Err e" and "CalActualOrderFeatureFeeInt64 C ctx x n \<noteq> Err e"
    and "calRebateAmount s k \<noteq> Err e"
  by (auto simp: CalActualOrderCommissionInt64_def CalActualOrderFeatureFeeInt64_def calRebateAmount_def dec_Quo_ret_def
      dec_QuoInt_ret_def dec_TruncateInt64_def to_Int64_def Let_def)

lemma NewCetCoins_no_err: "coins_ok C \<Longrightarrow> NewCetCoins C n \<noteq> Err e"
  by (auto simp: NewCetCoins_dex dex_NewCoins_def coins_okD split: if_splits)

lemma wp_chargeFee:
  assumes C: "cosmos_ok C tot" and inv: "minv C tot T G st p s"
  shows "wp (chargeFee C fee a) (\<lambda>_. minv C tot T G st p) s"
proof -
  note deduct = wp_keep [OF keep_minv_DeductInt64CetFee [OF C]]
  note send = wp_keep [OF keep_minv_SendCoins [OF C]]
  show ?thesis
  proof (cases "market_GetRefereeAddr s a")
    case None
    show ?thesis
      by (rule wp_same [OF _ deduct [OF inv]]) (simp add: chargeFee_def None)
  next
    case (Some b)
    let ?m = "and_then (lift (calRebateAmount s fee)) (\<lambda>rebateAmount.
          and_then (whenever (rebateAmount > 0)
            (and_then (lift (NewCetCoins C rebateAmount)) (\<lambda>cs. ignore_err (SendCoins C a b cs)))) (\<lambda>_.
          ignore_err (DeductInt64CetFee C a (i64 (fee - rebateAmount)))))"
    have pay: "wp (whenever b' (and_then (lift (NewCetCoins C n)) (\<lambda>cs. ignore_err (SendCoins C a b cs))))
        (\<lambda>_. minv C tot T G st p) s" for n b'
      unfolding wp_whenever wp_then wp_lift
      using inv send [OF inv] NewCetCoins_no_err [OF cosmos_okD(5) [OF C]] by (auto split: ret.split)
    have "wp ?m (\<lambda>_. minv C tot T G st p) s"
      unfolding wp_then [of "lift _"] wp_lift
      using calc_no_err(3) [of s fee]
      by (auto split: ret.split simp: wp_then [of "whenever _ _"] intro: wp_mono [OF pay deduct])
    then show ?thesis
      by (rule wp_same [rotated]) (simp add: chargeFee_def Some)
  qed
qed

text \<open>One fee: its frozen coins are released, and what is due of it is paid.\<close>

lemma wp_release_fee:
  assumes C: "cosmos_ok C tot" and inv: "minv C tot T G st p s" and fee: "0 \<le> fee" "fee \<le> G a CET" "\<And>d. 0 \<le> G a d"
    and cet: "denom_valid C CET" and calc: "\<And>e. calc \<noteq> Err e"
  shows "wp (and_then (lift (NewCetCoins C fee)) (\<lambda>cs. and_then (ignore_err (UnFreezeCoins C a cs)) (\<lambda>_.
      and_then (lift calc) (\<lambda>actualFee. chargeFee C actualFee a))))
    (\<lambda>_. minv C tot T (\<lambda>c e. G c e - (if c = a \<and> e = CET then fee else 0)) st p) s"
proof -
  have "wp (and_then (lift (dex_NewCoins C CET fee)) (\<lambda>cs. ignore_err (UnFreezeCoins C a cs)))
      (\<lambda>_. minv C tot T (\<lambda>c e. G c e - (if c = a \<and> e = CET then fee else 0)) st p) s"
    by (rule wp_unfreeze_amount [OF C inv fee(1) cet fee(2,3)])
  then have "wp (and_then (lift (dex_NewCoins C CET fee)) (\<lambda>cs. ignore_err (UnFreezeCoins C a cs)))
      (\<lambda>_. wp (and_then (lift calc) (\<lambda>actualFee. chargeFee C actualFee a))
        (\<lambda>_. minv C tot T (\<lambda>c e. G c e - (if c = a \<and> e = CET then fee else 0)) st p)) s"
  proof (rule wp_mono)
    fix u s'
    assume s': "minv C tot T (\<lambda>c e. G c e - (if c = a \<and> e = CET then fee else 0)) st p s'"
    show "wp (and_then (lift calc) (\<lambda>actualFee. chargeFee C actualFee a))
        (\<lambda>_. minv C tot T (\<lambda>c e. G c e - (if c = a \<and> e = CET then fee else 0)) st p) s'"
      using wp_chargeFee [OF C s'] calc by (simp add: wps split: ret.split)
  qed
  then show ?thesis unfolding NewCetCoins_dex wp_then .
qed

lemma minus_nothing: "(x :: int) = 0 \<Longrightarrow> (\<lambda>a d. G a d - (if P a d then x else 0)) = G"
  by (simp add: fun_eq_iff)

lemma wp_unfreezeCoinsForOrder:
  assumes C: "cosmos_ok C tot" and cet: "denom_valid C CET" and wf: "order_wf C x"
    and inv: "minv C tot T G st p s" and enough: "\<And>d. owes x d \<le> G (Sender x) d"
  shows "wp (unfreezeCoinsForOrder C ctx x q) (\<lambda>_. minv C tot T (\<lambda>a d. G a d - held x a d) st p) s"
proof -
  let ?a = "Sender x"
  note w = order_wfD [OF wf] and coins = cosmos_okD(5) [OF C]
  have pos: "0 \<le> G ?a d" for d using enough [of d] owes_nonneg [OF wf, of d] by linarith
  define G1 where "G1 = (\<lambda>a d. G a d - (if a = ?a \<and> d = used_denom x then Freeze x else 0))"
  define G2 where "G2 = (\<lambda>a d. G1 a d - (if a = ?a \<and> d = CET then FrozenCommission x else 0))"
  define G3 where "G3 = (\<lambda>a d. G2 a d - (if a = ?a \<and> d = CET then FrozenFeatureFee x else 0))"
  have G1: "0 \<le> G1 ?a d" "FrozenCommission x \<le> G1 ?a CET" for d
    using enough [of d] enough [of CET] pos [of d] w by (auto simp: G1_def owes_def split: if_splits)
  have G2: "0 \<le> G2 ?a d" "FrozenFeatureFee x \<le> G2 ?a CET" for d
    using enough [of d] enough [of CET] pos [of d] w by (auto simp: G2_def G1_def owes_def split: if_splits)
  have G3: "G3 = (\<lambda>a d. G a d - held x a d)"
    by (auto simp: fun_eq_iff G3_def G2_def G1_def held_def owes_def)
  have amount: "Freeze x \<le> G ?a (used_denom x)"
    using enough [of "used_denom x"] w by (auto simp: owes_def split: if_splits)
  have s1: "wp (unfreezeCoinsInOrder C x) (\<lambda>_. minv C tot T G1 st p) s"
    using wp_unfreeze_amount [OF C inv w(5) used_denom_ok(2) [OF w(2)] amount pos] used_denom_ok(1) [OF w(2)]
    by (simp add: unfreezeCoinsInOrder_def wp_then wp_lift G1_def)
  have s2: "wp (chargeOrderCommission C x n) (\<lambda>_. minv C tot T G2 st p) s'" if "minv C tot T G1 st p s'" for n s'
    using wp_release_fee [OF C that w(7) G1(2) G1(1) cet calc_no_err(1) [of C x n]] that
    by (simp add: chargeOrderCommission_def wp_whenever G2_def minus_nothing)
  have s3: "wp (chargeOrderFeatureFee C ctx x n) (\<lambda>_. minv C tot T G3 st p) s'" if "minv C tot T G2 st p s'" for n s'
    using wp_release_fee [OF C that w(8) G2(2) G2(1) cet calc_no_err(2) [of C ctx x n]] that w(9)
    by (auto simp: chargeOrderFeatureFee_def wp_whenever G3_def minus_nothing)
  show ?thesis
    unfolding unfreezeCoinsForOrder_def wp_then G3 [symmetric]
    by (rule wp_mono [OF s1], rule wp_mono [OF s2], assumption, rule s3)
qed

subsection \<open>What all orders of a book keep frozen\<close>

definition held_total :: "(string \<Rightarrow> order option) \<Rightarrow> addr \<Rightarrow> string \<Rightarrow> int" where
  "held_total m a d = (\<Sum>oid \<in> dom m. held (the (m oid)) a d)"

definition orders_ok :: "'y sdk_scheme \<Rightarrow> (string \<Rightarrow> order option) \<Rightarrow> bool" where
  "orders_ok S m \<longleftrightarrow> finite (dom m) \<and> (\<forall>oid x. m oid = Some x \<longrightarrow> OrderID S x = oid \<and> order_wf S x)"

lemma orders_okD: "orders_ok S m \<Longrightarrow> m oid = Some x \<Longrightarrow> OrderID S x = oid \<and> order_wf S x"
  by (simp add: orders_ok_def)

lemma orders_ok_upd: "orders_ok S m \<Longrightarrow> order_wf S x \<Longrightarrow> orders_ok S (m(OrderID S x \<mapsto> x))"
  by (auto simp: orders_ok_def)

lemma orders_ok_del: "orders_ok S m \<Longrightarrow> orders_ok S (m(oid := None))"
  by (auto simp: orders_ok_def)

lemma finite_book: "finite (dom (book st))"
proof -
  have "orderBookKey oid \<in> set (map fst st)" if "book st oid \<noteq> None" for oid
  proof (rule ccontr)
    assume "orderBookKey oid \<notin> set (map fst st)"
    then have "kv_get st (orderBookKey oid) = None" by (rule kv_get_not_in)
    with that show False by (simp add: book_def)
  qed
  then have "orderBookKey ` dom (book st) \<subseteq> set (map fst st)" by blast
  then have "finite (orderBookKey ` dom (book st))" by (rule finite_subset) simp
  then show ?thesis by (rule finite_imageD) (simp add: inj_on_def orderBookKey_inj)
qed

lemma reserved_del:
  assumes "finite (dom m)" and "m oid = Some x"
  shows "held_total m a d = held_total (m(oid := None)) a d + held x a d"
proof -
  have "oid \<in> dom m" using assms(2) by blast
  then have "held_total m a d = held (the (m oid)) a d + (\<Sum>i \<in> dom m - {oid}. held (the (m i)) a d)"
    unfolding held_total_def by (rule sum.remove [OF assms(1)])
  moreover have "(\<Sum>i \<in> dom m - {oid}. held (the (m i)) a d) = held_total (m(oid := None)) a d"
    unfolding held_total_def by (rule sum.cong) auto
  ultimately show ?thesis using assms(2) by simp
qed

lemma reserved_new:
  assumes "finite (dom m)" and "m oid = None"
  shows "held_total (m(oid \<mapsto> x)) a d = held_total m a d + held x a d"
proof -
  have "m(oid := None) = m" using assms(2) by auto
  then show ?thesis using reserved_del [of "m(oid \<mapsto> x)" oid x a d] assms(1) by simp
qed

lemma reserved_upd:
  assumes "finite (dom m)" and "m oid = Some y"
  shows "held_total (m(oid \<mapsto> x)) a d = held_total m a d - held y a d + held x a d"
  using reserved_del [OF assms, of a d] reserved_del [of "m(oid \<mapsto> x)" oid x a d] assms(1) by simp

lemma held_total_nonneg: "orders_ok S m \<Longrightarrow> 0 \<le> held_total m a d"
  unfolding held_total_def by (intro sum_nonneg) (auto simp: orders_ok_def intro: held_nonneg [of S])

lemma held_le_reserved:
  assumes "orders_ok S m" and "m oid = Some x"
  shows "held x a d \<le> held_total m a d"
proof -
  have "0 \<le> held_total (m(oid := None)) a d" by (rule held_total_nonneg [OF orders_ok_del [OF assms(1)]])
  then show ?thesis using reserved_del [of m oid x a d] assms by (simp add: orders_ok_def)
qed

definition backing :: "(addr \<Rightarrow> string \<Rightarrow> int) \<Rightarrow> (string \<Rightarrow> order option) \<Rightarrow> addr \<Rightarrow> string \<Rightarrow> int" where
  "backing F m a d = held_total m a d + F a d"

lemma backing_del:
  assumes "finite (dom m)" and "m oid = Some x"
  shows "(\<lambda>a d. backing F m a d - held x a d) = backing F (m(oid := None))"
  using reserved_del [OF assms] by (simp add: fun_eq_iff backing_def)

subsection \<open>Removing an order\<close>

lemma book_inv_market [simp]:
  "book_inv C tot T F (s\<lparr>market_store := st\<rparr>) = book_inv C tot T F s"
  by (simp add: book_inv_def authx_inv_def accx_store_ok_def asset_inv_def lock_inv_def send_lock_def GetToken_def
      locked_total_def accounts_exist_def ledger_of_def fun_eq_iff token_body_def total_coins_def frozen_total_def frozen_def
      GetAccountX_def)

lemma minv_store: "minv C tot T G st p s \<Longrightarrow> minv C tot T G st' p (s\<lparr>market_store := st'\<rparr>)"
  by (simp add: minv_def)

text \<open>
  \<open>V\<close> is the book as it is once all changed orders are written back; \<open>x\<close> is one of its orders,
  and the store still holds some version of it.
\<close>

lemma wp_removeOrder:
  assumes C: "cosmos_ok C tot" and cet: "denom_valid C CET" and F: "\<And>a d. 0 \<le> F a d"
    and inv: "minv C tot T (backing F V) st p s" and V: "orders_ok C V" "V (OrderID C x) = Some x"
    and y: "book st (OrderID C x) = Some y" and symbol: "TradingPair x = symbol"
  shows "wp (removeOrder C ctx symbol x q)
    (\<lambda>_. minv C tot T (backing F (V(OrderID C x := None))) (drop_order C x st) p) s"
proof -
  have wf: "order_wf C x" using orders_okD [OF V] by simp
  have fin: "finite (dom V)" using V(1) by (simp add: orders_ok_def)
  have enough: "owes x d \<le> backing F V (Sender x) d" for d
    using held_le_reserved [OF V, of "Sender x" d] F [of "Sender x" d] by (simp add: backing_def held_def)
  have "wp (whenever (Freeze x \<noteq> 0 \<or> FrozenFeatureFee x \<noteq> 0 \<or> FrozenCommission x \<noteq> 0) (unfreezeCoinsForOrder C ctx x q))
      (\<lambda>_. minv C tot T (backing F (V(OrderID C x := None))) st p) s"
  proof (cases "Freeze x \<noteq> 0 \<or> FrozenFeatureFee x \<noteq> 0 \<or> FrozenCommission x \<noteq> 0")
    case True
    then show ?thesis
      using wp_unfreezeCoinsForOrder [OF C cet wf inv enough, of ctx q] backing_del [OF fin V(2), of F]
      by (simp add: wp_whenever)
  next
    case False
    then have "held x a d = 0" for a d by (simp add: held_def owes_def)
    then have "backing F (V(OrderID C x := None)) = backing F V"
      using backing_del [OF fin V(2), of F] by simp
    with False inv show ?thesis by (simp add: wp_whenever)
  qed
  moreover have "wp (ignore_err (Remove C symbol x))
      (\<lambda>_. minv C tot T (backing F (V(OrderID C x := None))) (drop_order C x st) p) s'"
    if "minv C tot T (backing F (V(OrderID C x := None))) st p s'" for s'
  proof -
    have "market_store s' = st" by (rule minvD(4) [OF that])
    then have "Remove C symbol x s' = (Ok (), s'\<lparr>market_store := drop_order C x st\<rparr>)"
      using Remove_run [OF order_wfD(1) [OF wf], of s' C] y symbol by simp
    then show ?thesis using minv_store [OF that] by (simp add: wp_ignore_err)
  qed
  ultimately show ?thesis
    unfolding removeOrder_def wp_then by (rule wp_mono)
qed

end
