(* ===== verification/MarketDeal.thy ===== *)
theory MarketDeal
  imports MarketEscrow MatchExec
begin

section \<open>Executing a deal on the chain\<close>

text \<open>
  \<open>WrappedOrder\<close> of \<open>endblocker.go\<close> meets the engine's interface: \<open>Deal\<close> takes the amount off both
  orders, and moves out of the frozen coins of the two traders exactly what the orders then keep less.
  The invariant speaks of the book as it will be once the wrapped orders are written back.
\<close>

subsection \<open>The book with the wrapped orders in it\<close>

definition overlay :: "'y sdk_scheme \<Rightarrow> (string \<Rightarrow> order option) \<Rightarrow> order list \<Rightarrow> string \<Rightarrow> order option" where
  "overlay S V xs = V ++ map_of (map (\<lambda>x. (OrderID S x, x)) xs)"

lemma overlay_nth:
  assumes "distinct (map (OrderID S) xs)" and "i < length xs"
  shows "overlay S V xs (OrderID S (xs ! i)) = Some (xs ! i)"
proof -
  have "map_of (map (\<lambda>x. (OrderID S x, x)) xs) (OrderID S (xs ! i)) = Some (xs ! i)"
    using assms by (intro map_of_is_SomeI) (auto simp: o_def)
  then show ?thesis by (simp add: overlay_def map_add_def)
qed

lemma overlay_other: "oid \<notin> OrderID S ` set xs \<Longrightarrow> overlay S V xs oid = V oid"
  by (simp add: overlay_def map_add_def map_of_eq_None_iff [THEN iffD2] image_image)

lemma overlay_update:
  assumes dist: "distinct (map (OrderID S) xs)" and i: "i < length xs" and oid: "OrderID S x = OrderID S (xs ! i)"
  shows "overlay S V (xs[i := x]) = (overlay S V xs)(OrderID S x \<mapsto> x)"
proof
  fix k
  have ids: "map (OrderID S) (xs[i := x]) = map (OrderID S) xs"
    using i oid by (simp add: map_update list_update_same_conv)
  then have dist': "distinct (map (OrderID S) (xs[i := x]))" using dist by simp
  have set_ids: "OrderID S ` set (xs[i := x]) = OrderID S ` set xs"
    using arg_cong [OF ids, of set] by simp
  show "overlay S V (xs[i := x]) k = ((overlay S V xs)(OrderID S x \<mapsto> x)) k"
  proof (cases "k \<in> OrderID S ` set xs")
    case False
    then have "k \<noteq> OrderID S x" using oid i by auto
    then show ?thesis using False set_ids by (simp add: overlay_other)
  next
    case True
    then obtain j where j: "j < length xs" "k = OrderID S (xs ! j)" by (metis imageE in_set_conv_nth)
    have k: "k = OrderID S (xs[i := x] ! j)" using j oid by (cases "i = j") auto
    show ?thesis
    proof (cases "j = i")
      case True
      then show ?thesis using overlay_nth [OF dist', of i] i oid j by simp
    next
      case False
      then have "k \<noteq> OrderID S x" using dist i j oid by (auto simp: distinct_conv_nth)
      then show ?thesis
        using overlay_nth [OF dist', of j V] overlay_nth [OF dist j(1), of V] False j k by simp
    qed
  qed
qed

subsection \<open>The coins of a deal\<close>

definition same_fixed :: "order \<Rightarrow> order \<Rightarrow> bool" where
  "same_fixed x y \<longleftrightarrow> same_place x y \<and> TimeInForce x = TimeInForce y"

lemma same_fixed_refl: "same_fixed x x"
  by (simp add: same_fixed_def same_place_def)

lemma same_fixedD:
  assumes "same_fixed x y"
  shows "Sender x = Sender y" and "Side x = Side y" and "Price x = Price y" and "Height x = Height y"
    and "TradingPair x = TradingPair y" and "OrderID S x = OrderID S y"
  using assms same_place_keys [of x y S] by (auto simp: same_fixed_def same_place_def)

lemma keep_minv_on_chain_fill: "keep (minv C tot T G st p) (SendFillMsg S x b n m pr h)"
  unfolding SendFillMsg_def by (intro minv_keeps)

lemma wp_exchange_coins:
  assumes C: "cosmos_ok C tot" and F: "\<And>a d. 0 \<le> F a d"
    and inv: "minv C tot T (backing F V) st p s" and V: "orders_ok C V"
    and x: "V (OrderID C x) = Some x" and b: "V (OrderID C b) = Some b" and ids: "OrderID C x \<noteq> OrderID C b"
    and x': "OrderID C x' = OrderID C x" "held x' = (\<lambda>a d. held x a d - (if a = Sender x \<and> d = stock then amount else 0))"
    and b': "OrderID C b' = OrderID C b" "held b' = (\<lambda>a d. held b a d - (if a = Sender b \<and> d = money then m else 0))"
    and wf': "order_wf C x'" "order_wf C b'"
    and denoms: "denom_valid C stock" "denom_valid C money" and amounts: "0 < amount" "0 \<le> m"
    and enough: "amount \<le> owes x stock" "m \<le> owes b money"
  shows "wp (exchange_coins C (Sender b) (Sender x) [\<lparr>Denom = stock, Amount = amount\<rparr>] [\<lparr>Denom = money, Amount = m\<rparr>])
    (\<lambda>_. minv C tot T (backing F (V(OrderID C x \<mapsto> x', OrderID C b \<mapsto> b'))) st p) s"
proof -
  note coins = cosmos_okD(5) [OF C]
  have fin: "finite (dom V)" using V by (simp add: orders_ok_def)
  define V1 where "V1 = V(OrderID C x \<mapsto> x')"
  have V1: "orders_ok C V1" unfolding V1_def x'(1) [symmetric] by (rule orders_ok_upd [OF V wf'(1)])
  have b1: "V1 (OrderID C b) = Some b" using b ids by (auto simp: V1_def)
  have G1: "backing F V1 = (\<lambda>a d. backing F V a d - (if a = Sender x then coins_AmountOf C [\<lparr>Denom = stock, Amount = amount\<rparr>] d else 0))"
    using reserved_upd [OF fin x, of x'] x'(2)
    by (auto simp: fun_eq_iff backing_def V1_def coins_AmountOf_simps [OF coins])
  have le: "held y a d \<le> backing F W a d" if "orders_ok C W" "W oid = Some y" for W oid y a d
    using held_le_reserved [OF that, of a d] F [of a d] by (simp add: backing_def)
  have pos: "0 \<le> backing F W a d" if "orders_ok C W" "W oid = Some y" for W oid y a d
    using le [OF that, of a d] held_nonneg [of C y a d] orders_okD [OF that] by simp
  have step1: "wp (ignore_err (UnFreezeCoins C (Sender x) [\<lparr>Denom = stock, Amount = amount\<rparr>]))
      (\<lambda>_. minv C tot T (backing F V1) st p) s"
    unfolding G1
  proof (rule wp_UnFreeze [OF C inv])
    show "coins_IsValid C [\<lparr>Denom = stock, Amount = amount\<rparr>]"
      using denoms amounts by (simp add: coins_okD(11) [OF coins])
    show "coins_AmountOf C [\<lparr>Denom = stock, Amount = amount\<rparr>] d \<le> backing F V (Sender x) d" for d
      using le [OF V x, of "Sender x" d] pos [OF V x, of "Sender x" d] enough(1)
      by (auto simp: coins_AmountOf_simps [OF coins] held_def)
  qed
  have send: "wp (ignore_err (SendCoins C a c cs)) (\<lambda>_. minv C tot T G st p) s'" if "minv C tot T G st p s'" for a c cs G s'
    by (rule wp_keep [OF keep_minv_SendCoins [OF C] that])
  have step3: "wp (ignore_err (UnFreezeCoins C (Sender b) [\<lparr>Denom = money, Amount = m\<rparr>]))
      (\<lambda>_. minv C tot T (backing F (V1(OrderID C b \<mapsto> b'))) st p) s'" if s': "minv C tot T (backing F V1) st p s'" for s'
  proof (cases "m = 0")
    case True
    have fin1: "finite (dom V1)" using V1 by (simp add: orders_ok_def)
    have "backing F (V1(OrderID C b \<mapsto> b')) = backing F V1"
      using reserved_upd [OF fin1 b1, of b'] b'(2) True by (simp add: fun_eq_iff backing_def)
    moreover have "minv C tot T (backing F V1) st p t"
      if "UnFreezeCoins C (Sender b) [\<lparr>Denom = money, Amount = m\<rparr>] s' = (r, t)" "r \<noteq> Panic" for r t
      using minv_books [OF s' UnFreezeCoins_zero [OF C minvD(1) [OF s'] _ _ that]] True
      by (simp add: coins_AmountOf_simps [OF coins])
    ultimately show ?thesis by (simp add: wp_ignore_err)
  next
    case False
    have fin1: "finite (dom V1)" using V1 by (simp add: orders_ok_def)
    have G2: "backing F (V1(OrderID C b \<mapsto> b')) =
        (\<lambda>a d. backing F V1 a d - (if a = Sender b then coins_AmountOf C [\<lparr>Denom = money, Amount = m\<rparr>] d else 0))"
      using reserved_upd [OF fin1 b1, of b'] b'(2)
      by (auto simp: fun_eq_iff backing_def coins_AmountOf_simps [OF coins])
    show ?thesis unfolding G2
    proof (rule wp_UnFreeze [OF C s'])
      show "coins_IsValid C [\<lparr>Denom = money, Amount = m\<rparr>]"
        using denoms amounts False by (simp add: coins_okD(11) [OF coins])
      show "coins_AmountOf C [\<lparr>Denom = money, Amount = m\<rparr>] d \<le> backing F V1 (Sender b) d" for d
        using le [OF V1 b1, of "Sender b" d] pos [OF V1 b1, of "Sender b" d] enough(2)
        by (auto simp: coins_AmountOf_simps [OF coins] held_def)
    qed
  qed
  show ?thesis
    unfolding exchange_coins_def wp_then V1_def [symmetric]
    by (rule wp_mono [OF step1], rule wp_mono [OF send], assumption, rule wp_mono [OF step3], assumption, rule send)
qed

subsection \<open>The engine's invariant\<close>

text \<open>
  \<open>V0\<close> is the book before the market is matched and \<open>xs0\<close> the wrapped orders as they were then.
\<close>

definition deal_inv ::
    "('b, 'y) cosmos_scheme \<Rightarrow> ('b \<Rightarrow> string \<Rightarrow> int) \<Rightarrow> ledger \<times> 'z \<Rightarrow> (addr \<Rightarrow> string \<Rightarrow> int) \<Rightarrow>
      (string \<Rightarrow> order option) \<Rightarrow> order list \<Rightarrow> market_val kv \<Rightarrow> market_params \<Rightarrow> nat set \<Rightarrow>
      ('b, 'z) market_state_scheme \<times> deal_info \<Rightarrow> bool" where
  "deal_inv C tot T F V0 xs0 st p Os = (\<lambda>(s, d).
     Os = {..<length xs0} \<and> length (wrapped d) = length xs0 \<and>
     minv C tot T (backing F (overlay C V0 (wrapped d))) st p s \<and>
     orders_ok C (overlay C V0 (wrapped d)) \<and>
     (\<forall>i < length xs0. same_fixed (wrapped d ! i) (xs0 ! i) \<and> order_wf C (wrapped d ! i)) \<and>
     distinct (map fst (changedOrders d)) \<and>
     (\<forall>e \<in> set (changedOrders d). snd e < length xs0 \<and> fst e = OrderID C (xs0 ! snd e)) \<and>
     (\<forall>i < length xs0. i \<notin> snd ` set (changedOrders d) \<longrightarrow> wrapped d ! i = xs0 ! i) \<and>
     distinct (map (OrderID C) xs0) \<and> (\<exists>symbol. \<forall>x \<in> set xs0. TradingPair x = symbol))"

lemma set_put_changed:
  "distinct (map fst m) \<Longrightarrow> set (put_changed k i m) = insert (k, i) {e \<in> set m. fst e \<noteq> k}"
  by (auto simp: put_changed_def)

lemma distinct_put_changed: "distinct (map fst m) \<Longrightarrow> distinct (map fst (put_changed k i m))"
proof (cases "k \<in> fst ` set m")
  case True
  have "map fst (map (\<lambda>e. if fst e = k then (k, i) else e) m) = map fst m"
    by (induction m) auto
  moreover assume "distinct (map fst m)"
  ultimately show ?thesis using True by (simp add: put_changed_def del: map_map)
next
  case False
  assume "distinct (map fst m)"
  with False show ?thesis by (simp add: put_changed_def)
qed

lemma rounds_down:
  assumes "dec_ok C" and "a \<le> f * dec_one"
  shows "dec_RoundInt C a \<le> f"
proof (rule ccontr)
  assume "\<not> dec_RoundInt C a \<le> f"
  then have "(f + 1) * dec_one \<le> dec_RoundInt C a * dec_one" by (intro mult_right_mono) auto
  moreover have "2 * \<bar>dec_RoundInt C a * dec_one - a\<bar> \<le> dec_one" by (rule dec_okD(12) [OF assms(1)])
  ultimately show False using assms(2) by (simp add: algebra_simps)
qed

lemma enough_money:
  assumes "dec_ok C" and "order_wf C x"
  shows "notEnoughMoney C x \<noteq> Ok True"
proof (cases "Side x = BUY")
  case True
  have "dec_Mul C (Price x) (NewDec C (LeftStock x)) = Price x * LeftStock x"
    by (simp only: dec_okD(1,2) [OF assms(1)])
  then have "dec_RoundInt C (dec_Mul C (Price x) (NewDec C (LeftStock x))) \<le> Freeze x"
    using rounds_down [OF assms(1)] order_wfD(10) [OF assms(2) True] by simp
  then show ?thesis by (auto simp: notEnoughMoney_def dec_RoundInt64_def to_Int64_def True)
qed (simp add: notEnoughMoney_def)

lemma GetAmount_wf:
  "dec_ok C \<Longrightarrow> order_wf C (wrapped d ! i) \<Longrightarrow> GetAmount (wrapped_order C sha sub ctx) (s, d) i = LeftStock (wrapped d ! i)"
  by (simp add: wrapped_order_def enough_money)

text \<open>The two orders after a deal are in good form again and hold less by what was exchanged.\<close>

lemma MaxOrderAmount_i64: "0 \<le> x \<Longrightarrow> x \<le> MaxOrderAmount \<Longrightarrow> i64 x = x"
  by (rule i64_id) (simp_all add: MaxOrderAmount_def)

lemma deal_seller_facts:
  assumes wf: "order_wf C x" and "Side x = SELL" and "0 < n" and "n \<le> LeftStock x"
  shows "order_wf C (deal_seller n m x)" and "same_fixed (deal_seller n m x) x"
    and "LeftStock (deal_seller n m x) = LeftStock x - n"
    and "held (deal_seller n m x) = (\<lambda>a d. held x a d - (if a = Sender x \<and> d = used_denom x then n else 0))"
    and "n \<le> owes x (used_denom x)"
proof -
  note w = order_wfD [OF wf]
  have eqs: "i64 (LeftStock x - n) = LeftStock x - n" "i64 (Freeze x - n) = Freeze x - n"
    using w(4,6,11) assms(2-4) by (auto intro!: i64_id)
  show "order_wf C (deal_seller n m x)"
    using wf assms by (simp add: order_wf_def deal_seller_def eqs order_ok_def)
  show "same_fixed (deal_seller n m x) x" by (simp add: same_fixed_def same_place_def deal_seller_def)
  show "LeftStock (deal_seller n m x) = LeftStock x - n" by (simp add: deal_seller_def eqs)
  have "used_denom (deal_seller n m x) = used_denom x" by (simp add: used_denom_def GetOrderUsedDenom_def deal_seller_def)
  then show "held (deal_seller n m x) = (\<lambda>a d. held x a d - (if a = Sender x \<and> d = used_denom x then n else 0))"
    by (auto simp: fun_eq_iff held_def owes_def deal_seller_def eqs)
  show "n \<le> owes x (used_denom x)" using w(7,8,11) assms by (simp add: owes_def)
qed

lemma deal_buyer_facts:
  assumes wf: "order_wf C b" and "Side b = BUY" and "0 < n" and "n \<le> LeftStock b"
    and p: "0 \<le> p" "p \<le> Price b" and m: "m = p * n div dec_one"
  shows "0 \<le> m" and "m \<le> Freeze b" and "order_wf C (deal_buyer n m b)" and "same_fixed (deal_buyer n m b) b"
    and "LeftStock (deal_buyer n m b) = LeftStock b - n"
    and "held (deal_buyer n m b) = (\<lambda>a d. held b a d - (if a = Sender b \<and> d = used_denom b then m else 0))"
    and "m \<le> owes b (used_denom b)"
proof -
  note w = order_wfD [OF wf]
  show m0: "0 \<le> m" unfolding m using p assms(3) by (simp add: pos_imp_zdiv_nonneg_iff)
  have down: "m * dec_one \<le> p * n" unfolding m by (simp add: minus_mod_eq_div_mult [symmetric])
  have "p * n \<le> Price b * n" using p assms(3) by (intro mult_right_mono) auto
  moreover have "Price b * n \<le> Price b * LeftStock b" using p assms(4) by (intro mult_left_mono) auto
  ultimately have "m * dec_one \<le> Freeze b * dec_one" using down w(10) [OF assms(2)] by linarith
  then show mf: "m \<le> Freeze b" by simp
  have eqs: "i64 (LeftStock b - n) = LeftStock b - n" "i64 (Freeze b - m) = Freeze b - m"
    using w(4,6) assms(3,4) m0 mf by (auto intro!: i64_id simp: MaxOrderAmount_def)
  have "Price b * (LeftStock b - n) \<le> (Freeze b - m) * dec_one"
    using w(10) [OF assms(2)] down \<open>p * n \<le> Price b * n\<close> by (simp add: algebra_simps)
  then show "order_wf C (deal_buyer n m b)"
    using wf assms(2-4) m0 mf by (simp add: order_wf_def deal_buyer_def eqs order_ok_def)
  show "same_fixed (deal_buyer n m b) b" by (simp add: same_fixed_def same_place_def deal_buyer_def)
  show "LeftStock (deal_buyer n m b) = LeftStock b - n" by (simp add: deal_buyer_def eqs)
  have "used_denom (deal_buyer n m b) = used_denom b" by (simp add: used_denom_def GetOrderUsedDenom_def deal_buyer_def)
  then show "held (deal_buyer n m b) = (\<lambda>a d. held b a d - (if a = Sender b \<and> d = used_denom b then m else 0))"
    by (auto simp: fun_eq_iff held_def owes_def deal_buyer_def eqs)
  show "m \<le> owes b (used_denom b)" using w(7,8) mf by (simp add: owes_def)
qed

lemma deal_invD:
  assumes "deal_inv C tot T F V0 xs0 st p Os (s, d)"
  shows "Os = {..<length xs0}" and "length (wrapped d) = length xs0"
    and "minv C tot T (backing F (overlay C V0 (wrapped d))) st p s"
    and "orders_ok C (overlay C V0 (wrapped d))"
    and "i < length xs0 \<Longrightarrow> same_fixed (wrapped d ! i) (xs0 ! i)" and "i < length xs0 \<Longrightarrow> order_wf C (wrapped d ! i)"
    and "distinct (map fst (changedOrders d))"
    and "(k, i) \<in> set (changedOrders d) \<Longrightarrow> i < length xs0 \<and> k = OrderID C (xs0 ! i)"
    and "i < length xs0 \<Longrightarrow> i \<notin> snd ` set (changedOrders d) \<Longrightarrow> wrapped d ! i = xs0 ! i"
    and "distinct (map (OrderID C) xs0)" and "map (OrderID C) (wrapped d) = map (OrderID C) xs0"
    and "i < length xs0 \<Longrightarrow> j < length xs0 \<Longrightarrow> TradingPair (wrapped d ! i) = TradingPair (wrapped d ! j)"
proof -
  note inv = assms [unfolded deal_inv_def prod.case]
  show len: "length (wrapped d) = length xs0" and sf: "i < length xs0 \<Longrightarrow> same_fixed (wrapped d ! i) (xs0 ! i)" for i
    using inv by blast+
  show "map (OrderID C) (wrapped d) = map (OrderID C) xs0"
    by (rule nth_equalityI) (auto simp: len same_fixedD(6) [OF sf])
  show "i < length xs0 \<Longrightarrow> j < length xs0 \<Longrightarrow> TradingPair (wrapped d ! i) = TradingPair (wrapped d ! j)"
    using inv same_fixedD(5) [OF sf] by (metis nth_mem)
qed (use assms in \<open>auto simp: deal_inv_def\<close>)

lemma wp_on_chain: "wp (on_chain m) Q (s, d) = wp m (\<lambda>a s'. Q a (s', d)) s"
  by (simp add: wp_def on_chain_def split: prod.split ret.split)

lemma sides_denoms:
  assumes "pair_ok C (TradingPair b)" and "TradingPair x = TradingPair b" and "Side b = BUY" and "Side x = SELL"
  shows "SplitSymbol (TradingPair b) = Ok (used_denom x, used_denom b)"
    and "denom_valid C (used_denom x)" and "denom_valid C (used_denom b)"
  using assms by (auto simp: pair_ok_def used_denom_def GetOrderUsedDenom_def)

definition deal_body ::
    "('b, 'y) cosmos_scheme \<Rightarrow> (string \<Rightarrow> bool) \<Rightarrow> ctx \<Rightarrow> nat \<Rightarrow> order \<Rightarrow> nat \<Rightarrow> order \<Rightarrow> int \<Rightarrow> int \<Rightarrow> dec \<Rightarrow>
      (('b, 'z) market_state_scheme \<times> deal_info, unit) op" where
  "deal_body C sub ctx ib b' ix x' amount m price =
     and_then (set_order ib b') (\<lambda>_. and_then (set_order ix x') (\<lambda>_.
     and_then (on_chain (exchange_coins C (Sender b') (Sender x')
         [\<lparr>Denom = used_denom x', Amount = amount\<rparr>] [\<lparr>Denom = used_denom b', Amount = m\<rparr>])) (\<lambda>_.
     and_then (modify (\<lambda>(s, d). (s, d\<lparr>changedOrders :=
         put_changed (OrderID C x') ix (put_changed (OrderID C b') ib (changedOrders d)), lastPrice := price\<rparr>))) (\<lambda>_.
     whenever (sub ModuleName_market) (on_chain (SendFillMsg C x' b' amount m price (BlockHeight ctx)))))))"

lemma wp_deal_body:
  assumes C: "cosmos_ok C tot" and F: "\<And>a d. 0 \<le> F a d"
    and inv: "deal_inv C tot T F V0 xs0 st p Os (s, d)"
    and i: "ib < length xs0" "ix < length xs0" "ib \<noteq> ix"
    and sides: "Side (wrapped d ! ib) = BUY" "Side (wrapped d ! ix) = SELL"
    and amt: "0 < n" "n \<le> LeftStock (wrapped d ! ib)" "n \<le> LeftStock (wrapped d ! ix)"
    and price: "0 \<le> pr" "pr \<le> Price (wrapped d ! ib)" and m: "m = pr * n div dec_one"
  shows "wp (deal_body C sub ctx ib (deal_buyer n m (wrapped d ! ib)) ix (deal_seller n m (wrapped d ! ix)) n m pr)
    (\<lambda>_ (s', d'). wrapped d' = (wrapped d)[ib := deal_buyer n m (wrapped d ! ib), ix := deal_seller n m (wrapped d ! ix)] \<and>
      deal_inv C tot T F V0 xs0 st p Os (s', d')) (s, d)"
proof -
  note D = deal_invD [OF inv]
  define b where "b = wrapped d ! ib"
  define x where "x = wrapped d ! ix"
  define b' where "b' = deal_buyer n m b"
  define x' where "x' = deal_seller n m x"
  define V where "V = overlay C V0 (wrapped d)"
  have len: "ib < length (wrapped d)" "ix < length (wrapped d)" using i D(2) by simp_all
  have wf: "order_wf C b" "order_wf C x" using D(6) i by (simp_all add: b_def x_def)
  have fb: "0 \<le> m" "m \<le> Freeze b" "order_wf C b'" "same_fixed b' b"
      "held b' = (\<lambda>a d. held b a d - (if a = Sender b \<and> d = used_denom b then m else 0))" "m \<le> owes b (used_denom b)"
    using deal_buyer_facts [OF wf(1) _ amt(1) _ price(1) _ m] sides(1) amt(2) price(2) unfolding b'_def b_def by auto
  have fx: "order_wf C x'" "same_fixed x' x"
      "held x' = (\<lambda>a d. held x a d - (if a = Sender x \<and> d = used_denom x then n else 0))" "n \<le> owes x (used_denom x)"
    using deal_seller_facts [OF wf(2) _ amt(1)] sides(2) amt(3) unfolding x'_def x_def by auto
  have dist: "distinct (map (OrderID C) (wrapped d))" using D(10,11) by simp
  have pair: "pair_ok C (TradingPair b)" "TradingPair x = TradingPair b"
    by (rule order_wfD(2) [OF wf(1)], unfold b_def x_def, rule D(12) [OF i(2,1)])
  have "Side b = BUY" "Side x = SELL" using sides by (simp_all add: b_def x_def)
  note denoms = sides_denoms [OF pair this]
  have ids: "OrderID C x \<noteq> OrderID C b"
    using dist len i by (auto simp: distinct_conv_nth b_def x_def)
  have ids': "OrderID C x' = OrderID C x" "OrderID C b' = OrderID C b" "Sender x' = Sender x" "Sender b' = Sender b"
    using fb(4) fx(2) by (simp_all add: same_fixedD)
  have ud: "used_denom x' = used_denom x" "used_denom b' = used_denom b"
    by (simp_all add: used_denom_def GetOrderUsedDenom_def x'_def b'_def deal_seller_def deal_buyer_def)
  have Vx: "V (OrderID C x) = Some x" "V (OrderID C b) = Some b"
    using overlay_nth [OF dist] len by (simp_all add: V_def x_def b_def)
  define ws where "ws = (wrapped d)[ib := b', ix := x']"
  have V': "overlay C V0 ws = V(OrderID C b \<mapsto> b', OrderID C x \<mapsto> x')"
  proof -
    have l: "map (OrderID C) ((wrapped d)[ib := b']) = map (OrderID C) (wrapped d)"
      using len ids' by (simp add: map_update list_update_same_conv b_def)
    have "overlay C V0 ((wrapped d)[ib := b']) = V(OrderID C b \<mapsto> b')"
      using overlay_update [OF dist len(1), of b' V0] ids' by (simp add: V_def b_def)
    moreover have "overlay C V0 ws = (overlay C V0 ((wrapped d)[ib := b']))(OrderID C x \<mapsto> x')"
      using overlay_update [of C "(wrapped d)[ib := b']" ix x' V0] dist l len ids' i(3) by (simp add: ws_def x_def)
    ultimately show ?thesis by simp
  qed
  have swap: "V(OrderID C x \<mapsto> x', OrderID C b \<mapsto> b') = overlay C V0 ws"
    unfolding V' using ids by (simp add: fun_upd_twist)
  have ok': "orders_ok C (overlay C V0 ws)"
    unfolding V' using orders_ok_upd [OF orders_ok_upd [OF D(4) fb(3)] fx(1)] ids' by (simp add: V_def)
  have coins: "wp (exchange_coins C (Sender b') (Sender x')
      [\<lparr>Denom = used_denom x', Amount = n\<rparr>] [\<lparr>Denom = used_denom b', Amount = m\<rparr>])
      (\<lambda>_. minv C tot T (backing F (overlay C V0 ws)) st p) s"
    using wp_exchange_coins [OF C F D(3) D(4), folded V_def, OF Vx ids ids'(1) fx(3) ids'(2) fb(5) fx(1) fb(3)
        denoms(2,3) amt(1) fb(1) fx(4) fb(6)]
    unfolding swap ids' ud .
  define d2 where "d2 = d\<lparr>wrapped := ws, changedOrders :=
      put_changed (OrderID C x') ix (put_changed (OrderID C b') ib (changedOrders d)), lastPrice := pr\<rparr>"
  have inv2: "deal_inv C tot T F V0 xs0 st p Os (s', d2)" if s': "minv C tot T (backing F (overlay C V0 ws)) st p s'" for s'
  proof -
    have oid: "OrderID C b = OrderID C (xs0 ! ib)" "OrderID C x = OrderID C (xs0 ! ix)"
      using D(5) i by (simp_all add: b_def x_def same_fixedD)
    have set_ch: "set (changedOrders d2) = insert (OrderID C x, ix) (insert (OrderID C b, ib)
        {e \<in> set (changedOrders d). fst e \<noteq> OrderID C b \<and> fst e \<noteq> OrderID C x})"
      using D(7) ids by (auto simp: d2_def set_put_changed distinct_put_changed ids')
    have nth: "ws ! j = (if j = ix then x' else if j = ib then b' else wrapped d ! j)" if "j < length xs0" for j
      using that len i(3) D(2) by (simp add: ws_def nth_list_update)
    have "same_fixed (ws ! j) (xs0 ! j) \<and> order_wf C (ws ! j)" if "j < length xs0" for j
      using D(5,6) [OF that] D(5) [OF i(1)] D(5) [OF i(2)] fb(3,4) fx(1,2)
      by (auto simp: nth [OF that] same_fixed_def same_place_def b_def x_def)
    moreover have "ws ! j = xs0 ! j" if "j < length xs0" "j \<notin> snd ` set (changedOrders d2)" for j
    proof -
      have j: "j \<noteq> ix" "j \<noteq> ib" using that(2) unfolding set_ch by auto
      have "j \<notin> snd ` set (changedOrders d)"
      proof
        assume "j \<in> snd ` set (changedOrders d)"
        then obtain k where k: "(k, j) \<in> set (changedOrders d)" by auto
        have "k = OrderID C (xs0 ! j)" using D(8) [OF k] by simp
        moreover have "OrderID C (xs0 ! j) \<noteq> OrderID C b" "OrderID C (xs0 ! j) \<noteq> OrderID C x"
          using D(10) j that(1) i unfolding oid by (auto simp: distinct_conv_nth)
        ultimately show False using k that(2) unfolding set_ch by force
      qed
      then show ?thesis using D(9) [OF that(1)] nth [OF that(1)] j by simp
    qed
    moreover have "\<forall>e \<in> set (changedOrders d2). snd e < length xs0 \<and> fst e = OrderID C (xs0 ! snd e)"
      using D(8) i unfolding set_ch oid by auto
    moreover have "distinct (map fst (changedOrders d2))"
      using D(7) by (simp add: d2_def distinct_put_changed)
    moreover have "wrapped d2 = ws" "length ws = length xs0" using D(2) by (simp_all add: d2_def ws_def)
    ultimately show ?thesis using s' ok' inv by (simp add: deal_inv_def)
  qed
  have "wp (deal_body C sub ctx ib b' ix x' n m pr) (\<lambda>_ (s', d'). wrapped d' = ws \<and> deal_inv C tot T F V0 xs0 st p Os (s', d')) (s, d)"
    unfolding deal_body_def wp_then set_order_def wp_modify prod.case wp_on_chain
  proof (rule wp_mono)
    show "wp (exchange_coins C (Sender b') (Sender x') [\<lparr>Denom = used_denom x', Amount = n\<rparr>] [\<lparr>Denom = used_denom b', Amount = m\<rparr>])
      (\<lambda>_. minv C tot T (backing F (overlay C V0 ws)) st p) s" by (rule coins)
    fix u s'
    assume s': "minv C tot T (backing F (overlay C V0 ws)) st p s'"
    have fill: "minv C tot T (backing F (overlay C V0 ws)) st p s2"
      if "SendFillMsg C x' b' n m pr (BlockHeight ctx) s' = (Ok (), s2)" for s2
      by (rule keepD [OF keep_minv_on_chain_fill s' that]) simp
    obtain s2 where s2: "SendFillMsg C x' b' n m pr (BlockHeight ctx) s' = (Ok (), s2)"
      by (simp add: SendFillMsg_def FillMsgs_def emit_def op_simps)
    have d2: "d\<lparr>wrapped := (wrapped d)[ib := b'], wrapped := (wrapped (d\<lparr>wrapped := (wrapped d)[ib := b']\<rparr>))[ix := x'],
        changedOrders := put_changed (OrderID C x') ix (put_changed (OrderID C b') ib
          (changedOrders (d\<lparr>wrapped := (wrapped d)[ib := b'], wrapped := (wrapped (d\<lparr>wrapped := (wrapped d)[ib := b']\<rparr>))[ix := x']\<rparr>))),
        lastPrice := pr\<rparr> = d2"
      by (simp add: d2_def ws_def)
    show "wp (whenever (sub ModuleName_market) (on_chain (SendFillMsg C x' b' n m pr (BlockHeight ctx))))
        (\<lambda>_ (s', d'). wrapped d' = ws \<and> deal_inv C tot T F V0 xs0 st p Os (s', d'))
        (s', d\<lparr>wrapped := (wrapped d)[ib := b'], wrapped := (wrapped (d\<lparr>wrapped := (wrapped d)[ib := b']\<rparr>))[ix := x'],
        changedOrders := put_changed (OrderID C x') ix (put_changed (OrderID C b') ib
          (changedOrders (d\<lparr>wrapped := (wrapped d)[ib := b'], wrapped := (wrapped (d\<lparr>wrapped := (wrapped d)[ib := b']\<rparr>))[ix := x']\<rparr>))),
        lastPrice := pr\<rparr>)"
      unfolding d2 wp_whenever wp_on_chain
      using inv2 [OF s'] inv2 [OF fill [OF s2]] s2 by (auto simp: wp_def d2_def)
  qed
  then show ?thesis by (simp only: ws_def b'_def x'_def b_def x_def)
qed

subsection \<open>\<open>Deal\<close> meets the engine's interface\<close>

lemma MaxOrderAmount_in_i64: "0 \<le> m \<Longrightarrow> m \<le> MaxOrderAmount \<Longrightarrow> to_Int64 m = Ok m"
  by (simp add: to_Int64_def in_i64_def MaxOrderAmount_def)

text \<open>The deal of a buyer \<open>ib\<close> and a seller \<open>ix\<close>, whichever of the two calls it.\<close>

lemma wo_Deal_body:
  assumes C: "cosmos_ok C tot" and inv: "deal_inv C tot T F V0 xs0 st p Os (s, d)"
    and i: "ib < length xs0" "ix < length xs0"
    and who: "cur = ib \<and> other = ix \<or> cur = ix \<and> other = ib"
    and sides: "Side (wrapped d ! ib) = BUY" "Side (wrapped d ! ix) = SELL"
    and amt: "0 < n" "n \<le> LeftStock (wrapped d ! ib)" and price: "0 \<le> pr" "pr \<le> Price (wrapped d ! ib)"
  shows "wo_Deal C sub ctx cur other n pr (s, d) =
    deal_body C sub ctx ib (deal_buyer n (pr * n div dec_one) (wrapped d ! ib))
      ix (deal_seller n (pr * n div dec_one) (wrapped d ! ix)) n (pr * n div dec_one) pr (s, d)"
proof -
  note D = deal_invD [OF inv] and coins = cosmos_okD(5) [OF C] and dec = cosmos_okD(4) [OF C]
  define b where "b = wrapped d ! ib"
  define x where "x = wrapped d ! ix"
  define m where "m = pr * n div dec_one"
  have wf: "order_wf C b" using D(6) i by (simp add: b_def)
  have pair: "TradingPair x = TradingPair b" unfolding b_def x_def by (rule D(12) [OF i(2,1)])
  have sd: "Side b = BUY" "Side x = SELL" using sides by (simp_all add: b_def x_def)
  note denoms = sides_denoms [OF order_wfD(2) [OF wf] pair sd]
  have m0: "0 \<le> m" "m \<le> Freeze b"
    using deal_buyer_facts(1,2) [OF wf sd(1) amt(1) _ price(1), of m] amt(2) price(2) by (simp_all add: m_def b_def)
  then have mmax: "m \<le> MaxOrderAmount" using order_wfD(6) [OF wf] by linarith
  have money: "dec_TruncateInt C (dec_MulInt C pr n) = m"
    using price amt by (simp add: dec_okD [OF dec] m_def go_quo_pos)
  have ud: "used_denom (deal_seller n m x) = used_denom x" "used_denom (deal_buyer n m b) = used_denom b"
    by (simp_all add: used_denom_def GetOrderUsedDenom_def deal_seller_def deal_buyer_def)
  have who': "(if Side (wrapped d ! cur) = SELL then (other, wrapped d ! other, cur, wrapped d ! cur)
      else (cur, wrapped d ! cur, other, wrapped d ! other)) = (ib, b, ix, x)"
    using who sides by (auto simp: b_def x_def)
  have "wo_Deal C sub ctx cur other n pr (s, d) =
      deal_body C sub ctx ib (deal_buyer n m b) ix (deal_seller n m x) n m pr (s, d)"
    unfolding wo_Deal_def Let_def snd_conv who' prod.case denoms money
    using amt(1) m0(1) mmax denoms(2,3)
    by (simp add: and_then_def lift_def coins_okD(1) [OF coins] MaxOrderAmount_in_i64 not_less [symmetric] deal_body_def ud)
  then show ?thesis by (simp only: b_def x_def m_def)
qed

definition engine_inv ::
    "('b, 'y) cosmos_scheme \<Rightarrow> ('b \<Rightarrow> string \<Rightarrow> int) \<Rightarrow> ledger \<times> 'z \<Rightarrow> (addr \<Rightarrow> string \<Rightarrow> int) \<Rightarrow>
      (string \<Rightarrow> order option) \<Rightarrow> order list \<Rightarrow> market_val kv \<Rightarrow> market_params \<Rightarrow> nat set \<Rightarrow>
      ('b, 'z) market_state_scheme \<times> deal_info \<Rightarrow> bool" where
  "engine_inv C tot T F V0 xs0 st p Os sd \<longleftrightarrow>
     cosmos_ok C tot \<and> (\<forall>a d. 0 \<le> F a d) \<and> deal_inv C tot T F V0 xs0 st p Os sd"

lemma engine_deal:
  assumes inv: "engine_inv C tot T F V0 xs0 st p Os (s, d)"
    and mem: "a \<in> Os" "b \<in> Os"
    and side: "Side (wrapped d ! a) \<in> {BID, ASK}" "Side (wrapped d ! b) = 3 - Side (wrapped d ! a)"
    and acc: "Side (wrapped d ! a) = BID \<longrightarrow> pr \<le> Price (wrapped d ! a)" "Side (wrapped d ! a) = ASK \<longrightarrow> Price (wrapped d ! a) \<le> pr"
      "Side (wrapped d ! b) = BID \<longrightarrow> pr \<le> Price (wrapped d ! b)" "Side (wrapped d ! b) = ASK \<longrightarrow> Price (wrapped d ! b) \<le> pr"
    and amt: "0 < n" "n \<le> LeftStock (wrapped d ! a)" "n \<le> LeftStock (wrapped d ! b)"
    and run: "wo_Deal C sub ctx a b n pr (s, d) = (r, (s', d'))" "r \<noteq> Panic"
  shows "r = Ok () \<and> engine_inv C tot T F V0 xs0 st p Os (s', d') \<and>
    (\<forall>c \<in> Os. same_fixed (wrapped d' ! c) (wrapped d ! c) \<and>
      LeftStock (wrapped d' ! c) = LeftStock (wrapped d ! c) - (if c = a \<or> c = b then n else 0))"
proof -
  have C: "cosmos_ok C tot" and F: "0 \<le> F u e" and inv': "deal_inv C tot T F V0 xs0 st p Os (s, d)" for u e
    using inv by (simp_all add: engine_inv_def)
  note D = deal_invD [OF inv']
  define ib where "ib = (if Side (wrapped d ! a) = BID then a else b)"
  define ix where "ix = (if Side (wrapped d ! a) = BID then b else a)"
  have who: "a = ib \<and> b = ix \<or> a = ix \<and> b = ib" by (simp add: ib_def ix_def)
  have i: "ib < length xs0" "ix < length xs0" using mem D(1) by (auto simp: ib_def ix_def)
  have sides: "Side (wrapped d ! ib) = BUY" "Side (wrapped d ! ix) = SELL" using side by (auto simp: ib_def ix_def)
  then have ne: "ib \<noteq> ix" by auto
  have amts: "n \<le> LeftStock (wrapped d ! ib)" "n \<le> LeftStock (wrapped d ! ix)" using amt by (auto simp: ib_def ix_def)
  have "price_fits (Price (wrapped d ! ix))" using order_wfD(1) [OF D(6) [OF i(2)]] by (simp add: order_ok_def)
  moreover have "Price (wrapped d ! ix) \<le> pr" "pr \<le> Price (wrapped d ! ib)" using acc side by (auto simp: ib_def ix_def)
  ultimately have pr: "0 \<le> pr" "pr \<le> Price (wrapped d ! ib)" by (auto simp: price_fits_def)
  define m where "m = pr * n div dec_one"
  note body = wo_Deal_body [OF C inv' i who sides amt(1) amts(1) pr, folded m_def]
  from wpD [OF wp_deal_body [OF C F inv' i ne sides amt(1) amts pr m_def, of sub ctx] run(1) [unfolded body] run(2)]
  have r: "r = Ok ()" and w: "wrapped d' = (wrapped d)[ib := deal_buyer n m (wrapped d ! ib), ix := deal_seller n m (wrapped d ! ix)]"
    and inv2: "deal_inv C tot T F V0 xs0 st p Os (s', d')" by auto
  note fb = deal_buyer_facts [OF D(6) [OF i(1)] sides(1) amt(1) amts(1) pr m_def]
    and fx = deal_seller_facts [OF D(6) [OF i(2)] sides(2) amt(1) amts(2)]
  have "same_fixed (wrapped d' ! c) (wrapped d ! c) \<and>
      LeftStock (wrapped d' ! c) = LeftStock (wrapped d ! c) - (if c = a \<or> c = b then n else 0)" if "c \<in> Os" for c
  proof -
    have c: "c < length (wrapped d)" using that D(1,2) by simp
    have ab: "c = a \<or> c = b \<longleftrightarrow> c = ib \<or> c = ix" using who by auto
    consider "c = ix" | "c = ib" "c \<noteq> ix" | "c \<noteq> ib" "c \<noteq> ix" by blast
    then show ?thesis
    proof cases
      case 1
      then show ?thesis using c fx(2,3) ab unfolding w by simp
    next
      case 2
      then show ?thesis using c fb(4,5) ab unfolding w by simp
    next
      case 3
      then show ?thesis using ab unfolding w by (simp add: same_fixed_refl)
    qed
  qed
  with r inv2 C F show ?thesis by (simp add: engine_inv_def)
qed

interpretation wo: order_for_trade "wrapped_order C sha sub ctx" "engine_inv C tot T F V0 xs0 st p"
  for C :: "('b, 'y) cosmos_scheme" and sha sub ctx tot and T :: "ledger \<times> 'z" and F V0 xs0 st p
proof unfold_locales
  fix Os and sd :: "('b, 'z) market_state_scheme \<times> deal_info" and a
  assume inv: "engine_inv C tot T F V0 xs0 st p Os sd" and a: "a \<in> Os"
  obtain s d where sd: "sd = (s, d)" by (cases sd)
  have dec: "dec_ok C" and inv': "deal_inv C tot T F V0 xs0 st p Os (s, d)"
    using inv cosmos_okD(4) by (auto simp: engine_inv_def sd)
  have wf: "order_wf C (wrapped d ! a)" using deal_invD(1,6) [OF inv'] a by simp
  show "0 \<le> GetAmount (wrapped_order C sha sub ctx) sd a"
    using order_wfD(3) [OF wf] by (simp add: GetAmount_wf [OF dec wf] sd)
  show "price_fits (GetPrice (wrapped_order C sha sub ctx) sd a)"
    using order_wfD(1) [OF wf] by (simp add: wrapped_order_def order_ok_def sd)
next
  fix Os and sd :: "('b, 'z) market_state_scheme \<times> deal_info" and a b pr n r sd'
  let ?I = "wrapped_order C sha sub ctx"
  assume inv: "engine_inv C tot T F V0 xs0 st p Os sd" and mem: "a \<in> Os" "b \<in> Os"
    and side: "GetSide ?I sd a \<in> {BID, ASK}" "GetSide ?I sd b = 3 - GetSide ?I sd a"
    and acc: "accepts ?I sd pr a" "accepts ?I sd pr b"
    and n: "n = min (GetAmount ?I sd a) (GetAmount ?I sd b)" "0 < n"
    and run: "Deal ?I a b n pr sd = (r, sd')" "r \<noteq> Panic"
  obtain s d s' d' where sd: "sd = (s, d)" "sd' = (s', d')" by (cases sd; cases sd')
  have dec: "dec_ok C" and inv': "deal_inv C tot T F V0 xs0 st p Os (s, d)"
    using inv cosmos_okD(4) by (auto simp: engine_inv_def sd)
  have wf: "order_wf C (wrapped d ! c)" if "c \<in> Os" for c using deal_invD(1,6) [OF inv'] that by simp
  have I: "GetSide ?I (s, d) c = Side (wrapped d ! c)" "GetPrice ?I (s, d) c = Price (wrapped d ! c)"
      "GetHeight ?I (s, d) c = Height (wrapped d ! c)" "GetHash ?I (s, d) c = sha (OrderID C (wrapped d ! c) @ DataHash ctx)" for s d c
    by (simp_all add: wrapped_order_def)
  have n': "n \<le> LeftStock (wrapped d ! a)" "n \<le> LeftStock (wrapped d ! b)"
    using n(1) by (simp_all add: sd GetAmount_wf [OF dec] wf mem)
  have run': "wo_Deal C sub ctx a b n pr (s, d) = (r, (s', d'))" using run(1) by (simp add: wrapped_order_def sd)
  have D: "r = Ok () \<and> engine_inv C tot T F V0 xs0 st p Os (s', d') \<and>
      (\<forall>c \<in> Os. same_fixed (wrapped d' ! c) (wrapped d ! c) \<and>
        LeftStock (wrapped d' ! c) = LeftStock (wrapped d ! c) - (if c = a \<or> c = b then n else 0))"
    by (rule engine_deal [OF inv [unfolded sd] mem _ _ _ _ _ _ n(2) n' run' run(2)])
      (use side acc in \<open>simp_all add: sd I accepts_def\<close>)
  have inv2: "deal_inv C tot T F V0 xs0 st p Os (s', d')" using D by (simp add: engine_inv_def)
  have wf': "order_wf C (wrapped d' ! c)" if "c \<in> Os" for c using deal_invD(1,6) [OF inv2] that by simp
  have "GetAmount ?I sd' c = GetAmount ?I sd c - (if c = a \<or> c = b then n else 0)" if "c \<in> Os" for c
    using D that by (simp add: sd GetAmount_wf [OF dec] wf wf')
  moreover have "OrderID C (wrapped d' ! c) = OrderID C (wrapped d ! c)" if "c \<in> Os" for c
    using D that by (intro same_fixedD(6)) blast
  then have "same_static ?I Os sd sd'"
    using D by (simp add: same_static_def sd I same_fixedD(2-4))
  ultimately show "r = Ok () \<and> engine_inv C tot T F V0 xs0 st p Os sd' \<and> same_static ?I Os sd sd' \<and>
      (\<forall>c \<in> Os. GetAmount ?I sd' c = GetAmount ?I sd c - (if c = a \<or> c = b then n else 0))"
    using D by (simp add: sd)
qed

end
