(* ===== verification/MarketInv.thy ===== *)
theory MarketInv
  imports MarketDeal
begin

section \<open>The invariant of the market module\<close>

text \<open>
  The store holds a book in good form, markets under their own symbols and well-formed delist
  requests; and the frozen coins of every account are what its open orders keep frozen and the
  coins \<open>F\<close> frozen for other reasons. \<open>T\<close> is the ledger and the part of the state beyond the market's.
\<close>

subsection \<open>The store\<close>

definition markets_ok :: "'y sdk_scheme \<Rightarrow> market_val kv \<Rightarrow> bool" where
  "markets_ok S st \<longleftrightarrow> (\<forall>symbol v. kv_get st (marketStoreKey MarketIdentifierPrefix [symbol]) = Some v \<longrightarrow>
     (\<exists>mi. v = VMarket mi \<and> MarketInfo_GetSymbol mi = symbol \<and> pair_ok S symbol))"

definition delist_key :: "int \<Rightarrow> string \<Rightarrow> string" where
  "delist_key t symbol = DelistKey @ height_bytes t @ x00 @ symbol"

lemma getDelistKey_fits: "height_fits t \<Longrightarrow> getDelistKey t symbol = Ok (delist_key t symbol)"
  by (simp add: getDelistKey_def int64ToBigEndianBytes_fits delist_key_def ConcatKeys_def)

definition delists_ok :: "'y sdk_scheme \<Rightarrow> market_val kv \<Rightarrow> bool" where
  "delists_ok S st \<longleftrightarrow> (\<forall>k v. take 1 k = DelistKey \<longrightarrow> kv_get st k = Some v \<longrightarrow>
     (\<exists>t symbol. height_fits t \<and> pair_ok S symbol \<and> k = delist_key t symbol \<and> v = VSymbol symbol))"

definition store_ok :: "'y sdk_scheme \<Rightarrow> market_val kv \<Rightarrow> bool" where
  "store_ok S st \<longleftrightarrow> book_ok S st \<and> markets_ok S st \<and> delists_ok S st"

lemma store_okD:
  assumes "store_ok S st"
  shows "book_ok S st" and "markets_ok S st" and "delists_ok S st"
  using assms by (simp_all add: store_ok_def)

text \<open>Which writes leave the markets and the delist requests alone.\<close>

definition order_key :: "string \<Rightarrow> bool" where
  "order_key k \<longleftrightarrow> take 1 k \<noteq> MarketIdentifierPrefix \<and> take 1 k \<noteq> DelistKey"

lemma order_keys [simp]:
  "order_key (orderBookKey oid)" "order_key (queue_key S x)" "order_key (list_key S x)"
  "order_key (NewlyAddedKeyPrefix @ symbol)" "order_key LastOrderCleanUpDayKey" "order_key (DelistRevKey @ symbol)"
  by (simp_all add: order_key_def orderBookKey_def queue_key_def list_key_def key_with_def ConcatKeys_def list_prefix_def
      OrderBookKeyPrefix_def NewlyAddedKeyPrefix_def LastOrderCleanUpDayKey_def DelistRevKey_def MarketIdentifierPrefix_def
      DelistKey_def byte_eq)

lemma market_key: "take 1 (marketStoreKey MarketIdentifierPrefix ps) = MarketIdentifierPrefix"
  by (simp add: marketStoreKey_def MarketIdentifierPrefix_def)

lemma key_heads: "MarketIdentifierPrefix \<noteq> DelistKey"
  by (simp add: MarketIdentifierPrefix_def DelistKey_def byte_eq)

lemma rest_set_other:
  assumes "order_key k"
  shows "markets_ok S (kv_set k v st) = markets_ok S st" and "delists_ok S (kv_set k v st) = delists_ok S st"
    and "markets_ok S (kv_delete k st) = markets_ok S st" and "delists_ok S (kv_delete k st) = delists_ok S st"
proof -
  have "marketStoreKey MarketIdentifierPrefix ps \<noteq> k" for ps using assms market_key by (auto simp: order_key_def)
  then show "markets_ok S (kv_set k v st) = markets_ok S st" "markets_ok S (kv_delete k st) = markets_ok S st"
    by (simp_all add: markets_ok_def)
  have "k' \<noteq> k" if "take 1 k' = DelistKey" for k' using assms that by (auto simp: order_key_def)
  then show "delists_ok S (kv_set k v st) = delists_ok S st" "delists_ok S (kv_delete k st) = delists_ok S st"
    by (auto simp: delists_ok_def)
qed

lemma store_ok_set_other: "other_key k \<Longrightarrow> order_key k \<Longrightarrow> store_ok S st \<Longrightarrow> store_ok S (kv_set k v st)"
  and store_ok_delete_other: "other_key k \<Longrightarrow> order_key k \<Longrightarrow> store_ok S st \<Longrightarrow> store_ok S (kv_delete k st)"
  by (simp_all add: store_ok_def rest_set_other book_ok_set_other book_ok_delete_other)

lemma store_ok_put:
  "store_ok S st \<Longrightarrow> order_ok x \<Longrightarrow> (\<And>y. book st (OrderID S x) = Some y \<Longrightarrow> same_place x y) \<Longrightarrow>
     store_ok S (put_order S x st)"
  unfolding store_ok_def using book_ok_put [of S st x] by (auto simp: put_order_def rest_set_other)

lemma store_ok_drop:
  "store_ok S st \<Longrightarrow> order_ok x \<Longrightarrow> (\<And>y. book st (OrderID S x) = Some y \<Longrightarrow> same_place x y) \<Longrightarrow>
     store_ok S (drop_order S x st)"
  unfolding store_ok_def using book_ok_drop [of S st x] by (auto simp: drop_order_def rest_set_other)

lemma market_key_inj:
  "marketStoreKey MarketIdentifierPrefix [x] = marketStoreKey MarketIdentifierPrefix [y] \<longleftrightarrow> x = y"
  by (simp add: marketStoreKey_def)

lemma store_ok_set_market:
  assumes "store_ok S st" and "pair_ok S (MarketInfo_GetSymbol mi)"
  shows "store_ok S (kv_set (marketStoreKey MarketIdentifierPrefix [MarketInfo_GetSymbol mi]) (VMarket mi) st)"
proof -
  have "take 1 k = DelistKey \<Longrightarrow> k \<noteq> marketStoreKey MarketIdentifierPrefix ps" for k ps
    using market_key key_heads by metis
  then have "delists_ok S (kv_set (marketStoreKey MarketIdentifierPrefix [MarketInfo_GetSymbol mi]) (VMarket mi) st)"
    using store_okD(3) [OF assms(1)] by (auto simp: delists_ok_def)
  moreover have "markets_ok S (kv_set (marketStoreKey MarketIdentifierPrefix [MarketInfo_GetSymbol mi]) (VMarket mi) st)"
    using store_okD(2) [OF assms(1)] assms(2) by (auto simp: markets_ok_def market_key_inj)
  ultimately show ?thesis
    using book_ok_set_other [OF other_keys(3) store_okD(1) [OF assms(1)]] by (simp add: store_ok_def)
qed

lemma store_ok_delete_market:
  assumes "store_ok S st"
  shows "store_ok S (kv_delete (marketStoreKey MarketIdentifierPrefix ps) st)"
  using assms book_ok_delete_other [OF other_keys(3) store_okD(1) [OF assms]]
  by (auto simp: store_ok_def delists_ok_def markets_ok_def)

lemma other_delist_key: "height_fits t \<Longrightarrow> other_key (delist_key t symbol)"
  using other_key_delist [OF getDelistKey_fits] .

lemma store_ok_set_delist:
  assumes "store_ok S st" and "height_fits t" and "pair_ok S symbol"
  shows "store_ok S (kv_set (delist_key t symbol) (VSymbol symbol) st)"
proof -
  have "marketStoreKey MarketIdentifierPrefix ps \<noteq> delist_key t symbol" for ps
    using market_key [of ps] key_heads by (auto simp: delist_key_def DelistKey_def)
  then have "markets_ok S (kv_set (delist_key t symbol) (VSymbol symbol) st)"
    using store_okD(2) [OF assms(1)] by (simp add: markets_ok_def)
  moreover have "delists_ok S (kv_set (delist_key t symbol) (VSymbol symbol) st)"
    using store_okD(3) [OF assms(1)] assms(2,3) by (auto simp: delists_ok_def)
  ultimately show ?thesis
    using book_ok_set_other [OF other_delist_key [OF assms(2)] store_okD(1) [OF assms(1)]] by (simp add: store_ok_def)
qed

lemma store_ok_delete_delist:
  assumes "store_ok S st" and "take 1 k = DelistKey"
  shows "store_ok S (kv_delete k st)"
proof -
  have "marketStoreKey MarketIdentifierPrefix ps \<noteq> k" for ps
    using market_key [of ps] key_heads assms(2) by auto
  moreover have "other_key k"
    using assms(2) by (auto simp: other_key_def is_index_def DelistKey_def byte_eq orderBookKey_def ConcatKeys_def OrderBookKeyPrefix_def)
  ultimately show ?thesis
    using assms(1) book_ok_delete_other [OF _ store_okD(1) [OF assms(1)], of k]
    by (auto simp: store_ok_def markets_ok_def delists_ok_def)
qed

lemma GetMarketInfo_ok:
  assumes "markets_ok S (market_store s)" and "GetMarketInfo s symbol = Some mi"
  shows "MarketInfo_GetSymbol mi = symbol \<and> pair_ok S symbol"
  using assms unfolding markets_ok_def
  by (auto simp: GetMarketInfo_def split: option.splits market_val.splits)

lemma GetAllMarketInfos_ok:
  assumes "store_ok S (market_store s)" and "mi \<in> set (GetAllMarketInfos s)"
  shows "pair_ok S (MarketInfo_GetSymbol mi)"
proof -
  obtain k v where e: "(k, v) \<in> set (kv_prefix_iterator MarketIdentifierPrefix (market_store s))" and v: "market_of v = Some mi"
    using assms(2) by (auto simp: GetAllMarketInfos_def List.map_filter_def)
  then have "kv_get (market_store s) k = Some v" "take 1 k = MarketIdentifierPrefix"
    using kv_prefix_exact [OF book_okD(1) [OF store_okD(1) [OF assms(1)]]] by (auto simp: MarketIdentifierPrefix_def)
  moreover have "k = marketStoreKey MarketIdentifierPrefix [drop 1 k]"
    using \<open>take 1 k = MarketIdentifierPrefix\<close> append_take_drop_id [of 1 k] by (simp add: marketStoreKey_def)
  ultimately have "\<exists>mi. v = VMarket mi \<and> MarketInfo_GetSymbol mi = drop 1 k \<and> pair_ok S (drop 1 k)"
    using store_okD(2) [OF assms(1)] unfolding markets_ok_def by metis
  then show ?thesis using v by (auto simp: market_of_def)
qed

subsection \<open>The whole invariant\<close>

definition live :: "(string \<Rightarrow> order option) \<Rightarrow> bool" where
  "live m \<longleftrightarrow> (\<forall>oid x. m oid = Some x \<longrightarrow> 0 < LeftStock x)"

definition market_inv ::
    "('b, 'y) cosmos_scheme \<Rightarrow> ('b \<Rightarrow> string \<Rightarrow> int) \<Rightarrow> ledger \<times> 'z \<Rightarrow> (addr \<Rightarrow> string \<Rightarrow> int) \<Rightarrow>
      ('b, 'z) market_state_scheme \<Rightarrow> bool" where
  "market_inv C tot T F s \<longleftrightarrow> store_ok C (market_store s) \<and> live (book (market_store s)) \<and>
     orders_ok C (book (market_store s)) \<and>
     minv C tot T (backing F (book (market_store s))) (market_store s) (market_params s) s"

text \<open>While changed orders wait to be written back, the coins match the book \<open>V\<close> with them in it.\<close>

definition pend_inv ::
    "('b, 'y) cosmos_scheme \<Rightarrow> ('b \<Rightarrow> string \<Rightarrow> int) \<Rightarrow> ledger \<times> 'z \<Rightarrow> (addr \<Rightarrow> string \<Rightarrow> int) \<Rightarrow> market_params \<Rightarrow>
      (string \<Rightarrow> order option) \<Rightarrow> ('b, 'z) market_state_scheme \<Rightarrow> bool" where
  "pend_inv C tot T F p V s \<longleftrightarrow> store_ok C (market_store s) \<and> live (book (market_store s)) \<and> orders_ok C V \<and>
     minv C tot T (backing F V) (market_store s) p s \<and>
     (\<forall>oid. rel_option same_fixed (V oid) (book (market_store s) oid))"

lemma market_inv_pend: "market_inv C tot T F s \<Longrightarrow> pend_inv C tot T F (market_params s) (book (market_store s)) s"
  by (simp add: market_inv_def pend_inv_def option.rel_refl same_fixed_refl)

lemma pend_market_inv:
  assumes "pend_inv C tot T F p V s" and "\<And>oid. V oid = book (market_store s) oid"
  shows "market_inv C tot T F s \<and> market_params s = p"
proof -
  have "V = book (market_store s)" using assms(2) by blast
  then show ?thesis using assms(1) by (auto simp: market_inv_def pend_inv_def minv_def)
qed

end
