(* ===== verification/MarketBlock.thy ===== *)
theory MarketBlock
  imports MarketInv
begin

section \<open>The market's end blocker keeps the invariant\<close>

subsection \<open>Writing changed orders back\<close>

lemma ret_bind_no_err: "(\<And>e. r \<noteq> Err e) \<Longrightarrow> (\<And>a e. f a \<noteq> Err e) \<Longrightarrow> ret_bind r f \<noteq> Err e"
  by (cases r) auto

lemma ret_map_no_err: "(\<And>e. r \<noteq> Err e) \<Longrightarrow> ret_map f r \<noteq> Err e"
  by (cases r) auto

lemma deref_Some: "deref (map Some xs) = Ok xs"
  by (induction xs) auto

lemma notEnoughMoney_no_err: "notEnoughMoney C x \<noteq> Err e"
  by (auto simp: notEnoughMoney_def dec_RoundInt64_def to_Int64_def)

lemma packageCancel_no_err: "packageCancelOrderMsgWithDelReason C ctx x why q s \<noteq> Err e"
proof -
  have reason: "getCancelOrderReason C x why \<noteq> Err e" for e
    using notEnoughMoney_no_err by (auto simp: getCancelOrderReason_def intro!: ret_map_no_err)
  have rebate: "getRebateAmountInOrder s n k \<noteq> Err e" for n k e
    unfolding getRebateAmountInOrder_def by (intro ret_bind_no_err ret_map_no_err calc_no_err)
  have fee: "(if FrozenFeatureFee x \<noteq> 0 then CalActualOrderFeatureFeeInt64 C ctx x n else Ok 0) \<noteq> Err e" for n e
    by (simp add: calc_no_err)
  show ?thesis
    unfolding packageCancelOrderMsgWithDelReason_def Let_def
    by (intro ret_bind_no_err fee calc_no_err(1) reason) (auto simp: rebate)
qed

lemma wp_send_cancel:
  assumes "minv C tot T G st p s"
  shows "wp (send_cancel C sub ctx x why q) (\<lambda>_. minv C tot T G st p) s"
proof (rule wpI)
  fix r s'
  assume run: "send_cancel C sub ctx x why q s = (r, s')" "r \<noteq> Panic"
  have "minv C tot T G st p s'" by (rule keepD [OF keep_minv_send_cancel assms run])
  moreover have "r \<noteq> Err e" for e
    using run packageCancel_no_err [of C ctx x why q s]
    by (cases "packageCancelOrderMsgWithDelReason C ctx x why q s")
      (auto simp: send_cancel_def FillMsgs_def emit_def op_simps split: if_splits)
  ultimately show "\<exists>a. r = Ok a \<and> minv C tot T G st p s'" using run(2) by (cases r) auto
qed

lemma same_fixed_place: "same_fixed x y \<Longrightarrow> same_place x y"
  by (simp add: same_fixed_def)

lemma pend_inv_book:
  assumes "pend_inv C tot T F p V s" and "V oid = Some x"
  shows "\<exists>y. book (market_store s) oid = Some y \<and> same_fixed x y" and "OrderID C x = oid" and "order_wf C x"
    and "order_ok x"
proof -
  have "rel_option same_fixed (V oid) (book (market_store s) oid)" using assms(1) by (simp add: pend_inv_def)
  then show "\<exists>y. book (market_store s) oid = Some y \<and> same_fixed x y" using assms(2)
    by (cases "book (market_store s) oid") auto
  show "OrderID C x = oid" "order_wf C x" "order_ok x"
    using orders_okD [of C V oid x] order_wfD(1) assms by (auto simp: pend_inv_def)
qed

lemma wp_update_order:
  assumes C: "cosmos_ok C tot" and cet: "denom_valid C CET" and F: "\<And>a d. 0 \<le> F a d"
    and inv: "pend_inv C tot T F p V s" and x: "V (OrderID C x) = Some x" and symbol: "TradingPair x = symbol"
  shows "wp (update_order C sub ctx q symbol x)
    (\<lambda>_ s'. \<exists>V'. pend_inv C tot T F p V' s' \<and> V' (OrderID C x) = book (market_store s') (OrderID C x) \<and>
      (\<forall>oid. oid \<noteq> OrderID C x \<longrightarrow> V' oid = V oid \<and> book (market_store s') oid = book (market_store s) oid)) s"
    (is "wp _ ?Q s")
proof -
  let ?k = "OrderID C x" and ?st = "market_store s"
  let ?st1 = "put_order C x ?st"
  obtain y where y: "book ?st ?k = Some y" "same_fixed x y" using pend_inv_book(1) [OF inv x] by blast
  have ok: "order_ok x" by (rule pend_inv_book(4) [OF inv x])
  have store: "store_ok C ?st" and lv: "live (book ?st)" and V: "orders_ok C V" and m: "minv C tot T (backing F V) ?st p s"
    and rel: "rel_option same_fixed (V oid) (book ?st oid)" for oid
    using inv by (simp_all add: pend_inv_def)
  define s1 where "s1 = s\<lparr>market_store := ?st1\<rparr>"
  have run: "Update C symbol x s = (Ok (), s1)" using Update_run [OF ok, of C s] symbol by (simp add: s1_def)
  have store1: "store_ok C ?st1"
    by (rule store_ok_put [OF store ok]) (use y in \<open>auto intro: same_fixed_place\<close>)
  have m1: "minv C tot T (backing F V) ?st1 p s1" unfolding s1_def by (rule minv_store [OF m])
  have b1: "book ?st1 = (book ?st)(?k \<mapsto> x)" by (rule book_put)
  have stay: "?Q u s1" if "LeftStock x \<noteq> 0" for u
  proof -
    have "0 < LeftStock x" using that order_wfD(3) [OF pend_inv_book(3) [OF inv x]] by simp
    then have "pend_inv C tot T F p V s1"
      using store1 lv V m1 rel x by (auto simp: pend_inv_def live_def s1_def b1 same_fixed_refl)
    then show ?thesis using b1 x by (intro exI [of _ V]) (simp add: s1_def)
  qed
  have gone: "wp (and_then (removeOrder C ctx symbol x q) (\<lambda>_. send_cancel C sub ctx x [] q)) ?Q s1"
  proof -
    let ?V = "V(?k := None)" and ?st2 = "drop_order C x ?st1"
    have rem: "wp (removeOrder C ctx symbol x q) (\<lambda>_. minv C tot T (backing F ?V) ?st2 p) s1"
      by (rule wp_removeOrder [OF C cet F m1 V x _ symbol, where y = x]) (simp add: b1)
    have store2: "store_ok C ?st2"
      by (rule store_ok_drop [OF store1 ok]) (auto simp: b1 same_fixed_place same_fixed_refl)
    have b2: "book ?st2 = (book ?st)(?k := None)" by (simp add: book_drop b1)
    have fin: "?Q u s'" if "minv C tot T (backing F ?V) ?st2 p s'" for u s'
    proof (intro exI [of _ ?V] conjI allI impI)
      have ms: "market_store s' = ?st2" by (rule minvD(4) [OF that])
      show "pend_inv C tot T F p ?V s'"
        using store2 lv orders_ok_del [OF V] that rel unfolding pend_inv_def live_def ms b2 by simp
      show "?V ?k = book (market_store s') ?k" unfolding ms b2 by simp
      fix oid
      assume "oid \<noteq> ?k"
      then show "?V oid = V oid" "book (market_store s') oid = book ?st oid" unfolding ms b2 by simp_all
    qed
    show ?thesis
      unfolding wp_then by (rule wp_mono [OF rem], rule wp_mono [OF wp_send_cancel], assumption, rule fin)
  qed
  show ?thesis
    unfolding update_order_def wp_then wp_ignore_err run
    using stay gone by (auto simp: wps notEnoughMoney_no_err split: ret.split)
qed

text \<open>The orders of one market that wait to be written back, and those of all markets.\<close>

definition entries_ok :: "'y sdk_scheme \<Rightarrow> (string \<Rightarrow> order option) \<Rightarrow> string \<Rightarrow> (string \<times> order) list \<Rightarrow> bool" where
  "entries_ok S V symbol es \<longleftrightarrow> distinct (map fst es) \<and>
     (\<forall>e \<in> set es. fst e = OrderID S (snd e) \<and> V (fst e) = Some (snd e) \<and> TradingPair (snd e) = symbol)"

definition keys_of :: "(string \<times> order) list \<Rightarrow> string set" where
  "keys_of es = fst ` set es"

lemma keys_of_simps [simp]: "keys_of [] = {}" "keys_of (e # es) = insert (fst e) (keys_of es)"
  by (simp_all add: keys_of_def)

lemma entries_ok_Cons:
  "entries_ok S V symbol (e # es) \<longleftrightarrow> fst e \<notin> keys_of es \<and> fst e = OrderID S (snd e) \<and> V (fst e) = Some (snd e) \<and>
     TradingPair (snd e) = symbol \<and> entries_ok S V symbol es"
  by (auto simp: entries_ok_def keys_of_def)

lemma entries_ok_cong:
  "entries_ok S V symbol es \<Longrightarrow> (\<And>k. k \<in> keys_of es \<Longrightarrow> V' k = V k) \<Longrightarrow> entries_ok S V' symbol es"
  by (auto simp: entries_ok_def keys_of_def)

lemma entries_ok_mset: "mset es = mset es' \<Longrightarrow> entries_ok S V symbol es \<longleftrightarrow> entries_ok S V symbol es'"
  unfolding entries_ok_def by (metis mset_eq_setD mset_map mset_eq_imp_distinct_iff)

definition waiting ::
    "('b, 'y) cosmos_scheme \<Rightarrow> ('b \<Rightarrow> string \<Rightarrow> int) \<Rightarrow> ledger \<times> 'z \<Rightarrow> (addr \<Rightarrow> string \<Rightarrow> int) \<Rightarrow> market_params \<Rightarrow>
      string \<Rightarrow> string set \<Rightarrow> (string \<Rightarrow> order option) \<Rightarrow> (string \<times> order) list \<Rightarrow> ('b, 'z) market_state_scheme \<Rightarrow> bool" where
  "waiting C tot T F p symbol R W es s \<longleftrightarrow> (\<exists>V. pend_inv C tot T F p V s \<and> entries_ok C V symbol es \<and>
     keys_of es \<inter> R = {} \<and> (\<forall>oid. oid \<notin> keys_of es \<union> R \<longrightarrow> V oid = book (market_store s) oid) \<and>
     (\<forall>oid \<in> R. V oid = W oid))"

lemma wp_update_orders:
  assumes C: "cosmos_ok C tot" and cet: "denom_valid C CET" and F: "\<And>a d. 0 \<le> F a d"
    and P: "waiting C tot T F p symbol R W es s"
  shows "wp (foreach (\<lambda>e. update_order C sub ctx q symbol (snd e)) es) (\<lambda>_. waiting C tot T F p symbol R W []) s"
proof (rule wp_foreach [where P = "waiting C tot T F p symbol R W", OF _ P])
  fix e es s
  assume "waiting C tot T F p symbol R W (e # es) s"
  then obtain V where inv: "pend_inv C tot T F p V s" and es: "entries_ok C V symbol (e # es)"
    and R: "keys_of (e # es) \<inter> R = {}" and off: "\<And>oid. oid \<notin> keys_of (e # es) \<union> R \<Longrightarrow> V oid = book (market_store s) oid"
    and W: "\<And>oid. oid \<in> R \<Longrightarrow> V oid = W oid"
    unfolding waiting_def by blast
  define x where "x = snd e"
  have e: "fst e = OrderID C x" "V (OrderID C x) = Some x" "TradingPair x = symbol" "OrderID C x \<notin> keys_of es"
      "entries_ok C V symbol es"
    using es unfolding entries_ok_Cons x_def by metis+
  show "wp (update_order C sub ctx q symbol (snd e)) (\<lambda>_. waiting C tot T F p symbol R W es) s"
    unfolding x_def [symmetric]
  proof (rule wp_mono [OF wp_update_order [OF C cet F inv e(2,3)]])
    fix u s'
    assume "\<exists>V'. pend_inv C tot T F p V' s' \<and> V' (OrderID C x) = book (market_store s') (OrderID C x) \<and>
      (\<forall>oid. oid \<noteq> OrderID C x \<longrightarrow> V' oid = V oid \<and> book (market_store s') oid = book (market_store s) oid)"
    then obtain V' where inv': "pend_inv C tot T F p V' s'" and here: "V' (OrderID C x) = book (market_store s') (OrderID C x)"
      and there: "\<And>oid. oid \<noteq> OrderID C x \<Longrightarrow> V' oid = V oid \<and> book (market_store s') oid = book (market_store s) oid"
      by blast
    have "V' k = V k" if "k \<in> keys_of es" for k
      using there [of k] that e(4) by metis
    then have "entries_ok C V' symbol es" by (rule entries_ok_cong [OF e(5)])
    moreover have "keys_of es \<inter> R = {}" using R by simp
    moreover have "V' oid = book (market_store s') oid" if "oid \<notin> keys_of es \<union> R" for oid
      using that here there [of oid] off [of oid] e(1) by (cases "oid = OrderID C x") auto
    moreover have "V' oid = W oid" if "oid \<in> R" for oid
      using that there [of oid] W [OF that] R e(1) by auto
    ultimately show "waiting C tot T F p symbol R W es s'" using inv' unfolding waiting_def by metis
  qed
qed

definition results_ok ::
    "'y sdk_scheme \<Rightarrow> (string \<Rightarrow> order option) \<Rightarrow> (MarketInfo \<times> (string \<times> order) list \<times> dec) list \<Rightarrow> bool" where
  "results_ok S V rs \<longleftrightarrow> (\<forall>(mi, es, pr) \<in> set rs. pair_ok S (MarketInfo_GetSymbol mi) \<and> entries_ok S V (MarketInfo_GetSymbol mi) es) \<and>
     distinct (map (\<lambda>r. MarketInfo_GetSymbol (fst r)) rs)"

definition result_keys :: "(MarketInfo \<times> (string \<times> order) list \<times> dec) list \<Rightarrow> string set" where
  "result_keys rs = (\<Union>r \<in> set rs. keys_of (fst (snd r)))"

lemma result_keys_simps [simp]:
  "result_keys [] = {}" "result_keys (r # rs) = keys_of (fst (snd r)) \<union> result_keys rs"
  by (simp_all add: result_keys_def)

lemma results_ok_disjoint:
  assumes "results_ok S V ((mi, es, pr) # rs)"
  shows "keys_of es \<inter> result_keys rs = {}"
proof (rule ccontr)
  assume "keys_of es \<inter> result_keys rs \<noteq> {}"
  then obtain k r where k: "k \<in> keys_of es" "r \<in> set rs" "k \<in> keys_of (fst (snd r))"
    by (auto simp: result_keys_def)
  obtain mi' es' pr' where r: "r = (mi', es', pr')" by (cases r) auto
  have "entries_ok S V (MarketInfo_GetSymbol mi) es" "entries_ok S V (MarketInfo_GetSymbol mi') es'"
    and diff: "MarketInfo_GetSymbol mi \<noteq> MarketInfo_GetSymbol mi'"
    using assms k(2) r by (auto simp: results_ok_def image_iff)
  obtain x x' where "x \<in> set es" "fst x = k" "x' \<in> set es'" "fst x' = k"
    using k by (auto simp: r keys_of_def)
  then have "V k = Some (snd x)" "TradingPair (snd x) = MarketInfo_GetSymbol mi"
      "V k = Some (snd x')" "TradingPair (snd x') = MarketInfo_GetSymbol mi'"
    using \<open>entries_ok S V (MarketInfo_GetSymbol mi) es\<close> \<open>entries_ok S V (MarketInfo_GetSymbol mi') es'\<close>
    unfolding entries_ok_def by metis+
  then show False using diff by simp
qed

definition all_waiting ::
    "('b, 'y) cosmos_scheme \<Rightarrow> ('b \<Rightarrow> string \<Rightarrow> int) \<Rightarrow> ledger \<times> 'z \<Rightarrow> (addr \<Rightarrow> string \<Rightarrow> int) \<Rightarrow> market_params \<Rightarrow>
      (MarketInfo \<times> (string \<times> order) list \<times> dec) list \<Rightarrow> ('b, 'z) market_state_scheme \<Rightarrow> bool" where
  "all_waiting C tot T F p rs s \<longleftrightarrow> (\<exists>V. pend_inv C tot T F p V s \<and> results_ok C V rs \<and>
     (\<forall>oid. oid \<notin> result_keys rs \<longrightarrow> V oid = book (market_store s) oid))"

lemma SetMarket_run:
  "SetMarket mi s = (Ok (), s\<lparr>market_store := kv_set (marketStoreKey MarketIdentifierPrefix [MarketInfo_GetSymbol mi]) (VMarket mi) (market_store s)\<rparr>)"
  by (simp add: SetMarket_def store_set_def modify_def)

lemma wp_SetMarket: "wp (SetMarket mi) Q s =
    Q () (s\<lparr>market_store := kv_set (marketStoreKey MarketIdentifierPrefix [MarketInfo_GetSymbol mi]) (VMarket mi) (market_store s)\<rparr>)"
  by (simp add: wp_def SetMarket_run)

lemma pend_inv_SetMarket:
  assumes "pend_inv C tot T F p V s" and "pair_ok C (MarketInfo_GetSymbol mi)"
  shows "pend_inv C tot T F p V (s\<lparr>market_store := kv_set (marketStoreKey MarketIdentifierPrefix [MarketInfo_GetSymbol mi]) (VMarket mi) (market_store s)\<rparr>)"
  using assms store_ok_set_market [of C "market_store s" mi] minv_store [of C tot T "backing F V" "market_store s" p s]
  by (simp add: pend_inv_def book_set_other [OF other_keys(3)])

lemma wp_update_market:
  assumes C: "cosmos_ok C tot" and cet: "denom_valid C CET" and F: "\<And>a d. 0 \<le> F a d" and rng: "\<And>es. mset (rng es) = mset es"
    and P: "all_waiting C tot T F p (r # rs) s"
  shows "wp (update_market C sub rng ctx q r) (\<lambda>_. all_waiting C tot T F p rs) s"
proof -
  obtain mi es pr where r: "r = (mi, es, pr)" by (cases r) auto
  let ?symbol = "MarketInfo_GetSymbol mi"
  obtain V where inv: "pend_inv C tot T F p V s" and res: "results_ok C V (r # rs)"
    and off: "\<And>oid. oid \<notin> result_keys (r # rs) \<Longrightarrow> V oid = book (market_store s) oid"
    using P unfolding all_waiting_def by blast
  have mi: "pair_ok C ?symbol" "entries_ok C V ?symbol es" and rs: "results_ok C V rs"
    using res by (auto simp: results_ok_def r)
  have disj: "keys_of es \<inter> result_keys rs = {}" using results_ok_disjoint res r by metis
  have keys: "keys_of (rng es) = keys_of es" unfolding keys_of_def by (metis rng mset_eq_setD)
  have start: "waiting C tot T F p ?symbol (result_keys rs) V (rng es) s"
    unfolding waiting_def keys
    using inv mi(2) entries_ok_mset [OF rng [of es]] disj off by (intro exI [of _ V]) (auto simp: r)
  have fin: "all_waiting C tot T F p rs s'" if w: "waiting C tot T F p ?symbol (result_keys rs) V [] s'" for s'
  proof -
    obtain V' where V': "pend_inv C tot T F p V' s'" "\<forall>oid. oid \<notin> {} \<union> result_keys rs \<longrightarrow> V' oid = book (market_store s') oid"
        "\<forall>oid \<in> result_keys rs. V' oid = V oid"
      using w unfolding waiting_def keys_of_simps by metis
    have same: "V' k = V k" if "r \<in> set rs" "k \<in> keys_of (fst (snd r))" for r k
      using V'(3) that by (auto simp: result_keys_def)
    have "results_ok C V' rs"
      unfolding results_ok_def
    proof (intro conjI ballI)
      fix r
      assume r: "r \<in> set rs"
      then have ok: "pair_ok C (MarketInfo_GetSymbol (fst r)) \<and> entries_ok C V (MarketInfo_GetSymbol (fst r)) (fst (snd r))"
        using rs by (auto simp: results_ok_def)
      have "entries_ok C V' (MarketInfo_GetSymbol (fst r)) (fst (snd r))"
        by (rule entries_ok_cong [OF conjunct2 [OF ok]]) (rule same [OF r])
      with ok show "case r of (mi, es, pr) \<Rightarrow> pair_ok C (MarketInfo_GetSymbol mi) \<and> entries_ok C V' (MarketInfo_GetSymbol mi) es"
        by (simp add: case_prod_unfold)
    next
      show "distinct (map (\<lambda>r. MarketInfo_GetSymbol (fst r)) rs)" using rs by (simp add: results_ok_def)
    qed
    moreover have "\<forall>oid. oid \<notin> result_keys rs \<longrightarrow> V' oid = book (market_store s') oid" using V'(2) by simp
    ultimately show ?thesis using V'(1) unfolding all_waiting_def by metis
  qed
  have price: "all_waiting C tot T F p rs (s'\<lparr>market_store := kv_set (marketStoreKey MarketIdentifierPrefix [?symbol])
      (VMarket (mi\<lparr>mi_LastExecutedPrice := pr\<rparr>)) (market_store s')\<rparr>)" if "all_waiting C tot T F p rs s'" for s'
  proof -
    have sym: "MarketInfo_GetSymbol (mi\<lparr>mi_LastExecutedPrice := pr\<rparr>) = ?symbol" by (simp add: MarketInfo_GetSymbol_def)
    show ?thesis
      using that pend_inv_SetMarket [of C tot T F p _ s' "mi\<lparr>mi_LastExecutedPrice := pr\<rparr>"] mi(1)
      unfolding all_waiting_def sym by (auto simp: book_set_other [OF other_keys(3)])
  qed
  show ?thesis
  proof (cases "length es = 0")
    case True
    then have "all_waiting C tot T F p rs s" using inv rs off by (auto simp: all_waiting_def r)
    then show ?thesis using True by (simp add: update_market_def r wps)
  next
    case False
    have sym: "MarketInfo_GetSymbol (mi\<lparr>mi_LastExecutedPrice := pr\<rparr>) = ?symbol" by (simp add: MarketInfo_GetSymbol_def)
    have "wp (and_then (foreach (\<lambda>e. update_order C sub ctx q ?symbol (snd e)) (rng es))
        (\<lambda>_. whenever (pr \<noteq> 0) (SetMarket (mi\<lparr>mi_LastExecutedPrice := pr\<rparr>)))) (\<lambda>_. all_waiting C tot T F p rs) s"
      unfolding wp_then
      by (rule wp_mono [OF wp_update_orders [OF C cet F start]])
        (simp add: wp_whenever wp_SetMarket sym fin price)
    then show ?thesis using False by (simp add: update_market_def r wp_whenever)
  qed
qed

lemma wp_update_markets:
  assumes C: "cosmos_ok C tot" and cet: "denom_valid C CET" and F: "\<And>a d. 0 \<le> F a d" and rng: "\<And>es. mset (rng es) = mset es"
    and P: "all_waiting C tot T F p rs s"
  shows "wp (foreach (update_market C sub rng ctx q) rs) (\<lambda>_ s'. market_inv C tot T F s' \<and> market_params s' = p) s"
proof -
  have "wp (foreach (update_market C sub rng ctx q) rs) (\<lambda>_. all_waiting C tot T F p []) s"
    by (rule wp_foreach [where P = "all_waiting C tot T F p", OF _ P]) (rule wp_update_market [OF C cet F rng])
  then show ?thesis
    by (rule wp_mono) (auto simp: all_waiting_def dest: pend_market_inv)
qed

end
