(* ===== verification/MarketMatch.thy ===== *)
theory MarketMatch
  imports MarketBlock
begin

section \<open>Matching the markets of a block\<close>

text \<open>
  \<open>runMatch\<close> and the loop over the markets with new orders: they come to an end, and the orders they
  hand on are the ones whose coins moved.
\<close>

definition wpl :: "('s, 'a) lop \<Rightarrow> ('a \<Rightarrow> 's \<Rightarrow> bool) \<Rightarrow> 's \<Rightarrow> bool" where
  "wpl m Q s \<longleftrightarrow> (\<exists>r s'. m s = Some (r, s') \<and> (r = Panic \<or> (\<exists>a. r = Ok a \<and> Q a s')))"

lemma wpl_lop: "wp m Q s \<Longrightarrow> wpl (lop m) Q s"
  by (cases "m s"; cases "fst (m s)") (auto simp: wpl_def lop_def wp_def)

lemma wpl_then: "wpl m (\<lambda>a s'. wpl (f a) Q s') s \<Longrightarrow> wpl (lop_then m f) Q s"
  by (fastforce simp: wpl_def lop_then_def)

lemma wpl_mono: "wpl m Q s \<Longrightarrow> (\<And>a s'. Q a s' \<Longrightarrow> Q' a s') \<Longrightarrow> wpl m Q' s"
  by (fastforce simp: wpl_def)

lemma wpl_same: "m s = n s \<Longrightarrow> wpl n Q s \<Longrightarrow> wpl m Q s"
  by (simp add: wpl_def)

lemma wpl_return: "Q a s \<Longrightarrow> wpl (lop (return a)) Q s"
  by (simp add: wpl_def lop_def return_def)

lemma foldl_add_ioc:
  assumes "entries_ok S V symbol m"
    and "\<And>y. y \<in> set ys \<Longrightarrow> TradingPair y = symbol \<and> (OrderID S y \<notin> keys_of m \<longrightarrow> V (OrderID S y) = Some y)"
  shows "entries_ok S V symbol (foldl (add_ioc S) m ys) \<and> keys_of m \<subseteq> keys_of (foldl (add_ioc S) m ys) \<and>
    keys_of (foldl (add_ioc S) m ys) \<subseteq> keys_of m \<union> OrderID S ` set ys"
  using assms
proof (induction ys arbitrary: m)
  case Nil
  then show ?case by simp
next
  case (Cons y ys)
  let ?m = "add_ioc S m y"
  have y: "TradingPair y = symbol" "OrderID S y \<notin> keys_of m \<longrightarrow> V (OrderID S y) = Some y" using Cons.prems(2) [of y] by auto
  have m: "entries_ok S V symbol ?m" "keys_of m \<subseteq> keys_of ?m" "keys_of ?m \<subseteq> insert (OrderID S y) (keys_of m)"
    using Cons.prems(1) y by (auto simp: add_ioc_def entries_ok_def keys_of_def)
  have "TradingPair z = symbol \<and> (OrderID S z \<notin> keys_of ?m \<longrightarrow> V (OrderID S z) = Some z)" if "z \<in> set ys" for z
    using Cons.prems(2) [of z] that m(2) by auto
  from Cons.IH [OF m(1) this] m(2,3) show ?case by auto
qed

text \<open>The wrapped orders of a market at the start.\<close>

lemma deal_inv_start:
  assumes V: "orders_ok C V" and m: "minv C tot T (backing F V) st p s"
    and dist: "distinct (map (OrderID C) xs)" and xs: "\<And>x. x \<in> set xs \<Longrightarrow> V (OrderID C x) = Some x \<and> TradingPair x = symbol"
  shows "deal_inv C tot T F V xs st p {..<length xs} (s, \<lparr>wrapped = xs, changedOrders = [], lastPrice = pr\<rparr>)"
proof -
  have "overlay C V xs oid = V oid" for oid
  proof (cases "oid \<in> OrderID C ` set xs")
    case True
    then obtain i where "i < length xs" "oid = OrderID C (xs ! i)" by (metis imageE in_set_conv_nth)
    then show ?thesis using overlay_nth [OF dist, of i V] xs by simp
  qed (rule overlay_other)
  then have "overlay C V xs = V" by blast
  moreover have "order_wf C (xs ! i)" if "i < length xs" for i
    using orders_okD [OF V, of "OrderID C (xs ! i)" "xs ! i"] xs [of "xs ! i"] that by simp
  ultimately show ?thesis
    using V m dist xs by (auto simp: deal_inv_def same_fixed_refl)
qed

text \<open>What a finished match leaves waiting to be written back.\<close>

lemma deal_inv_changed:
  assumes inv: "deal_inv C tot T F V xs st p Os (s, d)"
    and xs: "\<And>x. x \<in> set xs \<Longrightarrow> V (OrderID C x) = Some x \<and> TradingPair x = symbol"
  defines "changed \<equiv> map (\<lambda>(k, i). (k, wrapped d ! i)) (changedOrders d)" and "V' \<equiv> overlay C V (wrapped d)"
  shows "entries_ok C V' symbol changed" and "oid \<notin> keys_of changed \<Longrightarrow> V' oid = V oid"
    and "keys_of changed \<subseteq> OrderID C ` set xs" and "V oid = Some y \<Longrightarrow> \<exists>y'. V' oid = Some y' \<and> same_fixed y' y"
    and "V oid = None \<Longrightarrow> V' oid = None"
proof -
  note D = deal_invD [OF inv]
  have dist: "distinct (map (OrderID C) (wrapped d))" using D(10,11) by simp
  have ids: "OrderID C (wrapped d ! i) = OrderID C (xs ! i)" if "i < length xs" for i
    using same_fixedD(6) [OF D(5) [OF that]] .
  have at: "V' (OrderID C (xs ! i)) = Some (wrapped d ! i)" if "i < length xs" for i
    using overlay_nth [OF dist, of i V] that D(2) ids by (simp add: V'_def)
  have off: "V' oid = V oid" if "oid \<notin> OrderID C ` set xs" for oid
  proof -
    have "OrderID C ` set (wrapped d) = OrderID C ` set xs" using arg_cong [OF D(11), of set] by simp
    then show ?thesis using that unfolding V'_def by (intro overlay_other) simp
  qed
  have keys: "map fst changed = map fst (changedOrders d)" by (auto simp: changed_def)
  have mem: "\<exists>i. (k, i) \<in> set (changedOrders d) \<and> x = wrapped d ! i \<and> i < length xs \<and> k = OrderID C (xs ! i)"
    if "(k, x) \<in> set changed" for k x
    using that D(8) unfolding changed_def by fastforce
  show "entries_ok C V' symbol changed"
    unfolding entries_ok_def
  proof (intro conjI ballI)
    show "distinct (map fst changed)" using D(7) unfolding keys .
    fix e
    assume "e \<in> set changed"
    then obtain i where i: "snd e = wrapped d ! i" "i < length xs" "fst e = OrderID C (xs ! i)"
      using mem [of "fst e" "snd e"] by auto
    then show "fst e = OrderID C (snd e)" "V' (fst e) = Some (snd e)" using ids at by auto
    show "TradingPair (snd e) = symbol" using i same_fixedD(5) [OF D(5) [OF i(2)]] xs [of "xs ! i"] by simp
  qed
  show "keys_of changed \<subseteq> OrderID C ` set xs" using mem by (force simp: keys_of_def)
  show "V' oid = V oid" if no: "oid \<notin> keys_of changed"
  proof (cases "oid \<in> OrderID C ` set xs")
    case True
    then obtain i where i: "i < length xs" "oid = OrderID C (xs ! i)" by (metis imageE in_set_conv_nth)
    have "i \<notin> snd ` set (changedOrders d)"
    proof
      assume "i \<in> snd ` set (changedOrders d)"
      then obtain k where k: "(k, i) \<in> set (changedOrders d)" by auto
      then have "k \<in> keys_of changed" unfolding keys_of_def changed_def by force
      moreover have "k = oid" using D(8) [OF k] i by simp
      ultimately show False using no by simp
    qed
    then have "wrapped d ! i = xs ! i" using D(9) i by simp
    then show ?thesis using at [OF i(1)] i xs [of "xs ! i"] by simp
  qed (rule off)
  show "\<exists>y'. V' oid = Some y' \<and> same_fixed y' y" if y: "V oid = Some y"
  proof (cases "oid \<in> OrderID C ` set xs")
    case True
    then obtain i where i: "i < length xs" "oid = OrderID C (xs ! i)" by (metis imageE in_set_conv_nth)
    then have "y = xs ! i" using xs [of "xs ! i"] y by simp
    then show ?thesis using at [OF i(1)] i D(5) by simp
  qed (use off y same_fixed_refl in auto)
  show "V' oid = None" if "V oid = None"
  proof -
    have "oid \<notin> OrderID C ` set xs" using xs that by force
    then show ?thesis using off that by simp
  qed
qed

text \<open>The result of \<open>runMatch\<close> on one market whose orders do not wait.\<close>

definition match_result ::
    "('b, 'y) cosmos_scheme \<Rightarrow> ('b \<Rightarrow> string \<Rightarrow> int) \<Rightarrow> ledger \<times> 'z \<Rightarrow> (addr \<Rightarrow> string \<Rightarrow> int) \<Rightarrow> market_params \<Rightarrow>
      string \<Rightarrow> (string \<Rightarrow> order option) \<Rightarrow> ('b, 'z) market_state_scheme \<Rightarrow> (string \<times> order) list \<times> dec \<Rightarrow>
      ('b, 'z) market_state_scheme \<Rightarrow> bool" where
  "match_result C tot T F p symbol V s = (\<lambda>(es, pr) s'. \<exists>V'. pend_inv C tot T F p V' s' \<and>
     book (market_store s') = book (market_store s) \<and> entries_ok C V' symbol es \<and>
     (\<forall>oid. oid \<notin> keys_of es \<longrightarrow> V' oid = V oid) \<and>
     (\<forall>oid \<in> keys_of es. \<exists>y. book (market_store s) oid = Some y \<and> TradingPair y = symbol))"

lemma filterCandidates_facts:
  "set (filterCandidates s xs stock money) \<subseteq> set xs" "distinct xs \<Longrightarrow> distinct (filterCandidates s xs stock money)"
  by (auto simp: filterCandidates_def)

lemma wpl_runMatch:
  assumes C: "cosmos_ok C tot" and F: "\<And>a d. 0 \<le> F a d" and G: "sorts_ok G"
    and inv: "pend_inv C tot T F p V s" and pair: "pair_ok C symbol"
    and fresh: "\<And>oid y. book (market_store s) oid = Some y \<Longrightarrow> TradingPair y = symbol \<Longrightarrow> V oid = Some y"
    and h: "0 \<le> h" "height_fits (h + 1)"
  shows "wpl (runMatch C G sha sub ctx mid ratio symbol h) (match_result C tot T F p symbol V s) s"
proof -
  let ?st = "market_store s"
  have store: "store_ok C ?st" and lv: "live (book ?st)" and V: "orders_ok C V" and m: "minv C tot T (backing F V) ?st p s"
    and rel: "rel_option same_fixed (V oid) (book ?st oid)" for oid
    using inv by (simp_all add: pend_inv_def)
  note bok = store_okD(1) [OF store]
  obtain stock money where split: "SplitSymbol symbol = Ok (stock, money)" using pair by (auto simp: pair_ok_def)
  have sym0: "byte 0 \<notin> set symbol" using pair by (simp add: pair_ok_def)
  define st1 where "st1 = kv_delete (NewlyAddedKeyPrefix @ symbol) ?st"
  define s1 where "s1 = s\<lparr>market_store := st1\<rparr>"
  obtain cs where cs: "GetMatchingCandidates symbol s = (Ok cs, s1)" "distinct cs"
    "set cs = {x. on_book C ?st symbol x \<and> (\<exists>y. on_book C ?st symbol y \<and> meets x y)}"
    using GetMatchingCandidates_run [OF bok sym0] unfolding s1_def st1_def by blast
  have b1: "book st1 = book ?st" unfolding st1_def by (simp add: book_delete_other other_keys)
  have store1: "store_ok C st1" unfolding st1_def by (rule store_ok_delete_other) (simp_all add: other_keys store)
  define xs where "xs = filterCandidates s1 cs stock money"
  have xs: "on_book C ?st symbol x" if "x \<in> set xs" for x
    using that cs(3) filterCandidates_facts(1) unfolding xs_def by blast
  have xsV: "V (OrderID C x) = Some x \<and> TradingPair x = symbol" if "x \<in> set xs" for x
    using xs [OF that] fresh by (simp add: on_book_def)
  have "distinct xs" unfolding xs_def by (rule filterCandidates_facts(2) [OF cs(2)])
  then have dist: "distinct (map (OrderID C) xs)"
    unfolding distinct_map by (intro conjI inj_onI) (metis option.sel xsV)+
  define d0 where "d0 = \<lparr>wrapped = xs, changedOrders = [], lastPrice = NewDec C 0\<rparr>"
  have m1: "minv C tot T (backing F V) st1 p s1" unfolding s1_def by (rule minv_store [OF m])
  have "deal_inv C tot T F V xs st1 p {..<length xs} (s1, d0)"
    unfolding d0_def by (rule deal_inv_start [OF V m1 dist xsV])
  then have einv: "engine_inv C tot T F V xs st1 p {..<length xs} (s1, d0)" using C F by (simp add: engine_inv_def)
  let ?I = "wrapped_order C sha sub ctx :: (('a, 'd) market_state_scheme \<times> deal_info) order_iface"
  define bl where "bl = filter (\<lambda>i. Side (xs ! i) = BID) [0..<length xs]"
  define al where "al = filter (\<lambda>i. Side (xs ! i) \<noteq> BID) [0..<length xs]"
  define lowP where "lowP = dec_Quo C (dec_Mul C mid (NewDec C (i64 (100 - ratio)))) (NewDec C 100)"
  define highP where "highP = dec_Quo C (dec_Mul C mid (NewDec C (i64 (100 + ratio)))) (NewDec C 100)"
  have side: "GetSide ?I (s1, d0) i = Side (xs ! i)" for i by (simp add: wrapped_order_def d0_def)
  have wf: "order_wf C (xs ! i) \<and> 0 < LeftStock (xs ! i)" if "i < length xs" for i
    using xs [of "xs ! i"] xsV [of "xs ! i"] orders_okD [OF V] lv that by (auto simp: on_book_def live_def)
  have two: "Side (xs ! i) = ASK" if "i < length xs" "Side (xs ! i) \<noteq> BID" for i
    using wf [OF that(1)] that(2) order_wfD(1) by (fastforce simp: order_ok_def)
  obtain r sd' where run: "Match G ?I highP mid lowP bl al (s1, d0) = Some (r, sd')"
    and r: "r = Panic \<or> (\<exists>bl' al'. r = Ok (bl', al') \<and> engine_inv C tot T F V xs st1 p {..<length xs} sd')"
  proof -
    have "set (bl @ al) \<subseteq> {..<length xs}" "distinct (bl @ al)" by (auto simp: bl_def al_def)
    moreover have "\<forall>x \<in> set bl. GetSide ?I (s1, d0) x = BID" by (simp add: side bl_def)
    moreover have "\<forall>x \<in> set al. GetSide ?I (s1, d0) x = ASK" using two by (simp add: side al_def)
    moreover have "\<forall>x \<in> set (bl @ al). 0 < GetAmount ?I (s1, d0) x"
      using wf by (auto simp: bl_def al_def d0_def GetAmount_wf [OF cosmos_okD(4) [OF C]])
    ultimately show thesis
      using wo.Match_spec [OF einv G, of bl al sha sub ctx highP mid lowP] that by blast
  qed
  obtain s2 d where sd: "sd' = (s2, d)" by (cases sd')
  have runM: "runMatch C G sha sub ctx mid ratio symbol h s =
      (case Match G ?I highP mid lowP bl al (s1, d0) of
        None \<Rightarrow> None
      | Some (Panic, (s', d')) \<Rightarrow> Some (Panic, s')
      | Some (Err e, (s', d')) \<Rightarrow> Some (Err e, s')
      | Some (Ok left, (s', d')) \<Rightarrow>
          let changed = map (\<lambda>(k, i). (k, wrapped d' ! i)) (changedOrders d')
          in Some (ret_map (\<lambda>xs. (foldl (add_ioc C) changed xs, lastPrice d'))
               (ret_bind (GetOrdersAtHeight symbol h s') deref), s'))"
    by (simp add: runMatch_def lop_then_def lop_def lift_def split cs(1) Let_def d0_def xs_def bl_def al_def lowP_def highP_def)
  show ?thesis
  proof (cases "r = Panic")
    case True
    then show ?thesis by (simp add: wpl_def runM run sd)
  next
    case False
    then obtain bl' al' where r': "r = Ok (bl', al')" and einv2: "engine_inv C tot T F V xs st1 p {..<length xs} sd'"
      using r by blast
    have dinv: "deal_inv C tot T F V xs st1 p {..<length xs} (s2, d)" using einv2 by (simp add: engine_inv_def sd)
    note D = deal_invD [OF dinv]
    define V' where "V' = overlay C V (wrapped d)"
    define changed where "changed = map (\<lambda>(k, i). (k, wrapped d ! i)) (changedOrders d)"
    note ch = deal_inv_changed [OF dinv xsV, folded changed_def V'_def]
    have st2: "market_store s2 = st1" by (rule minvD(4) [OF D(3)])
    obtain ys where ys: "GetOrdersAtHeight symbol h s2 = Ok (map Some ys)"
      "set ys = {x. on_book C st1 symbol x \<and> Height x = h}"
      using GetOrdersAtHeight_exact [of C s2 symbol h] store_okD(1) [OF store1] sym0 h unfolding st2 by blast
    have onb: "on_book C ?st symbol y" if "y \<in> set ys" for y using that ys(2) by (simp add: on_book_def b1)
    define es where "es = foldl (add_ioc C) changed ys"
    have es: "entries_ok C V' symbol es" "keys_of changed \<subseteq> keys_of es" "keys_of es \<subseteq> keys_of changed \<union> OrderID C ` set ys"
    proof -
      have "TradingPair y = symbol \<and> (OrderID C y \<notin> keys_of changed \<longrightarrow> V' (OrderID C y) = Some y)" if "y \<in> set ys" for y
        using onb [OF that] fresh ch(2) [of "OrderID C y"] by (simp add: on_book_def)
      from foldl_add_ioc [OF ch(1) this] show "entries_ok C V' symbol es" "keys_of changed \<subseteq> keys_of es"
        "keys_of es \<subseteq> keys_of changed \<union> OrderID C ` set ys" by (simp_all add: es_def)
    qed
    have "match_result C tot T F p symbol V s (es, lastPrice d) s2"
      unfolding match_result_def prod.case
    proof (intro exI [of _ V'] conjI allI ballI impI)
      have "rel_option same_fixed (V' oid) (book st1 oid)" for oid
        using rel [of oid] ch(4,5) [of oid] unfolding b1
        by (cases "V oid"; cases "book ?st oid") (auto simp: same_fixed_def same_place_def)
      then show "pend_inv C tot T F p V' s2"
        using store1 lv D(3,4) unfolding pend_inv_def st2 V'_def b1 by simp
      show "book (market_store s2) = book ?st" unfolding st2 by (rule b1)
      show "entries_ok C V' symbol es" by (rule es(1))
      show "V' oid = V oid" if "oid \<notin> keys_of es" for oid
        using that es(2) by (intro ch(2)) auto
      show "\<exists>y. book ?st oid = Some y \<and> TradingPair y = symbol" if "oid \<in> keys_of es" for oid
        using that es(3) ch(3) onb xs by (fastforce simp: on_book_def)
    qed
    then show ?thesis
      unfolding wpl_def runM run sd r' using ys(1)
      by (simp add: deref_Some Let_def es_def changed_def)
  qed
qed

text \<open>The loop over the markets.\<close>

definition all_results ::
    "('b, 'y) cosmos_scheme \<Rightarrow> ('b \<Rightarrow> string \<Rightarrow> int) \<Rightarrow> ledger \<times> 'z \<Rightarrow> (addr \<Rightarrow> string \<Rightarrow> int) \<Rightarrow> market_params \<Rightarrow>
      MarketInfo list \<Rightarrow> (string \<Rightarrow> order option) \<Rightarrow> ('b, 'z) market_state_scheme \<Rightarrow>
      (MarketInfo \<times> (string \<times> order) list \<times> dec) list \<Rightarrow> ('b, 'z) market_state_scheme \<Rightarrow> bool" where
  "all_results C tot T F p mis V s = (\<lambda>rs s'. \<exists>V'. pend_inv C tot T F p V' s' \<and>
     book (market_store s') = book (market_store s) \<and> results_ok C V' rs \<and> map fst rs = mis \<and>
     (\<forall>oid. oid \<notin> result_keys rs \<longrightarrow> V' oid = V oid) \<and>
     (\<forall>oid \<in> result_keys rs. \<exists>y. book (market_store s) oid = Some y \<and> TradingPair y \<in> MarketInfo_GetSymbol ` set mis))"

lemma all_results_Cons:
  assumes V1: "book (market_store s1) = book (market_store s)"
      "entries_ok C V1 (MarketInfo_GetSymbol mi) es" "\<And>oid. oid \<notin> keys_of es \<Longrightarrow> V1 oid = V oid"
      "\<And>oid. oid \<in> keys_of es \<Longrightarrow> \<exists>y. book (market_store s) oid = Some y \<and> TradingPair y = MarketInfo_GetSymbol mi"
    and rest: "all_results C tot T F p mis V1 s1 rs s2"
    and pair: "pair_ok C (MarketInfo_GetSymbol mi)" and new: "MarketInfo_GetSymbol mi \<notin> MarketInfo_GetSymbol ` set mis"
  shows "all_results C tot T F p (mi # mis) V s ((mi, es, pr) # rs) s2"
proof -
  let ?symbol = "MarketInfo_GetSymbol mi"
  obtain V2 where V2: "pend_inv C tot T F p V2 s2" "book (market_store s2) = book (market_store s1)"
      "results_ok C V2 rs" "map fst rs = mis" "\<And>oid. oid \<notin> result_keys rs \<Longrightarrow> V2 oid = V1 oid"
      "\<And>oid. oid \<in> result_keys rs \<Longrightarrow> \<exists>y. book (market_store s1) oid = Some y \<and> TradingPair y \<in> MarketInfo_GetSymbol ` set mis"
    using rest unfolding all_results_def by metis
  have disj: "oid \<notin> result_keys rs" if "oid \<in> keys_of es" for oid
    using V1(4) [OF that] V2(6) [of oid] V1(1) new by auto
  have "entries_ok C V2 ?symbol es"
    by (rule entries_ok_cong [OF V1(2)]) (use V2(5) disj in blast)
  then have res: "results_ok C V2 ((mi, es, pr) # rs)"
  proof -
    have "?symbol \<notin> set (map (\<lambda>r. MarketInfo_GetSymbol (fst r)) rs)"
      using new unfolding V2(4) [symmetric] by (simp add: image_image)
    moreover have "entries_ok C V2 ?symbol es" by fact
    ultimately show ?thesis using V2(3) pair by (simp add: results_ok_def)
  qed
  show ?thesis
    unfolding all_results_def
  proof (intro exI [of _ V2] conjI allI ballI impI)
    show "pend_inv C tot T F p V2 s2" "results_ok C V2 ((mi, es, pr) # rs)" by (rule V2(1), rule res)
    show "book (market_store s2) = book (market_store s)" using V1(1) V2(2) by simp
    show "map fst ((mi, es, pr) # rs) = mi # mis" using V2(4) by simp
    show "V2 oid = V oid" if "oid \<notin> result_keys ((mi, es, pr) # rs)" for oid
      using that V1(3) [of oid] V2(5) [of oid] by simp
    show "\<exists>y. book (market_store s) oid = Some y \<and> TradingPair y \<in> MarketInfo_GetSymbol ` set (mi # mis)"
      if "oid \<in> result_keys ((mi, es, pr) # rs)" for oid
      using that V1(4) [of oid] V2(6) [of oid] V1(1) by auto
  qed
qed

lemma wpl_match_markets:
  assumes C: "cosmos_ok C tot" and F: "\<And>a d. 0 \<le> F a d" and G: "sorts_ok G"
    and h: "0 \<le> BlockHeight ctx" "height_fits (BlockHeight ctx + 1)"
  shows "pend_inv C tot T F p V s \<Longrightarrow> (\<And>mi. mi \<in> set mis \<Longrightarrow> pair_ok C (MarketInfo_GetSymbol mi)) \<Longrightarrow>
    distinct (map MarketInfo_GetSymbol mis) \<Longrightarrow>
    (\<And>oid y. book (market_store s) oid = Some y \<Longrightarrow> TradingPair y \<in> MarketInfo_GetSymbol ` set mis \<Longrightarrow> V oid = Some y) \<Longrightarrow>
    wpl (match_markets C G sha sub ctx ratio mis) (all_results C tot T F p mis V s) s"
proof (induction mis arbitrary: V s)
  case Nil
  then show ?case by (auto simp: all_results_def results_ok_def intro!: wpl_return)
next
  case (Cons mi mis)
  let ?symbol = "MarketInfo_GetSymbol mi"
  have pair: "pair_ok C ?symbol" and new: "?symbol \<notin> MarketInfo_GetSymbol ` set mis"
    using Cons.prems(2,3) by auto
  let ?m = "\<lambda>s. if IsTokenForbidden s (mi_Stock mi) \<or> IsTokenForbidden s (mi_Money mi) then Some (Ok ([], 0), s)
    else runMatch C G sha sub ctx (mi_LastExecutedPrice mi) ratio ?symbol (BlockHeight ctx) s"
  have one: "wpl ?m (match_result C tot T F p ?symbol V s) s"
  proof (cases "IsTokenForbidden s (mi_Stock mi) \<or> IsTokenForbidden s (mi_Money mi)")
    case True
    have "match_result C tot T F p ?symbol V s ([], 0) s"
      using Cons.prems(1) by (auto simp: match_result_def entries_ok_def)
    then show ?thesis using True by (auto simp: wpl_def)
  next
    case False
    have "wpl (runMatch C G sha sub ctx (mi_LastExecutedPrice mi) ratio ?symbol (BlockHeight ctx)) (match_result C tot T F p ?symbol V s) s"
      by (rule wpl_runMatch [OF C F G Cons.prems(1) pair _ h]) (rule Cons.prems(4), auto)
    then show ?thesis by (rule wpl_same [rotated]) (use False in simp)
  qed
  show ?case
    unfolding match_markets.simps
  proof (rule wpl_then, rule wpl_mono [OF one])
    fix r s1
    assume r: "match_result C tot T F p ?symbol V s r s1"
    obtain es pr where r': "r = (es, pr)" by (cases r)
    obtain V1 where V1: "pend_inv C tot T F p V1 s1" "book (market_store s1) = book (market_store s)"
        "entries_ok C V1 ?symbol es" "\<And>oid. oid \<notin> keys_of es \<Longrightarrow> V1 oid = V oid"
        "\<And>oid. oid \<in> keys_of es \<Longrightarrow> \<exists>y. book (market_store s) oid = Some y \<and> TradingPair y = ?symbol"
      using r unfolding match_result_def r' prod.case by metis
    have rest: "wpl (match_markets C G sha sub ctx ratio mis) (all_results C tot T F p mis V1 s1) s1"
    proof (rule Cons.IH [OF V1(1)])
      show "pair_ok C (MarketInfo_GetSymbol mi')" if "mi' \<in> set mis" for mi' using that Cons.prems(2) by simp
      show "distinct (map MarketInfo_GetSymbol mis)" using Cons.prems(3) by simp
      fix oid y
      assume y: "book (market_store s1) oid = Some y" "TradingPair y \<in> MarketInfo_GetSymbol ` set mis"
      have "oid \<notin> keys_of es"
      proof
        assume "oid \<in> keys_of es"
        with V1(5) y(1) V1(2) have "TradingPair y = ?symbol" by (metis option.inject)
        with y(2) new show False by simp
      qed
      then show "V1 oid = Some y" using V1(4) Cons.prems(4) [of oid y] y V1(2) by auto
    qed
    show "wpl (lop_then (match_markets C G sha sub ctx ratio mis) (\<lambda>rs. lop (return ((mi, r) # rs))))
        (all_results C tot T F p (mi # mis) V s) s1"
    proof (rule wpl_then, rule wpl_mono [OF rest])
      fix rs s2
      assume rs: "all_results C tot T F p mis V1 s1 rs s2"
      show "wpl (lop (return ((mi, r) # rs))) (all_results C tot T F p (mi # mis) V s) s2"
        unfolding r' by (rule wpl_return, rule all_results_Cons [OF V1(2-5) rs pair new])
    qed
  qed
qed

end
