(* ===== verification/MarketClean.thy ===== *)
theory MarketClean
  imports MarketBlock
begin

section \<open>The daily clean-up\<close>

text \<open>
  What the clean-up block of \<open>endblocker.go\<close> removes, exactly: expired orders, the orders of the
  markets whose delist time has come, those markets and their requests; and that it keeps the
  invariant, so that every coin frozen for a removed order is free again.
\<close>

subsection \<open>What a step of the clean-up removes\<close>

text \<open>The book without the orders that have a property.\<close>

definition strike :: "(order \<Rightarrow> bool) \<Rightarrow> (string \<Rightarrow> order option) \<Rightarrow> string \<Rightarrow> order option" where
  "strike D m oid = (case m oid of None \<Rightarrow> None | Some x \<Rightarrow> if D x then None else Some x)"

lemma strike_none [simp]: "strike (\<lambda>x. False) m = m"
  by (auto simp: strike_def fun_eq_iff split: option.split)

lemma strike_strike: "strike D' (strike D m) = strike (\<lambda>x. D x \<or> D' x) m"
  by (auto simp: strike_def fun_eq_iff split: option.split)

lemma strike_Some: "strike D m oid = Some x \<longleftrightarrow> m oid = Some x \<and> \<not> D x"
  by (auto simp: strike_def split: option.split)

lemma strike_cong: "(\<And>oid x. m oid = Some x \<Longrightarrow> D x = D' x) \<Longrightarrow> strike D m = strike D' m"
  by (auto simp: strike_def fun_eq_iff split: option.split)

text \<open>
  From \<open>s\<close> to \<open>s'\<close> exactly the orders with \<open>D\<close> left the book, and of the keys of markets and delist
  requests exactly those in \<open>K\<close> were deleted.
\<close>

definition cleaned ::
    "('b, 'y) cosmos_scheme \<Rightarrow> ('b \<Rightarrow> string \<Rightarrow> int) \<Rightarrow> ledger \<times> 'z \<Rightarrow> (addr \<Rightarrow> string \<Rightarrow> int) \<Rightarrow>
      (order \<Rightarrow> bool) \<Rightarrow> string set \<Rightarrow> ('b, 'z) market_state_scheme \<Rightarrow> ('b, 'z) market_state_scheme \<Rightarrow> bool" where
  "cleaned C tot T F D K s s' \<longleftrightarrow> market_inv C tot T F s' \<and> market_params s' = market_params s \<and>
     book (market_store s') = strike D (book (market_store s)) \<and>
     (\<forall>k. \<not> order_key k \<longrightarrow> kv_get (market_store s') k = (if k \<in> K then None else kv_get (market_store s) k))"

lemma cleanedD:
  assumes "cleaned C tot T F D K s s'"
  shows "market_inv C tot T F s'" and "market_params s' = market_params s"
    and "book (market_store s') = strike D (book (market_store s))"
    and "\<not> order_key k \<Longrightarrow> kv_get (market_store s') k = (if k \<in> K then None else kv_get (market_store s) k)"
  using assms by (simp_all add: cleaned_def)

lemma cleaned_refl: "market_inv C tot T F s \<Longrightarrow> cleaned C tot T F (\<lambda>x. False) {} s s"
  by (simp add: cleaned_def)

lemma cleaned_trans:
  assumes "cleaned C tot T F D K s s1" and "cleaned C tot T F D' K' s1 s2"
  shows "cleaned C tot T F (\<lambda>x. D x \<or> D' x) (K \<union> K') s s2"
  using assms by (auto simp: cleaned_def strike_strike)

lemma cleaned_cong:
  assumes "cleaned C tot T F D K s s'" and "\<And>oid x. book (market_store s) oid = Some x \<Longrightarrow> D x = D' x" and "K = K'"
  shows "cleaned C tot T F D' K' s s'"
  using assms(1,3) strike_cong [of "book (market_store s)" D D', OF assms(2)] by (simp add: cleaned_def)

lemma market_invD:
  assumes "market_inv C tot T F s"
  shows "store_ok C (market_store s)" and "live (book (market_store s))" and "orders_ok C (book (market_store s))"
    and "minv C tot T (backing F (book (market_store s))) (market_store s) (market_params s) s"
  using assms by (simp_all add: market_inv_def)

lemma get_drop_other: "\<not> order_key k \<Longrightarrow> kv_get (drop_order S x st) k = kv_get st k"
  using order_keys by (auto simp: drop_order_def)

lemma strike_one:
  assumes V: "orders_ok S m" and x: "m oid = Some x"
  shows "strike (\<lambda>y. y = x) m = m(oid := None)"
proof (rule ext)
  fix k
  have "k = oid" if "m k = Some x" using orders_okD [OF V that] orders_okD [OF V x] by simp
  then show "strike (\<lambda>y. y = x) m k = (m(oid := None)) k"
    using x by (cases "k = oid") (auto simp: strike_def split: option.split)
qed

text \<open>Removing one order of the book.\<close>

lemma wp_cancel:
  assumes C: "cosmos_ok C tot" and cet: "denom_valid C CET" and F: "\<And>a d. 0 \<le> F a d"
    and inv: "market_inv C tot T F s" and x: "on_book C (market_store s) symbol x"
  shows "wp (and_then (removeOrder C ctx symbol x q) (\<lambda>_. send_cancel C sub ctx x why q))
    (\<lambda>_ s'. cleaned C tot T F (\<lambda>y. y = x) {} s s') s"
proof -
  let ?st = "market_store s" and ?k = "OrderID C x"
  have b: "book ?st ?k = Some x" and sym: "TradingPair x = symbol" using x by (simp_all add: on_book_def)
  note V = market_invD(3) [OF inv]
  have ok: "order_ok x" by (rule on_book_ok [OF store_okD(1) [OF market_invD(1) [OF inv]] x])
  have rem: "wp (removeOrder C ctx symbol x q)
      (\<lambda>_. minv C tot T (backing F ((book ?st)(?k := None))) (drop_order C x ?st) (market_params s)) s"
    by (rule wp_removeOrder [OF C cet F market_invD(4) [OF inv] V b b sym])
  have fin: "cleaned C tot T F (\<lambda>y. y = x) {} s s'"
    if m: "minv C tot T (backing F ((book ?st)(?k := None))) (drop_order C x ?st) (market_params s) s'" for s'
  proof -
    have ms: "market_store s' = drop_order C x ?st" "market_params s' = market_params s" by (rule minvD [OF m])+
    have "store_ok C (drop_order C x ?st)"
      by (rule store_ok_drop [OF market_invD(1) [OF inv] ok]) (use b in \<open>auto simp: same_place_def\<close>)
    then have "market_inv C tot T F s'"
      unfolding market_inv_def ms book_drop
      using m orders_ok_del [OF V] market_invD(2) [OF inv] by (auto simp: live_def)
    moreover have "(book ?st)(?k := None) = strike (\<lambda>y. y = x) (book ?st)"
      using strike_one [OF V b] by simp
    ultimately show ?thesis by (simp add: cleaned_def ms book_drop get_drop_other)
  qed
  show ?thesis
    unfolding wp_then by (rule wp_mono [OF rem], rule wp_mono [OF wp_send_cancel], assumption, rule fin)
qed

text \<open>A loop that removes the orders of a list that have a property.\<close>

lemma wp_cancel_loop:
  assumes C: "cosmos_ok C tot" and cet: "denom_valid C CET" and F: "\<And>a d. 0 \<le> F a d"
    and inv: "market_inv C tot T F s" and xs: "\<And>x. x \<in> set xs \<Longrightarrow> on_book C (market_store s) symbol x" "distinct xs"
  shows "wp (foreach (\<lambda>x. whenever (E x) (and_then (removeOrder C ctx symbol x q) (\<lambda>_. send_cancel C sub ctx x why q))) xs)
    (\<lambda>_ s'. cleaned C tot T F (\<lambda>y. y \<in> set xs \<and> E y) {} s s') s"
proof -
  define P where "P = (\<lambda>rest s'. \<exists>pre. xs = pre @ rest \<and> cleaned C tot T F (\<lambda>y. y \<in> set pre \<and> E y) {} s s')"
  have step: "wp (whenever (E x) (and_then (removeOrder C ctx symbol x q) (\<lambda>_. send_cancel C sub ctx x why q)))
      (\<lambda>_. P rest) s1" if P: "P (x # rest) s1" for x rest s1
  proof -
    obtain pre where pre: "xs = (pre @ [x]) @ rest" and cl: "cleaned C tot T F (\<lambda>y. y \<in> set pre \<and> E y) {} s s1"
      using P by (auto simp: P_def)
    have new: "x \<notin> set pre" using xs(2) pre by simp
    have on: "on_book C (market_store s1) symbol x"
      using xs(1) [of x] pre new by (simp add: on_book_def cleanedD(3) [OF cl] strike_Some)
    have stepped: "P rest s2" if "cleaned C tot T F (\<lambda>y. y = x) {} s1 s2" "E x" for s2
      unfolding P_def
    proof (intro exI conjI)
      show "cleaned C tot T F (\<lambda>y. y \<in> set (pre @ [x]) \<and> E y) {} s s2"
        by (rule cleaned_cong [OF cleaned_trans [OF cl that(1)]]) (use that(2) in auto)
    qed (rule pre)
    have skip: "P rest s1" if "\<not> E x"
      unfolding P_def
    proof (intro exI conjI)
      show "cleaned C tot T F (\<lambda>y. y \<in> set (pre @ [x]) \<and> E y) {} s s1"
        by (rule cleaned_cong [OF cl]) (use that in auto)
    qed (rule pre)
    show ?thesis
      unfolding wp_whenever
      using skip wp_mono [OF wp_cancel [OF C cet F cleanedD(1) [OF cl] on], of "\<lambda>_. P rest"] stepped by simp
  qed
  have "P xs s" unfolding P_def using cleaned_refl [OF inv] by (intro exI [of _ "[]"]) simp
  then have "wp (foreach (\<lambda>x. whenever (E x) (and_then (removeOrder C ctx symbol x q) (\<lambda>_. send_cancel C sub ctx x why q))) xs)
      (\<lambda>_. P []) s"
    by (intro wp_foreach [where P = P]) (rule step)
  then show ?thesis by (rule wp_mono) (auto simp: P_def)
qed

subsection \<open>Expired orders\<close>

definition is_expired :: "ctx \<Rightarrow> order \<Rightarrow> bool" where
  "is_expired ctx x \<longleftrightarrow> Height x < BlockHeight ctx \<and> \<not> i64 (Height x + ExistBlocks x) > BlockHeight ctx"

lemma on_book_market: "on_book C st symbol x \<Longrightarrow> TradingPair x = symbol"
  by (simp add: on_book_def)

lemma pair_okD: "pair_ok S symbol \<Longrightarrow> byte 0 \<notin> set symbol"
  by (simp add: pair_ok_def)

lemma on_book_of:
  assumes "market_inv C tot T F s" and "book (market_store s) oid = Some x" and "TradingPair x = symbol"
  shows "on_book C (market_store s) symbol x"
  using orders_okD [OF market_invD(3) [OF assms(1)] assms(2)] assms(2,3) by (simp add: on_book_def)

text \<open>A loop over the orders older than a height.\<close>

lemma wp_cancel_older:
  assumes C: "cosmos_ok C tot" and cet: "denom_valid C CET" and F: "\<And>a d. 0 \<le> F a d"
    and inv: "market_inv C tot T F s" and pair: "pair_ok C symbol" and h: "height_fits h"
  shows "wp (and_then (lift (ret_bind (GetOlderThan symbol h s) deref))
      (foreach (\<lambda>x. whenever (E x) (and_then (removeOrder C ctx symbol x q) (\<lambda>_. send_cancel C sub ctx x why q)))))
    (\<lambda>_ s'. cleaned C tot T F (\<lambda>y. TradingPair y = symbol \<and> Height y < h \<and> E y) {} s s') s"
proof -
  have book_ok: "book_ok C (market_store s)" by (rule store_okD(1) [OF market_invD(1) [OF inv]])
  obtain xs where xs: "GetOlderThan symbol h s = Ok (map Some xs)" "distinct xs"
      "set xs = {x. on_book C (market_store s) symbol x \<and> Height x < h}"
    using GetOlderThan_exact [OF book_ok pair_okD [OF pair] h] by blast
  have loop: "wp (foreach (\<lambda>x. whenever (E x) (and_then (removeOrder C ctx symbol x q) (\<lambda>_. send_cancel C sub ctx x why q))) xs)
      (\<lambda>_ s'. cleaned C tot T F (\<lambda>y. y \<in> set xs \<and> E y) {} s s') s"
    by (rule wp_cancel_loop [OF C cet F inv _ xs(2)]) (simp add: xs(3))
  have "cleaned C tot T F (\<lambda>y. TradingPair y = symbol \<and> Height y < h \<and> E y) {} s s'"
    if "cleaned C tot T F (\<lambda>y. y \<in> set xs \<and> E y) {} s s'" for s'
    by (rule cleaned_cong [OF that _ refl]) (auto simp: xs(3) on_book_market intro: on_book_of [OF inv])
  then show ?thesis
    unfolding wp_then wp_lift xs(1) by (simp add: deref_Some wp_mono [OF loop])
qed

lemma wp_removeExpiredOrder_in:
  assumes C: "cosmos_ok C tot" and cet: "denom_valid C CET" and F: "\<And>a d. 0 \<le> F a d"
    and inv: "market_inv C tot T F s" and pair: "pair_ok C (MarketInfo_GetSymbol mi)" and h: "height_fits (BlockHeight ctx)"
  shows "wp (removeExpiredOrder_in C sub ctx q mi)
    (\<lambda>_ s'. cleaned C tot T F (\<lambda>y. TradingPair y = MarketInfo_GetSymbol mi \<and> is_expired ctx y) {} s s') s"
  unfolding removeExpiredOrder_in_def is_expired_def
  by (rule wp_same [OF _ wp_cancel_older [OF C cet F inv pair h,
        where E = "\<lambda>x. \<not> i64 (Height x + ExistBlocks x) > BlockHeight ctx"]]) (rule refl)

lemma wp_removeExpiredOrder:
  assumes C: "cosmos_ok C tot" and cet: "denom_valid C CET" and F: "\<And>a d. 0 \<le> F a d"
    and inv: "market_inv C tot T F s" and h: "height_fits (BlockHeight ctx)"
    and pairs: "\<And>mi. mi \<in> set mis \<Longrightarrow> pair_ok C (MarketInfo_GetSymbol mi)"
  shows "wp (removeExpiredOrder C sub ctx mis q)
    (\<lambda>_ s'. cleaned C tot T F (\<lambda>y. TradingPair y \<in> MarketInfo_GetSymbol ` set mis \<and> is_expired ctx y) {} s s') s"
proof -
  let ?D = "\<lambda>mis y. TradingPair y \<in> MarketInfo_GetSymbol ` set mis \<and> is_expired ctx y"
  define P where "P = (\<lambda>rest s'. \<exists>pre. mis = pre @ rest \<and> cleaned C tot T F (?D pre) {} s s')"
  have step: "wp (removeExpiredOrder_in C sub ctx q mi) (\<lambda>_. P rest) s1" if P: "P (mi # rest) s1" for mi rest s1
  proof -
    obtain pre where pre: "mis = (pre @ [mi]) @ rest" and cl: "cleaned C tot T F (?D pre) {} s s1"
      using P by (auto simp: P_def)
    have stepped: "P rest s2" if "cleaned C tot T F (\<lambda>y. TradingPair y = MarketInfo_GetSymbol mi \<and> is_expired ctx y) {} s1 s2" for s2
      unfolding P_def
    proof (intro exI conjI)
      show "cleaned C tot T F (?D (pre @ [mi])) {} s s2" by (rule cleaned_cong [OF cleaned_trans [OF cl that]]) auto
    qed (rule pre)
    show ?thesis
      by (rule wp_mono [OF wp_removeExpiredOrder_in [OF C cet F cleanedD(1) [OF cl] pairs h]], simp add: pre, rule stepped)
  qed
  have "P mis s" unfolding P_def using cleaned_refl [OF inv] by (intro exI [of _ "[]"]) simp
  then have "wp (removeExpiredOrder C sub ctx mis q) (\<lambda>_. P []) s"
    unfolding removeExpiredOrder_def by (intro wp_foreach [where P = P]) (rule step)
  then show ?thesis by (rule wp_mono) (auto simp: P_def)
qed

subsection \<open>Delisted markets\<close>

definition market_key :: "string \<Rightarrow> string" where
  "market_key symbol = marketStoreKey MarketIdentifierPrefix [symbol]"

lemma not_order_key: "\<not> order_key (market_key symbol)" "\<not> order_key (delist_key t symbol)"
  by (simp_all add: order_key_def market_key_def marketStoreKey_def delist_key_def DelistKey_def MarketIdentifierPrefix_def)

lemma cleaned_delete:
  assumes inv: "market_inv C tot T F s" and k: "other_key k" "store_ok C (kv_delete k (market_store s))"
  shows "cleaned C tot T F (\<lambda>x. False) {k} s (s\<lparr>market_store := kv_delete k (market_store s)\<rparr>)"
  using assms minv_store [OF market_invD(4) [OF inv]] by (simp add: cleaned_def market_inv_def book_delete_other)

lemma RemoveMarket_run: "RemoveMarket symbol s = (Ok (), s\<lparr>market_store := kv_delete (market_key symbol) (market_store s)\<rparr>)"
  by (simp add: RemoveMarket_def store_delete_def modify_def market_key_def)

lemma wp_removeExpiredMarket_in:
  assumes C: "cosmos_ok C tot" and cet: "denom_valid C CET" and F: "\<And>a d. 0 \<le> F a d"
    and inv: "market_inv C tot T F s" and pair: "pair_ok C symbol" and h: "0 \<le> BlockHeight ctx" "height_fits (BlockHeight ctx + 1)"
  shows "wp (removeExpiredMarket_in C sub ctx q symbol)
    (\<lambda>_ s'. cleaned C tot T F (\<lambda>y. TradingPair y = symbol \<and> Height y \<le> BlockHeight ctx) {market_key symbol} s s') s"
proof -
  have h1: "i64 (BlockHeight ctx + 1) = BlockHeight ctx + 1" using h by (auto simp: height_fits_def i64_id)
  let ?loop = "and_then (lift (ret_bind (GetOlderThan symbol (BlockHeight ctx + 1) s) deref))
    (foreach (\<lambda>x. whenever True (and_then (removeOrder C ctx symbol x q) (\<lambda>_. send_cancel C sub ctx x CancelOrderByGteTimeOut q))))"
  have loop: "wp ?loop (\<lambda>_ s'. cleaned C tot T F (\<lambda>y. TradingPair y = symbol \<and> Height y < BlockHeight ctx + 1 \<and> True) {} s s') s"
    by (rule wp_cancel_older [OF C cet F inv pair h(2)])
  have same: "removeExpiredMarket_in C sub ctx q symbol s = and_then ?loop (\<lambda>_. RemoveMarket symbol) s"
    by (simp add: removeExpiredMarket_in_def h1 whenever_def and_then_def split: prod.split ret.split)
  have fin: "wp (RemoveMarket symbol)
      (\<lambda>_ s'. cleaned C tot T F (\<lambda>y. TradingPair y = symbol \<and> Height y \<le> BlockHeight ctx) {market_key symbol} s s') s1"
    if cl: "cleaned C tot T F (\<lambda>y. TradingPair y = symbol \<and> Height y < BlockHeight ctx + 1 \<and> True) {} s s1" for s1
  proof (rule wp_run [OF RemoveMarket_run], rule cleaned_cong [OF cleaned_trans [OF cl cleaned_delete [OF cleanedD(1) [OF cl]]]])
    show "other_key (market_key symbol)" "store_ok C (kv_delete (market_key symbol) (market_store s1))"
      using store_ok_delete_market market_invD(1) [OF cleanedD(1) [OF cl]] by (simp_all add: market_key_def other_keys)
  qed auto
  show ?thesis
    by (rule wp_same [where n = "and_then ?loop (\<lambda>_. RemoveMarket symbol)"], rule same,
        rule iffD2 [OF wp_then], rule wp_mono [OF loop], rule fin)
qed

text \<open>The requests whose time has come.\<close>

lemma delist_key_eq: "delist_key t symbol = DelistKey @ height_bytes t @ byte 0 # symbol"
  by (simp add: delist_key_def)

lemma delist_range:
  assumes "store_ok S st" and "height_fits t"
  shows "(k, v) \<in> set (kv_iterator (DelistKey @ height_bytes 0 @ x00) (DelistKey @ height_bytes t @ x01) st) \<longleftrightarrow>
    kv_get st k = Some v \<and> (\<exists>u symbol. height_fits u \<and> u \<le> t \<and> k = delist_key u symbol)"
proof -
  have zero: "height_fits 0" by (simp add: height_fits_def)
  have lower: "DelistKey @ height_bytes 0 @ x00 \<le> delist_key u symbol" if "height_fits u" for u symbol
  proof -
    have "height_bytes 0 @ x00 \<le> height_bytes u @ byte 0 # symbol"
      by (subst less_eq_append_same_length)
        (use that height_bytes_less [OF zero that] height_bytes_eq [OF zero that] in \<open>auto simp: height_fits_def\<close>)
    then show ?thesis by (simp add: delist_key_def DelistKey_def)
  qed
  have upper: "delist_key u symbol < DelistKey @ height_bytes t @ x01 \<longleftrightarrow> u \<le> t" if "height_fits u" for u symbol
  proof -
    have "height_bytes u @ byte 0 # symbol < height_bytes t @ x01 \<longleftrightarrow> u \<le> t"
      by (subst less_append_same_length)
        (use that assms(2) height_bytes_less height_bytes_eq in \<open>auto simp: byte_less\<close>)
    then show ?thesis by (simp add: delist_key_def DelistKey_def)
  qed
  have "kv_ok st" by (rule book_okD(1) [OF store_okD(1) [OF assms(1)]])
  note it = kv_iterator_exact [OF this, of k v "DelistKey @ height_bytes 0 @ x00" "DelistKey @ height_bytes t @ x01"]
  show ?thesis
  proof
    assume L: "(k, v) \<in> set (kv_iterator (DelistKey @ height_bytes 0 @ x00) (DelistKey @ height_bytes t @ x01) st)"
    then have k: "kv_get st k = Some v" "DelistKey @ height_bytes 0 @ x00 \<le> k" "k < DelistKey @ height_bytes t @ x01"
      using it by auto
    then have "take 1 k = DelistKey" using range_prefix [of DelistKey "height_bytes 0 @ x00" k "height_bytes t @ x01"]
      by (auto simp: DelistKey_def)
    then obtain u symbol where "height_fits u" "k = delist_key u symbol"
      using store_okD(3) [OF assms(1)] k(1) unfolding delists_ok_def by metis
    then show "kv_get st k = Some v \<and> (\<exists>u symbol. height_fits u \<and> u \<le> t \<and> k = delist_key u symbol)"
      using k upper by blast
  next
    assume "kv_get st k = Some v \<and> (\<exists>u symbol. height_fits u \<and> u \<le> t \<and> k = delist_key u symbol)"
    then show "(k, v) \<in> set (kv_iterator (DelistKey @ height_bytes 0 @ x00) (DelistKey @ height_bytes t @ x01) st)"
      using it lower upper by blast
  qed
qed

definition due :: "market_val kv \<Rightarrow> int \<Rightarrow> string set" where
  "due st t = {symbol. \<exists>u. height_fits u \<and> u \<le> t \<and> kv_get st (delist_key u symbol) \<noteq> None}"

definition due_keys :: "int \<Rightarrow> string set" where
  "due_keys t = {k. \<exists>u symbol. height_fits u \<and> u \<le> t \<and> k = delist_key u symbol}"

lemma getDelistKeyRangeByTime_fits:
  "height_fits t \<Longrightarrow> getDelistKeyRangeByTime t = Ok (DelistKey @ height_bytes 0 @ x00, DelistKey @ height_bytes t @ x01)"
  using int64ToBigEndianBytes_fits [of 0]
  by (simp add: getDelistKeyRangeByTime_def int64ToBigEndianBytes_fits ConcatKeys_def height_fits_def)

lemma drop_delist_key: "drop (length (DelistKey @ height_bytes t @ x00)) (delist_key u symbol) = symbol"
  by (simp add: delist_key_def DelistKey_def)

lemma GetDelistSymbolsBeforeTime_exact:
  assumes "store_ok S (market_store s)" and "height_fits t"
  shows "\<exists>syms. GetDelistSymbolsBeforeTime s t = Ok syms \<and> set syms = due (market_store s) t"
proof -
  let ?st = "market_store s"
  let ?L = "kv_iterator (DelistKey @ height_bytes 0 @ x00) (DelistKey @ height_bytes t @ x01) ?st"
  let ?f = "drop (length (DelistKey @ height_bytes 0 @ x00))"
  have "(\<lambda>e. ?f (fst e)) ` set ?L = due ?st t"
  proof (intro set_eqI iffI)
    fix symbol
    assume "symbol \<in> (\<lambda>e. ?f (fst e)) ` set ?L"
    then obtain k v where "(k, v) \<in> set ?L" "symbol = ?f k" by auto
    then show "symbol \<in> due ?st t"
      using delist_range [OF assms, of k v] drop_delist_key [of 0] unfolding due_def by (metis (mono_tags, lifting) mem_Collect_eq option.discI)
  next
    fix symbol
    assume "symbol \<in> due ?st t"
    then obtain u v where "height_fits u" "u \<le> t" "kv_get ?st (delist_key u symbol) = Some v" by (auto simp: due_def)
    then have "(delist_key u symbol, v) \<in> set ?L" using delist_range [OF assms] by blast
    then show "symbol \<in> (\<lambda>e. ?f (fst e)) ` set ?L" by (rule rev_image_eqI) (simp only: fst_conv drop_delist_key)
  qed
  then show ?thesis
    by (simp add: GetDelistSymbolsBeforeTime_def getDelistKeyRangeByTime_fits [OF assms(2)])
qed

lemma due_pair_ok:
  assumes "store_ok S st" and "symbol \<in> due st t"
  shows "pair_ok S symbol"
proof -
  obtain u v where "kv_get st (delist_key u symbol) = Some v" using assms(2) by (auto simp: due_def)
  moreover have "take 1 (delist_key u symbol) = DelistKey" by (simp add: delist_key_def DelistKey_def)
  ultimately obtain t' symbol' where "pair_ok S symbol'" "delist_key u symbol = delist_key t' symbol'"
    using store_okD(3) [OF assms(1)] unfolding delists_ok_def by blast
  then show ?thesis using drop_delist_key [of 0] by metis
qed

text \<open>Deleting the keys of a list of entries.\<close>

lemma wp_delete_all:
  assumes inv: "market_inv C tot T F s"
    and del: "\<And>e. e \<in> set es \<Longrightarrow> other_key (f e) \<and> (\<forall>st. store_ok C st \<longrightarrow> store_ok C (kv_delete (f e) st))"
  shows "wp (foreach (\<lambda>e. store_delete (f e)) es) (\<lambda>_ s'. cleaned C tot T F (\<lambda>x. False) (f ` set es) s s') s"
proof -
  define P where "P = (\<lambda>rest s'. \<exists>pre. es = pre @ rest \<and> cleaned C tot T F (\<lambda>x. False) (f ` set pre) s s')"
  have step: "wp (store_delete (f e)) (\<lambda>_. P rest) s1" if P: "P (e # rest) s1" for e rest s1
  proof -
    obtain pre where pre: "es = (pre @ [e]) @ rest" and cl: "cleaned C tot T F (\<lambda>x. False) (f ` set pre) s s1"
      using P by (auto simp: P_def)
    note i1 = cleanedD(1) [OF cl]
    have e: "other_key (f e)" "store_ok C (kv_delete (f e) (market_store s1))"
      using del [of e] pre market_invD(1) [OF i1] by auto
    have "cleaned C tot T F (\<lambda>x. False) (f ` set (pre @ [e])) s (s1\<lparr>market_store := kv_delete (f e) (market_store s1)\<rparr>)"
      by (rule cleaned_cong [OF cleaned_trans [OF cl cleaned_delete [OF i1 e]]]) auto
    then have "P rest (s1\<lparr>market_store := kv_delete (f e) (market_store s1)\<rparr>)" unfolding P_def using pre by blast
    then show ?thesis by (simp add: store_delete_def wp_modify)
  qed
  have "P es s" unfolding P_def using cleaned_refl [OF inv] by (intro exI [of _ "[]"]) simp
  then have "wp (foreach (\<lambda>e. store_delete (f e)) es) (\<lambda>_. P []) s"
    by (intro wp_foreach [where P = P]) (rule step)
  then show ?thesis by (rule wp_mono) (auto simp: P_def)
qed

lemma wp_RemoveDelistRequestsBeforeTime:
  assumes inv: "market_inv C tot T F s" and t: "height_fits t"
  shows "wp (RemoveDelistRequestsBeforeTime t) (\<lambda>_ s'. cleaned C tot T F (\<lambda>x. False) (due_keys t) s s') s"
proof -
  define L where "L = kv_iterator (DelistKey @ height_bytes 0 @ x00) (DelistKey @ height_bytes t @ x01) (market_store s)"
  note range = delist_range [OF market_invD(1) [OF inv] t, folded L_def]
  have keys: "other_key (fst e) \<and> (\<forall>st. store_ok C st \<longrightarrow> store_ok C (kv_delete (fst e) st))" if "e \<in> set L" for e
  proof -
    have "(fst e, snd e) \<in> set L" using that by simp
    then obtain u symbol where e: "height_fits u" "fst e = delist_key u symbol" using range by metis
    moreover have "take 1 (delist_key u symbol) = DelistKey" by (simp add: delist_key_def DelistKey_def)
    ultimately show ?thesis using other_delist_key store_ok_delete_delist by metis
  qed
  have rev: "other_key (DelistRevKey @ symbol_of (snd e)) \<and>
      (\<forall>st. store_ok C st \<longrightarrow> store_ok C (kv_delete (DelistRevKey @ symbol_of (snd e)) st))" for e
    using store_ok_delete_other other_keys(4) order_keys(6) by blast
  have fin: "cleaned C tot T F (\<lambda>x. False) (due_keys t) s s2"
    if 1: "cleaned C tot T F (\<lambda>x. False) (fst ` set L) s s1"
      and 2: "cleaned C tot T F (\<lambda>x. False) ((\<lambda>e. DelistRevKey @ symbol_of (snd e)) ` set L) s1 s2" for s1 s2
    unfolding cleaned_def
  proof (intro conjI allI impI)
    note both = cleaned_trans [OF 1 2]
    show "market_inv C tot T F s2" "market_params s2 = market_params s"
      "book (market_store s2) = strike (\<lambda>x. False) (book (market_store s))"
      using cleanedD(1-3) [OF both] by simp_all
    fix k
    assume k: "\<not> order_key k"
    then have "k \<notin> (\<lambda>e. DelistRevKey @ symbol_of (snd e)) ` set L" using order_keys(6) by auto
    then have "kv_get (market_store s2) k = (if k \<in> fst ` set L then None else kv_get (market_store s) k)"
      using cleanedD(4) [OF both k] by simp
    moreover have "k \<in> fst ` set L \<longleftrightarrow> k \<in> due_keys t \<and> kv_get (market_store s) k \<noteq> None"
    proof
      assume "k \<in> fst ` set L"
      then obtain v where "(k, v) \<in> set L" by auto
      then show "k \<in> due_keys t \<and> kv_get (market_store s) k \<noteq> None" using range [of k v] by (simp add: due_keys_def)
    next
      assume "k \<in> due_keys t \<and> kv_get (market_store s) k \<noteq> None"
      then obtain v where "(k, v) \<in> set L" using range [of k] by (auto simp: due_keys_def)
      then show "k \<in> fst ` set L" by (rule rev_image_eqI) simp
    qed
    ultimately show "kv_get (market_store s2) k = (if k \<in> due_keys t then None else kv_get (market_store s) k)" by auto
  qed
  have "wp (and_then (foreach (\<lambda>e. store_delete (fst e)) L) (\<lambda>_. foreach (\<lambda>e. store_delete (DelistRevKey @ symbol_of (snd e))) L))
      (\<lambda>_ s'. cleaned C tot T F (\<lambda>x. False) (due_keys t) s s') s"
    unfolding wp_then
    by (rule wp_mono [OF wp_delete_all [OF inv keys]], assumption, rule wp_mono [OF wp_delete_all [OF cleanedD(1) rev]], assumption)
      (rule fin)
  then show ?thesis
    by (rule wp_same [rotated])
      (simp add: RemoveDelistRequestsBeforeTime_def and_then_def lift_def getDelistKeyRangeByTime_fits [OF t] L_def Let_def)
qed

lemma wp_removeExpiredMarket:
  assumes C: "cosmos_ok C tot" and cet: "denom_valid C CET" and F: "\<And>a d. 0 \<le> F a d"
    and inv: "market_inv C tot T F s" and h: "0 \<le> BlockHeight ctx" "height_fits (BlockHeight ctx + 1)"
    and t: "height_fits (UnixNano ctx)"
  shows "wp (removeExpiredMarket C sub ctx q)
    (\<lambda>_ s'. cleaned C tot T F (\<lambda>y. TradingPair y \<in> due (market_store s) (UnixNano ctx) \<and> Height y \<le> BlockHeight ctx)
       (market_key ` due (market_store s) (UnixNano ctx) \<union> due_keys (UnixNano ctx)) s s') s"
proof -
  let ?D = "\<lambda>syms y. TradingPair y \<in> syms \<and> Height y \<le> BlockHeight ctx"
  obtain syms where syms: "GetDelistSymbolsBeforeTime s (UnixNano ctx) = Ok syms" "set syms = due (market_store s) (UnixNano ctx)"
    using GetDelistSymbolsBeforeTime_exact [OF market_invD(1) [OF inv] t] by blast
  define P where "P = (\<lambda>rest s'. \<exists>pre. syms = pre @ rest \<and> cleaned C tot T F (?D (set pre)) (market_key ` set pre) s s')"
  have step: "wp (removeExpiredMarket_in C sub ctx q symbol) (\<lambda>_. P rest) s1" if P: "P (symbol # rest) s1" for symbol rest s1
  proof -
    obtain pre where pre: "syms = (pre @ [symbol]) @ rest" and cl: "cleaned C tot T F (?D (set pre)) (market_key ` set pre) s s1"
      using P by (auto simp: P_def)
    have stepped: "P rest s2"
      if "cleaned C tot T F (\<lambda>y. TradingPair y = symbol \<and> Height y \<le> BlockHeight ctx) {market_key symbol} s1 s2" for s2
      unfolding P_def
    proof (intro exI conjI)
      show "cleaned C tot T F (?D (set (pre @ [symbol]))) (market_key ` set (pre @ [symbol])) s s2"
        by (rule cleaned_cong [OF cleaned_trans [OF cl that]]) auto
    qed (rule pre)
    have pair: "pair_ok C symbol"
      by (rule due_pair_ok [OF market_invD(1) [OF inv], of _ "UnixNano ctx"]) (simp add: syms(2) [symmetric] pre)
    show ?thesis
      by (rule wp_mono [OF wp_removeExpiredMarket_in [OF C cet F cleanedD(1) [OF cl] pair h]], rule stepped)
  qed
  have "P syms s" unfolding P_def using cleaned_refl [OF inv] by (intro exI [of _ "[]"]) simp
  then have "wp (foreach (removeExpiredMarket_in C sub ctx q) syms) (\<lambda>_. P []) s"
    by (intro wp_foreach [where P = P]) (rule step)
  then have loop: "wp (foreach (removeExpiredMarket_in C sub ctx q) syms)
      (\<lambda>_. cleaned C tot T F (?D (set syms)) (market_key ` set syms) s) s"
    by (rule wp_mono) (simp add: P_def)
  have fin: "wp (RemoveDelistRequestsBeforeTime (UnixNano ctx))
      (\<lambda>_. cleaned C tot T F (?D (set syms)) (market_key ` set syms \<union> due_keys (UnixNano ctx)) s) s1"
    if cl: "cleaned C tot T F (?D (set syms)) (market_key ` set syms) s s1" for s1
    by (rule wp_mono [OF wp_RemoveDelistRequestsBeforeTime [OF cleanedD(1) [OF cl] t]],
        rule cleaned_cong [OF cleaned_trans [OF cl]], assumption) simp_all
  have "wp (and_then (foreach (removeExpiredMarket_in C sub ctx q) syms) (\<lambda>_. RemoveDelistRequestsBeforeTime (UnixNano ctx)))
      (\<lambda>_. cleaned C tot T F (?D (set syms)) (market_key ` set syms \<union> due_keys (UnixNano ctx)) s) s"
    by (rule iffD2 [OF wp_then], rule wp_mono [OF loop], rule fin)
  then show ?thesis
    unfolding syms(2) by (rule wp_same [rotated]) (simp add: removeExpiredMarket_def and_then_def lift_def syms(1))
qed

subsection \<open>The clean-up block\<close>

lemma SetUnixTime_run: "SetUnixTime t s = (Ok (), s\<lparr>market_store := kv_set LastOrderCleanUpDayKey (VNum t) (market_store s)\<rparr>)"
  by (simp add: SetUnixTime_def store_set_def modify_def)

lemma cleaned_set_other:
  assumes inv: "market_inv C tot T F s" and k: "other_key k" "order_key k"
  shows "cleaned C tot T F (\<lambda>x. False) {} s (s\<lparr>market_store := kv_set k v (market_store s)\<rparr>)"
  using assms minv_store [OF market_invD(4) [OF inv]] store_ok_set_other [OF k market_invD(1) [OF inv], of v]
  by (auto simp: cleaned_def market_inv_def book_set_other)

definition gone :: "ctx \<Rightarrow> ('b, 'z) market_state_scheme \<Rightarrow> order \<Rightarrow> bool" where
  "gone ctx s x \<longleftrightarrow> TradingPair x \<in> MarketInfo_GetSymbol ` set (GetAllMarketInfos s) \<and> is_expired ctx x \<or>
     TradingPair x \<in> due (market_store s) (UnixNano ctx) \<and> Height x \<le> BlockHeight ctx"

definition gone_keys :: "ctx \<Rightarrow> ('b, 'z) market_state_scheme \<Rightarrow> string set" where
  "gone_keys ctx s = market_key ` due (market_store s) (UnixNano ctx) \<union> due_keys (UnixNano ctx)"

lemma wp_clean_up:
  assumes C: "cosmos_ok C tot" and cet: "denom_valid C CET" and F: "\<And>a d. 0 \<le> F a d"
    and inv: "market_inv C tot T F s" and h: "0 \<le> BlockHeight ctx" "height_fits (BlockHeight ctx + 1)"
    and t: "height_fits (UnixNano ctx)"
  shows "wp (clean_up C sub ctx) (\<lambda>_ s'. cleaned C tot T F (gone ctx s) (gone_keys ctx s) s s') s"
proof -
  let ?p = "market_params s" and ?mis = "GetAllMarketInfos s"
  let ?E = "\<lambda>y. TradingPair y \<in> MarketInfo_GetSymbol ` set ?mis \<and> is_expired ctx y"
  have h0: "height_fits (BlockHeight ctx)" using h by (simp add: height_fits_def)
  define s1 where "s1 = s\<lparr>market_store := kv_set LastOrderCleanUpDayKey (VNum (Unix ctx)) (market_store s)\<rparr>"
  have 1: "cleaned C tot T F (\<lambda>x. False) {} s s1"
    unfolding s1_def by (rule cleaned_set_other [OF inv]) (simp_all add: other_keys)
  have exp: "wp (removeExpiredOrder C sub ctx ?mis ?p) (\<lambda>_ s'. cleaned C tot T F ?E {} s1 s') s1"
    by (rule wp_removeExpiredOrder [OF C cet F cleanedD(1) [OF 1] h0]) (rule GetAllMarketInfos_ok [OF market_invD(1) [OF inv]])
  have mar: "wp (removeExpiredMarket C sub ctx ?p) (\<lambda>_ s'. cleaned C tot T F (gone ctx s) (gone_keys ctx s) s s') s2"
    if 2: "cleaned C tot T F ?E {} s1 s2" for s2
  proof -
    have 12: "cleaned C tot T F ?E {} s s2" by (rule cleaned_cong [OF cleaned_trans [OF 1 2]]) auto
    have same: "due (market_store s2) n = due (market_store s) n" for n
      using cleanedD(4) [OF 12] not_order_key(2) by (simp add: due_def)
    have "cleaned C tot T F (gone ctx s) (gone_keys ctx s) s s3"
      if "cleaned C tot T F (\<lambda>y. TradingPair y \<in> due (market_store s2) (UnixNano ctx) \<and> Height y \<le> BlockHeight ctx)
        (market_key ` due (market_store s2) (UnixNano ctx) \<union> due_keys (UnixNano ctx)) s2 s3" for s3
      by (rule cleaned_cong [OF cleaned_trans [OF 12 that]]) (auto simp: gone_def gone_keys_def same)
    then show ?thesis
      by (rule wp_mono [OF wp_removeExpiredMarket [OF C cet F cleanedD(1) [OF 12] h t]])
  qed
  have "wp (and_then (removeExpiredOrder C sub ctx ?mis ?p) (\<lambda>_. removeExpiredMarket C sub ctx ?p))
      (\<lambda>_ s'. cleaned C tot T F (gone ctx s) (gone_keys ctx s) s s') s1"
    by (rule iffD2 [OF wp_then], rule wp_mono [OF exp], rule mar)
  then have "wp (and_then (SetUnixTime (Unix ctx)) (\<lambda>_. and_then (removeExpiredOrder C sub ctx ?mis ?p) (\<lambda>_. removeExpiredMarket C sub ctx ?p)))
      (\<lambda>_ s'. cleaned C tot T F (gone ctx s) (gone_keys ctx s) s s') s"
    by (intro iffD2 [OF wp_then] wp_run [OF SetUnixTime_run]) (simp only: s1_def wp_then)
  then show ?thesis by (rule wp_same [rotated]) (simp add: clean_up_def Let_def)
qed

end
