(* ===== verification/MarketEndInv.thy ===== *)
theory MarketEndInv
  imports MarketMatch MarketClean
begin

section \<open>The end blocker as a whole\<close>

text \<open>
  Every run of the market's end blocker ends, on every branch; and unless it panics, the orders,
  the frozen coins and the total of every coin are in the state the invariant asks for.
\<close>

lemma new_marks_distinct:
  assumes "kv_ok (market_store s)"
  shows "distinct (GetMarketsWithNewlyAddedOrder s)"
proof -
  let ?L = "kv_iterator NewlyAddedKeyPrefix NewlyAddedKeyEnd (market_store s)"
  have keys: "\<exists>c. k = NewlyAddedKeyPrefix @ c" if "k \<in> fst ` set ?L" for k
  proof -
    have k: "[byte 102] \<le> k" "k < [byte 103]"
      using that by (auto simp: kv_iterator_def NewlyAddedKeyPrefix_def NewlyAddedKeyEnd_def)
    then obtain c k' where "k = c # k'" by (cases k) auto
    with k have "byte 102 \<le> c" "c < byte 103" by auto
    then have "(of_char c :: nat) = 102" by (simp add: byte_def less_char_def less_eq_char_def)
    then have "c = byte 102" unfolding byte_def by (metis char_of_char)
    then show ?thesis using \<open>k = c # k'\<close> by (simp add: NewlyAddedKeyPrefix_def)
  qed
  have "distinct (map fst ?L)" using kv_iterator_sorted [OF assms] strict_sorted_iff by blast
  moreover have "inj_on (drop 1) (fst ` set ?L)"
  proof (rule inj_onI)
    fix k k'
    assume "k \<in> fst ` set ?L" "k' \<in> fst ` set ?L" "drop 1 k = drop 1 k'"
    then show "k = k'" using keys [of k] keys [of k'] by (auto simp: NewlyAddedKeyPrefix_def)
  qed
  ultimately have "distinct (map (drop 1) (map fst ?L))" by (simp add: distinct_map comp_inj_on)
  then show ?thesis by (simp add: GetMarketsWithNewlyAddedOrder_def o_def)
qed

lemma all_some_map:
  "all_some (map f xs) = Some ys \<longleftrightarrow> map f xs = map Some ys"
  by (induction xs arbitrary: ys) (auto split: option.splits)

lemma marked_markets:
  assumes store: "store_ok C (market_store s)"
    and mis: "all_some (map (GetMarketInfo s) (GetMarketsWithNewlyAddedOrder s)) = Some mis"
  shows "map MarketInfo_GetSymbol mis = GetMarketsWithNewlyAddedOrder s"
    and "mi \<in> set mis \<Longrightarrow> pair_ok C (MarketInfo_GetSymbol mi)"
proof -
  let ?syms = "GetMarketsWithNewlyAddedOrder s"
  have eq: "map (GetMarketInfo s) ?syms = map Some mis" using mis by (simp add: all_some_map)
  have len: "length mis = length ?syms" using arg_cong [OF eq, of length] by simp
  have each: "MarketInfo_GetSymbol (mis ! i) = ?syms ! i \<and> pair_ok C (?syms ! i)" if "i < length ?syms" for i
  proof -
    have "GetMarketInfo s (?syms ! i) = Some (mis ! i)" using arg_cong [OF eq, of "\<lambda>l. l ! i"] that len by simp
    then show ?thesis by (rule GetMarketInfo_ok [OF store_okD(2) [OF store]])
  qed
  show same: "map MarketInfo_GetSymbol mis = ?syms" by (rule nth_equalityI) (use each len in auto)
  show "pair_ok C (MarketInfo_GetSymbol mi)" if "mi \<in> set mis"
    using that each len by (metis in_set_conv_nth)
qed

lemma wpl_run: "m s = Some (Ok a, s') \<Longrightarrow> Q a s' \<Longrightarrow> wpl m Q s"
  by (simp add: wpl_def)

theorem wpl_market_EndBlocker:
  assumes C: "cosmos_ok C tot" and cet: "denom_valid C CET" and F: "\<And>a d. 0 \<le> F a d" and G: "sorts_ok G"
    and rng: "\<And>es. mset (rng es) = mset es"
    and h: "0 \<le> BlockHeight ctx" "height_fits (BlockHeight ctx + 1)" and t: "height_fits (UnixNano ctx)"
    and inv: "market_inv C tot T F s"
  shows "wpl (market_EndBlocker C G sha sub rng zone ctx)
    (\<lambda>_ s'. market_inv C tot T F s' \<and> market_params s' = market_params s) s"
proof (cases "need_remove zone ctx (GetUnixTime s)")
  case True
  have "wpl (lop (clean_up C sub ctx)) (\<lambda>_ s'. market_inv C tot T F s' \<and> market_params s' = market_params s) s"
    by (rule wpl_lop, rule wp_mono [OF wp_clean_up [OF C cet F inv h t]]) (auto dest: cleanedD(1,2))
  then show ?thesis by (rule wpl_same [rotated]) (simp add: market_EndBlocker_def True lop_def)
next
  case False
  let ?syms = "GetMarketsWithNewlyAddedOrder s" and ?p = "market_params s"
  have stop: "wpl (market_EndBlocker C G sha sub rng zone ctx) (\<lambda>_ s'. market_inv C tot T F s' \<and> market_params s' = ?p) s"
    if "?syms = [] \<or> all_some (map (GetMarketInfo s) ?syms) = None"
    by (rule wpl_run [where s' = s and a = "()"]) (use that False inv in \<open>auto simp: market_EndBlocker_def Let_def\<close>)
  show ?thesis
  proof (cases "?syms = [] \<or> all_some (map (GetMarketInfo s) ?syms) = None")
    case True
    then show ?thesis by (rule stop)
  next
    case go: False
    then obtain mis where mis: "all_some (map (GetMarketInfo s) ?syms) = Some mis" by auto
    note store = market_invD(1) [OF inv]
    have syms: "map MarketInfo_GetSymbol mis = ?syms" by (rule marked_markets(1) [OF store mis])
    have dist: "distinct (map MarketInfo_GetSymbol mis)"
      unfolding syms by (rule new_marks_distinct [OF book_okD(1) [OF store_okD(1) [OF store]]])
    have match: "wpl (match_markets C G sha sub ctx (MaxExecutedPriceChangeRatio ?p) mis)
        (all_results C tot T F ?p mis (book (market_store s)) s) s"
      by (rule wpl_match_markets [OF C F G h market_inv_pend [OF inv] _ dist])
        (rule marked_markets(2) [OF store mis], assumption)
    have upd: "wp (foreach (update_market C sub rng ctx ?p) rs) (\<lambda>_ s'. market_inv C tot T F s' \<and> market_params s' = ?p) s1"
      if res: "all_results C tot T F ?p mis (book (market_store s)) s rs s1" for rs s1
    proof (rule wp_update_markets [OF C cet F rng])
      obtain V1 where V1: "pend_inv C tot T F ?p V1 s1" "results_ok C V1 rs"
          "book (market_store s1) = book (market_store s)" "\<And>oid. oid \<notin> result_keys rs \<Longrightarrow> V1 oid = book (market_store s) oid"
        using res unfolding all_results_def by blast
      then show "all_waiting C tot T F ?p rs s1" unfolding all_waiting_def by auto
    qed
    have "wpl (lop_then (match_markets C G sha sub ctx (MaxExecutedPriceChangeRatio ?p) mis)
        (\<lambda>rs. lop (foreach (update_market C sub rng ctx ?p) rs)))
      (\<lambda>_ s'. market_inv C tot T F s' \<and> market_params s' = ?p) s"
      by (rule wpl_then, rule wpl_mono [OF match], rule wpl_lop, rule upd)
    then show ?thesis
      by (rule wpl_same [rotated]) (use False go mis in \<open>simp add: market_EndBlocker_def Let_def\<close>)
  qed
qed

text \<open>
  A marked market that is not in the store stops the matching of all markets: nothing happens in
  the block.
\<close>

lemma unknown_mark_stops:
  assumes "\<not> need_remove zone ctx (GetUnixTime s)" and "symbol \<in> set (GetMarketsWithNewlyAddedOrder s)"
    and "GetMarketInfo s symbol = None"
  shows "market_EndBlocker C G sha sub rng zone ctx s = Some (Ok (), s)"
proof -
  have "all_some (map (GetMarketInfo s) xs) = None" if "symbol \<in> set xs" for xs
    using that assms(3) by (induction xs) (auto split: option.split)
  then show ?thesis using assms(1,2) by (simp add: market_EndBlocker_def Let_def)
qed

end
