(* ===== verification/MarketHandlerInv.thy ===== *)
theory MarketHandlerInv
  imports MarketHandler MarketEndInv
begin

section \<open>The market's messages keep the invariant\<close>

text \<open>
  Placing an order freezes exactly what the order holds, cancelling releases it; the other messages
  change markets and delist requests only.
\<close>

subsection \<open>A new order is in good form\<close>

lemma round_whole:
  assumes "dec_ok C"
  shows "dec_RoundInt C (k * dec_one) = k"
proof -
  have "2 * \<bar>dec_RoundInt C (k * dec_one) * dec_one - k * dec_one\<bar> \<le> dec_one" by (rule dec_okD(12) [OF assms])
  moreover have "dec_RoundInt C (k * dec_one) * dec_one - k * dec_one = (dec_RoundInt C (k * dec_one) - k) * dec_one"
    by (simp add: algebra_simps)
  ultimately have "2 * \<bar>dec_RoundInt C (k * dec_one) - k\<bar> * dec_one \<le> 1 * dec_one" by (simp add: abs_mult)
  then have "2 * \<bar>dec_RoundInt C (k * dec_one) - k\<bar> \<le> 1" by (rule mult_right_le_imp_le) simp
  then show ?thesis by arith
qed

lemma dec_one_pos: "0 < dec_one"
  by simp

lemma ceil_up: "d \<le> - ((- d) div dec_one) * dec_one"
proof -
  have "(- d) div dec_one * dec_one \<le> - d" by (simp add: minus_mod_eq_div_mult [symmetric])
  then show ?thesis by simp
qed

lemma calculateAmount_Ok:
  assumes dec: "dec_ok C" and run: "calculateAmount C price quantity prec = Ok m"
  shows "\<exists>k. m = k * dec_one \<and> k \<le> MaxOrderAmount \<and>
    dec_Quo C (NewDec C price) (NewDec C (pow10_i64 prec)) * quantity \<le> k * dec_one"
proof -
  let ?p = "dec_Quo C (NewDec C price) (NewDec C (pow10_i64 prec))"
  have "dec_Mul C ?p (NewDec C quantity) + NewDec C ExtraFrozenMoney = ?p * quantity"
    by (simp only: dec_okD(1,2) [OF dec] mult_zero_left add_0_right)
  then have m: "m = - ((- (?p * quantity)) div dec_one) * dec_one" and "m \<le> NewDec C MaxOrderAmount"
    using run by (auto simp: calculateAmount_def dec_Quo_ret_def Let_def dec_okD(10) [OF dec] split: if_splits)
  then have "- ((- (?p * quantity)) div dec_one) * dec_one \<le> MaxOrderAmount * dec_one"
    by (simp only: dec_okD(1) [OF dec])
  then have "- ((- (?p * quantity)) div dec_one) \<le> MaxOrderAmount" by (rule mult_right_le_imp_le) (rule dec_one_pos)
  with m show ?thesis using ceil_up [of "?p * quantity"] by (intro exI [of _ "- ((- (?p * quantity)) div dec_one)"]) simp
qed

lemma quo_price:
  assumes dec: "dec_ok C" and price: "0 < price" "price < 2 ^ 63" and prec: "prec \<le> MaxTokenPricePrecision"
  shows "price_fits (dec_Quo C (NewDec C price) (NewDec C (pow10_i64 prec)))"
proof -
  define a where "a = NewDec C price"
  define b where "b = NewDec C (pow10_i64 prec)"
  define q where "q = dec_Quo C a b"
  have n: "1 \<le> pow10_i64 prec" using pow10_i64_pos [of prec] prec by simp
  have a: "a = price * dec_one" and b: "b = pow10_i64 prec * dec_one" unfolding a_def b_def by (rule dec_okD(1) [OF dec])+
  have one: "1 \<le> dec_one" by simp
  have b1: "dec_one \<le> b" unfolding b using n mult_right_mono [of 1 "pow10_i64 prec" dec_one] one by linarith
  have a0: "0 \<le> a" unfolding a using price(1) one by (intro mult_nonneg_nonneg) linarith+
  have b0: "0 < b" using b1 one by linarith
  have q: "0 \<le> q" "\<bar>q * b - a * dec_one\<bar> \<le> b" unfolding q_def using dec_okD(6,7) [OF dec a0 b0] by simp_all
  have "(q - 1) * b \<le> a * dec_one" using q(2) by (simp only: left_diff_distrib)
  also have "\<dots> \<le> a * b" by (rule mult_left_mono [OF b1 a0])
  finally have "q - 1 \<le> a" using b0 by (rule mult_right_le_imp_le)
  moreover have "a < 2 ^ 63 * dec_one" unfolding a by (rule mult_strict_right_mono [OF price(2) dec_one_pos])
  ultimately have "q < 2 ^ 320" by simp
  with q(1) show ?thesis by (simp add: price_fits_def q_def a_def b_def)
qed

text \<open>The integers of a message are 64 bits wide, its precision is a byte.\<close>

definition order_msg_fits :: "MsgCreateOrder \<Rightarrow> bool" where
  "order_msg_fits msg \<longleftrightarrow> co_Price msg < 2 ^ 63 \<and> co_Quantity msg < 2 ^ 63 \<and> co_ExistBlocks msg < 2 ^ 63"

lemma ValidateBasic_order:
  assumes "MsgCreateOrder_ValidateBasic C msg = Ok ()"
  shows "co_PricePrecision msg \<le> MaxTokenPricePrecision" and "0 < co_Price msg" and "0 < co_Quantity msg"
    and "co_Side msg = BUY \<or> co_Side msg = SELL" and "co_TimeInForce msg = GTE \<or> co_TimeInForce msg = IOC"
    and "0 \<le> co_ExistBlocks msg"
  using assms by (auto simp: MsgCreateOrder_ValidateBasic_def split: if_splits)

lemma with_err_Ok [simp]: "with_err e r = Ok a \<longleftrightarrow> r = Ok a"
  by (cases r) (simp_all add: with_err_def)

lemma amount_of_order:
  assumes dec: "dec_ok C" and split: "SplitSymbol (co_TradingPair msg) = Ok (stock, money)"
    and amount: "getDenomAndOrderAmount C msg = Ok (denom, amount)"
    and qty: "0 < co_Quantity msg" and price: "0 \<le> dec_Quo C (NewDec C (co_Price msg)) (NewDec C (pow10_i64 (co_PricePrecision msg)))"
  shows "denom = (if co_Side msg = BUY then money else stock)" and "0 \<le> amount" and "amount \<le> MaxOrderAmount"
    and "co_Side msg = BUY \<Longrightarrow>
      dec_Quo C (NewDec C (co_Price msg)) (NewDec C (pow10_i64 (co_PricePrecision msg))) * co_Quantity msg \<le> amount * dec_one"
    and "co_Side msg \<noteq> BUY \<Longrightarrow> amount = co_Quantity msg"
proof -
  show "denom = (if co_Side msg = BUY then money else stock)" "amount \<le> MaxOrderAmount"
    using amount by (auto simp: getDenomAndOrderAmount_def ret_bind_Ok split split: if_splits)
  show sell: "amount = co_Quantity msg" if "co_Side msg \<noteq> BUY"
    using amount that by (auto simp: getDenomAndOrderAmount_def ret_bind_Ok split split: if_splits)
  let ?p = "dec_Quo C (NewDec C (co_Price msg)) (NewDec C (pow10_i64 (co_PricePrecision msg)))"
  show buy: "?p * co_Quantity msg \<le> amount * dec_one" if w: "co_Side msg = BUY"
  proof -
    obtain m where m: "calculateAmount C (co_Price msg) (co_Quantity msg) (co_PricePrecision msg) = Ok m"
        "dec_RoundInt64 C m = Ok amount"
      using amount w by (auto simp: getDenomAndOrderAmount_def ret_bind_Ok split split: if_splits)
    obtain k where k: "m = k * dec_one" "?p * co_Quantity msg \<le> k * dec_one"
      using calculateAmount_Ok [OF dec m(1)] by blast
    have "dec_RoundInt C m = k" unfolding k(1) by (rule round_whole [OF dec])
    then have "amount = k" using m(2) by (simp add: dec_RoundInt64_def to_Int64_def split: if_splits)
    then show ?thesis using k(2) by simp
  qed
  show "0 \<le> amount"
  proof (cases "co_Side msg = BUY")
    case True
    have "0 \<le> ?p * co_Quantity msg" using price qty by simp
    then have "0 \<le> amount * dec_one" by (rule order_trans [OF _ buy [OF True]])
    then show ?thesis by simp
  qed (use sell qty in simp)
qed

lemma market_paramsD:
  assumes "market_ValidateGenesis p = Ok ()"
  shows "0 \<le> MarketFeeMin p" and "0 \<le> GTEOrderLifetime p" and "0 \<le> GTEOrderFeatureFeeByBlocks p"
    and "0 < CreateMarketFee p" and "0 \<le> FeeForZeroDeal p"
  using assms by (auto simp: market_ValidateGenesis_def split: if_splits)

lemma commission_nonneg:
  "0 \<le> MarketFeeMin (market_params s) \<Longrightarrow> calOrderCommission C s msg = Ok fee \<Longrightarrow> 0 \<le> fee"
  by (auto simp: calOrderCommission_def CalCommission_def ret_bind_Ok Let_def split: if_splits prod.splits)

lemma feature_fee_nonneg:
  assumes "0 \<le> GTEOrderLifetime p" and "0 \<le> GTEOrderFeatureFeeByBlocks p" and "co_ExistBlocks msg < 2 ^ 63"
    and "calFeatureFeeForExistBlocks msg p = Ok fee"
  shows "0 \<le> fee" and "co_TimeInForce msg = IOC \<Longrightarrow> fee = 0"
proof -
  have "i64 (co_ExistBlocks msg - GTEOrderLifetime p) = co_ExistBlocks msg - GTEOrderLifetime p"
    if "GTEOrderLifetime p \<le> co_ExistBlocks msg"
    by (rule i64_id) (use that assms(1,3) in auto)
  then show "0 \<le> fee"
    using assms by (auto simp: calFeatureFeeForExistBlocks_def Let_def to_Int64_def MaxOrderAmount_def split: if_splits)
  show "co_TimeInForce msg = IOC \<Longrightarrow> fee = 0" using assms(4) by (simp add: calFeatureFeeForExistBlocks_def)
qed

lemma new_order_wf:
  assumes dec: "dec_ok C" and basic: "MsgCreateOrder_ValidateBasic C msg = Ok ()" and fits: "order_msg_fits msg"
    and params: "market_ValidateGenesis p = Ok ()" and pair: "pair_ok C (co_TradingPair msg)"
    and h: "height_fits (BlockHeight ctx)"
    and amount: "getDenomAndOrderAmount C msg = Ok (denom, amount)"
    and fee: "0 \<le> frozenFee" and feature: "calFeatureFeeForExistBlocks msg p = Ok featureFee"
  shows "order_wf C (new_order C ctx p msg sq frozenFee featureFee amount)"
    and "used_denom (new_order C ctx p msg sq frozenFee featureFee amount) = denom"
    and "denom_valid C denom"
proof -
  note b = ValidateBasic_order [OF basic]
  obtain stock money where split: "SplitSymbol (co_TradingPair msg) = Ok (stock, money)"
      "denom_valid C stock" "denom_valid C money" using pair by (auto simp: pair_ok_def)
  have price: "price_fits (dec_Quo C (NewDec C (co_Price msg)) (NewDec C (pow10_i64 (co_PricePrecision msg))))"
    using quo_price [OF dec b(2) _ b(1)] fits by (simp add: order_msg_fits_def)
  note a = amount_of_order [OF dec split(1) amount b(3)] price
  have a': "denom = (if co_Side msg = BUY then money else stock)" "0 \<le> amount" "amount \<le> MaxOrderAmount"
    using a price by (auto simp: price_fits_def)
  have ft: "0 \<le> featureFee" "co_TimeInForce msg \<noteq> GTE \<longrightarrow> featureFee = 0"
    using feature_fee_nonneg [OF market_paramsD(2,3) [OF params] _ feature] fits b(5) by (auto simp: order_msg_fits_def)
  show "order_wf C (new_order C ctx p msg sq frozenFee featureFee amount)"
    unfolding order_wf_def order_ok_def new_order_def
    using a a' ft b fee h pair price fits pair_ok_def [of C "co_TradingPair msg"]
    by (auto simp: price_fits_def order_msg_fits_def)
  show "used_denom (new_order C ctx p msg sq frozenFee featureFee amount) = denom"
    using a'(1) b(4) split(1) by (auto simp: used_denom_def GetOrderUsedDenom_def new_order_def)
  show "denom_valid C denom" using a'(1) split by simp
qed

subsection \<open>Placing an order\<close>

text \<open>What the sender of an order pays into the frozen coins.\<close>

definition paid :: "addr \<Rightarrow> string \<Rightarrow> int \<Rightarrow> int \<Rightarrow> int \<Rightarrow> addr \<Rightarrow> string \<Rightarrow> int" where
  "paid a denom amount frozenFee featureFee c d =
     (if c = a then (if denom = d then amount else 0) + (if CET = d then frozenFee + featureFee else 0) else 0)"

lemma minv_Freeze:
  assumes C: "cosmos_ok C tot" and inv: "minv C tot T G st p s" and run: "FreezeCoins C a amt s = (Ok u, s')"
  shows "minv C tot T (\<lambda>c d. G c d + (if c = a then coins_AmountOf C amt d else 0)) st p s'"
  by (rule minv_books [OF inv FreezeCoins_books(1) [OF C minvD(1) [OF inv] run]])

lemma minv_freeze_fee:
  assumes C: "cosmos_ok C tot" and inv: "minv C tot T G st p s"
    and run: "whenever (fee \<noteq> 0) (and_then (lift (NewCetCoins C fee)) (FreezeCoins C a)) s = (Ok u, s')"
  shows "minv C tot T (\<lambda>c d. G c d + (if c = a \<and> CET = d then fee else 0)) st p s'"
proof (cases "fee = 0")
  case True
  then have "(\<lambda>c d. G c d + (if c = a \<and> CET = d then fee else 0)) = G" by (simp add: fun_eq_iff)
  with True show ?thesis using inv run by (simp add: whenever_def return_def)
next
  case False
  obtain cs where cs: "NewCetCoins C fee = Ok cs" "FreezeCoins C a cs s = (Ok u, s')"
    using run False by (auto simp: whenever_def and_then_Ok lift_def)
  have "coins_AmountOf C cs d = (if CET = d then fee else 0)" for d
    using dex_NewCoins_Ok [OF cosmos_okD(5) [OF C]] cs(1) by (simp add: NewCetCoins_dex)
  then have "(\<lambda>c d. G c d + (if c = a then coins_AmountOf C cs d else 0)) = (\<lambda>c d. G c d + (if c = a \<and> CET = d then fee else 0))"
    by (auto simp: fun_eq_iff)
  then show ?thesis using minv_Freeze [OF C inv cs(2)] by simp
qed

lemma minv_handleFee:
  assumes C: "cosmos_ok C tot" and inv: "minv C tot T G st p s" and denom: "denom_valid C denom" "0 \<le> amount"
    and run: "handleFeeForCreateOrder C amount denom a frozenFee featureFee s = (Ok u, s')"
  shows "minv C tot T (\<lambda>c d. G c d + paid a denom amount frozenFee featureFee c d) st p s'"
proof -
  note coins = cosmos_okD(5) [OF C]
  let ?cs = "[\<lparr>Denom = denom, Amount = amount\<rparr>]"
  have coin: "NewCoin C denom amount = Ok \<lparr>Denom = denom, Amount = amount\<rparr>"
    using denom by (simp add: coins_okD(1) [OF coins])
  obtain s1 s2 where 1: "FreezeCoins C a ?cs s = (Ok (), s1)"
    and 2: "whenever (frozenFee \<noteq> 0) (and_then (lift (NewCetCoins C frozenFee)) (FreezeCoins C a)) s1 = (Ok (), s2)"
    and 3: "whenever (featureFee \<noteq> 0) (and_then (lift (NewCetCoins C featureFee)) (FreezeCoins C a)) s2 = (Ok u, s')"
    using run by (auto simp: handleFeeForCreateOrder_def and_then_Ok lift_def coin)
  have sum: "coins_AmountOf C ?cs d = (if denom = d then amount else 0)" for d
    using coins_okD(13) [OF coins, of ?cs d] by (simp add: coins_sorted_def coin_sum_def)
  note final = minv_freeze_fee [OF C minv_freeze_fee [OF C minv_Freeze [OF C inv 1] 2] 3]
  have "(\<lambda>c d. G c d + paid a denom amount frozenFee featureFee c d) = (\<lambda>c d. G c d + (if c = a then coins_AmountOf C ?cs d else 0) +
      (if c = a \<and> CET = d then frozenFee else 0) + (if c = a \<and> CET = d then featureFee else 0))"
    by (auto simp: fun_eq_iff paid_def sum)
  then show ?thesis using final by simp
qed

lemma order_id_new: "OrderID S (new_order S ctx p msg sq f g amount) = AssemblyOrderID (addr_String S (co_Sender msg)) sq (co_Identify msg)"
  by (simp add: OrderID_def new_order_def)

lemma checkMsgCreateOrder_Ok:
  assumes "checkMsgCreateOrder C ctx msg cetFee amount denom sq s = Ok ()"
  shows "QueryOrder s (AssemblyOrderID (addr_String C (co_Sender msg)) sq (co_Identify msg)) = None"
    and "GetMarketInfo s (co_TradingPair msg) \<noteq> None"
  using assms by (auto simp: checkMsgCreateOrder_def ret_bind_Ok split: if_splits option.splits)

lemma Add_run:
  assumes "order_ok x"
  shows "Add S (TradingPair x) x s = (Ok (), s\<lparr>market_store :=
    put_order S x (kv_set (NewlyAddedKeyPrefix @ TradingPair x) VMark (market_store s))\<rparr>)"
  using Update_run [OF assms, of S "s\<lparr>market_store := kv_set (NewlyAddedKeyPrefix @ TradingPair x) VMark (market_store s)\<rparr>"]
  by (simp add: Add_def and_then_def store_set_def modify_def)

lemma keep_minv_emit: "keep (minv C tot T G st p) (emit es)"
  by (rule keep_emit) simp

lemma create_order_Ok:
  assumes C: "cosmos_ok C tot" and inv: "market_inv C tot T F s"
    and basic: "MsgCreateOrder_ValidateBasic C msg = Ok ()" and fits: "order_msg_fits msg"
    and params: "market_ValidateGenesis (market_params s) = Ok ()" and h: "height_fits (BlockHeight ctx)"
    and run: "handleMsgCreateOrder C sub ctx msg s = (Ok (), s')"
  shows "\<exists>x. order_wf C x \<and> Sender x = co_Sender msg \<and> TradingPair x = co_TradingPair msg \<and> Height x = BlockHeight ctx \<and>
    LeftStock x = co_Quantity msg \<and> Side x = co_Side msg \<and> GetMarketInfo s (co_TradingPair msg) \<noteq> None \<and>
    book (market_store s) (OrderID C x) = None \<and>
    market_store s' = put_order C x (kv_set (NewlyAddedKeyPrefix @ TradingPair x) VMark (market_store s)) \<and>
    minv C tot T (\<lambda>a d. backing F (book (market_store s)) a d + held x a d) (market_store s') (market_params s) s'"
proof -
  let ?p = "market_params s" and ?st = "market_store s"
  obtain denom amount sq f g where amount: "getDenomAndOrderAmount C msg = Ok (denom, amount)"
    and fee: "calOrderCommission C s msg = Ok f" and feature: "calFeatureFeeForExistBlocks msg ?p = Ok g"
    and chk: "checkMsgCreateOrder C ctx msg (i64 (f + g)) amount denom sq s = Ok ()"
    and rest: "and_then (Add C (TradingPair (new_order C ctx ?p msg sq f g amount)) (new_order C ctx ?p msg sq f g amount)) (\<lambda>_.
       and_then (handleFeeForCreateOrder C amount denom (co_Sender msg) f g) (\<lambda>_.
       and_then (sendCreateOrderMsg C sub (new_order C ctx ?p msg sq f g amount)) (\<lambda>_.
       emit [Event ''create_order'' [(''order'', AStr (OrderID C (new_order C ctx ?p msg sq f g amount))),
               (''trading_pair'', AStr (TradingPair (new_order C ctx ?p msg sq f g amount))),
               (''height'', AStr (itoa (Height (new_order C ctx ?p msg sq f g amount))))],
             message_event C (co_Sender msg)]))) s = (Ok (), s')"
    using run by (auto simp: handleMsgCreateOrder_def and_then_Ok lift_def Let_def fail_def new_order_def
        split: if_splits prod.splits)
  define x where "x = new_order C ctx ?p msg sq f g amount"
  have f: "0 \<le> f" by (rule commission_nonneg [OF market_paramsD(1) [OF params] fee])
  obtain mi where "GetMarketInfo s (co_TradingPair msg) = Some mi" using checkMsgCreateOrder_Ok(2) [OF chk] by auto
  then have pair: "pair_ok C (co_TradingPair msg)"
    using GetMarketInfo_ok [OF store_okD(2) [OF market_invD(1) [OF inv]]] by blast
  note facts = new_order_wf [OF cosmos_okD(4) [OF C] basic fits params pair h amount f feature]
  have wf: "order_wf C x" "used_denom x = denom" "denom_valid C denom" unfolding x_def by (rule facts)+
  note x = order_wfD [OF wf(1)]
  have x': "Sender x = co_Sender msg" "TradingPair x = co_TradingPair msg" "Height x = BlockHeight ctx"
      "LeftStock x = co_Quantity msg" "Side x = co_Side msg" "Freeze x = amount" "FrozenCommission x = f" "FrozenFeatureFee x = g"
    by (simp_all add: x_def new_order_def)
  define st' where "st' = put_order C x (kv_set (NewlyAddedKeyPrefix @ TradingPair x) VMark ?st)"
  let ?s1 = "s\<lparr>market_store := st'\<rparr>"
  have new: "book ?st (OrderID C x) = None"
    using checkMsgCreateOrder_Ok(1) [OF chk] by (simp add: QueryOrder_book x_def order_id_new)
  obtain s2 s3 where s2: "handleFeeForCreateOrder C amount denom (co_Sender msg) f g ?s1 = (Ok (), s2)"
    and s3: "sendCreateOrderMsg C sub x s2 = (Ok (), s3)" "\<exists>es. emit es s3 = (Ok (), s')"
    using rest [folded x_def] by (auto simp: and_then_Ok Add_run [OF x(1)] st'_def)
  have m1: "minv C tot T (backing F (book ?st)) st' ?p ?s1" by (rule minv_store [OF market_invD(4) [OF inv]])
  have m2: "minv C tot T (\<lambda>c d. backing F (book ?st) c d + paid (co_Sender msg) denom amount f g c d) st' ?p s2"
    by (rule minv_handleFee [OF C m1 wf(3) _ s2]) (use x(5) x' in simp)
  have "paid (co_Sender msg) denom amount f g = held x"
    using wf(2) by (auto simp: fun_eq_iff paid_def held_def owes_def x')
  with m2 have m2: "minv C tot T (\<lambda>c d. backing F (book ?st) c d + held x c d) st' ?p s2" by simp
  have "keep (minv C tot T (\<lambda>c d. backing F (book ?st) c d + held x c d) st' ?p) (sendCreateOrderMsg C sub x)"
    unfolding sendCreateOrderMsg_def by (intro keeps keep_minv_FillMsgs)
  from keepD [OF this m2 s3(1)] have m3: "minv C tot T (\<lambda>c d. backing F (book ?st) c d + held x c d) st' ?p s3" by simp
  have m4: "minv C tot T (\<lambda>c d. backing F (book ?st) c d + held x c d) st' ?p s'"
    using s3(2) keepD [OF keep_minv_emit m3] by blast
  show ?thesis
    using wf(1) x' new m4 minvD(4) [OF m4] checkMsgCreateOrder_Ok(2) [OF chk]
    by (intro exI [of _ x]) (simp add: st'_def)
qed

lemma market_inv_events [simp]: "market_inv C tot T F (s\<lparr>events := es\<rparr>) = market_inv C tot T F s"
  by (simp add: market_inv_def)

lemma create_order_inv:
  assumes C: "cosmos_ok C tot" and inv: "market_inv C tot T F s"
    and basic: "MsgCreateOrder_ValidateBasic C msg = Ok ()" and fits: "order_msg_fits msg"
    and params: "market_ValidateGenesis (market_params s) = Ok ()" and h: "height_fits (BlockHeight ctx)"
    and run: "handleMsgCreateOrder C sub ctx msg s = (Ok (), s')"
  shows "market_inv C tot T F s' \<and> market_params s' = market_params s"
proof -
  let ?st = "market_store s"
  obtain x where x: "order_wf C x" "LeftStock x = co_Quantity msg" and new: "book ?st (OrderID C x) = None"
    and st': "market_store s' = put_order C x (kv_set (NewlyAddedKeyPrefix @ TradingPair x) VMark ?st)"
    and m: "minv C tot T (\<lambda>a d. backing F (book ?st) a d + held x a d) (market_store s') (market_params s) s'"
    using create_order_Ok [OF C inv basic fits params h run] by blast
  have b: "book (market_store s') = (book ?st)(OrderID C x \<mapsto> x)"
    by (simp add: st' book_put book_set_other other_keys)
  have "store_ok C (kv_set (NewlyAddedKeyPrefix @ TradingPair x) VMark ?st)"
    by (rule store_ok_set_other [OF _ _ market_invD(1) [OF inv]]) (simp_all add: other_keys)
  then have "store_ok C (market_store s')"
    unfolding st' by (rule store_ok_put) (use order_wfD(1) [OF x(1)] new in \<open>simp_all add: book_set_other other_keys\<close>)
  moreover have "live (book (market_store s'))"
    using market_invD(2) [OF inv] ValidateBasic_order(3) [OF basic] x(2) by (simp add: b live_def)
  moreover have "orders_ok C (book (market_store s'))"
    unfolding b by (rule orders_ok_upd [OF market_invD(3) [OF inv] x(1)])
  moreover have "(\<lambda>a d. backing F (book ?st) a d + held x a d) = backing F (book (market_store s'))"
    unfolding b using reserved_new [OF finite_book new] by (simp add: fun_eq_iff backing_def)
  ultimately show ?thesis using m minvD(5) [OF m] by (simp add: market_inv_def)
qed

subsection \<open>Cancelling an order\<close>

lemma emit_run: "emit es s = (Ok (), s\<lparr>events := events s @ es\<rparr>)"
  by (simp add: emit_def modify_def)

lemma cleaned_events [simp]: "cleaned C tot T F D K s (s'\<lparr>events := es\<rparr>) = cleaned C tot T F D K s s'"
  by (simp add: cleaned_def)

lemma cancel_order_Ok:
  assumes C: "cosmos_ok C tot" and cet: "denom_valid C CET" and F: "\<And>a d. 0 \<le> F a d" and inv: "market_inv C tot T F s"
    and run: "handleMsgCancelOrder C sub ctx msg s = (Ok (), s')"
  shows "\<exists>x. book (market_store s) (ca_OrderID msg) = Some x \<and> Sender x = ca_Sender msg \<and>
    cleaned C tot T F (\<lambda>y. y = x) {} s s'"
proof -
  have chk: "checkMsgCancelOrder msg s = Ok ()"
    using run by (auto simp: handleMsgCancelOrder_def and_then_Ok lift_def)
  then obtain x where q: "QueryOrder s (ca_OrderID msg) = Some x" and x: "Sender x = ca_Sender msg"
    by (auto simp: checkMsgCancelOrder_def split: option.splits if_splits)
  have b: "book (market_store s) (ca_OrderID msg) = Some x" using q by (simp add: QueryOrder_book)
  have on: "on_book C (market_store s) (TradingPair x) x" by (rule on_book_of [OF inv b refl])
  have w: "wp (and_then (removeOrder C ctx (TradingPair x) x (market_params s))
      (\<lambda>_. send_cancel C sub ctx x CancelOrderByManual (market_params s))) (\<lambda>_ s1. cleaned C tot T F (\<lambda>y. y = x) {} s s1) s"
    by (rule wp_cancel [OF C cet F inv on])
  obtain s1 es where s1: "and_then (removeOrder C ctx (TradingPair x) x (market_params s))
      (\<lambda>_. send_cancel C sub ctx x CancelOrderByManual (market_params s)) s = (Ok (), s1)" "emit es s1 = (Ok (), s')"
    using run chk q by (auto simp: handleMsgCancelOrder_def and_then_Ok lift_def sendCancelOrderMsg_def)
  have "cleaned C tot T F (\<lambda>y. y = x) {} s s'"
    using w s1(2) unfolding wp_def s1(1) by (auto simp: emit_run)
  with b x show ?thesis by blast
qed

lemma cancel_order_inv:
  assumes "cosmos_ok C tot" and "denom_valid C CET" and "\<And>a d. 0 \<le> F a d" and "market_inv C tot T F s"
    and "handleMsgCancelOrder C sub ctx msg s = (Ok (), s')"
  shows "market_inv C tot T F s' \<and> market_params s' = market_params s"
  using cancel_order_Ok [OF assms] by (blast dest: cleanedD(1,2))

subsection \<open>Markets\<close>

lemma market_inv_store:
  assumes inv: "market_inv C tot T F s" and st: "store_ok C st" "book st = book (market_store s)"
  shows "market_inv C tot T F (s\<lparr>market_store := st\<rparr>)"
  using assms minv_store [OF market_invD(4) [OF inv], of st] by (simp add: market_inv_def)

lemma market_inv_books:
  assumes inv: "market_inv C tot T F s" and books: "books C tot (\<lambda>a d. 0) s s'"
  shows "market_inv C tot T F s' \<and> market_params s' = market_params s"
proof -
  have m: "minv C tot T (backing F (book (market_store s))) (market_store s) (market_params s) s'"
    using minv_books [OF market_invD(4) [OF inv] books] by simp
  then show ?thesis using inv minvD(4,5) [OF m] by (simp add: market_inv_def)
qed

text \<open>The SDK takes every symbol a token may have for the name of a denomination.\<close>

definition symbols_valid :: "'y sdk_scheme \<Rightarrow> bool" where
  "symbols_valid S \<longleftrightarrow> (\<forall>d. tokenSymbolRegex d \<longrightarrow> denom_valid S d)"

lemma token_pair_ok:
  assumes S: "symbols_valid S" and inv: "asset_inv s" and tokens: "IsTokenExists s stock" "IsTokenExists s money"
  shows "pair_ok S (GetSymbol stock money)"
proof -
  have re: "tokenSymbolRegex stock" "tokenSymbolRegex money"
    using tokens GetToken_valid [OF inv] by (auto simp: IsTokenExists_def token_Validate_iff)
  note chars = tokenSymbolRegex_no_separator(2,3)
  have "SymbolSeparator \<notin> set stock" "SymbolSeparator \<notin> set money"
    using chars(1) [OF re(1)] chars(1) [OF re(2)] by (simp_all add: SymbolSeparator_def)
  then have "SplitSymbol (GetSymbol stock money) = Ok (stock, money)" by (rule Split_GetSymbol)
  moreover have "byte 0 \<noteq> SymbolSeparator" by code_simp
  then have "byte 0 \<notin> set (GetSymbol stock money)"
    using chars(2) [OF re(1)] chars(2) [OF re(2)] by (simp add: GetSymbol_def)
  ultimately show ?thesis using S re by (simp add: pair_ok_def symbols_valid_def)
qed

lemma create_market_Ok:
  assumes C: "cosmos_ok C tot" and S: "symbols_valid C" and inv: "market_inv C tot T F s"
    and run: "handleMsgCreateTradingPair C sub ctx msg s = (Ok (), s')"
  shows "market_inv C tot T F s'" and "market_params s' = market_params s"
    and "GetMarketInfo s (MarketInfo_GetSymbol (new_market msg)) = None"
    and "IsTokenIssuer s (ctp_Stock msg) (ctp_Creator msg)"
    and "market_store s' = kv_set (market_key (MarketInfo_GetSymbol (new_market msg))) (VMarket (new_market msg)) (market_store s)"
proof -
  let ?symbol = "MarketInfo_GetSymbol (new_market msg)"
  let ?s1 = "s\<lparr>market_store := kv_set (market_key ?symbol) (VMarket (new_market msg)) (market_store s)\<rparr>"
  have symbol: "?symbol = GetSymbol (ctp_Stock msg) (ctp_Money msg)" by (simp add: MarketInfo_GetSymbol_def new_market_def)
  have chk: "checkMsgCreateTradingPair C ctx msg s = Ok ()"
    using run by (auto simp: handleMsgCreateTradingPair_def and_then_Ok lift_def)
  then show "GetMarketInfo s ?symbol = None" and "IsTokenIssuer s (ctp_Stock msg) (ctp_Creator msg)"
    by (auto simp: checkMsgCreateTradingPair_def symbol IsMarketExist_def split: if_splits)
  have tokens: "IsTokenExists s (ctp_Stock msg)" "IsTokenExists s (ctp_Money msg)"
    using chk by (auto simp: checkMsgCreateTradingPair_def split: if_splits)
  have "asset_inv s" using minvD(1) [OF market_invD(4) [OF inv]] by (simp add: authx_inv_def lock_inv_def)
  then have pair: "pair_ok C ?symbol" unfolding symbol by (rule token_pair_ok [OF S _ tokens])
  obtain s2 s3 es where s2: "DeductInt64CetFee C (ctp_Creator msg) (CreateMarketFee (market_params s)) ?s1 = (Ok (), s2)"
    and s3: "sendCreateMarketMsg sub msg s2 = (Ok (), s3)" "emit es s3 = (Ok (), s')"
    using run chk by (auto simp: handleMsgCreateTradingPair_def and_then_Ok lift_def SetMarket_run market_key_def)
  have "store_ok C (market_store ?s1)"
    using store_ok_set_market [OF market_invD(1) [OF inv] pair] by (simp add: market_key_def)
  then have i1: "market_inv C tot T F ?s1"
    using market_inv_store [OF inv, of "market_store ?s1"] by (simp add: market_key_def book_set_other other_keys)
  have "books C tot (\<lambda>c d. 0) ?s1 s2"
    by (rule DeductInt64CetFee_books [OF C minvD(1) [OF market_invD(4) [OF i1]] s2]) simp
  then have i2: "market_inv C tot T F s2" "market_params s2 = market_params ?s1" "market_store s2 = market_store ?s1"
    using market_inv_books [OF i1] by (auto simp: books_def)
  have "\<exists>es. s' = s2\<lparr>events := es\<rparr>"
    using s3 by (auto simp: sendCreateMarketMsg_def whenever_def FillMsgs_def emit_run return_def split: if_splits)
  then show "market_inv C tot T F s'" "market_params s' = market_params s"
    "market_store s' = kv_set (market_key ?symbol) (VMarket (new_market msg)) (market_store s)"
    using i2 by auto
qed

lemma cancel_market_Ok:
  assumes inv: "market_inv C tot T F s" and time: "0 \<le> ct_EffectiveTime msg" "ct_EffectiveTime msg < 2 ^ 63"
    and run: "handleMsgCancelTradingPair C ctx msg s = (Ok (), s')"
  shows "market_inv C tot T F s'" and "market_params s' = market_params s"
    and "\<exists>info t. GetMarketInfo s (ct_TradingPair msg) = Some info \<and> GetToken s (mi_Stock info) = Some t \<and>
      Owner t = ct_Sender msg"
    and "\<not> HasDelistRequest s (ct_TradingPair msg)"
    and "ct_TradingPair msg \<in> due (market_store s') (ct_EffectiveTime msg)"
proof -
  let ?st = "market_store s" and ?symbol = "ct_TradingPair msg" and ?t = "ct_EffectiveTime msg"
  have fits: "height_fits ?t" using time by (simp add: height_fits_def)
  have chk: "checkMsgCancelTradingPair msg ctx s = Ok ()" and new: "\<not> HasDelistRequest s ?symbol"
    using run by (auto simp: handleMsgCancelTradingPair_def and_then_Ok lift_def fail_def split: if_splits)
  then show "\<exists>info t. GetMarketInfo s ?symbol = Some info \<and> GetToken s (mi_Stock info) = Some t \<and> Owner t = ct_Sender msg"
    and "\<not> HasDelistRequest s ?symbol"
    by (auto simp: checkMsgCancelTradingPair_def split: if_splits option.splits)
  then obtain info where "GetMarketInfo s ?symbol = Some info" by blast
  then have pair: "pair_ok C ?symbol" using GetMarketInfo_ok [OF store_okD(2) [OF market_invD(1) [OF inv]]] by blast
  define st' where "st' = kv_set (DelistRevKey @ ?symbol) (VNum ?t) (kv_set (delist_key ?t ?symbol) (VSymbol ?symbol) ?st)"
  have "\<exists>es. s' = s\<lparr>market_store := st', events := es\<rparr>"
    using run chk new by (auto simp: handleMsgCancelTradingPair_def and_then_Ok lift_def AddDelistRequest_def
        getDelistKey_fits [OF fits] store_set_def modify_def emit_run st'_def)
  moreover have "store_ok C st'"
    unfolding st'_def
    by (intro store_ok_set_other store_ok_set_delist [OF market_invD(1) [OF inv] fits pair]) (simp_all add: other_keys)
  moreover have "book st' = book ?st"
    by (simp add: st'_def book_set_other other_keys other_delist_key [OF fits])
  ultimately show "market_inv C tot T F s'" "market_params s' = market_params s" "?symbol \<in> due (market_store s') ?t"
    using market_inv_store [OF inv, of st'] fits by (auto simp: due_def st'_def)
qed

lemma modify_precision_Ok:
  assumes inv: "market_inv C tot T F s" and run: "handleMsgModifyPricePrecision C msg s = (Ok (), s')"
  shows "market_inv C tot T F s'" and "market_params s' = market_params s"
    and "\<exists>old stock money t. GetMarketInfo s (mp_TradingPair msg) = Some old \<and>
      SplitSymbol (mp_TradingPair msg) = Ok (stock, money) \<and> GetToken s stock = Some t \<and> Owner t = mp_Sender msg \<and>
      market_store s' = kv_set (market_key (mp_TradingPair msg)) (VMarket (old\<lparr>mi_PricePrecision := mp_PricePrecision msg, mi_OrderPrecision := 0\<rparr>)) (market_store s)"
proof -
  let ?symbol = "mp_TradingPair msg"
  have chk: "checkMsgModifyPricePrecision msg s = Ok ()"
    using run by (auto simp: handleMsgModifyPricePrecision_def and_then_Ok lift_def)
  then obtain old stock money t where old: "GetMarketInfo s ?symbol = Some old" "SplitSymbol ?symbol = Ok (stock, money)"
      "GetToken s stock = Some t" "Owner t = mp_Sender msg"
    by (auto simp: checkMsgModifyPricePrecision_def ret_bind_Ok split: if_splits option.splits)
  have sym: "MarketInfo_GetSymbol old = ?symbol" "pair_ok C ?symbol"
    using GetMarketInfo_ok [OF store_okD(2) [OF market_invD(1) [OF inv]] old(1)] by simp_all
  let ?new = "old\<lparr>mi_PricePrecision := mp_PricePrecision msg, mi_OrderPrecision := 0\<rparr>"
  have new: "MarketInfo_GetSymbol ?new = ?symbol" using sym(1) by (simp add: MarketInfo_GetSymbol_def)
  have lit: "\<lparr>mi_Stock = mi_Stock old, mi_Money = mi_Money old, mi_PricePrecision = mp_PricePrecision msg,
      mi_LastExecutedPrice = mi_LastExecutedPrice old, mi_OrderPrecision = 0\<rparr> = ?new" by (cases old) simp
  have "\<exists>es. s' = s\<lparr>market_store := kv_set (market_key ?symbol) (VMarket ?new) (market_store s), events := es\<rparr>"
    using run chk old(1) new
    by (auto simp: handleMsgModifyPricePrecision_def and_then_Ok lift_def Let_def lit SetMarket_run emit_run market_key_def)
  then obtain es where s': "s' = s\<lparr>market_store := kv_set (market_key ?symbol) (VMarket ?new) (market_store s), events := es\<rparr>" ..
  have "store_ok C (kv_set (market_key ?symbol) (VMarket ?new) (market_store s))"
    using store_ok_set_market [OF market_invD(1) [OF inv], of ?new] new sym(2) by (simp add: market_key_def)
  then show "market_inv C tot T F s'" "market_params s' = market_params s"
    using market_inv_store [OF inv] by (simp_all add: s' book_set_other other_keys market_key_def)
  show "\<exists>old stock money t. GetMarketInfo s ?symbol = Some old \<and> SplitSymbol ?symbol = Ok (stock, money) \<and>
      GetToken s stock = Some t \<and> Owner t = mp_Sender msg \<and> market_store s' = kv_set (market_key ?symbol)
        (VMarket (old\<lparr>mi_PricePrecision := mp_PricePrecision msg, mi_OrderPrecision := 0\<rparr>)) (market_store s)"
    using old s' by (intro exI [of _ old] exI [of _ stock] exI [of _ money] exI [of _ t]) simp
qed

end
