(* ===== verification/BancorInv.thy ===== *)
theory BancorInv
  imports BancorHandler BancorCurve MarketHandlerInv
begin

section \<open>The bancorlite module's invariant\<close>

text \<open>
  Every pool is on its curve, and what the pools hold is frozen on their owners' accounts: each
  message of the module changes the frozen coins of an account by what it changes its pools by.
\<close>

subsection \<open>A new pool\<close>

lemma go_quo_nonpos: "a \<le> 0 \<Longrightarrow> 0 < b \<Longrightarrow> go_quo a b \<le> 0"
  by (cases "a = 0") (simp_all add: go_quo_def pos_imp_zdiv_nonneg_iff)

lemma CalculateAR_pos:
  assumes dec: "dec_ok S" and D: "bancor_ok D" and M: "0 < M" and run: "CalculateAR S D M m p q = Ok ar" and ar: "0 < ar"
  shows "p < q" and "p * M < m * dec_one" and "m * dec_one \<le> q * M" and "\<bar>p * M\<bar> < 2 ^ 315" and "\<bar>q * M\<bar> < 2 ^ 315"
proof -
  let ?above = "q * M - m * dec_one" and ?below = "m * dec_one - p * M"
  have ne: "q \<noteq> p" using run ar by (auto simp: CalculateAR_def)
  have "\<bar>p * M\<bar> < 2 ^ 315 \<and> p * M < m * dec_one"
  proof -
    obtain least where "dec_chk (p * M) = Ok least" "\<not> m * dec_one \<le> least"
      using run ar ne by (auto simp: CalculateAR_def ret_bind_Ok bancor_okD [OF D] dec_okD(1) [OF dec] split: if_splits)
    then show ?thesis by simp
  qed
  then show least: "\<bar>p * M\<bar> < 2 ^ 315" "p * M < m * dec_one" by simp_all
  then have below: "0 < ?below" by simp
  obtain u where u: "\<bar>q * M\<bar> < 2 ^ 315" "chk_QuoTruncate D ?above ?below = Ok u" "dec_TruncateInt64 S (u * ARSamples) = Ok ar"
    using run ne least
    by (auto simp: CalculateAR_def ret_bind_Ok bancor_okD(1-4) [OF D] dec_okD(1) [OF dec] mult.commute split: if_splits)
  have u2: "u = go_quo (?above * dec_one) ?below" using u(2) unfolding bancor_okD(5) [OF D below] by simp
  show "\<bar>q * M\<bar> < 2 ^ 315" by (rule u(1))
  show most: "m * dec_one \<le> q * M"
  proof (rule ccontr)
    assume "\<not> m * dec_one \<le> q * M"
    then have "?above * dec_one \<le> 0" by (intro mult_nonpos_nonneg) simp_all
    then have "u \<le> 0" unfolding u2 by (rule go_quo_nonpos) (rule below)
    then have "u * ARSamples \<le> 0" by (simp add: ARSamples_def)
    then have "dec_TruncateInt S (u * ARSamples) \<le> 0" unfolding dec_okD(11) [OF dec] by (rule go_quo_nonpos) simp
    then show False using u(3) ar by (simp add: dec_TruncateInt64_def to_Int64_def split: if_splits)
  qed
  have "p * M < q * M" using least(2) most by (rule less_le_trans)
  then show "p < q" using M by simp
qed

lemma recover_Ok: "recover x m = Ok y \<Longrightarrow> m = Ok y \<or> m = Panic \<and> x = y"
  by (cases m) (auto simp: recover_def)

text \<open>What \<open>ValidateBasic\<close> ensures of the terms: a linear pool or one along a power curve.\<close>

lemma new_pool_cases:
  assumes dec: "dec_ok S" and D: "bancor_ok D" and basic: "MsgBancorInit_ValidateBasic S D msg = Ok ()"
    and p: "NewDecFromStr D (bn_InitPrice msg) = Some p" and q: "NewDecFromStr D (bn_MaxPrice msg) = Some q"
    and ar: "CalculateAR S D (bn_MaxSupply msg) (bn_MaxMoney msg) p q = Ok ar"
  obtains (linear) "bn_MaxMoney msg = 0" "ar = 0" "0 < bn_MaxSupply msg" "0 \<le> p" "p \<le> q" "p + q < 2 ^ 315"
  | (power) "bn_MaxMoney msg \<noteq> 0" "0 < ar" "ar \<le> MaxAR" "0 < bn_MaxSupply msg" "0 \<le> p" "p < q"
      "p * bn_MaxSupply msg < bn_MaxMoney msg * dec_one" "bn_MaxMoney msg \<le> MaxTradeAmount" "q < 2 ^ 315"
      "p * bn_MaxSupply msg < 2 ^ 315"
proof -
  let ?M = "bn_MaxSupply msg" and ?m = "bn_MaxMoney msg"
  have b: "0 < ?M" "0 \<le> ?m" "?m \<le> MaxTradeAmount" "0 < q" "0 \<le> p"
    and c: "\<exists>ar ok. CheckAR S D ?M ?m p q = Ok (ar, ok) \<and> ar \<le> MaxAR \<and> 0 \<le> ar \<and> ok \<and>
      (ar = 0 \<longrightarrow> checkMaxPrice S D p q ?M = Ok ())"
    using basic by (auto simp: MsgBancorInit_ValidateBasic_def p q ret_bind_Ok not_less split: if_splits prod.splits)
  show thesis
  proof (cases "?m = 0")
    case True
    then have "checkMaxPrice S D p q ?M = Ok ()" using c by (auto simp: CheckAR_def recover_def)
    then have le: "p \<le> q" and r: "recover True (ret_bind (chk_Add D p q) (\<lambda>x. ret_bind (dec_QuoInt_ret S x 2) (\<lambda>x.
        ret_map (\<lambda>x. x > NewDec S MaxTradeAmount) (chk_MulInt D x ?M)))) = Ok False"
      by (auto simp: checkMaxPrice_def ret_bind_Ok not_less split: if_splits)
    have sum: "p + q < 2 ^ 315" using recover_Ok [OF r] by (auto simp: ret_bind_Ok bancor_okD [OF D])
    have "0 \<le> p * ?M" using b by simp
    then have "ar = 0" using ar True by (auto simp: CalculateAR_def ret_bind_Ok bancor_okD [OF D] dec_okD(1) [OF dec] split: if_splits)
    then show thesis using linear le sum b True by blast
  next
    case False
    obtain ar' where "CheckAR S D ?M ?m p q = Ok (ar', True)" "ar' \<le> MaxAR" "0 \<le> ar'" using c by auto
    moreover from this(1) have "ar' = ar \<and> ar \<noteq> 0" using False ar by (auto simp: CheckAR_def recover_def split: if_splits)
    ultimately have ar': "0 < ar" "ar \<le> MaxAR" by auto
    note f = CalculateAR_pos [OF dec D b(1) ar ar'(1)]
    have "1 * q \<le> ?M * q" using b by (intro mult_right_mono) simp_all
    also have "\<dots> < 2 ^ 315" using f(5) by (simp only: mult.commute abs_less_iff)
    finally have "q < 2 ^ 315" by simp
    then show thesis using power False ar' b f by (simp add: abs_less_iff)
  qed
qed

lemma TableLookup_zero:
  assumes dec: "dec_ok S" and D: "bancor_ok D" and x: "0 < x" "x < 6001"
  shows "TableLookup S D x 0 = Ok 0"
proof -
  have "table_ok (BancorTable D)" by (rule bancor_okD(8) [OF D])
  then have "BancorTable D (nat x) 0 = 0" using x by (simp add: table_ok_def)
  then show ?thesis using x quo_table(3) [OF dec, of 0] by (simp add: TableLookup_def)
qed

lemma new_bancor_simps [simp]:
  "(new_bancor msg p q ar)\<lparr>bi_StockInPool := bn_MaxSupply msg\<rparr> = new_bancor msg p q ar"
  "bi_StockInPool (new_bancor msg p q ar) = bn_MaxSupply msg" "bi_MaxSupply (new_bancor msg p q ar) = bn_MaxSupply msg"
  "bi_InitPrice (new_bancor msg p q ar) = p" "bi_MaxPrice (new_bancor msg p q ar) = q" "bi_AR (new_bancor msg p q ar) = ar"
  "bi_MaxMoney (new_bancor msg p q ar) = bn_MaxMoney msg" "bi_MoneyInPool (new_bancor msg p q ar) = 0"
  "bi_Owner (new_bancor msg p q ar) = bn_Owner msg" "bi_Stock (new_bancor msg p q ar) = bn_Stock msg"
  "bi_Money (new_bancor msg p q ar) = bn_Money msg" "bi_EarliestCancelTime (new_bancor msg p q ar) = bn_EarliestCancelTime msg"
  "(new_bancor msg p q ar)\<lparr>bi_Price := p, bi_MoneyInPool := 0\<rparr> = new_bancor msg p q ar"
  "(new_bancor msg p q ar)\<lparr>bi_MoneyInPool := 0, bi_Price := p\<rparr> = new_bancor msg p q ar"
  by (simp_all add: new_bancor_def)

lemma new_pool_ok:
  assumes dec: "dec_ok S" and int: "int_ok S" and D: "bancor_ok D" and basic: "MsgBancorInit_ValidateBasic S D msg = Ok ()"
    and p: "NewDecFromStr D (bn_InitPrice msg) = Some p" and q: "NewDecFromStr D (bn_MaxPrice msg) = Some q"
    and ar: "CalculateAR S D (bn_MaxSupply msg) (bn_MaxMoney msg) p q = Ok ar"
  shows "pool_ok S D (new_bancor msg p q ar)"
proof -
  let ?bi = "new_bancor msg p q ar" and ?M = "bn_MaxSupply msg"
  have zero: "go_quo 0 n = 0" "dec_TruncateInt S 0 = 0" for n by (simp_all add: go_quo_def dec_okD(11) [OF dec])
  show ?thesis
  proof (cases rule: new_pool_cases [OF dec D basic p q ar, case_names linear power])
    case linear
    have "dec_RoundInt S 0 = 0" using round_whole [OF dec, of 0] by simp
    then have "on_curve S D ?bi"
      using linear
      by (simp add: on_curve_def UpdateStockInPool_def Let_def int_okD [OF int] linear_price_def linear_money_def
          bancor_okD(1-4) [OF D] dec_chk_def QuoInt_ret_Ok [OF dec])
    then show ?thesis using linear by (simp add: pool_ok_def pool_terms_def MaxAR_def)
  next
    case power
    have i: "i64 (ar + ARSamples) = ar + ARSamples" using power(2,3) by (intro i64_id) (simp_all add: MaxAR_def ARSamples_def)
    have look: "TableLookup S D (i64 (ar + ARSamples)) 0 = Ok 0" "TableLookup S D ar 0 = Ok 0"
      unfolding i using power(2,3) by (auto intro!: TableLookup_zero [OF dec D] simp: MaxAR_def ARSamples_def)
    have "0 \<le> p * ?M" using power by simp
    then have least: "dec_TruncateInt S (p * ?M) = p * ?M div dec_one" "0 \<le> p * ?M div dec_one"
      using dec_okD(11) [OF dec] by (simp_all add: go_quo_pos pos_imp_zdiv_nonneg_iff)
    have "p * ?M div dec_one \<le> bn_MaxMoney msg * dec_one div dec_one" using power(7) by (intro zdiv_mono1) simp_all
    then have above: "\<bar>bn_MaxMoney msg - p * ?M div dec_one\<bar> < 2 ^ 255" using power(8) least(2) by (simp add: MaxTradeAmount_def)
    have price: "curve_price D ?bi 0 = Ok p"
      using power by (simp add: curve_price_def bancor_okD(1-4) [OF D] dec_chk_def zero)
    have money: "curve_money S D ?bi 0 0 = Ok 0"
      using power above \<open>0 \<le> p * ?M\<close>
      by (simp add: curve_money_def bancor_okD(1-4) [OF D] dec_chk_def zero int_okD [OF int] least(1))
    have ratios: "power_ratios S D ?bi 0 0 = Ok (0, 0)"
      using look by (simp add: power_ratios_def bancor_okD(7) [OF D])
    have "on_curve S D ?bi"
      using power price money ratios
      by (simp add: on_curve_def UpdateStockInPool_def Let_def int_okD [OF int] bancor_okD(7) [OF D] int_Quo_ret_def
          zero to_Int64_def in_i64_def SupplyRatioSamples_def)
    then show ?thesis using power by (simp add: pool_ok_def pool_terms_def)
  qed
qed

subsection \<open>What the pools hold\<close>

definition pool_holds :: "addr \<Rightarrow> string \<Rightarrow> bancor_info \<Rightarrow> int" where
  "pool_holds a d bi = (if bi_Owner bi = a
     then (if bi_Stock bi = d then bi_StockInPool bi else 0) + (if bi_Money bi = d then bi_MoneyInPool bi else 0) else 0)"

definition pool_total :: "bancor_info kv \<Rightarrow> addr \<Rightarrow> string \<Rightarrow> int" where
  "pool_total st a d = kv_sum (pool_holds a d) st"

definition pools_ok :: "'y sdk_scheme \<Rightarrow> bancor_lib \<Rightarrow> bancor_info kv \<Rightarrow> bool" where
  "pools_ok S D st \<longleftrightarrow> kv_ok st \<and> (\<forall>k bi. kv_get st k = Some bi \<longrightarrow>
     k = BancorInfoKey @ bancor_GetSymbol bi \<and> pool_ok S D bi \<and> IsValidTradingPair [bi_Stock bi, bi_Money bi])"

lemma pools_okD:
  assumes "pools_ok S D st"
  shows "kv_ok st" and "kv_get st k = Some bi \<Longrightarrow> k = BancorInfoKey @ bancor_GetSymbol bi"
    and "kv_get st k = Some bi \<Longrightarrow> pool_ok S D bi" and "kv_get st k = Some bi \<Longrightarrow> IsValidTradingPair [bi_Stock bi, bi_Money bi]"
  using assms unfolding pools_ok_def by blast+

lemma pool_total_bounds:
  assumes "dec_ok S" and "int_ok S" and "bancor_ok D" and st: "pools_ok S D st"
  shows "0 \<le> pool_total st a d" and "kv_get st k = Some bi \<Longrightarrow> pool_holds a d bi \<le> pool_total st a d"
proof -
  have nonneg: "0 \<le> pool_holds a d bi" if "kv_get st k = Some bi" for k bi
    using pool_okD(2,4) [OF assms(1-3) pools_okD(3) [OF st that]] by (simp add: pool_holds_def)
  have val: "kv_val (pool_holds a d) st k \<le> pool_total st a d" for k
    unfolding pool_total_def by (rule kv_val_le_sum [OF pools_okD(1) [OF st] nonneg])
  have "0 \<le> kv_val (pool_holds a d) st k" using nonneg by (simp add: kv_val_def split: option.split)
  then show "0 \<le> pool_total st a d" using val by (rule order_trans)
  show "kv_get st k = Some bi \<Longrightarrow> pool_holds a d bi \<le> pool_total st a d" using val [of k] by (simp add: kv_val_def)
qed

lemma valid_pair_separator:
  assumes "IsValidTradingPair [stock, money]"
  shows "SymbolSeparator \<notin> set stock"
proof -
  have "tokenSymbolRegex stock"
    using assms by (auto simp: IsValidTradingPair_def ValidateTokenSymbol_def split: if_splits)
  then show ?thesis using tokenSymbolRegex_no_separator(2) by (simp add: SymbolSeparator_def)
qed

lemma GetSymbol_inj:
  assumes "GetSymbol stock money = GetSymbol stock' money'" and "SymbolSeparator \<notin> set stock" and "SymbolSeparator \<notin> set stock'"
  shows "stock' = stock" and "money' = money"
  using assms by (auto simp: GetSymbol_def append_eq_append_conv2 append_eq_Cons_conv Cons_eq_append_conv)

lemma pool_total_set:
  "kv_ok st \<Longrightarrow> pool_total (kv_set k bi st) a d =
     pool_total st a d - (case kv_get st k of None \<Rightarrow> 0 | Some old \<Rightarrow> pool_holds a d old) + pool_holds a d bi"
  by (simp add: pool_total_def kv_sum_set kv_val_def)

lemma pool_total_delete:
  "kv_ok st \<Longrightarrow> pool_total (kv_delete k st) a d =
     pool_total st a d - (case kv_get st k of None \<Rightarrow> 0 | Some old \<Rightarrow> pool_holds a d old)"
  by (simp add: pool_total_def kv_sum_delete kv_val_def)

lemma pools_ok_set:
  assumes "pools_ok S D st" and "pool_ok S D bi" and "IsValidTradingPair [bi_Stock bi, bi_Money bi]"
  shows "pools_ok S D (kv_set (BancorInfoKey @ bancor_GetSymbol bi) bi st)"
  using assms by (auto simp: pools_ok_def alist.get_set split: if_splits)

lemma pools_ok_delete: "pools_ok S D st \<Longrightarrow> pools_ok S D (kv_delete k st)"
  by (auto simp: pools_ok_def alist.get_delete split: if_splits)

subsection \<open>The books while the stores of market and bancorlite stay as they are\<close>

definition beyond_accounts ::
    "('b, 'z) bancor_state_scheme \<Rightarrow> market_val kv \<times> market_params \<times> bancor_info kv \<times> bancor_params \<times> 'z" where
  "beyond_accounts s = (market_store s, market_params s, bancor_store s, bancor_params s, bancor_state.more s)"

definition binv ::
    "('b, 'y) cosmos_scheme \<Rightarrow> ('b \<Rightarrow> string \<Rightarrow> int) \<Rightarrow> ledger \<Rightarrow> (addr \<Rightarrow> string \<Rightarrow> int) \<Rightarrow>
      market_val kv \<times> market_params \<times> bancor_info kv \<times> bancor_params \<times> 'z \<Rightarrow> ('b, 'z) bancor_state_scheme \<Rightarrow> bool" where
  "binv C tot T G x s \<longleftrightarrow> book_inv C tot T G s \<and> beyond_accounts s = x"

lemma binv_authx: "binv C tot T G x s \<Longrightarrow> authx_inv C s"
  by (simp add: binv_def book_inv_def)

lemma binv_books:
  assumes "binv C tot T G x s" and "books C tot f s s'"
  shows "binv C tot T (\<lambda>a d. G a d + f a d) x s'"
  using assms by (auto simp: binv_def book_inv_def books_def ledger_of_def fun_eq_iff beyond_accounts_def)

lemma binv_same: "binv C tot T G x s \<Longrightarrow> books C tot (\<lambda>a d. 0) s s' \<Longrightarrow> binv C tot T G x s'"
  using binv_books by fastforce

lemma binv_events [simp]: "binv C tot T G x (s\<lparr>events := es\<rparr>) = binv C tot T G x s"
  by (simp add: binv_def beyond_accounts_def)

lemma binv_emit: "binv C tot T G x s \<Longrightarrow> emit es s = (Ok u, s') \<Longrightarrow> binv C tot T G x s'"
  by (auto simp: emit_run)

lemma binv_queue: "binv C tot T G x s \<Longrightarrow> fillBancorQueue sub key msg s = (Ok u, s') \<Longrightarrow> binv C tot T G x s'"
  by (auto simp: fillBancorQueue_def whenever_def FillMsgs_def emit_run return_def split: if_splits)

lemma binv_Send:
  "cosmos_ok C tot \<Longrightarrow> binv C tot T G x s \<Longrightarrow> SendCoins C a b amt s = (Ok u, s') \<Longrightarrow> binv C tot T G x s'"
  by (rule binv_same [OF _ SendCoins_books [OF _ binv_authx]]) auto

lemma binv_DeductFee:
  "cosmos_ok C tot \<Longrightarrow> binv C tot T G x s \<Longrightarrow> DeductFee C a amt s = (Ok u, s') \<Longrightarrow> binv C tot T G x s'"
  by (rule binv_same [OF _ DeductFee_books [OF _ binv_authx]]) auto

lemma binv_Deduct64:
  "cosmos_ok C tot \<Longrightarrow> binv C tot T G x s \<Longrightarrow> DeductInt64CetFee C a amt s = (Ok u, s') \<Longrightarrow> binv C tot T G x s'"
  by (rule binv_same [OF _ DeductInt64CetFee_books [OF _ binv_authx]]) auto

lemma binv_Freeze:
  assumes "cosmos_ok C tot" and "binv C tot T G x s" and "FreezeCoins C a amt s = (Ok u, s')"
  shows "binv C tot T (\<lambda>c d. G c d + (if c = a then coins_AmountOf C amt d else 0)) x s'"
  by (rule binv_books [OF assms(2) FreezeCoins_books(1) [OF assms(1) binv_authx [OF assms(2)] assms(3)]])

lemma binv_UnFreeze:
  assumes C: "cosmos_ok C tot" and inv: "binv C tot T G x s" and valid: "coins_IsValid C amt" and run: "UnFreezeCoins C a amt s = (Ok u, s')"
  shows "binv C tot T (\<lambda>c d. G c d + (if c = a then - coins_AmountOf C amt d else 0)) x s'"
  using UnFreezeCoins_cases [OF C binv_authx [OF inv] valid run]
  by (cases, auto intro: binv_books [OF inv])

subsection \<open>The interface to bankx\<close>

text \<open>
  \<open>ExpectedBankxKeeper\<close> of \<open>internal/types/expected_keepers.go\<close>. \<open>inv G\<close> says that \<open>G\<close> is what everybody has
  frozen: sending coins and charging fees leave it alone, freezing and unfreezing change it by the amount.
\<close>

locale expected_bankx =
  fixes send :: "addr \<Rightarrow> addr \<Rightarrow> coins \<Rightarrow> ('s, unit) op"
    and freeze :: "addr \<Rightarrow> coins \<Rightarrow> ('s, unit) op"
    and unfreeze :: "addr \<Rightarrow> coins \<Rightarrow> ('s, unit) op"
    and fee :: "addr \<Rightarrow> coins \<Rightarrow> ('s, unit) op"
    and amount :: "coins \<Rightarrow> string \<Rightarrow> int"
    and valid :: "coins \<Rightarrow> bool"
    and inv :: "(addr \<Rightarrow> string \<Rightarrow> int) \<Rightarrow> 's \<Rightarrow> bool"
  assumes send_law: "inv G s \<Longrightarrow> send a b cs s = (Ok u, s') \<Longrightarrow> inv G s'"
    and fee_law: "inv G s \<Longrightarrow> fee a cs s = (Ok u, s') \<Longrightarrow> inv G s'"
    and freeze_law: "inv G s \<Longrightarrow> freeze a cs s = (Ok u, s') \<Longrightarrow> inv (\<lambda>c d. G c d + (if c = a then amount cs d else 0)) s'"
    and unfreeze_law: "inv G s \<Longrightarrow> valid cs \<Longrightarrow> unfreeze a cs s = (Ok u, s') \<Longrightarrow>
      inv (\<lambda>c d. G c d + (if c = a then - amount cs d else 0)) s'"
begin

text \<open>What a trade does with it: coins go to the owner and are frozen, others are released and go back.\<close>

lemma swap:
  assumes "inv G s" and "valid out"
    and run: "and_then (send trader owner inn) (\<lambda>_. and_then (freeze owner inn) (\<lambda>_.
      and_then (unfreeze owner out) (\<lambda>_. send owner trader out))) s = (Ok u, s')"
  shows "inv (\<lambda>a d. G a d + (if a = owner then amount inn d else 0) + (if a = owner then - amount out d else 0)) s'"
proof -
  obtain s1 s2 s3 where r: "send trader owner inn s = (Ok (), s1)" "freeze owner inn s1 = (Ok (), s2)"
      "unfreeze owner out s2 = (Ok (), s3)" "send owner trader out s3 = (Ok u, s')"
    using run by (auto simp: and_then_Ok)
  show ?thesis
    by (rule send_law [OF unfreeze_law [OF freeze_law [OF send_law [OF assms(1) r(1)] r(2)] assms(2) r(3)] r(4)])
qed

lemma pay_with_rebate:
  assumes "inv G s"
    and run: "(if b then and_then (lift m) (\<lambda>cs. and_then (fee a cs) (\<lambda>_. and_then (lift m') (\<lambda>cs. send a r cs)))
      else and_then (lift m'') (fee a)) s = (Ok u, s')"
  shows "inv G s'"
  using assms by (auto simp: and_then_Ok lift_Ok split: if_splits intro: send_law fee_law)

end

interpretation bk: expected_bankx "SendCoins C" "FreezeCoins C" "UnFreezeCoins C" "DeductFee C" "coins_AmountOf C" "coins_IsValid C"
    "\<lambda>G s. cosmos_ok C tot \<and> binv C tot T G x s"
  for C :: "('b, 'y) cosmos_scheme" and tot T and x :: "market_val kv \<times> market_params \<times> bancor_info kv \<times> bancor_params \<times> 'z"
  by unfold_locales (auto intro: binv_Send binv_DeductFee binv_Freeze binv_UnFreeze)

lemma book_inv_bancor [simp]: "book_inv C tot T F (s\<lparr>bancor_store := st\<rparr>) = book_inv C tot T F s"
  by (simp add: book_inv_def authx_inv_def accx_store_ok_def asset_inv_def lock_inv_def send_lock_def GetToken_def token_body_def
      locked_total_def accounts_exist_def ledger_of_def fun_eq_iff total_coins_def frozen_total_def frozen_def locked_def
      GetAccountX_def)

lemma bancor_Save_run: "bancor_Save bi s = (Ok (), s\<lparr>bancor_store := kv_set (BancorInfoKey @ bancor_GetSymbol bi) bi (bancor_store s)\<rparr>)"
  by (simp add: bancor_Save_def modify_def)

lemma binv_Save:
  assumes "binv C tot T G (ms, mp, st, bp, ext) s" and "bancor_Save bi s = (Ok u, s')"
  shows "binv C tot T G (ms, mp, kv_set (BancorInfoKey @ bancor_GetSymbol bi) bi st, bp, ext) s'"
proof -
  have s': "s' = s\<lparr>bancor_store := kv_set (BancorInfoKey @ bancor_GetSymbol bi) bi st\<rparr>"
    using assms by (auto simp: bancor_Save_run binv_def beyond_accounts_def)
  show ?thesis unfolding s' using assms(1) by (simp add: binv_def beyond_accounts_def)
qed

subsection \<open>The messages\<close>

definition pools_inv ::
    "('b, 'y) cosmos_scheme \<Rightarrow> bancor_lib \<Rightarrow> ('b \<Rightarrow> string \<Rightarrow> int) \<Rightarrow> ledger \<Rightarrow> (addr \<Rightarrow> string \<Rightarrow> int) \<Rightarrow>
      ('b, 'z) bancor_state_scheme \<Rightarrow> bool" where
  "pools_inv C D tot T F s \<longleftrightarrow> pools_ok C D (bancor_store s) \<and>
     book_inv C tot T (\<lambda>a d. pool_total (bancor_store s) a d + F a d) s"

definition market_same :: "('b, 'z) bancor_state_scheme \<Rightarrow> ('b, 'z) bancor_state_scheme \<Rightarrow> bool" where
  "market_same s s' \<longleftrightarrow> market_store s' = market_store s \<and> market_params s' = market_params s \<and>
     bancor_params s' = bancor_params s \<and> bancor_state.more s' = bancor_state.more s"

lemma pools_inv_binv:
  assumes "pools_inv C D tot T F s"
  shows "binv C tot T (\<lambda>a d. pool_total (bancor_store s) a d + F a d) (beyond_accounts s) s"
    and "pools_ok C D (bancor_store s)"
  using assms by (simp_all add: pools_inv_def binv_def)

lemma binv_pools_inv:
  assumes "binv C tot T G (market_store s, market_params s, st, bancor_params s, bancor_state.more s) s'" and "pools_ok C D st"
    and "\<And>a d. G a d = pool_total st a d + F a d"
  shows "pools_inv C D tot T F s'" and "market_same s s'" and "bancor_store s' = st"
  using assms by (simp_all add: pools_inv_def market_same_def binv_def beyond_accounts_def book_inv_def)

lemma one_coin:
  assumes "coins_ok S" and "NewCoin S d x = Ok c"
  shows "coins_AmountOf S [c] e = (if d = e then x else 0)" and "0 < x \<Longrightarrow> coins_IsValid S [c]"
  using assms by (auto simp: coins_okD coins_AmountOf_simps split: if_splits)

lemma bancor_Load_None: "bancor_Load s symbol = None \<longleftrightarrow> kv_get (bancor_store s) (BancorInfoKey @ symbol) = None"
  by (simp add: bancor_Load_def)

lemma bancor_init_Ok:
  assumes C: "cosmos_ok C tot" and D: "bancor_ok D" and inv: "pools_inv C D tot T F s"
    and basic: "MsgBancorInit_ValidateBasic C D msg = Ok ()" and run: "handleMsgBancorInit C D sub msg s = (Ok (), s')"
  shows "pools_inv C D tot T F s'" and "market_same s s'"
    and "bancor_Load s (MsgBancorInit_GetSymbol msg) = None" and "IsTokenIssuer s (bn_Stock msg) (bn_Owner msg)"
    and "\<exists>p q ar. NewDecFromStr D (bn_InitPrice msg) = Some p \<and> NewDecFromStr D (bn_MaxPrice msg) = Some q \<and>
      CalculateAR C D (bn_MaxSupply msg) (bn_MaxMoney msg) p q = Ok ar \<and>
      bancor_store s' = kv_set (BancorInfoKey @ MsgBancorInit_GetSymbol msg) (new_bancor msg p q ar) (bancor_store s)"
proof -
  note laws = cosmos_okD [OF C]
  show new: "bancor_Load s (MsgBancorInit_GetSymbol msg) = None" and "IsTokenIssuer s (bn_Stock msg) (bn_Owner msg)"
    using run by (auto simp: handleMsgBancorInit_def split: if_splits)
  obtain c s1 s2 p q ar s3 price info s4 es where c: "NewCoin C (bn_Stock msg) (bn_MaxSupply msg) = Ok c"
    and s1: "FreezeCoins C (bn_Owner msg) [c] s = (Ok (), s1)"
    and s2: "DeductInt64CetFee C (bn_Owner msg) (CreateBancorFee (bancor_params s)) s1 = (Ok (), s2)"
    and pq: "NewDecFromStr D (bn_InitPrice msg) = Some p" "NewDecFromStr D (bn_MaxPrice msg) = Some q"
    and ar: "CalculateAR C D (bn_MaxSupply msg) (bn_MaxMoney msg) p q = Ok ar"
    and s3: "bancor_Save (new_bancor msg p q ar) s2 = (Ok (), s3)"
    and s4: "fillBancorQueue sub ''bancor_create'' info s3 = (Ok (), s4)" "emit es s4 = (Ok (), s')"
    using run by (auto simp: handleMsgBancorInit_def Ok_simps Let_def split: if_splits option.splits)
  let ?bi = "new_bancor msg p q ar" and ?st = "bancor_store s" and ?B = "beyond_accounts s"
  have key: "bancor_GetSymbol ?bi = MsgBancorInit_GetSymbol msg" by (simp add: bancor_GetSymbol_def MsgBancorInit_GetSymbol_def)
  let ?st' = "kv_set (BancorInfoKey @ MsgBancorInit_GetSymbol msg) ?bi ?st"
  let ?G = "\<lambda>a d. pool_total ?st a d + F a d + (if a = bn_Owner msg then coins_AmountOf C [c] d else 0)"
  note inv0 = pools_inv_binv [OF inv]
  have "binv C tot T ?G ?B s1" by (rule binv_Freeze [OF C inv0(1) s1])
  then have "binv C tot T ?G ?B s2" by (rule binv_Deduct64 [OF C _ s2])
  then have "binv C tot T ?G (market_store s, market_params s, ?st', bancor_params s, bancor_state.more s) s3"
    using binv_Save [OF _ s3] by (simp add: beyond_accounts_def key)
  then have i: "binv C tot T ?G (market_store s, market_params s, ?st', bancor_params s, bancor_state.more s) s'"
    using binv_emit [OF binv_queue [OF _ s4(1)] s4(2)] by blast
  have pair: "IsValidTradingPair [bi_Stock ?bi, bi_Money ?bi]"
    using basic by (auto simp: MsgBancorInit_ValidateBasic_def split: if_splits)
  have ok: "pools_ok C D ?st'"
    using pools_ok_set [OF inv0(2) new_pool_ok [OF laws(4,3) D basic pq ar] pair] by (simp add: key)
  have "?G a d = pool_total ?st' a d + F a d" for a d
    using new pool_total_set [OF pools_okD(1) [OF inv0(2)], of "BancorInfoKey @ MsgBancorInit_GetSymbol msg" ?bi a d]
      one_coin(1) [OF laws(5) c, of d]
    by (auto simp: bancor_Load_None pool_holds_def)
  from binv_pools_inv [OF i ok this] show "pools_inv C D tot T F s'" "market_same s s'" by simp_all
  show "\<exists>p q ar. NewDecFromStr D (bn_InitPrice msg) = Some p \<and> NewDecFromStr D (bn_MaxPrice msg) = Some q \<and>
      CalculateAR C D (bn_MaxSupply msg) (bn_MaxMoney msg) p q = Ok ar \<and>
      bancor_store s' = kv_set (BancorInfoKey @ MsgBancorInit_GetSymbol msg) (new_bancor msg p q ar) (bancor_store s)"
    using i pq ar by (intro exI [of _ p] exI [of _ q] exI [of _ ar]) (simp add: binv_def beyond_accounts_def)
qed

lemma bancor_cancel_Ok:
  assumes C: "cosmos_ok C tot" and inv: "pools_inv C D tot T F s" and run: "handleMsgBancorCancel C ctx msg s = (Ok (), s')"
  shows "pools_inv C D tot T F s'" and "market_same s s'"
    and "\<exists>bi. bancor_Load s (MsgBancorCancel_GetSymbol msg) = Some bi \<and> bi_Owner bi = bc_Owner msg \<and>
      bi_EarliestCancelTime bi \<le> Unix ctx \<and>
      bancor_store s' = kv_delete (BancorInfoKey @ MsgBancorCancel_GetSymbol msg) (bancor_store s)"
proof -
  note laws = cosmos_okD [OF C]
  let ?st = "bancor_store s" and ?k = "BancorInfoKey @ MsgBancorCancel_GetSymbol msg"
  obtain bi s1 s2 stock s3 money s4 es where bi: "bancor_Load s (MsgBancorCancel_GetSymbol msg) = Some bi"
      "bi_Owner bi = bc_Owner msg" "bi_EarliestCancelTime bi \<le> Unix ctx"
    and s1: "DeductInt64CetFee C (bc_Owner msg) (CancelBancorFee (bancor_params s)) s = (Ok (), s1)"
    and s2: "bancor_Remove bi s1 = (Ok (), s2)"
    and s3: "dex_NewCoins C (bi_Stock bi) (bi_StockInPool bi) = Ok stock" "UnFreezeCoins C (bi_Owner bi) stock s2 = (Ok (), s3)"
    and s4: "dex_NewCoins C (bi_Money bi) (bi_MoneyInPool bi) = Ok money" "UnFreezeCoins C (bi_Owner bi) money s3 = (Ok (), s4)"
    and es: "emit es s4 = (Ok (), s')"
    using run by (auto simp: handleMsgBancorCancel_def Ok_simps not_less split: if_splits option.splits)
  note inv0 = pools_inv_binv [OF inv]
  have get: "kv_get ?st ?k = Some bi" using bi(1) by (simp add: bancor_Load_def)
  have key: "BancorInfoKey @ bancor_GetSymbol bi = ?k" using pools_okD(2) [OF inv0(2) get] by simp
  let ?G = "\<lambda>a d. pool_total ?st a d + F a d" and ?st' = "kv_delete ?k ?st"
  let ?x = "(market_store s, market_params s, ?st', bancor_params s, bancor_state.more s)"
  have i1: "binv C tot T ?G (beyond_accounts s) s1" by (rule binv_Deduct64 [OF C inv0(1) s1])
  have "s2 = s1\<lparr>bancor_store := ?st'\<rparr>"
    using s2 i1 get by (auto simp: bancor_Remove_def key whenever_def modify_def binv_def beyond_accounts_def kv_has_def)
  then have i2: "binv C tot T ?G ?x s2" using i1 by (simp add: binv_def beyond_accounts_def)
  note c1 = dex_NewCoins_Ok [OF laws(5) s3(1)] and c2 = dex_NewCoins_Ok [OF laws(5) s4(1)]
  have "binv C tot T (\<lambda>a d. ?G a d + (if a = bi_Owner bi then - coins_AmountOf C stock d else 0)) ?x s3"
    by (rule binv_UnFreeze [OF C i2 _ s3(2)]) (use c1 in simp)
  from binv_UnFreeze [OF C this _ s4(2)] have i4: "binv C tot T (\<lambda>a d. ?G a d + (if a = bi_Owner bi then - coins_AmountOf C stock d else 0) +
      (if a = bi_Owner bi then - coins_AmountOf C money d else 0)) ?x s4" (is "binv C tot T ?G' ?x s4")
    using c2 by simp
  have i5: "binv C tot T ?G' ?x s'" by (rule binv_emit [OF i4 es])
  have total: "?G' a d = pool_total ?st' a d + F a d" for a d
    using pool_total_delete [OF pools_okD(1) [OF inv0(2)], of ?k a d] get c1 [of d] c2 [of d]
    by (auto simp: pool_holds_def)
  from binv_pools_inv [OF i5 pools_ok_delete [OF inv0(2)] total]
  show "pools_inv C D tot T F s'" "market_same s s'" by simp_all
  show "\<exists>bi. bancor_Load s (MsgBancorCancel_GetSymbol msg) = Some bi \<and> bi_Owner bi = bc_Owner msg \<and>
      bi_EarliestCancelTime bi \<le> Unix ctx \<and> bancor_store s' = ?st'"
    using bi binv_pools_inv(3) [OF i5 pools_ok_delete [OF inv0(2)] total] by blast
qed

text \<open>A trade: the new pool, and the money that changes hands.\<close>

lemma trade_amounts_Ok:
  assumes int: "int_ok S" and run: "trade_amounts S msg bi biNew = Ok (diff, fromPool, toPool)"
  shows "diff = (if tr_IsBuy msg then bi_MoneyInPool biNew - bi_MoneyInPool bi else bi_MoneyInPool bi - bi_MoneyInPool biNew)"
    and "0 < diff"
    and "NewCoin S (tr_Money msg) diff = Ok (if tr_IsBuy msg then toPool else fromPool)"
    and "NewCoin S (tr_Stock msg) (tr_Amount msg) = Ok (if tr_IsBuy msg then fromPool else toPool)"
    and "0 < tr_MoneyLimit msg \<Longrightarrow> (if tr_IsBuy msg then diff \<le> tr_MoneyLimit msg else tr_MoneyLimit msg \<le> diff)"
  using run by (auto simp: trade_amounts_def ret_bind_Ok int_okD [OF int] Let_def split: if_splits)

lemma charge_commission_binv:
  assumes C: "cosmos_ok C tot" and inv: "binv C tot T G x s" and run: "charge_commission C D a fee s = (Ok y, s')"
  shows "binv C tot T G x s'"
proof -
  obtain r reb rest ex where pay: "(if ex then and_then (lift (NewCetCoins C rest)) (\<lambda>cs. and_then (DeductFee C a cs) (\<lambda>_.
             and_then (lift (NewCetCoins C reb)) (\<lambda>cs. SendCoins C a r cs)))
        else and_then (lift (NewCetCoins C fee)) (DeductFee C a)) s = (Ok (), s')"
    using run by (auto simp: charge_commission_def Ok_simps)
  show ?thesis using bk.pay_with_rebate [OF conjI [OF C inv] pay] by blast
qed

lemma swap_binv:
  assumes C: "cosmos_ok C tot" and inv: "binv C tot T G x s" and valid: "coins_IsValid C [out]"
    and run: "swapStockAndMoney C trader owner [out] [inn] s = (Ok (), s')"
  shows "binv C tot T (\<lambda>a d. G a d + (if a = owner then coins_AmountOf C [inn] d else 0) +
    (if a = owner then - coins_AmountOf C [out] d else 0)) x s'"
  using bk.swap [OF conjI [OF C inv] valid run [unfolded swapStockAndMoney_def]] by blast

text \<open>The steps of a trade that went through.\<close>

lemma trade_runs:
  assumes C: "cosmos_ok C tot" and run: "handleMsgBancorTrade C D sub ctx msg s = (Ok (), s')"
  obtains bi biNew diff fromPool toPool fee x s1 s2 s3 s4 key m key' m' s5 es where
    "bancor_Load s (MsgBancorTrade_GetSymbol msg) = Some bi" "trade_checks msg bi s = Ok ()"
    "UpdateStockInPool C D bi (if tr_IsBuy msg then bi_StockInPool bi - tr_Amount msg else bi_StockInPool bi + tr_Amount msg) = Ok (biNew, True)"
    "trade_amounts C msg bi biNew = Ok (diff, fromPool, toPool)" "getTradeFee C D msg diff s = Ok fee"
    "charge_commission C D (tr_Sender msg) fee s = (Ok x, s1)"
    "swapStockAndMoney C (tr_Sender msg) (bi_Owner bi) [fromPool] [toPool] s1 = (Ok (), s2)"
    "bancor_Save biNew s2 = (Ok (), s3)" "fillBancorQueue sub key m s3 = (Ok (), s4)"
    "fillBancorQueue sub key' m' s4 = (Ok (), s5)" "emit es s5 = (Ok (), s')"
proof -
  have int: "int_ok C" by (rule cosmos_okD(3) [OF C])
  obtain bi where bi: "bancor_Load s (MsgBancorTrade_GetSymbol msg) = Some bi"
    using run by (auto simp: handleMsgBancorTrade_def split: option.splits)
  let ?upd = "ret_bind (if tr_IsBuy msg then int_Sub C (bi_StockInPool bi) (tr_Amount msg)
              else int_Add C (bi_StockInPool bi) (tr_Amount msg)) (UpdateStockInPool C D bi)"
  have upd: "UpdateStockInPool C D bi (if tr_IsBuy msg then bi_StockInPool bi - tr_Amount msg else bi_StockInPool bi + tr_Amount msg) = Ok (n, True)"
    if "?upd = Ok (n, True)" for n
    using that by (auto simp: ret_bind_Ok int_okD [OF int] split: if_splits)
  show thesis
    using run upd by (auto simp: handleMsgBancorTrade_def bi Ok_simps fail_Ok Let_def intro!: that [OF bi] split: if_splits)
qed

definition traded :: "MsgBancorTrade \<Rightarrow> bancor_info \<Rightarrow> int" where
  "traded msg bi = (if tr_IsBuy msg then bi_StockInPool bi - tr_Amount msg else bi_StockInPool bi + tr_Amount msg)"

definition trade_money :: "MsgBancorTrade \<Rightarrow> bancor_info \<Rightarrow> bancor_info \<Rightarrow> int" where
  "trade_money msg bi biNew =
     (if tr_IsBuy msg then bi_MoneyInPool biNew - bi_MoneyInPool bi else bi_MoneyInPool bi - bi_MoneyInPool biNew)"

lemma bancor_trade_Ok:
  assumes C: "cosmos_ok C tot" and D: "bancor_ok D" and inv: "pools_inv C D tot T F s"
    and basic: "MsgBancorTrade_ValidateBasic msg = Ok ()" and run: "handleMsgBancorTrade C D sub ctx msg s = (Ok (), s')"
  shows "pools_inv C D tot T F s'" and "market_same s s'"
    and "\<exists>bi biNew. bancor_Load s (MsgBancorTrade_GetSymbol msg) = Some bi \<and> bi_Owner bi \<noteq> tr_Sender msg \<and>
      UpdateStockInPool C D bi (traded msg bi) = Ok (biNew, True) \<and> 0 < trade_money msg bi biNew \<and>
      (0 < tr_MoneyLimit msg \<longrightarrow> (if tr_IsBuy msg then trade_money msg bi biNew \<le> tr_MoneyLimit msg
        else tr_MoneyLimit msg \<le> trade_money msg bi biNew)) \<and>
      bancor_store s' = kv_set (BancorInfoKey @ MsgBancorTrade_GetSymbol msg) biNew (bancor_store s)"
proof -
  note laws = cosmos_okD [OF C]
  let ?st = "bancor_store s" and ?k = "BancorInfoKey @ MsgBancorTrade_GetSymbol msg"
  from trade_runs [OF C run] obtain bi biNew diff fromPool toPool fee x s1 s2 s3 s4 key m key' m' s5 es where
    bi: "bancor_Load s (MsgBancorTrade_GetSymbol msg) = Some bi" and chk: "trade_checks msg bi s = Ok ()"
    and upd: "UpdateStockInPool C D bi (traded msg bi) = Ok (biNew, True)"
    and amounts: "trade_amounts C msg bi biNew = Ok (diff, fromPool, toPool)"
    and s1: "charge_commission C D (tr_Sender msg) fee s = (Ok x, s1)"
    and s2: "swapStockAndMoney C (tr_Sender msg) (bi_Owner bi) [fromPool] [toPool] s1 = (Ok (), s2)"
    and s3: "bancor_Save biNew s2 = (Ok (), s3)" and s4: "fillBancorQueue sub key m s3 = (Ok (), s4)"
    and s5: "fillBancorQueue sub key' m' s4 = (Ok (), s5)" "emit es s5 = (Ok (), s')"
    unfolding traded_def by metis
  note inv0 = pools_inv_binv [OF inv] and a = trade_amounts_Ok [OF laws(3) amounts]
  have get: "kv_get ?st ?k = Some bi" using bi by (simp add: bancor_Load_def)
  note st = pools_okD [OF inv0(2)]
  obtain p q where new: "biNew = moved bi (traded msg bi) p q" using pool_ok_Update(2) [OF laws(4,3) D st(3) [OF get] upd] by blast
  have sym: "GetSymbol (tr_Stock msg) (tr_Money msg) = GetSymbol (bi_Stock bi) (bi_Money bi)"
    using st(2) [OF get] by (simp add: MsgBancorTrade_GetSymbol_def bancor_GetSymbol_def)
  have valid: "IsValidTradingPair [tr_Stock msg, tr_Money msg]" "0 < tr_Amount msg"
    using basic by (auto simp: MsgBancorTrade_ValidateBasic_def split: if_splits)
  have names: "tr_Stock msg = bi_Stock bi" "tr_Money msg = bi_Money bi"
    using GetSymbol_inj [OF sym valid_pair_separator [OF valid(1)] valid_pair_separator [OF st(4) [OF get]]] by simp_all
  have key: "BancorInfoKey @ bancor_GetSymbol biNew = ?k" using st(2) [OF get] by (simp add: new)
  let ?G = "\<lambda>a d. pool_total ?st a d + F a d" and ?st' = "kv_set ?k biNew ?st"
  let ?G' = "\<lambda>a d. ?G a d + (if a = bi_Owner bi then coins_AmountOf C [toPool] d else 0) +
    (if a = bi_Owner bi then - coins_AmountOf C [fromPool] d else 0)"
  have fp: "coins_IsValid C [fromPool]"
    using one_coin(2) [OF laws(5) a(3)] one_coin(2) [OF laws(5) a(4)] a(2) valid(2) by (cases "tr_IsBuy msg") simp_all
  have "binv C tot T ?G' (beyond_accounts s) s2"
    by (rule swap_binv [OF C charge_commission_binv [OF C inv0(1) s1] fp s2])
  then have "binv C tot T ?G' (market_store s, market_params s, ?st', bancor_params s, bancor_state.more s) s3"
    using binv_Save [OF _ s3] by (simp add: beyond_accounts_def key)
  then have i: "binv C tot T ?G' (market_store s, market_params s, ?st', bancor_params s, bancor_state.more s) s'"
    using binv_emit [OF binv_queue [OF binv_queue [OF _ s4] s5(1)] s5(2)] by blast
  have ok: "pools_ok C D ?st'"
    using pools_ok_set [OF inv0(2) pool_ok_Update(1) [OF laws(4,3) D st(3) [OF get] upd]] st(4) [OF get] key by (simp add: new)
  have money: "trade_money msg bi biNew = diff" using a(1) by (simp add: trade_money_def)
  have "?G' b d = pool_total ?st' b d + F b d" for b d
    using pool_total_set [OF st(1), of ?k biNew b d] get one_coin(1) [OF laws(5) a(3), of d] one_coin(1) [OF laws(5) a(4), of d] a(1)
    by (cases "tr_IsBuy msg") (auto simp: pool_holds_def new traded_def names)
  note done' = binv_pools_inv [OF i ok this]
  show "pools_inv C D tot T F s'" "market_same s s'" by (rule done')+
  have owner: "bi_Owner bi \<noteq> tr_Sender msg" using chk by (auto simp: trade_checks_def split: if_splits)
  show "\<exists>bi biNew. bancor_Load s (MsgBancorTrade_GetSymbol msg) = Some bi \<and> bi_Owner bi \<noteq> tr_Sender msg \<and>
      UpdateStockInPool C D bi (traded msg bi) = Ok (biNew, True) \<and> 0 < trade_money msg bi biNew \<and>
      (0 < tr_MoneyLimit msg \<longrightarrow> (if tr_IsBuy msg then trade_money msg bi biNew \<le> tr_MoneyLimit msg
        else tr_MoneyLimit msg \<le> trade_money msg bi biNew)) \<and>
      bancor_store s' = kv_set ?k biNew ?st"
    using bi owner upd a(2,5) done'(3) money by (intro exI [of _ bi] exI [of _ biNew]) simp
qed

theorem bancor_Handler_inv:
  assumes C: "cosmos_ok C tot" and D: "bancor_ok D" and inv: "pools_inv C D tot T F s"
    and basic: "bancor_ValidateBasic C D msg = Ok ()" and run: "bancor_Handler C D sub ctx msg s = (Ok (), s')"
  shows "pools_inv C D tot T F s'" and "market_same s s'"
proof -
  have run': "bancor_route C D sub ctx msg (s\<lparr>events := []\<rparr>) = (Ok (), s')"
    using run by (simp add: bancor_Handler_def new_event_manager_def and_then_def modify_def)
  have inv': "pools_inv C D tot T F (s\<lparr>events := []\<rparr>)" using inv by (simp add: pools_inv_def)
  have "pools_inv C D tot T F s' \<and> market_same (s\<lparr>events := []\<rparr>) s'"
  proof (cases msg)
    case (BancorInitMsg m)
    then show ?thesis using bancor_init_Ok(1,2) [OF C D inv'] run' basic by simp
  next
    case (BancorTradeMsg m)
    then show ?thesis using bancor_trade_Ok(1,2) [OF C D inv'] run' basic by simp
  next
    case (BancorCancelMsg m)
    then show ?thesis using bancor_cancel_Ok(1,2) [OF C inv'] run' by simp
  next
    case BancorUnknown
    then show ?thesis using run' by (simp add: fail_def)
  qed
  then show "pools_inv C D tot T F s'" "market_same s s'" by (simp_all add: market_same_def)
qed

end
