(* ===== verification/DexChain.thy ===== *)
theory DexChain
  imports BancorInv AssetInv
begin

section \<open>The modules together\<close>

text \<open>
  A chain of blocks: in a block, transactions of the modules authx, bankx, asset, market and bancorlite, each of which
  has passed \<open>ValidateBasic\<close> and has been executed without error (one with an error is rolled back,
  so it is no step), and the end blockers of authx and of market, in any order. In every state the chain
  can reach the invariant of the market holds, and every frozen coin is held by an open order, by a pool or
  was frozen for another reason from the start.
\<close>

subsection \<open>authx leaves the other stores alone\<close>

lemma same_beyond_one:
  assumes "same_beyond s0 s"
  shows "same_beyond s0 (s\<lparr>bank := b\<rparr>)" and "same_beyond s0 (s\<lparr>accx_store := ax\<rparr>)"
    and "same_beyond s0 (s\<lparr>asset_store := as\<rparr>)"
  using same_beyond_update(1) [OF assms, where b = b and ax = "accx_store s" and as = "asset_store s"]
    same_beyond_update(1) [OF assms, where b = "bank s" and ax = ax and as = "asset_store s"]
    same_beyond_update(1) [OF assms, where b = "bank s" and ax = "accx_store s" and as = as] by simp_all

lemma keep_same_UpdateTokenSendLock: "keep (same_beyond s0) (UpdateTokenSendLock S symbol amount lock)"
  by (rule keepI) (metis UpdateTokenSendLock_frame same_beyond_one(3))

lemma keep_same_writes:
  "keep (same_beyond s0) (SetAccountX x)" "keep (same_beyond s0) (RemoveFromUnlockedCoinsQueueByKey k)"
  "keep (same_beyond s0) (modify (\<lambda>s. s\<lparr>bank := f (bank s)\<rparr>))" "keep (same_beyond s0) (emit es)"
  unfolding SetAccountX_def RemoveFromUnlockedCoinsQueueByKey_def emit_def
  by (rule keep_modify, erule same_beyond_one same_beyond_update)+

lemma after_panic: "after I (Panic, s)"
  and after_stay: "I s \<Longrightarrow> after I (r, s)"
  by (simp_all add: after_def split: ret.split)

lemma keep_same_withdraw: "keep (same_beyond s0) (withdrawUnlockedCoins C q ctx x t)"
  unfolding withdrawUnlockedCoins_def Let_def
  by (rule keep_stateI)
    (auto intro!: after_panic afters keeps keep_same_UpdateTokenSendLock keep_same_writes)

lemma authx_EndBlocker_same:
  assumes "authx_EndBlocker C q ctx s = (Ok u, s')"
  shows "same_beyond s s'"
proof -
  have "keep (same_beyond s) (unlock_entry C q ctx t e)" for t e
    unfolding unlock_entry_def
    by (rule keep_stateI)
      (auto split: accx_val.split option.split intro!: after_stay afters keep_same_withdraw keep_same_writes)
  then have "keep (same_beyond s) (foreach (unlock_entry C q ctx (Unix ctx)) es)" for es by (rule keep_foreach)
  from keepD [OF this, of s] assms show ?thesis by (auto simp: authx_EndBlocker_def same_beyond_def)
qed

text \<open>Releasing locked coins changes nobody's frozen coins.\<close>

lemma authx_EndBlocker_books:
  assumes C: "cosmos_ok C tot" and inv: "book_inv C tot T F s" and now: "time_fits (Unix ctx)"
    and run: "authx_EndBlocker C q ctx s = (Ok u, s')"
  shows "book_inv C tot T F s'"
proof -
  have "authx_inv C s" using inv by (simp add: book_inv_def)
  then obtain s1 where s1: "authx_EndBlocker C q ctx s = (Ok (), s1)" "releases C tot (Unix ctx) UNIV s s1"
    using authx_EndBlocker_releases [OF C _ now] by blast
  then have "GetAccountX s' a = map_option (released (Unix ctx)) (GetAccountX s a)" for a
    using run by (simp add: releases_def)
  then have "frozen s' a d = frozen s a d" for a d by (simp add: frozen_def option.case_eq_if option.map_sel)
  moreover have "ledger_of tot s' = ledger_of tot s" using s1 run by (simp add: releases_def ledger_of_def fun_eq_iff)
  ultimately show ?thesis using inv s1 run by (simp add: book_inv_def releases_def)
qed

lemma CET_symbol: "tokenSymbolRegex CET"
  by code_simp

subsection \<open>Steps of the chain\<close>

text \<open>The numbers of a block fit the code's integers and formats.\<close>

definition ctx_fits :: "ctx \<Rightarrow> bool" where
  "ctx_fits ctx \<longleftrightarrow> 0 \<le> BlockHeight ctx \<and> height_fits (BlockHeight ctx + 1) \<and> height_fits (UnixNano ctx) \<and> time_fits (Unix ctx)"

definition next_block :: "ctx \<Rightarrow> ctx \<Rightarrow> bool" where
  "next_block ctx ctx' \<longleftrightarrow> BlockHeight ctx' = BlockHeight ctx + 1 \<and> BlockTime ctx \<le> BlockTime ctx' \<and> ctx_fits ctx'"

text \<open>The 64-bit fields of the market's messages.\<close>

fun market_msg_fits :: "market_msg \<Rightarrow> bool" where
  "market_msg_fits (CreateOrder msg) = order_msg_fits msg"
| "market_msg_fits (CancelTradingPair msg) = (ct_EffectiveTime msg < 2 ^ 63)"
| "market_msg_fits _ = True"

text \<open>\<open>q\<close> is authx's event type, \<open>D\<close> the library of bancorlite; the other parameters are those of the market's end blocker.\<close>

inductive chain_step ::
    "('b, 'y) cosmos_scheme \<Rightarrow> bancor_lib \<Rightarrow> go_sorts \<Rightarrow> (string \<Rightarrow> string) \<Rightarrow> (string \<Rightarrow> bool) \<Rightarrow>
      ((string \<times> order) list \<Rightarrow> (string \<times> order) list) \<Rightarrow> (int \<Rightarrow> int) \<Rightarrow> string \<Rightarrow>
      ctx \<times> ('b, 'z) bancor_state_scheme \<Rightarrow> ctx \<times> ('b, 'z) bancor_state_scheme \<Rightarrow> bool"
  for C D G sha sub rng zone q where
  authx_tx: "MsgSetReferee_ValidateBasic msg = Ok () \<Longrightarrow> authx_Handler C ctx msg s = (Ok (), s') \<Longrightarrow>
    chain_step C D G sha sub rng zone q (ctx, s) (ctx, s')"
| bankx_tx: "bankx_ValidateBasic C bmsg = Ok () \<Longrightarrow> bankx_Handler C sub ctx bmsg s = (Ok (), s') \<Longrightarrow>
    chain_step C D G sha sub rng zone q (ctx, s) (ctx, s')"
| asset_tx: "asset_ValidateBasic C amsg = Ok () \<Longrightarrow> asset_Handler C amsg s = (Ok (), s') \<Longrightarrow>
    chain_step C D G sha sub rng zone q (ctx, s) (ctx, s')"
| market_tx: "market_ValidateBasic C mmsg = Ok () \<Longrightarrow> market_msg_fits mmsg \<Longrightarrow>
    market_Handler C sub ctx mmsg s = (Ok (), s') \<Longrightarrow> chain_step C D G sha sub rng zone q (ctx, s) (ctx, s')"
| bancor_tx: "bancor_ValidateBasic C D nmsg = Ok () \<Longrightarrow> bancor_Handler C D sub ctx nmsg s = (Ok (), s') \<Longrightarrow>
    chain_step C D G sha sub rng zone q (ctx, s) (ctx, s')"
| authx_end: "authx_EndBlocker C q ctx s = (Ok (), s') \<Longrightarrow> chain_step C D G sha sub rng zone q (ctx, s) (ctx, s')"
| market_end: "market_EndBlocker C G sha sub rng zone ctx s = Some (Ok (), s') \<Longrightarrow>
    chain_step C D G sha sub rng zone q (ctx, s) (ctx, s')"
| new_block: "next_block ctx ctx' \<Longrightarrow> chain_step C D G sha sub rng zone q (ctx, s) (ctx', s)"

inductive_cases chain_stepE: "chain_step C D G sha sub rng zone q x y"

text \<open>
  \<open>chain_inv\<close>: the market's invariant, with the pools' holdings among the coins frozen for other reasons than
  orders, every pool on its curve, and valid parameters. \<open>gap\<close>: how much the recorded supply of each token
  exceeds the coins in existence.
\<close>

definition and_pools :: "bancor_info kv \<Rightarrow> (addr \<Rightarrow> string \<Rightarrow> int) \<Rightarrow> addr \<Rightarrow> string \<Rightarrow> int" where
  "and_pools st F a d = pool_total st a d + F a d"

definition chain_inv ::
    "('b, 'y) cosmos_scheme \<Rightarrow> bancor_lib \<Rightarrow> ('b \<Rightarrow> string \<Rightarrow> int) \<Rightarrow> (string \<Rightarrow> int) \<Rightarrow> (addr \<Rightarrow> string \<Rightarrow> int) \<Rightarrow>
      ctx \<times> ('b, 'z) bancor_state_scheme \<Rightarrow> bool" where
  "chain_inv C D tot gap F x \<longleftrightarrow> ctx_fits (fst x) \<and> pools_ok C D (bancor_store (snd x)) \<and>
     market_inv C tot (base_of tot (snd x)) (and_pools (bancor_store (snd x)) F) (snd x) \<and>
     market_ValidateGenesis (market_params (snd x)) = Ok () \<and> supply_gap tot (snd x) = gap"

lemma chain_invD:
  assumes "chain_inv C D tot gap F (ctx, s)"
  shows "ctx_fits ctx" and "pools_ok C D (bancor_store s)"
    and "market_inv C tot (base_of tot s) (and_pools (bancor_store s) F) s"
    and "market_ValidateGenesis (market_params s) = Ok ()" and "supply_gap tot s = gap"
  using assms by (simp_all add: chain_inv_def)

lemma token_supply_body: "token_supply s d = (case token_body s d of None \<Rightarrow> 0 | Some t \<Rightarrow> TotalSupply t)"
  by (simp add: token_supply_def token_body_def split: option.split)

lemma supply_gap_ledger:
  assumes "ledger_of tot s' = ledger_of tot s"
  shows "supply_gap tot s' = supply_gap tot s"
proof
  fix d
  show "supply_gap tot s' d = supply_gap tot s d"
    using fun_cong [OF assms, of d] by (simp add: supply_gap_def token_supply_body ledger_of_def)
qed

lemma same_pools:
  "market_state.more s' = market_state.more (s :: ('b, 'z) bancor_state_scheme) \<Longrightarrow> bancor_store s' = bancor_store s"
  by (cases s, cases s') simp

text \<open>A step that leaves every coin total, every token and every pool as they were.\<close>

lemma chain_inv_step:
  assumes inv: "chain_inv C D tot gap F (ctx, s)" and m: "market_inv C tot (base_of tot s) (and_pools (bancor_store s) F) s'"
    and p: "market_params s' = market_params s"
  shows "chain_inv C D tot gap F (ctx, s')"
proof -
  have base: "base_of tot s' = base_of tot s" by (rule minvD(2) [OF market_invD(4) [OF m]])
  then have "bancor_store s' = bancor_store s" by (intro same_pools) (simp add: base_of_def)
  then show ?thesis using inv m p base supply_gap_ledger [of tot s' s] by (simp add: chain_inv_def base_of_def)
qed

text \<open>A step of the accounts' modules leaves the other modules' part of the state alone.\<close>

lemma same_beyond_market:
  assumes "same_beyond s (s' :: ('b, 'z) market_state_scheme)"
  shows "market_store s' = market_store s" and "market_params s' = market_params s" and "market_state.more s' = market_state.more s"
proof -
  have s': "s' = s\<lparr>bank := bank s', accx_store := accx_store s', asset_store := asset_store s', events := events s'\<rparr>"
    using assms by (simp add: same_beyond_def)
  show "market_store s' = market_store s" "market_params s' = market_params s" by (subst s', simp)+
  obtain b ax as es where "s' = s\<lparr>bank := b, accx_store := ax, asset_store := as, events := es\<rparr>" using s' by blast
  then show "market_state.more s' = market_state.more s" by (cases s) simp
qed

lemma market_inv_accounts:
  assumes inv: "market_inv C tot T F s" and same: "same_beyond s s'"
    and books: "book_inv C tot T' (backing F (book (market_store s))) s'"
  shows "market_inv C tot (T', snd T) F s'" and "market_params s' = market_params s"
  using same_beyond_market [OF same] inv books by (simp_all add: market_inv_def minv_def)

lemma market_inv_book_inv: "market_inv C tot T F s \<Longrightarrow> book_inv C tot (fst T) (backing F (book (market_store s))) s"
  by (simp add: market_inv_def minv_def)

lemma market_Handler_inv:
  assumes C: "cosmos_ok C tot" and S: "symbols_valid C" and F: "\<And>a d. 0 \<le> F a d"
    and inv: "market_inv C tot T F s" and params: "market_ValidateGenesis (market_params s) = Ok ()" and h: "height_fits (BlockHeight ctx)"
    and basic: "market_ValidateBasic C msg = Ok ()" and fits: "market_msg_fits msg"
    and run: "market_Handler C sub ctx msg s = (Ok (), s')"
  shows "market_inv C tot T F s' \<and> market_params s' = market_params s"
proof -
  let ?s = "s\<lparr>events := []\<rparr>"
  have inv0: "market_inv C tot T F ?s" using inv by simp
  have params0: "market_ValidateGenesis (market_params ?s) = Ok ()" using params by simp
  have cet: "denom_valid C CET" using S CET_symbol by (simp add: symbols_valid_def)
  have run': "market_route C sub ctx msg ?s = (Ok (), s')"
    using run by (simp add: market_Handler_def new_event_manager_def and_then_def modify_def)
  have "market_inv C tot T F s' \<and> market_params s' = market_params ?s"
  proof (cases msg)
    case (CreateTradingPair m)
    then show ?thesis using create_market_Ok(1,2) [OF C S inv0] run' by simp
  next
    case (CreateOrder m)
    then show ?thesis using create_order_inv [OF C inv0 _ _ params0 h] run' basic fits by simp
  next
    case (CancelOrder m)
    then show ?thesis using cancel_order_inv [OF C cet F inv0] run' by simp
  next
    case (CancelTradingPair m)
    then have "0 \<le> ct_EffectiveTime m" "ct_EffectiveTime m < 2 ^ 63"
      using basic fits by (auto simp: MsgCancelTradingPair_ValidateBasic_def split: if_splits)
    then show ?thesis using CancelTradingPair cancel_market_Ok(1,2) [OF inv0] run' by simp
  next
    case (ModifyPricePrecision m)
    then show ?thesis using modify_precision_Ok(1,2) [OF inv0] run' by simp
  next
    case MarketUnknown
    then show ?thesis using run' by (simp add: fail_def)
  qed
  then show ?thesis by simp
qed

text \<open>A step of the asset module.\<close>

lemma asset_frame_same:
  assumes "asset_frame C s (s' :: ('b, 'z) authx_state_scheme)"
  shows "same_beyond s s'"
proof -
  have s': "s\<lparr>bank := bank s', asset_store := asset_store s', events := events s'\<rparr> = s'" using assms by (simp add: asset_frame_def)
  have "s\<lparr>bank := bank s', accx_store := accx_store s', asset_store := asset_store s', events := events s'\<rparr> =
      (s\<lparr>bank := bank s', asset_store := asset_store s', events := events s'\<rparr>)\<lparr>accx_store := accx_store s'\<rparr>" by simp
  also have "\<dots> = s'" unfolding s' by simp
  finally show ?thesis by (simp add: same_beyond_def)
qed

lemma asset_tx_inv:
  assumes C: "cosmos_ok C tot" "supply_ok C tot" and inv: "chain_inv C D tot gap F (ctx, s)"
    and run: "asset_Handler C msg s = (Ok (), s')"
  shows "chain_inv C D tot gap F (ctx, s')"
proof -
  let ?s = "s\<lparr>events := []\<rparr>"
  note i = chain_invD [OF inv]
  let ?F = "backing (and_pools (bancor_store s) F) (book (market_store s))"
  note b = market_inv_book_inv [OF i(3)]
  have "authx_inv C s" using b by (simp add: book_inv_def)
  from asset_Handler_Ok [OF C this run] have step: "asset_step C tot (asset_symbol msg) ?s s'" and inv0: "authx_inv C ?s" by simp_all
  note after = asset_step_authx [OF step inv0]
  have "frozen s' a d = ?F a d" for a d
    using b after(2) [of a d] by (simp add: book_inv_def frozen_def GetAccountX_def)
  then have books: "book_inv C tot (ledger_of tot s') ?F s'" using after(1) by (simp add: book_inv_def)
  have same: "same_beyond s s'"
  proof -
    have "same_beyond ?s s'" using step asset_frame_same by (auto simp: asset_step_def)
    then show ?thesis by (simp add: same_beyond_def)
  qed
  have more: "market_state.more s' = market_state.more s" by (rule same_beyond_market(3) [OF same])
  have m: "market_inv C tot (base_of tot s') (and_pools (bancor_store s') F) s'" "market_params s' = market_params s"
    using market_inv_accounts [OF i(3) same books] by (simp_all add: base_of_def more same_pools [OF more])
  have "ledger_of tot ?s = ledger_of tot s"
  proof -
    have "book_inv C tot (ledger_of tot s) ?F ?s" using b by (simp add: base_of_def)
    then show ?thesis by (simp add: book_inv_def)
  qed
  then have "supply_gap tot s' = gap"
    using i(5) after(4) supply_gap_ledger [of tot ?s s] by (simp add: fun_eq_iff)
  then show ?thesis using i m by (simp add: chain_inv_def same_pools [OF more])
qed

text \<open>A step of bancorlite moves coins between pools and accounts.\<close>

lemma bancor_tx_inv:
  assumes C: "cosmos_ok C tot" and D: "bancor_ok D" and inv: "chain_inv C D tot gap F (ctx, s)"
    and basic: "bancor_ValidateBasic C D msg = Ok ()" and run: "bancor_Handler C D sub ctx msg s = (Ok (), s')"
  shows "chain_inv C D tot gap F (ctx, s')"
proof -
  note i = chain_invD [OF inv]
  let ?H = "\<lambda>a d. held_total (book (market_store s)) a d + F a d" and ?T = "ledger_of tot s"
  have "pools_inv C D tot ?T ?H s"
    using market_inv_book_inv [OF i(3)] i(2) by (simp add: pools_inv_def book_inv_def backing_def and_pools_def base_of_def)
  from bancor_Handler_inv [OF C D this basic run] have p: "pools_inv C D tot ?T ?H s'" and same: "market_same s s'" by simp_all
  have ledger: "ledger_of tot s' = ?T" using p by (simp add: pools_inv_def book_inv_def)
  have "market_inv C tot (base_of tot s') (and_pools (bancor_store s') F) s'"
    using i(3) p same
    by (simp add: market_inv_def minv_def base_of_def market_same_def pools_inv_def book_inv_def backing_def and_pools_def ledger)
  then show ?thesis
    using i p same supply_gap_ledger [OF ledger] by (simp add: chain_inv_def pools_inv_def market_same_def)
qed

lemma and_pools_nonneg:
  assumes "cosmos_ok C tot" and "bancor_ok D" and "\<And>a d. 0 \<le> F a d" and "pools_ok C D st"
  shows "0 \<le> and_pools st F a d"
  using pool_total_bounds(1) [OF cosmos_okD(4,3) [OF assms(1)] assms(2,4), of a d] assms(3) [of a d] by (simp add: and_pools_def)

theorem chain_step_inv:
  assumes C: "cosmos_ok C tot" and U: "supply_ok C tot" and S: "symbols_valid C" and D: "bancor_ok D"
    and F: "\<And>a d. 0 \<le> F a d" and G: "sorts_ok G" and rng: "\<And>es. mset (rng es) = mset es"
    and step: "chain_step C D G sha sub rng zone q x y" and inv: "chain_inv C D tot gap F x"
  shows "chain_inv C D tot gap F y"
  using step
proof (cases rule: chain_step.cases)
  case (authx_tx msg ctx s s')
  note i = chain_invD [OF inv [unfolded authx_tx(1)]]
  let ?T = "ledger_of tot s" and ?F = "backing (and_pools (bancor_store s) F) (book (market_store s))"
  have b: "book_inv C tot ?T ?F s" using market_inv_book_inv [OF i(3)] by (simp add: base_of_def)
  have run: "handleMsgSetReferee C ctx msg (s\<lparr>events := []\<rparr>) = (Ok (), s')"
    using authx_tx(4) by (simp add: authx_Handler_def new_event_manager_def and_then_def modify_def)
  have "book_inv C tot ?T ?F (s\<lparr>events := []\<rparr>)" using b by simp
  then have "authx_inv C (s\<lparr>events := []\<rparr>)" by (simp add: book_inv_def)
  from handleMsgSetReferee_books [OF this run, of tot]
  obtain s1 es where s1: "books C tot (\<lambda>c d. 0) (s\<lparr>events := []\<rparr>) s1" "s' = s1\<lparr>events := es\<rparr>" by blast
  have "bank_inv C tot ?T ?F s (s\<lparr>events := []\<rparr>)" using bank_inv_refl [OF b] by simp
  from bank_inv_books [OF this s1(1)] have "bank_inv C tot ?T ?F s s'" by (simp add: s1(2))
  then have "book_inv C tot ?T ?F s'" "same_beyond s s'" by (simp_all add: bank_inv_def)
  from market_inv_accounts [OF i(3) this(2,1)] show ?thesis
    using chain_inv_step [OF inv [unfolded authx_tx(1)]] authx_tx(2) by (simp add: base_of_def)
next
  case (bankx_tx msg ctx s s')
  note i = chain_invD [OF inv [unfolded bankx_tx(1)]]
  note after = bankx_Handler_Ok [OF C bankx_tx(3) market_inv_book_inv [OF i(3)] bankx_tx(4)]
  show ?thesis
    using chain_inv_step [OF inv [unfolded bankx_tx(1)]] market_inv_accounts [OF i(3) after(2,1)] bankx_tx(2)
    by (simp add: base_of_def)
next
  case (asset_tx msg s s' ctx)
  then show ?thesis using asset_tx_inv [OF C U] inv by blast
next
  case (market_tx msg ctx s s')
  note i = chain_invD [OF inv [unfolded market_tx(1)]]
  have h: "height_fits (BlockHeight ctx)" using i(1) by (auto simp: ctx_fits_def height_fits_def)
  have F': "0 \<le> and_pools (bancor_store s) F a d" for a d by (rule and_pools_nonneg [OF C D F i(2)])
  show ?thesis
    using chain_inv_step [OF inv [unfolded market_tx(1)]] market_Handler_inv [OF C S F' i(3,4) h market_tx(3,4,5)] market_tx(2) by blast
next
  case (bancor_tx msg ctx s s')
  then show ?thesis using bancor_tx_inv [OF C D] inv by blast
next
  case (authx_end ctx s s')
  note i = chain_invD [OF inv [unfolded authx_end(1)]]
  have t: "time_fits (Unix ctx)" using i(1) by (simp add: ctx_fits_def)
  note after = market_inv_accounts [OF i(3) authx_EndBlocker_same [OF authx_end(3)]
      authx_EndBlocker_books [OF C market_inv_book_inv [OF i(3)] t authx_end(3)]]
  show ?thesis using chain_inv_step [OF inv [unfolded authx_end(1)]] after authx_end(2) by (simp add: base_of_def)
next
  case (market_end ctx s s')
  note i = chain_invD [OF inv [unfolded market_end(1)]]
  let ?T = "base_of tot s" and ?F = "and_pools (bancor_store s) F"
  have h: "0 \<le> BlockHeight ctx" "height_fits (BlockHeight ctx + 1)" "height_fits (UnixNano ctx)"
    using i(1) by (simp_all add: ctx_fits_def)
  have F': "0 \<le> ?F a d" for a d by (rule and_pools_nonneg [OF C D F i(2)])
  have cet: "denom_valid C CET" using S CET_symbol by (simp add: symbols_valid_def)
  have "wpl (market_EndBlocker C G sha sub rng zone ctx) (\<lambda>_ s'. market_inv C tot ?T ?F s' \<and> market_params s' = market_params s) s"
    by (rule wpl_market_EndBlocker [OF C cet F' G rng h i(3)])
  then have "market_inv C tot ?T ?F s' \<and> market_params s' = market_params s" using market_end by (auto simp: wpl_def)
  then show ?thesis using chain_inv_step [OF inv [unfolded market_end(1)]] market_end(2) by simp
next
  case (new_block ctx ctx' s)
  then show ?thesis using inv by (simp add: chain_inv_def next_block_def)
qed

definition chain_run ::
    "('b, 'y) cosmos_scheme \<Rightarrow> bancor_lib \<Rightarrow> go_sorts \<Rightarrow> (string \<Rightarrow> string) \<Rightarrow> (string \<Rightarrow> bool) \<Rightarrow>
      ((string \<times> order) list \<Rightarrow> (string \<times> order) list) \<Rightarrow> (int \<Rightarrow> int) \<Rightarrow> string \<Rightarrow>
      ctx \<times> ('b, 'z) bancor_state_scheme \<Rightarrow> ctx \<times> ('b, 'z) bancor_state_scheme \<Rightarrow> bool" where
  "chain_run C D G sha sub rng zone q = (chain_step C D G sha sub rng zone q)\<^sup>*\<^sup>*"

lemma chain_run_inv:
  assumes C: "cosmos_ok C tot" and U: "supply_ok C tot" and S: "symbols_valid C" and D: "bancor_ok D"
    and F: "\<And>a d. 0 \<le> F a d" and G: "sorts_ok G" and rng: "\<And>es. mset (rng es) = mset es"
    and run: "chain_run C D G sha sub rng zone q x y" and inv: "chain_inv C D tot gap F x"
  shows "chain_inv C D tot gap F y"
  using run [unfolded chain_run_def] inv
  by (induction rule: rtranclp_induct) (auto intro: chain_step_inv [OF C U S D F G rng])

end
