(* ===== verification/RefMarket.thy ===== *)
theory RefMarket
  imports "HOL-Library.Code_Target_Nat" AccountProps DexChain
begin

section \<open>A concrete market\<close>

text \<open>
  The state of \<open>RefState\<close> with the market \<open>abc/cet\<close>, its book still empty, and small fees: the
  witnesses of the market's properties run messages and end blocks from it.
\<close>

definition pair :: string where "pair = ''abc/cet''"

definition ref_info :: MarketInfo where
  "ref_info = \<lparr>mi_Stock = ''abc'', mi_Money = ''cet'', mi_PricePrecision = 8, mi_LastExecutedPrice = 2 * dec_one,
     mi_OrderPrecision = 0\<rparr>"

definition ref_params :: market_params where
  "ref_params = \<lparr>CreateMarketFee = 100, MarketMinExpiredTime = 10000000000, GTEOrderLifetime = 100,
     GTEOrderFeatureFeeByBlocks = 1, MaxExecutedPriceChangeRatio = 25, MarketFeeRate = 10, MarketFeeMin = 1,
     FeeForZeroDeal = 1\<rparr>"

definition ref_market :: "ref_bank bancor_state" where
  "ref_market = \<lparr>bank = bank ref_state, events = [], asset_store = asset_store ref_state, asset_params = asset_params ref_state,
     accx_store = accx_store ref_state, authx_params = authx_params ref_state, bankx_params = bankx_params ref_state,
     market_store = kv_set (market_key pair) (VMarket ref_info) [], market_params = ref_params,
     bancor_store = [], bancor_params = \<lparr>CreateBancorFee = 100, CancelBancorFee = 100, TradeFeeRate = 10\<rparr>\<rparr>"

text \<open>A library for bancorlite: every power curve of its table is the straight line.\<close>

definition ref_bancor :: bancor_lib where
  "ref_bancor = \<lparr>chk_Add = (\<lambda>a b. dec_chk (a + b)), chk_Sub = (\<lambda>a b. dec_chk (a - b)),
     chk_Mul = (\<lambda>a b. dec_chk (go_quo (a * b) dec_one)), chk_MulTruncate = (\<lambda>a b. dec_chk (go_quo (a * b) dec_one)),
     chk_MulInt = (\<lambda>a n. dec_chk (a * n)), chk_Quo = (\<lambda>a b. if b = 0 then Panic else dec_chk (go_quo (a * dec_one) b)),
     chk_QuoTruncate = (\<lambda>a b. if b = 0 then Panic else dec_chk (go_quo (a * dec_one) b)),
     int_Mul = (\<lambda>a b. if \<bar>a * b\<bar> < 2 ^ 255 then Ok (a * b) else Panic),
     NewDecFromStr = (\<lambda>s. if s = ''1'' then Some dec_one else if s = ''3'' then Some (3 * dec_one) else None),
     BancorTable = (\<lambda>x y. if x = 0 then 2 ^ 31 - 1 else (2 ^ 31 - 1) * int y div 1000)\<rparr>"

definition ref_sorts :: go_sorts where
  "ref_sorts = \<lparr>sort_orders = sort_by, sort_points = sort_by\<rparr>"

definition ref_order :: "addr \<Rightarrow> nat \<Rightarrow> int \<Rightarrow> int \<Rightarrow> nat \<Rightarrow> MsgCreateOrder" where
  "ref_order a i price quantity side = \<lparr>co_Sender = a, co_Identify = i, co_TradingPair = pair, co_OrderType = 2,
     co_PricePrecision = 0, co_Price = price, co_Quantity = quantity, co_Side = side, co_TimeInForce = GTE, co_ExistBlocks = 0\<rparr>"

lemma ref_market_simps [simp]:
  "bank ref_market = ref_bank0" "asset_store ref_market = asset_store ref_state" "accx_store ref_market = accx_store ref_state"
  "events ref_market = []" "market_store ref_market = kv_set (market_key pair) (VMarket ref_info) []"
  "market_params ref_market = ref_params" "bancor_store ref_market = []"
  by (simp_all add: ref_market_def)

lemma ref_sorts_ok: "sorts_ok ref_sorts"
  by (simp add: sorts_ok_def ref_sorts_def sort_by_slice_sort)

lemma ref_bancor_ok: "bancor_ok ref_bancor"
proof -
  have le: "0 \<le> (2 ^ 31 - 1) * int y div 1000 \<and> (2 ^ 31 - 1) * int y div 1000 \<le> 2 ^ 31 - 1" if "y < 1001" for y
  proof -
    have "(2 ^ 31 - 1) * int y \<le> (2 ^ 31 - 1) * 1000" using that by simp
    then have "(2 ^ 31 - 1) * int y div 1000 \<le> (2 ^ 31 - 1) * 1000 div 1000" by (rule zdiv_mono1) simp
    then show ?thesis by simp
  qed
  have mono: "(2 ^ 31 - 1) * int y div 1000 \<le> (2 ^ 31 - 1) * int (Suc y) div 1000" for y
    by (rule zdiv_mono1) simp_all
  have "table_ok (BancorTable ref_bancor)"
    using le mono by (simp add: table_ok_def ref_bancor_def)
  moreover have "0 \<le> a * dec_one div b \<and> (\<forall>q. a * dec_one \<le> q * b \<longrightarrow> a * dec_one div b \<le> q)" if "0 \<le> a" "0 < b" for a b :: int
  proof (intro conjI allI impI)
    show "0 \<le> a * dec_one div b" using that by (simp add: pos_imp_zdiv_nonneg_iff)
    fix q
    assume "a * dec_one \<le> q * b"
    then have "a * dec_one div b \<le> q * b div b" by (rule zdiv_mono1) (rule that(2))
    then show "a * dec_one div b \<le> q" using that(2) by simp
  qed
  ultimately show ?thesis
    by (simp add: bancor_ok_def ref_bancor_def go_quo_pos) blast
qed

lemma ref_symbols_valid: "symbols_valid ref_cosmos"
  by (simp add: symbols_valid_def) (auto simp: tokenSymbolRegex_def split: list.splits)

lemma ref_cet_valid: "denom_valid ref_cosmos CET"
  using ref_symbols_valid CET_symbol by (simp add: symbols_valid_def)

lemma ref_params_valid: "market_ValidateGenesis ref_params = Ok ()"
  by code_simp

lemma ref_ctx_fits: "ctx_fits (ref_ctx 50)"
  by (simp add: ctx_fits_def ref_ctx_def height_fits_def time_fits_def Unix_def UnixNano_def)

lemma ref_pair_ok: "pair_ok ref_cosmos pair"
proof -
  have "SplitSymbol pair = Ok (''abc'', ''cet'')" "byte 0 \<notin> set pair" by code_simp+
  then show ?thesis by (simp add: pair_ok_def)
qed

lemma ref_info_symbol: "MarketInfo_GetSymbol ref_info = pair"
  by code_simp

lemma ref_market_accounts:
  "frozen ref_market = frozen ref_state" "locked ref_market = locked ref_state"
  "total_coins ref_tot ref_market = total_coins ref_tot ref_state"
  "authx_inv ref_cosmos ref_market"
  using ref_authx_inv
  by (simp_all del: kv_set.simps add: fun_eq_iff frozen_def locked_def GetAccountX_def total_coins_def frozen_total_def locked_total_def
      authx_inv_def accx_store_ok_def asset_inv_def lock_inv_def send_lock_def GetToken_def accounts_exist_def)

lemma ref_book_empty: "book (market_store ref_market) = Map.empty"
proof -
  have "orderBookKey oid \<noteq> market_key pair" for oid
    using other_keys(3) [of "[pair]"] unfolding other_key_def market_key_def by metis
  then show ?thesis by (simp del: kv_set.simps add: book_def fun_eq_iff)
qed

lemma empty_store_ok: "store_ok C []"
  by (simp add: store_ok_def book_ok_def markets_ok_def delists_ok_def book_def)

lemma ref_market_inv:
  "market_inv ref_cosmos ref_tot (base_of ref_tot ref_market) (frozen ref_market) ref_market"
proof -
  have "store_ok ref_cosmos (market_store ref_market)"
    using store_ok_set_market [OF empty_store_ok, of ref_cosmos ref_info] ref_pair_ok
    by (simp add: ref_info_symbol market_key_def)
  moreover have "backing (frozen ref_market) Map.empty = frozen ref_market"
    by (simp add: backing_def held_total_def fun_eq_iff)
  ultimately show ?thesis
    using ref_market_accounts(4) unfolding market_inv_def ref_book_empty
    by (simp del: kv_set.simps ref_market_simps add: minv_def base_of_def book_inv_def live_def orders_ok_def)
qed

lemma no_pools: "pools_ok S D []" "and_pools [] F = F"
  by (simp_all add: pools_ok_def kv_get_def and_pools_def pool_total_def kv_sum_def fun_eq_iff)

lemma ref_chain_inv:
  "chain_inv ref_cosmos ref_bancor ref_tot (supply_gap ref_tot ref_market) (frozen ref_market) (ref_ctx 50, ref_market)"
  using ref_market_inv ref_ctx_fits ref_params_valid by (simp add: chain_inv_def no_pools)

lemma ref_frozen_nonneg: "0 \<le> frozen ref_market a d"
  by (simp add: ref_market_accounts)

text \<open>Bob offers 10 \<open>abc\<close> at 2 \<open>cet\<close>.\<close>

definition ref_sell :: market_msg where
  "ref_sell = CreateOrder (ref_order bob 1 2 10 2)"

definition ref_market1 :: "ref_bank bancor_state" where
  "ref_market1 = snd (market_Handler ref_cosmos (\<lambda>t. True) (ref_ctx 50) ref_sell ref_market)"

lemma ref_sell_runs: "market_Handler ref_cosmos (\<lambda>t. True) (ref_ctx 50) ref_sell ref_market = (Ok (), ref_market1)"
proof -
  have "fst (market_Handler ref_cosmos (\<lambda>t. True) (ref_ctx 50) ref_sell ref_market) = Ok ()" by code_simp
  then show ?thesis unfolding ref_market1_def by (rule run_pair)
qed

lemma ref_sell_basic: "market_ValidateBasic ref_cosmos ref_sell = Ok ()" "market_msg_fits ref_sell"
  by code_simp+

end
