(* ===== verification/BookProps.thy ===== *)
theory BookProps
  imports RefMarket
begin

section \<open>Properties of the order keeper\<close>

text \<open>
  The keys of \<open>order_keeper.go\<close> implement a map of orders with exact range queries. The witnesses
  have a bid of Alice's at 3 and an offer of Bob's at 2 in the book of \<open>abc/cet\<close>.
\<close>

definition ref_bid :: order where
  "ref_bid = \<lparr>Sender = alice, Sequence = 0, Identify = 1, TradingPair = pair, OrderType = 2, Price = 3 * dec_one,
     Quantity = 4, Side = 1, TimeInForce = GTE, Height = 20, FrozenCommission = 1, ExistBlocks = 100,
     FrozenFeatureFee = 0, FrozenFee = 0, LeftStock = 4, Freeze = 12, DealStock = 0, DealMoney = 0\<rparr>"

definition ref_ask :: order where
  "ref_ask = \<lparr>Sender = bob, Sequence = 0, Identify = 1, TradingPair = pair, OrderType = 2, Price = 2 * dec_one,
     Quantity = 10, Side = 2, TimeInForce = GTE, Height = 20, FrozenCommission = 1, ExistBlocks = 100,
     FrozenFeatureFee = 0, FrozenFee = 0, LeftStock = 10, Freeze = 10, DealStock = 0, DealMoney = 0\<rparr>"

definition ref_two :: "ref_bank bancor_state" where
  "ref_two = ref_market\<lparr>market_store := put_order ref_cosmos ref_ask (put_order ref_cosmos ref_bid (market_store ref_market))\<rparr>"

lemma ref_orders_ok: "order_ok ref_bid" "order_ok ref_ask"
proof -
  have "byte 0 \<notin> set pair" by code_simp
  then show "order_ok ref_bid" "order_ok ref_ask"
    by (simp_all add: order_ok_def ref_bid_def ref_ask_def height_fits_def price_fits_def)
qed

lemma ref_order_fields:
  "TradingPair ref_bid = pair" "TradingPair ref_ask = pair" "Height ref_bid = 20" "Height ref_ask = 20"
  "Side ref_bid = BID" "Side ref_ask = ASK" "Price ref_bid = 3 * dec_one" "Price ref_ask = 2 * dec_one"
  by (simp_all add: ref_bid_def ref_ask_def)

lemma ref_ids_differ: "OrderID ref_cosmos ref_ask \<noteq> OrderID ref_cosmos ref_bid"
  by code_simp

lemma ref_market_book_ok: "book_ok ref_cosmos (market_store ref_market)"
  using market_invD(1) [OF ref_market_inv] by (rule store_okD(1))

lemma ref_two_book:
  "book (market_store ref_two) = [OrderID ref_cosmos ref_bid \<mapsto> ref_bid, OrderID ref_cosmos ref_ask \<mapsto> ref_ask]"
  by (simp del: ref_market_simps add: ref_two_def book_put ref_book_empty)

lemma ref_two_book_ok: "book_ok ref_cosmos (market_store ref_two)"
proof -
  have "book_ok ref_cosmos (put_order ref_cosmos ref_bid (market_store ref_market))"
    by (rule book_ok_put [OF ref_market_book_ok ref_orders_ok(1)]) (simp del: ref_market_simps add: ref_book_empty)
  then have "book_ok ref_cosmos (put_order ref_cosmos ref_ask (put_order ref_cosmos ref_bid (market_store ref_market)))"
    by (rule book_ok_put [OF _ ref_orders_ok(2)])
      (simp del: ref_market_simps add: book_put ref_book_empty ref_ids_differ)
  then show ?thesis by (simp del: ref_market_simps add: ref_two_def)
qed

lemma ref_two_on_book: "on_book ref_cosmos (market_store ref_two) pair x \<longleftrightarrow> x = ref_bid \<or> x = ref_ask"
  using ref_ids_differ by (auto simp: on_book_def ref_two_book ref_order_fields split: if_splits)

lemma ref_pair_byte: "byte 0 \<notin> set pair"
  by code_simp

text \<open>C11. The order keeper refines a map from identifiers to orders: \<open>Add\<close> and \<open>Update\<close> never fail
  and store the order under its identifier, \<open>Remove\<close> takes out exactly that entry, and all of them
  keep the queue and the bid and ask lists equal to the indexes of the map. Removing an order that is
  not stored is refused.\<close>

theorem order_keeper_refines_map:
  assumes "book_ok S (market_store s)" and "order_ok x"
    and "\<And>y. book (market_store s) (OrderID S x) = Some y \<Longrightarrow> same_place x y"
  shows "(\<exists>s1. Add S (TradingPair x) x s = (Ok (), s1) \<and> book_ok S (market_store s1) \<and>
      getOrder s1 = (getOrder s)(OrderID S x \<mapsto> x)) \<and>
    (\<exists>s2. Update S (TradingPair x) x s = (Ok (), s2) \<and> book_ok S (market_store s2) \<and>
      getOrder s2 = (getOrder s)(OrderID S x \<mapsto> x)) \<and>
    (case getOrder s (OrderID S x) of
        None \<Rightarrow> \<exists>e. Remove S (TradingPair x) x s = (Err e, s)
      | Some y \<Rightarrow> \<exists>s3. Remove S (TradingPair x) x s = (Ok (), s3) \<and> book_ok S (market_store s3) \<and>
          getOrder s3 = (getOrder s)(OrderID S x := None))"
proof (intro conjI)
  let ?st = "market_store s" and ?mark = "NewlyAddedKeyPrefix @ TradingPair x"
  have get: "getOrder (s\<lparr>market_store := st\<rparr>) = book st" "getOrder s = book ?st" for st
    using getOrder_book [of "s\<lparr>market_store := st\<rparr>"] getOrder_book [of s] by (simp_all add: fun_eq_iff)
  have marked: "book_ok S (kv_set ?mark VMark ?st)" "book (kv_set ?mark VMark ?st) = book ?st"
    by (simp_all add: book_ok_set_other [OF other_keys(1) assms(1)] book_set_other [OF other_keys(1)])
  have oks: "book_ok S (put_order S x (kv_set ?mark VMark ?st))" "book_ok S (put_order S x ?st)" "book_ok S (drop_order S x ?st)"
    using book_ok_put [OF marked(1) assms(2)] book_ok_put [OF assms] book_ok_drop [OF assms] assms(3) marked(2) by simp_all
  show "\<exists>s1. Add S (TradingPair x) x s = (Ok (), s1) \<and> book_ok S (market_store s1) \<and>
      getOrder s1 = (getOrder s)(OrderID S x \<mapsto> x)"
    using Add_run [OF assms(2), where S = S and s = s] oks(1) by (simp add: get book_put marked(2))
  show "\<exists>s2. Update S (TradingPair x) x s = (Ok (), s2) \<and> book_ok S (market_store s2) \<and>
      getOrder s2 = (getOrder s)(OrderID S x \<mapsto> x)"
    using Update_run [OF assms(2), where S = S and s = s] oks(2) by (simp add: get book_put)
  show "case getOrder s (OrderID S x) of
        None \<Rightarrow> \<exists>e. Remove S (TradingPair x) x s = (Err e, s)
      | Some y \<Rightarrow> \<exists>s3. Remove S (TradingPair x) x s = (Ok (), s3) \<and> book_ok S (market_store s3) \<and>
          getOrder s3 = (getOrder s)(OrderID S x := None)"
  proof (cases "getOrder s (OrderID S x)")
    case None
    then show ?thesis by (simp add: Remove_def fail_def)
  next
    case (Some y)
    then show ?thesis
      using Remove_run [OF assms(2), where S = S and s = s] oks(3) by (simp add: get book_drop)
  qed
qed

theorem order_keeper_refines_map_witness:
  "\<exists>s1. Add ref_cosmos (TradingPair ref_bid) ref_bid ref_market = (Ok (), s1) \<and> book_ok ref_cosmos (market_store s1) \<and>
     getOrder s1 (OrderID ref_cosmos ref_bid) = Some ref_bid"
proof -
  have "\<And>y. book (market_store ref_market) (OrderID ref_cosmos ref_bid) = Some y \<Longrightarrow> same_place ref_bid y"
    by (simp del: ref_market_simps add: ref_book_empty)
  from order_keeper_refines_map [OF ref_market_book_ok ref_orders_ok(1) this] show ?thesis by auto
qed

text \<open>C12. The candidates for matching are exactly the orders of the pair that can trade with some order
  of the other side, each once; finding them only deletes the pair's mark.\<close>

theorem matching_candidates_exact:
  assumes "book_ok S (market_store s)" and "byte 0 \<notin> set symbol"
  shows "\<exists>xs. GetMatchingCandidates symbol s =
      (Ok xs, s\<lparr>market_store := kv_delete (NewlyAddedKeyPrefix @ symbol) (market_store s)\<rparr>) \<and> distinct xs \<and>
    set xs = {x. on_book S (market_store s) symbol x \<and> (\<exists>y. on_book S (market_store s) symbol y \<and> meets x y)}"
  by (rule GetMatchingCandidates_run [OF assms])

theorem matching_candidates_exact_witness:
  "\<exists>xs s'. GetMatchingCandidates pair ref_two = (Ok xs, s') \<and> set xs = {ref_bid, ref_ask}"
proof -
  have "meets ref_bid ref_ask" "meets ref_ask ref_bid" by (simp_all add: meets_def ref_order_fields)
  then have "{x. on_book ref_cosmos (market_store ref_two) pair x \<and> (\<exists>y. on_book ref_cosmos (market_store ref_two) pair y \<and> meets x y)} =
      {ref_bid, ref_ask}"
    unfolding ref_two_on_book by blast
  then show ?thesis using matching_candidates_exact [OF ref_two_book_ok ref_pair_byte] by metis
qed

text \<open>C13. \<open>GetOlderThan\<close> lists exactly the orders of the pair placed before a height, each once and
  the newest first; no pointer of the list is nil.\<close>

theorem older_orders_exact:
  assumes "book_ok S (market_store s)" and "byte 0 \<notin> set symbol" and "height_fits h"
  shows "\<exists>xs. GetOlderThan symbol h s = Ok (map Some xs) \<and> distinct xs \<and>
    set xs = {x. on_book S (market_store s) symbol x \<and> Height x < h} \<and> sorted_wrt (\<lambda>x y. Height y \<le> Height x) xs"
  by (rule GetOlderThan_exact [OF assms])

theorem older_orders_exact_witness:
  "\<exists>xs. GetOlderThan pair 21 ref_two = Ok (map Some xs) \<and> set xs = {ref_bid, ref_ask}"
proof -
  have "height_fits 21" by (simp add: height_fits_def)
  from older_orders_exact [OF ref_two_book_ok ref_pair_byte this]
  obtain xs where xs: "GetOlderThan pair 21 ref_two = Ok (map Some xs)"
    "set xs = {x. on_book ref_cosmos (market_store ref_two) pair x \<and> Height x < 21}" by blast
  have "set xs = {ref_bid, ref_ask}" unfolding xs(2) ref_two_on_book by (auto simp: ref_order_fields)
  with xs(1) show ?thesis by blast
qed

text \<open>C14. \<open>GetOrdersAtHeight\<close> lists exactly the orders of the pair placed at a height, each once.\<close>

theorem orders_at_height_exact:
  assumes "book_ok S (market_store s)" and "byte 0 \<notin> set symbol" and "height_fits (h + 1)" and "0 \<le> h"
  shows "\<exists>xs. GetOrdersAtHeight symbol h s = Ok (map Some xs) \<and> distinct xs \<and>
    set xs = {x. on_book S (market_store s) symbol x \<and> Height x = h}"
  by (rule GetOrdersAtHeight_exact [OF assms])

theorem orders_at_height_exact_witness:
  "GetOrdersAtHeight pair 21 ref_two = Ok []"
proof -
  have "height_fits (21 + 1)" "(0 :: int) \<le> 21" by (simp_all add: height_fits_def)
  from orders_at_height_exact [OF ref_two_book_ok ref_pair_byte this]
  obtain xs where xs: "GetOrdersAtHeight pair 21 ref_two = Ok (map Some xs)"
    "set xs = {x. on_book ref_cosmos (market_store ref_two) pair x \<and> Height x = 21}" by blast
  have "set xs = {}" unfolding xs(2) ref_two_on_book by (auto simp: ref_order_fields)
  with xs(1) show ?thesis by simp
qed

end
