(* ===== verification/MarketProps.thy ===== *)
theory MarketProps
  imports BookProps
begin

section \<open>Properties of the market\<close>

text \<open>
  The market's messages and end blocker, and the chain of blocks they make up with the other modules.
  \<open>market_inv C tot T F s\<close> is the invariant of a state: \<open>T\<close> is its ledger and the part of it beyond the
  market's, and \<open>F\<close> are the coins frozen for other reasons than open orders.
\<close>

lemma market_inv_coins:
  assumes "market_inv C tot T F s"
  shows "frozen s a d = held_total (book (market_store s)) a d + F a d" and "total_coins tot s d = fst (fst T d)" and "base_of tot s = T"
proof -
  note m = market_invD(4) [OF assms]
  show "frozen s a d = held_total (book (market_store s)) a d + F a d" using minvD(3) [OF m] by (simp add: backing_def)
  show "base_of tot s = T" by (rule minvD(2) [OF m])
  then show "total_coins tot s d = fst (fst T d)" by (auto simp: base_of_def ledger_of_def)
qed

text \<open>C1. In every state the chain can reach, by transactions of authx, bankx, asset, market and
  bancorlite and by end blocks in any order, the frozen coins of every account are exactly what its open
  orders hold (the coins they still offer, their commission and their feature fee), what its bancor pools
  hold and what was frozen for other reasons; and for every token the recorded supply and all its coins (in accounts, locked and frozen)
  differ by what they differed by at the start, so nothing but an issue, a mint, a burn or a change of the supply makes or
  destroys coins.\<close>

theorem coins_of_reachable_states:
  assumes "cosmos_ok C tot" and "supply_ok C tot" and "symbols_valid C" and "bancor_ok D" and "\<And>a d. 0 \<le> F a d" and "sorts_ok G"
    and "\<And>es. mset (rng es) = mset es" and "chain_run C D G sha sub rng zone q x y" and "chain_inv C D tot gap F x"
  shows "chain_inv C D tot gap F y \<and>
    (\<forall>a d. frozen (snd y) a d = held_total (book (market_store (snd y))) a d + pool_total (bancor_store (snd y)) a d + F a d) \<and>
    (\<forall>d. token_supply (snd y) d - total_coins tot (snd y) d = token_supply (snd x) d - total_coins tot (snd x) d)"
proof -
  have y: "chain_inv C D tot gap F y" by (rule chain_run_inv [OF assms])
  then have m: "market_inv C tot (base_of tot (snd y)) (and_pools (bancor_store (snd y)) F) (snd y)"
      "supply_gap tot (snd y) = supply_gap tot (snd x)"
    using assms(9) by (simp_all add: chain_inv_def)
  with y show ?thesis using market_inv_coins(1) [OF m(1)] by (simp add: supply_gap_def fun_eq_iff and_pools_def)
qed

theorem coins_of_reachable_states_witness:
  "chain_run ref_cosmos ref_bancor ref_sorts (\<lambda>x. x) (\<lambda>t. True) (\<lambda>es. es) (\<lambda>t. 0) ''q'' (ref_ctx 50, ref_market) (ref_ctx 50, ref_market1) \<and>
   frozen ref_market1 bob ''abc'' = held_total (book (market_store ref_market1)) bob ''abc'' + pool_total (bancor_store ref_market1) bob ''abc'' \<and>
   token_supply ref_market1 ''abc'' - total_coins ref_tot ref_market1 ''abc'' =
   token_supply ref_market ''abc'' - total_coins ref_tot ref_market ''abc''"
proof -
  have run: "chain_run ref_cosmos ref_bancor ref_sorts (\<lambda>x. x) (\<lambda>t. True) (\<lambda>es. es) (\<lambda>t. 0) ''q'' (ref_ctx 50, ref_market) (ref_ctx 50, ref_market1)"
    unfolding chain_run_def by (rule r_into_rtranclp, rule market_tx [OF ref_sell_basic ref_sell_runs])
  have "frozen ref_market bob ''abc'' = 0" by (simp add: ref_market_accounts alice_def bob_def)
  then show ?thesis
    using coins_of_reachable_states [OF ref_cosmos_ok ref_supply_ok ref_symbols_valid ref_bancor_ok ref_frozen_nonneg ref_sorts_ok refl run ref_chain_inv]
      run by simp
qed


lemma ref_height_fits: "height_fits (BlockHeight (ref_ctx t))"
  by (simp add: ref_ctx_def height_fits_def)

lemma ref_market1_inv:
  "market_inv ref_cosmos ref_tot (base_of ref_tot ref_market) (frozen ref_market) ref_market1"
  using market_Handler_inv [OF ref_cosmos_ok ref_symbols_valid ref_frozen_nonneg ref_market_inv _ ref_height_fits ref_sell_basic ref_sell_runs]
    ref_params_valid by simp


text \<open>C3. Placing an order: it gets an identifier no open order has, its market exists, it is in the book
  with the whole quantity left, and its sender's frozen coins grow by exactly what the order holds, at
  no one else's cost.\<close>

theorem placing_an_order:
  assumes "cosmos_ok C tot" and "market_inv C tot T F s" and "MsgCreateOrder_ValidateBasic C msg = Ok ()"
    and "order_msg_fits msg" and "market_ValidateGenesis (market_params s) = Ok ()" and "height_fits (BlockHeight ctx)"
    and "handleMsgCreateOrder C sub ctx msg s = (Ok (), s')"
  shows "\<exists>x. Sender x = co_Sender msg \<and> TradingPair x = co_TradingPair msg \<and> Side x = co_Side msg \<and>
    LeftStock x = co_Quantity msg \<and> Height x = BlockHeight ctx \<and> GetMarketInfo s (TradingPair x) \<noteq> None \<and>
    getOrder s (OrderID C x) = None \<and> getOrder s' = (getOrder s)(OrderID C x \<mapsto> x) \<and>
    (\<forall>a d. frozen s' a d = frozen s a d + (if a = Sender x then owes x d else 0)) \<and>
    (\<forall>d. total_coins tot s' d = total_coins tot s d)"
proof -
  obtain x where x: "Sender x = co_Sender msg" "TradingPair x = co_TradingPair msg" "Height x = BlockHeight ctx"
      "LeftStock x = co_Quantity msg" "Side x = co_Side msg" "GetMarketInfo s (co_TradingPair msg) \<noteq> None"
    and new: "book (market_store s) (OrderID C x) = None"
    and st: "market_store s' = put_order C x (kv_set (NewlyAddedKeyPrefix @ TradingPair x) VMark (market_store s))"
    and m: "minv C tot T (\<lambda>a d. backing F (book (market_store s)) a d + held x a d) (market_store s') (market_params s) s'"
    using create_order_Ok [OF assms] by blast
  have get: "getOrder s = book (market_store s)" "getOrder s' = book (market_store s')"
    by (simp_all add: fun_eq_iff getOrder_book)
  have "frozen s' a d = frozen s a d + (if a = Sender x then owes x d else 0)" for a d
    using minvD(3) [OF m, of a d] market_inv_coins(1) [OF assms(2), of a d] by (simp add: backing_def held_def)
  moreover have "total_coins tot s' d = total_coins tot s d" for d
    using minvD(2) [OF m] market_inv_coins(2) [OF assms(2)] by (auto simp: base_of_def ledger_of_def)
  moreover have "getOrder s' = (getOrder s)(OrderID C x \<mapsto> x)"
    unfolding get st by (simp add: book_put book_set_other other_keys)
  ultimately show ?thesis using x new by (intro exI [of _ x]) (simp add: get)
qed

lemma ref_market_no_events: "ref_market\<lparr>events := []\<rparr> = ref_market"
  by (simp add: ref_market_def)

lemma ref_create_runs:
  "handleMsgCreateOrder ref_cosmos (\<lambda>t. True) (ref_ctx 50) (ref_order bob 1 2 10 2) ref_market = (Ok (), ref_market1)"
  using ref_sell_runs
  by (simp del: ref_market_simps add: market_Handler_def new_event_manager_def and_then_def modify_def ref_sell_def ref_market_no_events)

lemma ref_sell_valid:
  "MsgCreateOrder_ValidateBasic ref_cosmos (ref_order bob 1 2 10 2) = Ok ()" "order_msg_fits (ref_order bob 1 2 10 2)"
  by code_simp+

theorem placing_an_order_witness:
  "\<exists>x. Sender x = bob \<and> LeftStock x = 10 \<and> getOrder ref_market1 (OrderID ref_cosmos x) = Some x \<and>
     frozen ref_market1 alice ''abc'' = frozen ref_market alice ''abc''"
proof -
  have "market_ValidateGenesis (market_params ref_market) = Ok ()" using ref_params_valid by simp
  from placing_an_order [OF ref_cosmos_ok ref_market_inv ref_sell_valid this ref_height_fits ref_create_runs]
  obtain x where x: "Sender x = bob" "LeftStock x = 10" "getOrder ref_market1 = (getOrder ref_market)(OrderID ref_cosmos x \<mapsto> x)"
    and f: "\<And>a d. frozen ref_market1 a d = frozen ref_market a d + (if a = Sender x then owes x d else 0)"
    by (auto simp: ref_order_def)
  have "alice \<noteq> bob" by code_simp
  with x f [of alice "''abc''"] show ?thesis by (intro exI [of _ x]) simp
qed

text \<open>C4. Cancelling an order: only the account that placed it can, exactly that order leaves the book,
  and exactly the coins it held are no longer frozen.\<close>

theorem cancelling_an_order:
  assumes "cosmos_ok C tot" and "denom_valid C CET" and "\<And>a d. 0 \<le> F a d" and "market_inv C tot T F s"
    and "handleMsgCancelOrder C sub ctx msg s = (Ok (), s')"
  shows "\<exists>x. getOrder s (ca_OrderID msg) = Some x \<and> Sender x = ca_Sender msg \<and>
    getOrder s' = (getOrder s)(ca_OrderID msg := None) \<and>
    (\<forall>a d. frozen s' a d = frozen s a d - (if a = Sender x then owes x d else 0)) \<and>
    (\<forall>d. total_coins tot s' d = total_coins tot s d)"
proof -
  obtain x where x: "book (market_store s) (ca_OrderID msg) = Some x" "Sender x = ca_Sender msg"
      and cl: "cleaned C tot T F (\<lambda>y. y = x) {} s s'"
    using cancel_order_Ok [OF assms] by blast
  have get: "getOrder s = book (market_store s)" "getOrder s' = book (market_store s')"
    by (simp_all add: fun_eq_iff getOrder_book)
  have b: "book (market_store s') = (book (market_store s))(ca_OrderID msg := None)"
    using cleanedD(3) [OF cl] strike_one [OF market_invD(3) [OF assms(4)] x(1)] by simp
  have "frozen s' a d = frozen s a d - (if a = Sender x then owes x d else 0)" for a d
    using market_inv_coins(1) [OF assms(4), of a d] market_inv_coins(1) [OF cleanedD(1) [OF cl], of a d]
      reserved_del [OF finite_book x(1), of a d] by (simp add: b held_def)
  moreover have "total_coins tot s' d = total_coins tot s d" for d
    using market_inv_coins(2) [OF assms(4)] market_inv_coins(2) [OF cleanedD(1) [OF cl]] by simp
  ultimately show ?thesis using x b by (intro exI [of _ x]) (simp add: get)
qed

definition ref_cancel :: MsgCancelOrder where
  "ref_cancel = \<lparr>ca_Sender = bob, ca_OrderID = OrderID ref_cosmos ref_ask\<rparr>"

definition ref_market2 :: "ref_bank bancor_state" where
  "ref_market2 = snd (handleMsgCancelOrder ref_cosmos (\<lambda>t. True) (ref_ctx 50) ref_cancel ref_market1)"

lemma ref_cancel_runs:
  "handleMsgCancelOrder ref_cosmos (\<lambda>t. True) (ref_ctx 50) ref_cancel ref_market1 = (Ok (), ref_market2)"
proof -
  have "fst (handleMsgCancelOrder ref_cosmos (\<lambda>t. True) (ref_ctx 50) ref_cancel ref_market1) = Ok ()" by code_simp
  then show ?thesis unfolding ref_market2_def by (rule run_pair)
qed

theorem cancelling_an_order_witness:
  "getOrder ref_market2 (OrderID ref_cosmos ref_ask) = None \<and>
   frozen ref_market2 alice ''abc'' = frozen ref_market1 alice ''abc''"
proof -
  from cancelling_an_order [OF ref_cosmos_ok ref_cet_valid ref_frozen_nonneg ref_market1_inv ref_cancel_runs]
  obtain x where x: "Sender x = bob" "getOrder ref_market2 = (getOrder ref_market1)(OrderID ref_cosmos ref_ask := None)"
    and f: "\<And>a d. frozen ref_market2 a d = frozen ref_market1 a d - (if a = Sender x then owes x d else 0)"
    by (auto simp: ref_cancel_def)
  have "alice \<noteq> bob" by code_simp
  with x f [of alice "''abc''"] show ?thesis by simp
qed


lemma ref_ask_stored: "getOrder ref_market1 (OrderID ref_cosmos ref_ask) = Some ref_ask"
  by code_simp



lemma ref_need_remove: "need_remove (\<lambda>t. 0) (ref_ctx 100000) (GetUnixTime ref_market)"
  by code_simp


text \<open>C22. One marked pair that has no market stops the trading of all pairs: unless it is a clean-up
  block, the end blocker then returns at once and changes nothing, the mark included.\<close>

theorem stale_mark_stops_all_trading:
  assumes "\<not> need_remove zone ctx (GetUnixTime s)" and "symbol \<in> set (GetMarketsWithNewlyAddedOrder s)"
    and "GetMarketInfo s symbol = None"
  shows "market_EndBlocker C G sha sub rng zone ctx s = Some (Ok (), s)"
  by (rule unknown_mark_stops [OF assms])

definition ref_stale :: "ref_bank bancor_state" where
  "ref_stale = ref_two\<lparr>market_store := kv_set (NewlyAddedKeyPrefix @ ''xyz/cet'') VMark (market_store ref_two)\<rparr>"

theorem stale_mark_stops_all_trading_witness:
  "market_EndBlocker ref_cosmos ref_sorts (\<lambda>x. x) (\<lambda>t. True) (\<lambda>es. es) (\<lambda>t. 0) (ref_ctx 50) ref_stale = Some (Ok (), ref_stale)"
proof -
  have "\<not> need_remove (\<lambda>t. 0) (ref_ctx 50) (GetUnixTime ref_stale)" "''xyz/cet'' \<in> set (GetMarketsWithNewlyAddedOrder ref_stale)"
    "GetMarketInfo ref_stale ''xyz/cet'' = None" by code_simp+
  then show ?thesis by (rule stale_mark_stops_all_trading)
qed


definition ref_open :: MsgCreateTradingPair where
  "ref_open = \<lparr>ctp_Stock = ''cet'', ctp_Money = ''abc'', ctp_Creator = alice, ctp_PricePrecision = 8, ctp_OrderPrecision = 2\<rparr>"

lemma ref_open_fields: "ctp_Stock ref_open = ''cet''" "ctp_Money ref_open = ''abc''"
  by (simp_all add: ref_open_def)


text \<open>C24. A market's end is only asked for by the owner of its stock token, at most once, and with the
  notice the parameters demand; the request is then due at its time.\<close>

theorem asking_for_the_end_of_a_market:
  assumes "market_inv C tot T F s" and "0 \<le> ct_EffectiveTime msg" and "ct_EffectiveTime msg < 2 ^ 63"
    and "handleMsgCancelTradingPair C ctx msg s = (Ok (), s')"
  shows "(\<exists>info t. GetMarketInfo s (ct_TradingPair msg) = Some info \<and> GetToken s (mi_Stock info) = Some t \<and>
      Owner t = ct_Sender msg) \<and>
    \<not> HasDelistRequest s (ct_TradingPair msg) \<and> i64 (UnixNano ctx + MarketMinExpiredTime (market_params s)) \<le> ct_EffectiveTime msg \<and>
    ct_TradingPair msg \<in> due (market_store s') (ct_EffectiveTime msg) \<and> market_inv C tot T F s'"
proof -
  have "checkMsgCancelTradingPair msg ctx s = Ok ()"
    using assms(4) by (auto simp: handleMsgCancelTradingPair_def and_then_Ok lift_def)
  then have "i64 (UnixNano ctx + MarketMinExpiredTime (market_params s)) \<le> ct_EffectiveTime msg"
    by (simp add: checkMsgCancelTradingPair_def split: if_splits)
  then show ?thesis using cancel_market_Ok [OF assms] by simp
qed

definition ref_end :: MsgCancelTradingPair where
  "ref_end = \<lparr>ct_Sender = bob, ct_TradingPair = pair, ct_EffectiveTime = 100000000000\<rparr>"

lemma ref_end_fields: "ct_TradingPair ref_end = pair" "ct_EffectiveTime ref_end = 100000000000"
  by (simp_all add: ref_end_def)

theorem asking_for_the_end_of_a_market_witness:
  "\<exists>s'. handleMsgCancelTradingPair ref_cosmos (ref_ctx 50) ref_end ref_market = (Ok (), s') \<and>
     pair \<in> due (market_store s') 100000000000"
proof -
  have "fst (handleMsgCancelTradingPair ref_cosmos (ref_ctx 50) ref_end ref_market) = Ok ()" by code_simp
  note run = run_pair [OF this]
  have "0 \<le> ct_EffectiveTime ref_end" "ct_EffectiveTime ref_end < 2 ^ 63" by (simp_all add: ref_end_def)
  from asking_for_the_end_of_a_market [OF ref_market_inv this run]
  have "pair \<in> due (market_store (snd (handleMsgCancelTradingPair ref_cosmos (ref_ctx 50) ref_end ref_market))) 100000000000"
    by (simp add: ref_end_fields)
  with run show ?thesis by - (rule exI, rule conjI, assumption+)
qed

text \<open>C25. Changing the price precision of a market keeps its tokens and its last price, but puts the
  order precision back to 0, whatever it was.\<close>

theorem changing_the_price_precision:
  assumes "market_inv C tot T F s" and "handleMsgModifyPricePrecision C msg s = (Ok (), s')"
  shows "\<exists>old. GetMarketInfo s (mp_TradingPair msg) = Some old \<and>
    GetMarketInfo s' (mp_TradingPair msg) = Some (old\<lparr>mi_PricePrecision := mp_PricePrecision msg, mi_OrderPrecision := 0\<rparr>) \<and>
    (\<forall>symbol. symbol \<noteq> mp_TradingPair msg \<longrightarrow> GetMarketInfo s' symbol = GetMarketInfo s symbol) \<and>
    getOrder s' = getOrder s"
proof -
  obtain old where old: "GetMarketInfo s (mp_TradingPair msg) = Some old"
    and st: "market_store s' = kv_set (market_key (mp_TradingPair msg))
      (VMarket (old\<lparr>mi_PricePrecision := mp_PricePrecision msg, mi_OrderPrecision := 0\<rparr>)) (market_store s)"
    using modify_precision_Ok(3) [OF assms] by blast
  have "GetMarketInfo s' x = (if x = mp_TradingPair msg
      then Some (old\<lparr>mi_PricePrecision := mp_PricePrecision msg, mi_OrderPrecision := 0\<rparr>) else GetMarketInfo s x)" for x
    by (simp add: GetMarketInfo_def st market_key_def market_key_inj)
  moreover have "getOrder s' = getOrder s"
    by (simp add: fun_eq_iff getOrder_book st book_set_other other_keys market_key_def)
  ultimately show ?thesis using old by (intro exI [of _ old]) simp
qed

definition ref_modify :: MsgModifyPricePrecision where
  "ref_modify = \<lparr>mp_Sender = bob, mp_TradingPair = pair, mp_PricePrecision = 5\<rparr>"

theorem changing_the_price_precision_witness:
  "\<exists>s'. handleMsgModifyPricePrecision ref_cosmos ref_modify ref_market = (Ok (), s') \<and>
     map_option mi_PricePrecision (GetMarketInfo s' pair) = Some 5"
proof -
  have "fst (handleMsgModifyPricePrecision ref_cosmos ref_modify ref_market) = Ok ()" by code_simp
  note run = run_pair [OF this]
  from changing_the_price_precision [OF ref_market_inv run]
  obtain old where "GetMarketInfo (snd (handleMsgModifyPricePrecision ref_cosmos ref_modify ref_market)) pair =
      Some (old\<lparr>mi_PricePrecision := 5, mi_OrderPrecision := 0\<rparr>)" by (auto simp: ref_modify_def)
  then have "map_option mi_PricePrecision (GetMarketInfo
      (snd (handleMsgModifyPricePrecision ref_cosmos ref_modify ref_market)) pair) = Some 5" by simp
  with run show ?thesis by - (rule exI, rule conjI, assumption+)
qed

end
