(* ===== verification/EngineProps.thy ===== *)
theory EngineProps
  imports MarketProps
begin

section \<open>Properties of the matching engine and of the fees\<close>

text \<open>
  The engine of \<open>match.go\<close> run on the orders of a market, the price it finds, the orders it leaves; the
  fees of \<open>order.go\<close> against what the order has frozen for them.
\<close>

subsection \<open>The execution price\<close>

text \<open>C7. Whatever the unstable sorts do with equal elements, the execution price is one at which the traded
  volume is the largest of all prices; among the orders' prices with that volume none has a smaller
  imbalance between demand and supply.\<close>

theorem execution_price_maximises_volume:
  assumes "sorts_ok G" and "\<forall>a \<in> set orders. price_fits (GetPrice I s a)"
    and "\<forall>a \<in> set orders. 0 \<le> GetAmount I s a" and "orders \<noteq> []"
  shows "\<exists>p. GetExecutionPrice G I s high mid low orders = Ok p \<and>
    (\<forall>q. volume_at I s orders q \<le> volume_at I s orders p) \<and>
    (\<forall>c \<in> set orders. volume_at I s orders (GetPrice I s c) = volume_at I s orders p \<longrightarrow>
      \<bar>demand_at I s orders p - supply_at I s orders p\<bar> \<le>
        \<bar>demand_at I s orders (GetPrice I s c) - supply_at I s orders (GetPrice I s c)\<bar>)"
  using GetExecutionPrice_max_volume [OF assms(1,2) _ assms(4)] assms(3) by (simp add: amounts_nonneg_def)

text \<open>The engine's view of the two orders of the reference book.\<close>

definition ref_engine :: "(ref_bank bancor_state \<times> deal_info) order_iface" where
  "ref_engine = wrapped_order ref_cosmos (\<lambda>x. x) (\<lambda>t. True) (ref_ctx 50)"

definition ref_deals :: "ref_bank bancor_state \<times> deal_info" where
  "ref_deals = (ref_two, \<lparr>wrapped = [ref_bid, ref_ask], changedOrders = [], lastPrice = 0\<rparr>)"

lemma ref_engine_view:
  "GetPrice ref_engine ref_deals 0 = 3 * dec_one" "GetPrice ref_engine ref_deals 1 = 2 * dec_one"
  "GetAmount ref_engine ref_deals 0 = 4" "GetAmount ref_engine ref_deals 1 = 10"
  "GetSide ref_engine ref_deals 0 = BID" "GetSide ref_engine ref_deals 1 = ASK"
  by code_simp+

lemma ref_prices_fit: "\<forall>a \<in> set [0, 1]. price_fits (GetPrice ref_engine ref_deals a)"
  using ref_orders_ok by (simp del: One_nat_def add: ref_engine_view order_ok_def ref_order_fields)

lemma ref_amounts_nonneg: "\<forall>a \<in> set [0, 1]. 0 \<le> GetAmount ref_engine ref_deals a"
  by (simp del: One_nat_def add: ref_engine_view)

theorem execution_price_maximises_volume_witness:
  "\<exists>p. GetExecutionPrice ref_sorts ref_engine ref_deals 0 0 0 [0, 1] = Ok p \<and>
     (\<forall>q. volume_at ref_engine ref_deals [0, 1] q \<le> volume_at ref_engine ref_deals [0, 1] p)"
  using execution_price_maximises_volume [OF ref_sorts_ok ref_prices_fit ref_amounts_nonneg] by blast

text \<open>C15. When the best bid reaches the best offer, the execution price lies between the two: nobody at the
  top of the book trades beyond the limit of the order.\<close>

theorem execution_price_within_the_spread:
  assumes "sorts_ok G" and "\<forall>a \<in> set orders. price_fits (GetPrice I s a)" and "\<forall>a \<in> set orders. 0 \<le> GetAmount I s a"
    and "x \<in> set orders" and "GetSide I s x = BID" and "0 < GetAmount I s x"
    and "y \<in> set orders" and "GetSide I s y = ASK" and "0 < GetAmount I s y" and "GetPrice I s y \<le> GetPrice I s x"
    and "\<And>a. a \<in> set orders \<Longrightarrow> GetSide I s a = BID \<Longrightarrow> GetPrice I s a \<le> GetPrice I s x"
    and "\<And>a. a \<in> set orders \<Longrightarrow> GetSide I s a = ASK \<Longrightarrow> GetPrice I s y \<le> GetPrice I s a"
  shows "\<exists>p. GetExecutionPrice G I s high mid low orders = Ok p \<and> GetPrice I s y \<le> p \<and> p \<le> GetPrice I s x"
proof -
  have "amounts_nonneg I s orders" unfolding amounts_nonneg_def by (rule assms(3))
  then show ?thesis by (rule GetExecutionPrice_in_spread [OF assms(1,2) _ assms(4-)])
qed

theorem execution_price_within_the_spread_witness:
  "\<exists>p. GetExecutionPrice ref_sorts ref_engine ref_deals 0 0 0 [0, 1] = Ok p \<and> 2 * dec_one \<le> p \<and> p \<le> 3 * dec_one"
proof -
  have top: "0 \<in> set [0, 1 :: nat]" "1 \<in> set [0, 1 :: nat]" "GetPrice ref_engine ref_deals 1 \<le> GetPrice ref_engine ref_deals 0"
    "0 < GetAmount ref_engine ref_deals 0" "0 < GetAmount ref_engine ref_deals 1"
    by (simp_all del: One_nat_def add: ref_engine_view)
  have best: "GetPrice ref_engine ref_deals a \<le> GetPrice ref_engine ref_deals 0" if "a \<in> set [0, 1]" "GetSide ref_engine ref_deals a = BID" for a
    using that by (auto simp del: One_nat_def simp: ref_engine_view)
  have best': "GetPrice ref_engine ref_deals 1 \<le> GetPrice ref_engine ref_deals a" if "a \<in> set [0, 1]" "GetSide ref_engine ref_deals a = ASK" for a
    using that by (auto simp del: One_nat_def simp: ref_engine_view)
  from execution_price_within_the_spread [OF ref_sorts_ok ref_prices_fit ref_amounts_nonneg
      top(1) ref_engine_view(5) top(4,2) ref_engine_view(6) top(5,3) best best'] show ?thesis
    unfolding ref_engine_view by assumption
qed

subsection \<open>The outcome of matching\<close>

text \<open>C6. Matching the orders of a market always comes to an end, and unless it panics: the two sides have
  traded the same amount, no bid with something left reaches an offer with something left, and an order
  traded only if every order of its side that precedes it (a better price, then a lower height, then a
  smaller hash) was filled.\<close>

theorem matching_serves_the_book_in_order:
  fixes C :: "('b, 'y) cosmos_scheme" and s :: "('b, 'z) market_state_scheme" and xs
  defines "bids \<equiv> filter (\<lambda>i. Side (xs ! i) = BID) [0..<length xs]"
    and "asks \<equiv> filter (\<lambda>i. Side (xs ! i) \<noteq> BID) [0..<length xs]"
  assumes "cosmos_ok C tot" and "\<And>a d. 0 \<le> F a d" and "sorts_ok G" and "market_inv C tot T F s" and "distinct xs"
    and "\<And>x. x \<in> set xs \<Longrightarrow> getOrder s (OrderID C x) = Some x \<and> TradingPair x = symbol"
  shows "\<exists>r s' d'. Match G (wrapped_order C sha sub ctx) high mid low bids asks
      (s, \<lparr>wrapped = xs, changedOrders = [], lastPrice = pr\<rparr>) = Some (r, s', d') \<and>
    (r = Panic \<or> (\<exists>rest. r = Ok rest) \<and> length (wrapped d') = length xs \<and>
      (\<forall>i < length xs. 0 \<le> LeftStock (wrapped d' ! i) \<and> LeftStock (wrapped d' ! i) \<le> LeftStock (xs ! i)) \<and>
      (\<Sum>i\<leftarrow>bids. LeftStock (xs ! i) - LeftStock (wrapped d' ! i)) = (\<Sum>i\<leftarrow>asks. LeftStock (xs ! i) - LeftStock (wrapped d' ! i)) \<and>
      (\<forall>i \<in> set bids. \<forall>j \<in> set asks. 0 < LeftStock (wrapped d' ! i) \<longrightarrow> 0 < LeftStock (wrapped d' ! j) \<longrightarrow>
         Price (xs ! i) < Price (xs ! j)) \<and>
      (\<forall>side \<in> {bids, asks}. \<forall>i \<in> set side. \<forall>j \<in> set side.
         precede (wrapped_order C sha sub ctx) (s, \<lparr>wrapped = xs, changedOrders = [], lastPrice = pr\<rparr>) i j \<longrightarrow>
         LeftStock (wrapped d' ! j) < LeftStock (xs ! j) \<longrightarrow> LeftStock (wrapped d' ! i) = 0))"
proof -
  note C = assms(3) and F = assms(4) and G = assms(5) and inv = assms(6) and dist = assms(7)
  define d0 where "d0 = \<lparr>wrapped = xs, changedOrders = [], lastPrice = pr\<rparr>"
  let ?I = "wrapped_order C sha sub ctx :: (('b, 'z) market_state_scheme \<times> deal_info) order_iface"
  let ?V = "book (market_store s)"
  have V: "?V (OrderID C x) = Some x \<and> TradingPair x = symbol" if "x \<in> set xs" for x
    using assms(8) [OF that] by (simp add: getOrder_book)
  have ok: "orders_ok C ?V" and m: "minv C tot T (backing F ?V) (market_store s) (market_params s) s"
    and lv: "live ?V" using inv by (simp_all add: market_inv_def)
  have ids: "distinct (map (OrderID C) xs)"
    unfolding distinct_map using dist by (intro conjI inj_onI) (metis V option.sel)+
  have "deal_inv C tot T F ?V xs (market_store s) (market_params s) {..<length xs} (s, d0)"
    unfolding d0_def by (rule deal_inv_start [OF ok m ids V])
  then have einv: "engine_inv C tot T F ?V xs (market_store s) (market_params s) {..<length xs} (s, d0)"
    using C F by (simp add: engine_inv_def)
  have wf: "order_wf C (xs ! i) \<and> 0 < LeftStock (xs ! i)" if "i < length xs" for i
    using V [of "xs ! i"] that orders_okD [OF ok] lv by (auto simp: live_def)
  have dec: "dec_ok C" using cosmos_okD(4) [OF C] .
  have left: "GetAmount ?I (s, d0) i = LeftStock (xs ! i)" if "i < length xs" for i
    using GetAmount_wf [OF dec, of d0 i sha sub ctx s] wf [OF that] by (simp add: d0_def)
  have side: "GetSide ?I (s, d0) i = Side (xs ! i)" and price: "GetPrice ?I (s, d0) i = Price (xs ! i)" for i
    by (simp_all add: wrapped_order_def d0_def)
  have sides: "Side (xs ! i) = BID \<or> Side (xs ! i) = ASK" if "i < length xs" for i
    using order_wfD(1) [of C "xs ! i"] wf [OF that] by (simp add: order_ok_def)
  have pre: "set (bids @ asks) \<subseteq> {..<length xs}" "distinct (bids @ asks)"
      "\<forall>i \<in> set bids. GetSide ?I (s, d0) i = BID" "\<forall>i \<in> set asks. GetSide ?I (s, d0) i = ASK"
      "\<forall>i \<in> set (bids @ asks). 0 < GetAmount ?I (s, d0) i"
    using sides wf by (auto simp: bids_def asks_def side left)
  obtain r sd where run: "Match G ?I high mid low bids asks (s, d0) = Some (r, sd)"
    and out: "r = Panic \<or> (\<exists>bl al. r = Ok (bl, al) \<and>
      engine_inv C tot T F ?V xs (market_store s) (market_params s) {..<length xs} sd \<and>
      match_outcome ?I {..<length xs} (s, d0) bids asks sd bl al)"
    using wo.Match_spec [OF einv G pre, of high mid low] by blast
  obtain s' d' where sd: "sd = (s', d')" by (cases sd)
  show ?thesis
  proof (cases "r = Panic")
    case False
    then obtain bl al where r: "r = Ok (bl, al)"
      and einv': "deal_inv C tot T F ?V xs (market_store s) (market_params s) {..<length xs} (s', d')"
      and mo: "match_outcome ?I {..<length xs} (s, d0) bids asks (s', d') bl al"
      using out by (auto simp: sd engine_inv_def)
    note D = deal_invD [OF einv']
    have left': "GetAmount ?I (s', d') i = LeftStock (wrapped d' ! i)" if "i < length xs" for i
      by (rule GetAmount_wf [OF dec D(6) [OF that]])
    have in_range: "i < length xs" if "i \<in> set bids \<or> i \<in> set asks" for i using that pre(1) by auto
    have sums: "amount_sum ?I (s, d0) ys - amount_sum ?I (s', d') ys =
        (\<Sum>i\<leftarrow>ys. LeftStock (xs ! i) - LeftStock (wrapped d' ! i))" if "set ys \<subseteq> {..<length xs}" for ys
      using that by (induction ys) (simp_all add: amount_sum_def left left')
    note o = mo [unfolded match_outcome_def]
    have "\<forall>i < length xs. 0 \<le> LeftStock (wrapped d' ! i) \<and> LeftStock (wrapped d' ! i) \<le> LeftStock (xs ! i)"
      using o left left' by auto
    moreover have "(\<Sum>i\<leftarrow>bids. LeftStock (xs ! i) - LeftStock (wrapped d' ! i)) =
        (\<Sum>i\<leftarrow>asks. LeftStock (xs ! i) - LeftStock (wrapped d' ! i))"
      using o sums [of bids] sums [of asks] pre(1) by simp
    moreover have "\<forall>i \<in> set bids. \<forall>j \<in> set asks. 0 < LeftStock (wrapped d' ! i) \<longrightarrow> 0 < LeftStock (wrapped d' ! j) \<longrightarrow>
        Price (xs ! i) < Price (xs ! j)"
      using o left' in_range by (simp add: price)
    moreover have "\<forall>side \<in> {bids, asks}. \<forall>i \<in> set side. \<forall>j \<in> set side. precede ?I (s, d0) i j \<longrightarrow>
         LeftStock (wrapped d' ! j) < LeftStock (xs ! j) \<longrightarrow> LeftStock (wrapped d' ! i) = 0"
      using o left left' in_range by simp
    ultimately show ?thesis using run r D(2) unfolding sd d0_def
      by (intro exI [of _ r] exI [of _ s'] exI [of _ d']) simp
  qed (use run sd in \<open>auto simp: d0_def\<close>)
qed

text \<open>
  The reference market after Bob's offer of 10 at 2, with a bid of 4 at 3 that is backed by coins Alice
  had frozen before.
\<close>

definition ref_match :: "ref_bank bancor_state" where
  "ref_match = ref_market1\<lparr>market_store := put_order ref_cosmos ref_bid (market_store ref_market1)\<rparr>"

definition ref_others :: "addr \<Rightarrow> string \<Rightarrow> int" where
  "ref_others = (\<lambda>a d. frozen ref_market a d - held ref_bid a d)"

lemma ref_bid_wf: "order_wf ref_cosmos ref_bid"
  using ref_orders_ok(1) ref_pair_ok
  by (simp add: order_wf_def ref_order_fields) (simp add: ref_bid_def MaxOrderAmount_def)

lemma ref_others_nonneg: "0 \<le> ref_others a d"
proof -
  have "used_denom ref_bid = ''cet''" by code_simp
  then show ?thesis
    by (simp add: ref_others_def ref_market_accounts held_def owes_def CET_def) (simp add: ref_bid_def)
qed

lemma ref_left: "LeftStock ref_bid = 4" "LeftStock ref_ask = 10"
  by (simp_all add: ref_bid_def ref_ask_def)

lemma ref_match_inv:
  "market_inv ref_cosmos ref_tot (base_of ref_tot ref_market) ref_others ref_match"
proof -
  let ?st = "market_store ref_market1" and ?b = "book (market_store ref_market1)"
  have none: "?b (OrderID ref_cosmos ref_bid) = None"
  proof -
    have "getOrder ref_market1 (OrderID ref_cosmos ref_bid) = None" by code_simp
    then show ?thesis by (simp add: getOrder_book)
  qed
  have inv: "store_ok ref_cosmos ?st" "live ?b" "orders_ok ref_cosmos ?b"
    "minv ref_cosmos ref_tot (base_of ref_tot ref_market) (backing (frozen ref_market) ?b) ?st (market_params ref_market1) ref_market1"
    using ref_market1_inv by (simp_all add: market_inv_def)
  have st: "store_ok ref_cosmos (put_order ref_cosmos ref_bid ?st)"
    by (rule store_ok_put [OF inv(1) ref_orders_ok(1)]) (simp add: none)
  have b: "book (put_order ref_cosmos ref_bid ?st) = ?b(OrderID ref_cosmos ref_bid \<mapsto> ref_bid)" by (rule book_put)
  have "backing ref_others (?b(OrderID ref_cosmos ref_bid \<mapsto> ref_bid)) = backing (frozen ref_market) ?b"
    using inv(3) by (simp add: fun_eq_iff backing_def ref_others_def reserved_new none orders_ok_def)
  moreover have "minv ref_cosmos ref_tot (base_of ref_tot ref_market) (backing (frozen ref_market) ?b)
      (put_order ref_cosmos ref_bid ?st) (market_params ref_market1) ref_match"
    unfolding ref_match_def by (rule minv_store [OF inv(4)])
  moreover have "live (?b(OrderID ref_cosmos ref_bid \<mapsto> ref_bid))"
    using inv(2) ref_left by (simp add: live_def)
  ultimately show ?thesis
    using st orders_ok_upd [OF inv(3) ref_bid_wf] by (simp add: market_inv_def ref_match_def b)
qed

theorem matching_serves_the_book_in_order_witness:
  "\<exists>r s' d'. Match ref_sorts (wrapped_order ref_cosmos (\<lambda>x. x) (\<lambda>t. True) (ref_ctx 50)) 0 0 0 [0] [1]
      (ref_match, \<lparr>wrapped = [ref_bid, ref_ask], changedOrders = [], lastPrice = 0\<rparr>) = Some (r, s', d') \<and>
    (r = Panic \<or> 4 - LeftStock (wrapped d' ! 0) = 10 - LeftStock (wrapped d' ! 1) \<and>
      (LeftStock (wrapped d' ! 0) = 0 \<or> LeftStock (wrapped d' ! 1) = 0))"
proof -
  have sides: "filter (\<lambda>i. Side ([ref_bid, ref_ask] ! i) = BID) [0..<length [ref_bid, ref_ask]] = [0]"
    "filter (\<lambda>i. Side ([ref_bid, ref_ask] ! i) \<noteq> BID) [0..<length [ref_bid, ref_ask]] = [1]"
    by code_simp+
  have dist: "distinct [ref_bid, ref_ask]" using ref_ids_differ by auto
  have stored: "getOrder ref_match (OrderID ref_cosmos x) = Some x \<and> TradingPair x = pair" if "x \<in> set [ref_bid, ref_ask]" for x
    using that ref_ask_stored ref_ids_differ
    by (auto simp: getOrder_book ref_match_def book_put ref_order_fields)
  from matching_serves_the_book_in_order [OF ref_cosmos_ok ref_others_nonneg ref_sorts_ok ref_match_inv dist stored,
      unfolded sides, where sha = "\<lambda>x. x" and sub = "\<lambda>t. True" and ctx = "ref_ctx 50" and high = 0 and mid = 0 and low = 0 and pr = 0]
  obtain r s' d' where run: "Match ref_sorts (wrapped_order ref_cosmos (\<lambda>x. x) (\<lambda>t. True) (ref_ctx 50)) 0 0 0 [0] [1]
      (ref_match, \<lparr>wrapped = [ref_bid, ref_ask], changedOrders = [], lastPrice = 0\<rparr>) = Some (r, s', d')"
    and out: "r = Panic \<or> 4 - LeftStock (wrapped d' ! 0) = 10 - LeftStock (wrapped d' ! 1) \<and>
      \<not> (0 < LeftStock (wrapped d' ! 0) \<and> 0 < LeftStock (wrapped d' ! 1)) \<and>
      0 \<le> LeftStock (wrapped d' ! 0) \<and> 0 \<le> LeftStock (wrapped d' ! 1)"
    by (auto simp: ref_order_fields ref_left All_less_Suc)
  then show ?thesis by (intro exI [of _ r] exI [of _ s'] exI [of _ d']) auto
qed

subsection \<open>Fees\<close>





text \<open>C18. The part of a fee that goes to the payer's referee is never negative and never more than the fee.\<close>

theorem rebate_within_fee:
  assumes "0 \<le> fee" and "fee < 2 ^ 63" and "0 \<le> GetRebateRatio s" and "GetRebateRatio s \<le> RebateRatioBase"
  shows "\<exists>r. calRebateAmount s fee = Ok r \<and> 0 \<le> r \<and> r \<le> fee"
proof -
  have "go_quo (fee * GetRebateRatio s) RebateRatioBase = fee * GetRebateRatio s div RebateRatioBase"
    using assms by (intro go_quo_pos) (auto simp: RebateRatioBase_def)
  moreover have "fee * GetRebateRatio s \<le> fee * RebateRatioBase" using assms by (intro mult_left_mono) auto
  then have "fee * GetRebateRatio s div RebateRatioBase \<le> fee * RebateRatioBase div RebateRatioBase"
    by (rule zdiv_mono1) (simp add: RebateRatioBase_def)
  then have "fee * GetRebateRatio s div RebateRatioBase \<le> fee" by (simp add: RebateRatioBase_def)
  moreover have "0 \<le> fee * GetRebateRatio s div RebateRatioBase"
    using assms by (simp add: RebateRatioBase_def pos_imp_zdiv_nonneg_iff)
  ultimately show ?thesis using assms(2)
    by (simp add: calRebateAmount_def to_Int64_def in_i64_def)
qed

theorem rebate_within_fee_witness:
  "\<exists>r. calRebateAmount ref_market 1000 = Ok r \<and> 0 \<le> r \<and> r \<le> 1000"
proof -
  have "0 \<le> GetRebateRatio ref_market" "GetRebateRatio ref_market \<le> RebateRatioBase" by code_simp+
  then show ?thesis using rebate_within_fee [of 1000 ref_market] by simp
qed

end
