(* ===== verification/GenesisProps.thy ===== *)
theory GenesisProps
  imports MarketProps
begin

section \<open>Round trips and identifiers\<close>

text \<open>
  The market's state through \<open>ExportGenesis\<close> and \<open>InitGenesis\<close> of \<open>genesis.go\<close>; the identifiers of
  orders and pairs and the byte form of prices, on which the store's keys rest.
\<close>

subsection \<open>What the export lists\<close>

lemma in_map_filter: "y \<in> set (List.map_filter f xs) \<longleftrightarrow> (\<exists>x \<in> set xs. f x = Some y)"
  by (induction xs) (auto simp: map_filter_simps split: option.splits)

lemma order_of_Some: "order_of v = Some x \<longleftrightarrow> v = VOrder x"
  by (cases v) (simp_all add: order_of_def)

lemma GetAllOrders_exact:
  assumes "book_ok S (market_store s)"
  shows "x \<in> set (GetAllOrders s) \<longleftrightarrow> getOrder s (OrderID S x) = Some x"
proof -
  let ?lo = "ConcatKeys [OrderBookKeyPrefix, x00]" and ?hi = "ConcatKeys [OrderBookKeyPrefix, x01]"
  note bok = book_okD [OF assms]
  have key: "?lo \<le> k \<and> k < ?hi \<longleftrightarrow> (\<exists>oid. k = orderBookKey oid)" for k
    using prefix_range [of OrderBookKeyPrefix k] by (auto simp: ConcatKeys_def orderBookKey_def)
  have "x \<in> set (GetAllOrders s) \<longleftrightarrow> (\<exists>k. (k, VOrder x) \<in> set (kv_iterator ?lo ?hi (market_store s)))"
    by (simp only: GetAllOrders_def in_map_filter order_of_Some) (metis prod.collapse snd_conv)
  also have "\<dots> \<longleftrightarrow> (\<exists>oid. kv_get (market_store s) (orderBookKey oid) = Some (VOrder x))"
    unfolding kv_iterator_exact [OF bok(1)] key by blast
  also have "\<dots> \<longleftrightarrow> getOrder s (OrderID S x) = Some x"
  proof
    assume "\<exists>oid. kv_get (market_store s) (orderBookKey oid) = Some (VOrder x)"
    then obtain oid where oid: "kv_get (market_store s) (orderBookKey oid) = Some (VOrder x)" ..
    then have "OrderID S x = oid" using assms unfolding book_ok_def by blast
    with oid show "getOrder s (OrderID S x) = Some x" by (simp add: getOrder_def)
  qed (auto simp: getOrder_def split: option.splits market_val.splits)
  finally show ?thesis .
qed

lemma GetAllMarketInfos_exact:
  assumes "store_ok S (market_store s)"
  shows "mi \<in> set (GetAllMarketInfos s) \<longleftrightarrow> GetMarketInfo s (MarketInfo_GetSymbol mi) = Some mi"
proof
  assume "mi \<in> set (GetAllMarketInfos s)"
  then obtain k where "(k, VMarket mi) \<in> set (kv_prefix_iterator MarketIdentifierPrefix (market_store s))"
    by (auto simp: GetAllMarketInfos_def List.map_filter_def market_of_def split: market_val.splits)
  then have k: "kv_get (market_store s) k = Some (VMarket mi)" "take 1 k = MarketIdentifierPrefix"
    using kv_prefix_exact [OF book_okD(1) [OF store_okD(1) [OF assms]]] by (auto simp: MarketIdentifierPrefix_def)
  then have "k = marketStoreKey MarketIdentifierPrefix [drop 1 k]"
    using append_take_drop_id [of 1 k] by (simp add: marketStoreKey_def)
  then have "GetMarketInfo s (drop 1 k) = Some mi" using k(1) by (simp add: GetMarketInfo_def)
  then show "GetMarketInfo s (MarketInfo_GetSymbol mi) = Some mi"
    using GetMarketInfo_ok [OF store_okD(2) [OF assms]] by metis
next
  assume "GetMarketInfo s (MarketInfo_GetSymbol mi) = Some mi"
  then have "kv_get (market_store s) (marketStoreKey MarketIdentifierPrefix [MarketInfo_GetSymbol mi]) = Some (VMarket mi)"
    by (simp add: GetMarketInfo_def split: option.splits market_val.splits)
  then have "(marketStoreKey MarketIdentifierPrefix [MarketInfo_GetSymbol mi], VMarket mi) \<in>
      set (kv_prefix_iterator MarketIdentifierPrefix (market_store s))"
    using kv_prefix_exact [OF book_okD(1) [OF store_okD(1) [OF assms]]] by (simp add: marketStoreKey_def)
  then show "mi \<in> set (GetAllMarketInfos s)"
    by (force simp: GetAllMarketInfos_def List.map_filter_def market_of_def)
qed

subsection \<open>What the import writes\<close>

definition load_order :: "'y sdk_scheme \<Rightarrow> order \<Rightarrow> market_val kv \<Rightarrow> market_val kv" where
  "load_order S x st = put_order S x (kv_set (NewlyAddedKeyPrefix @ TradingPair x) VMark st)"

definition load_market :: "MarketInfo \<Rightarrow> market_val kv \<Rightarrow> market_val kv" where
  "load_market mi st = kv_set (marketStoreKey MarketIdentifierPrefix [MarketInfo_GetSymbol mi]) (VMarket mi) st"

lemma foreach_orders:
  "(\<And>x. x \<in> set xs \<Longrightarrow> order_ok x) \<Longrightarrow> foreach (\<lambda>x. ignore_err (SetOrder S x)) xs s =
     (Ok (), s\<lparr>market_store := fold (load_order S) xs (market_store s)\<rparr>)"
  by (induction xs arbitrary: s) (simp_all add: SetOrder_def and_then_def ignore_err_def Add_run load_order_def return_def)

lemma foreach_markets:
  "foreach (\<lambda>mi. ignore_err (SetMarket mi)) ms s = (Ok (), s\<lparr>market_store := fold load_market ms (market_store s)\<rparr>)"
  by (induction ms arbitrary: s)
    (simp_all add: SetMarket_def and_then_def ignore_err_def store_set_def modify_def load_market_def return_def)

lemma book_load: "book (load_order S x st) = (book st)(OrderID S x \<mapsto> x)"
  by (simp add: load_order_def book_put book_set_other other_keys)

lemma book_loads:
  assumes "\<And>x. x \<in> set xs \<Longrightarrow> m (OrderID S x) = Some x"
  shows "book (fold (load_order S) xs st) oid = (if oid \<in> OrderID S ` set xs then m oid else book st oid)"
  using assms by (induction xs arbitrary: st) (auto simp: book_load)

lemma book_load_markets: "book (fold load_market ms st) = book st"
  by (induction ms arbitrary: st) (simp_all add: load_market_def book_set_other other_keys)

lemma get_loads:
  "order_key k \<Longrightarrow> kv_get (fold load_market ms st) k = kv_get st k"
  by (induction ms arbitrary: st) (auto simp: load_market_def order_key_def market_key [simplified])

lemma get_load_orders:
  "\<not> order_key k \<Longrightarrow> kv_get (fold (load_order S) xs st) k = kv_get st k"
  by (induction xs arbitrary: st) (auto simp: load_order_def put_order_def)

lemma markets_load:
  assumes "\<And>mi. mi \<in> set ms \<Longrightarrow> m (MarketInfo_GetSymbol mi) = Some mi"
  shows "kv_get (fold load_market ms st) (marketStoreKey MarketIdentifierPrefix [symbol]) =
    (if symbol \<in> MarketInfo_GetSymbol ` set ms then map_option VMarket (m symbol)
     else kv_get st (marketStoreKey MarketIdentifierPrefix [symbol]))"
  using assms by (induction ms arbitrary: st) (auto simp: load_market_def market_key_inj [unfolded market_key_def])

lemma store_ok_load_orders:
  assumes "store_ok S st" and "\<And>x. x \<in> set xs \<Longrightarrow> order_ok x \<and> m (OrderID S x) = Some x"
    and "\<And>oid y. book st oid = Some y \<Longrightarrow> m oid = Some y"
  shows "store_ok S (fold (load_order S) xs st)"
  using assms
proof (induction xs arbitrary: st)
  case (Cons x xs)
  have "store_ok S (kv_set (NewlyAddedKeyPrefix @ TradingPair x) VMark st)"
    by (rule store_ok_set_other [OF other_keys(1) order_keys(4) Cons.prems(1)])
  then have "store_ok S (load_order S x st)" unfolding load_order_def
  proof (rule store_ok_put)
    show "order_ok x" using Cons.prems(2) by simp
    fix y
    assume "book (kv_set (NewlyAddedKeyPrefix @ TradingPair x) VMark st) (OrderID S x) = Some y"
    then have "m (OrderID S x) = Some y" using Cons.prems(3) by (simp add: book_set_other other_keys)
    then show "same_place x y" using Cons.prems(2) by (simp add: same_place_def)
  qed
  then have "store_ok S (fold (load_order S) xs (load_order S x st))"
  proof (rule Cons.IH)
    show "m oid = Some y" if "book (load_order S x st) oid = Some y" for oid y
      using that Cons.prems(2,3) by (simp add: book_load split: if_splits)
  qed (use Cons.prems(2) in simp)
  then show ?case by simp
qed simp

lemma store_ok_load_markets:
  "store_ok S st \<Longrightarrow> (\<And>mi. mi \<in> set ms \<Longrightarrow> pair_ok S (MarketInfo_GetSymbol mi)) \<Longrightarrow> store_ok S (fold load_market ms st)"
  by (induction ms arbitrary: st) (simp_all add: load_market_def store_ok_set_market)

lemma load_delists:
  "kv_get (fold load_market ms (fold (load_order S) xs st)) (DelistRevKey @ symbol) = kv_get st (DelistRevKey @ symbol)"
proof -
  have "kv_get (load_order S x st) (DelistRevKey @ symbol) = kv_get st (DelistRevKey @ symbol)" for x st
    by (auto simp: load_order_def put_order_def queue_key_def list_key_def key_with_def list_prefix_def orderBookKey_def
        ConcatKeys_def OrderBookKeyPrefix_def NewlyAddedKeyPrefix_def DelistRevKey_def byte_eq)
  then have "kv_get (fold (load_order S) xs st) (DelistRevKey @ symbol) = kv_get st (DelistRevKey @ symbol)" for st
    by (induction xs arbitrary: st) simp_all
  then show ?thesis by (simp add: get_loads)
qed

subsection \<open>Export and import\<close>

text \<open>C9. Exporting the market and importing the export into an empty store gives back every order under its
  identifier, every market, the parameters and the clean-up time, in a store in good form; the import
  cannot fail. The requests to end a market are not part of the export: none is left.\<close>

theorem market_genesis_round_trip:
  assumes "store_ok C (market_store s)" and "market_store s0 = []"
  shows "\<exists>s'. market_InitGenesis C (market_ExportGenesis s) s0 = (Ok (), s') \<and> store_ok C (market_store s') \<and>
    market_params s' = market_params s \<and> GetUnixTime s' = GetUnixTime s \<and> getOrder s' = getOrder s \<and>
    (\<forall>symbol. GetMarketInfo s' symbol = GetMarketInfo s symbol) \<and> (\<forall>symbol. \<not> HasDelistRequest s' symbol)"
proof -
  let ?os = "GetAllOrders s" and ?ms = "GetAllMarketInfos s"
  let ?st1 = "fold (load_order C) ?os []"
  let ?st2 = "fold load_market ?ms ?st1"
  define st where "st = kv_set LastOrderCleanUpDayKey (VNum (GetUnixTime s)) ?st2"
  have bok: "book_ok C (market_store s)" by (rule store_okD(1) [OF assms(1)])
  have listed: "book (market_store s) (OrderID C x) = Some x" if "x \<in> set ?os" for x
    using GetAllOrders_exact [OF bok] that by (simp add: getOrder_book)
  have ok: "order_ok x" if "x \<in> set ?os" for x using book_okD(2) [OF bok listed [OF that]] by simp
  have run: "market_InitGenesis C (market_ExportGenesis s) s0 =
      (Ok (), s0\<lparr>market_params := market_params s, market_store := st\<rparr>)"
    using assms(2) by (simp add: market_InitGenesis_def market_ExportGenesis_def and_then_def modify_def foreach_orders ok
        foreach_markets SetUnixTime_def store_set_def st_def)
  have "store_ok C ?st1"
    by (rule store_ok_load_orders [OF empty_store_ok, where m = "book (market_store s)"]) (use ok listed in \<open>auto simp: book_def\<close>)
  then have ok2: "store_ok C ?st2" by (rule store_ok_load_markets) (rule GetAllMarketInfos_ok [OF assms(1)])
  have "store_ok C st" unfolding st_def by (rule store_ok_set_other [OF other_keys(2) order_keys(5) ok2])
  moreover have "book st = book (market_store s)"
  proof
    fix oid
    have "oid \<in> OrderID C ` set ?os" if "book (market_store s) oid = Some y" for y
      using that book_okD(2) [OF bok that] GetAllOrders_exact [OF bok, of y] by (force simp: getOrder_book)
    then show "book st oid = book (market_store s) oid"
      using book_loads [OF listed, of ?os "[]" oid]
      by (cases "book (market_store s) oid") (auto simp: st_def book_set_other other_keys book_load_markets book_def)
  qed
  moreover have "kv_get st (marketStoreKey MarketIdentifierPrefix [symbol]) = map_option VMarket (GetMarketInfo s symbol)" for symbol
  proof -
    have mk: "\<not> order_key (marketStoreKey MarketIdentifierPrefix [symbol])" using market_key by (simp add: order_key_def)
    have "symbol \<in> MarketInfo_GetSymbol ` set ?ms" if "GetMarketInfo s symbol = Some mi" for mi
      using that GetAllMarketInfos_exact [OF assms(1), of mi] GetMarketInfo_ok [OF store_okD(2) [OF assms(1)] that] by force
    moreover have "LastOrderCleanUpDayKey \<noteq> marketStoreKey MarketIdentifierPrefix [symbol]" using mk by auto
    ultimately show ?thesis
      using markets_load [of ?ms "GetMarketInfo s" ?st1 symbol] GetAllMarketInfos_exact [OF assms(1)]
      by (cases "GetMarketInfo s symbol") (auto simp: st_def get_load_orders mk)
  qed
  moreover have "kv_get st (DelistRevKey @ symbol) = None" for symbol
  proof -
    have "LastOrderCleanUpDayKey \<noteq> DelistRevKey @ symbol"
      by (simp add: LastOrderCleanUpDayKey_def DelistRevKey_def byte_eq)
    then show ?thesis by (simp add: st_def load_delists)
  qed
  ultimately show ?thesis
    unfolding run by (intro exI [of _ "s0\<lparr>market_params := market_params s, market_store := st\<rparr>"])
      (auto simp: fun_eq_iff getOrder_book GetMarketInfo_def HasDelistRequest_def kv_has_def GetUnixTime_def st_def split: option.splits)
qed

theorem market_genesis_round_trip_witness:
  "\<exists>s'. market_InitGenesis ref_cosmos (market_ExportGenesis ref_market1) (ref_market\<lparr>market_store := []\<rparr>) = (Ok (), s') \<and>
     getOrder s' (OrderID ref_cosmos ref_ask) = Some ref_ask"
proof -
  have "store_ok ref_cosmos (market_store ref_market1)" using ref_market1_inv by (simp add: market_inv_def)
  from market_genesis_round_trip [OF this, of "ref_market\<lparr>market_store := []\<rparr>"] show ?thesis
    using ref_ask_stored by auto
qed

subsection \<open>Orders of reachable states\<close>

text \<open>C8. Every order in the book of a reachable state is stored under its identifier and in good form: it has
  something left, a price the keys can hold, a pair of valid tokens, the stock it still sells or the money
  its limit price asks for frozen, within the amounts the chain accepts; so the engine never finds an
  order that could not pay.\<close>

theorem orders_of_reachable_books:
  assumes "cosmos_ok C tot" and "supply_ok C tot" and "symbols_valid C" and "bancor_ok D" and "\<And>a d. 0 \<le> F a d" and "sorts_ok G"
    and "\<And>es. mset (rng es) = mset es" and "chain_run C D G sha sub rng zone q x y" and "chain_inv C D tot gap F x"
    and "getOrder (snd y) oid = Some odr"
  shows "OrderID C odr = oid \<and> 0 < LeftStock odr \<and> price_fits (Price odr) \<and> (Side odr = BID \<or> Side odr = ASK) \<and>
    (\<exists>stock money. SplitSymbol (TradingPair odr) = Ok (stock, money) \<and> denom_valid C stock \<and> denom_valid C money) \<and>
    (Side odr = ASK \<longrightarrow> Freeze odr = LeftStock odr) \<and>
    (Side odr = BID \<longrightarrow> Price odr * LeftStock odr \<le> Freeze odr * dec_one) \<and> 0 \<le> Freeze odr \<and> Freeze odr \<le> MaxOrderAmount \<and>
    notEnoughMoney C odr \<noteq> Ok True"
proof -
  have "chain_inv C D tot gap F y" by (rule chain_run_inv [OF assms(1-9)])
  then have inv: "market_inv C tot (base_of tot (snd y)) (and_pools (bancor_store (snd y)) F) (snd y)" by (simp add: chain_inv_def)
  have b: "book (market_store (snd y)) oid = Some odr" using assms(10) by (simp add: getOrder_book)
  have wf: "OrderID C odr = oid \<and> order_wf C odr" and left: "0 < LeftStock odr"
    using orders_okD [OF market_invD(3) [OF inv] b] market_invD(2) [OF inv] b by (auto simp: live_def)
  then have "order_ok odr" "pair_ok C (TradingPair odr)" by (simp_all add: order_wf_def)
  with wf left show ?thesis
    using enough_money [OF cosmos_okD(4) [OF assms(1)], of odr] order_wfD(5,6,10,11) [of C odr]
    by (auto simp: order_ok_def pair_ok_def)
qed

theorem orders_of_reachable_books_witness:
  "getOrder ref_market1 (OrderID ref_cosmos ref_ask) = Some ref_ask \<and> notEnoughMoney ref_cosmos ref_ask \<noteq> Ok True"
proof -
  have run: "chain_run ref_cosmos ref_bancor ref_sorts (\<lambda>x. x) (\<lambda>t. True) (\<lambda>es. es) (\<lambda>t. 0) ''q'' (ref_ctx 50, ref_market) (ref_ctx 50, ref_market1)"
    unfolding chain_run_def by (rule r_into_rtranclp, rule market_tx [OF ref_sell_basic ref_sell_runs])
  have "getOrder (snd (ref_ctx 50, ref_market1)) (OrderID ref_cosmos ref_ask) = Some ref_ask" unfolding snd_conv by (rule ref_ask_stored)
  from orders_of_reachable_books [OF ref_cosmos_ok ref_supply_ok ref_symbols_valid ref_bancor_ok ref_frozen_nonneg ref_sorts_ok refl run ref_chain_inv this]
  have "notEnoughMoney ref_cosmos ref_ask \<noteq> Ok True" by blast
  with ref_ask_stored show ?thesis ..
qed

subsection \<open>Identifiers, pairs and prices\<close>

text \<open>C19. Two orders with the same identifier have the same sender, the same sequence number and the same
  identify byte: an account that never reuses a sequence number never collides with itself or others.\<close>

theorem order_id_identifies_the_order:
  assumes "addr_ok S" and "Identify x < 256" and "Identify y < 256" and "OrderID S x = OrderID S y"
  shows "Sender x = Sender y \<and> Sequence x = Sequence y \<and> Identify x = Identify y"
  using OrderID_inj [OF assms] .

theorem order_id_identifies_the_order_witness:
  "OrderID ref_cosmos (ref_ask\<lparr>LeftStock := 3\<rparr>) = OrderID ref_cosmos ref_ask \<and> Sender (ref_ask\<lparr>LeftStock := 3\<rparr>) = Sender ref_ask"
proof -
  have "OrderID ref_cosmos (ref_ask\<lparr>LeftStock := 3\<rparr>) = OrderID ref_cosmos ref_ask" "addr_ok ref_cosmos"
    "Identify (ref_ask\<lparr>LeftStock := 3\<rparr>) < 256" "Identify ref_ask < 256"
    using cosmos_okD [OF ref_cosmos_ok] by (simp_all add: OrderID_def ref_ask_def)
  with order_id_identifies_the_order [of ref_cosmos "ref_ask\<lparr>LeftStock := 3\<rparr>" ref_ask] show ?thesis by blast
qed

text \<open>C20. The symbol of a pair of tokens with valid symbols splits back into the two tokens, whichever valid
  symbols they are.\<close>

theorem trading_pair_round_trip:
  assumes "tokenSymbolRegex stock" and "tokenSymbolRegex money"
  shows "SplitSymbol (GetSymbol stock money) = Ok (stock, money)"
  using Split_GetSymbol tokenSymbolRegex_no_separator(2) [OF assms(1)] tokenSymbolRegex_no_separator(2) [OF assms(2)]
  by (simp add: SymbolSeparator_def)

theorem trading_pair_round_trip_witness:
  "SplitSymbol (GetSymbol ''abc.x'' ''cet'') = Ok (''abc.x'', ''cet'')"
proof -
  have "tokenSymbolRegex ''abc.x''" "tokenSymbolRegex ''cet''" by code_simp+
  then show ?thesis by (rule trading_pair_round_trip)
qed

text \<open>C21. The 40 bytes of a price in the keys of the bid and ask lists compare as the prices do, for all prices
  from 0 to below \<open>2 ^ 320\<close>; the iteration over the lists is therefore in price order.\<close>

theorem price_keys_compare_as_prices:
  assumes "price_fits p" and "price_fits q"
  shows "(DecToBigEndianBytes p < DecToBigEndianBytes q \<longleftrightarrow> p < q) \<and> (DecToBigEndianBytes p = DecToBigEndianBytes q \<longleftrightarrow> p = q) \<and>
    length (DecToBigEndianBytes p) = 40"
  using DecToBigEndianBytes_less [OF assms] DecToBigEndianBytes_eq [OF assms] by simp

theorem price_keys_compare_as_prices_witness:
  "DecToBigEndianBytes 255 < DecToBigEndianBytes 256"
  using price_keys_compare_as_prices [of 255 256] by (simp add: price_fits_def)

end
