(* ===== verification/AssetProps.thy ===== *)
theory AssetProps
  imports AccountProps
begin

section \<open>Properties of the asset module\<close>

text \<open>
  What the messages of the asset module do to the books, who may change a token, and what forbidding a
  token or an address means for sending it; each with a witness on the state of \<open>RefState\<close>.
\<close>

lemma events_tokens:
  "asset_store (s\<lparr>events := es\<rparr>) = asset_store s" "GetToken (s\<lparr>events := es\<rparr>) = GetToken s"
  "IsForbiddenByTokenIssuer (s\<lparr>events := es\<rparr>) = IsForbiddenByTokenIssuer s"
proof -
  show store: "asset_store (s\<lparr>events := es\<rparr>) = asset_store s" by simp
  show tok: "GetToken (s\<lparr>events := es\<rparr>) = GetToken s" by (simp add: fun_eq_iff GetToken_def)
  show "IsForbiddenByTokenIssuer (s\<lparr>events := es\<rparr>) = IsForbiddenByTokenIssuer s"
    unfolding fun_eq_iff IsForbiddenByTokenIssuer_def tok store by blast
qed

lemma events_reset:
  "frozen (s\<lparr>events := es\<rparr>) = frozen s" "locked (s\<lparr>events := es\<rparr>) = locked s"
  "supply_gap tot (s\<lparr>events := es\<rparr>) = supply_gap tot s"
  by (simp_all add: events_tokens fun_eq_iff frozen_def locked_def GetAccountX_def supply_gap_def token_supply_def
      total_coins_def locked_total_def frozen_total_def)

text \<open>C32. A successful message of the asset module keeps the invariant of accounts and tokens, and mints or burns
  exactly the coins by which the token's recorded supply changes: for every denomination the
  difference between the recorded supply and all the coins in accounts, locked and frozen stays what
  it was. No account's frozen or locked coins change.\<close>

theorem asset_messages_keep_the_supply:
  assumes "cosmos_ok C tot" and "supply_ok C tot" and "authx_inv C s" and "asset_Handler C msg s = (Ok (), s')"
  shows "authx_inv C s' \<and> (\<forall>d. token_supply s' d - total_coins tot s' d = token_supply s d - total_coins tot s d) \<and>
    (\<forall>a d. frozen s' a d = frozen s a d) \<and> (\<forall>a. locked s' a = locked s a)"
proof -
  have step: "asset_step C tot (asset_symbol msg) (s\<lparr>events := []\<rparr>) s'" and inv: "authx_inv C (s\<lparr>events := []\<rparr>)"
    using asset_Handler_Ok [OF assms] by simp_all
  show ?thesis using asset_step_authx [OF step inv] by (simp add: events_reset supply_gap_def [symmetric])
qed

definition ref_mint :: asset_msg where
  "ref_mint = MintTokenMsg \<lparr>mt_Symbol = ''abc'', mt_Amount = 11, mt_OwnerAddress = bob\<rparr>"

lemma ref_mint_run: "fst (asset_Handler ref_cosmos ref_mint ref_state) = Ok ()"
  by code_simp

theorem asset_messages_keep_the_supply_witness:
  "\<exists>s'. asset_Handler ref_cosmos ref_mint ref_state = (Ok (), s') \<and> authx_inv ref_cosmos s' \<and>
    token_supply s' ''abc'' = 111 \<and> total_coins ref_tot s' ''abc'' = total_coins ref_tot ref_state ''abc'' + 11"
proof -
  define s' where "s' = snd (asset_Handler ref_cosmos ref_mint ref_state)"
  have run: "asset_Handler ref_cosmos ref_mint ref_state = (Ok (), s')"
    using ref_mint_run by (simp add: s'_def prod_eq_iff)
  have "token_supply s' ''abc'' = 111" "token_supply ref_state ''abc'' = 100"
    unfolding s'_def by code_simp+
  moreover have "authx_inv ref_cosmos s'"
    and "token_supply s' ''abc'' - total_coins ref_tot s' ''abc'' = token_supply ref_state ''abc'' - total_coins ref_tot ref_state ''abc''"
    using asset_messages_keep_the_supply [OF ref_cosmos_ok ref_supply_ok ref_authx_inv run] by blast+
  ultimately show ?thesis using run by (intro exI [of _ s']) simp
qed



subsection \<open>Forbidding\<close>

text \<open>Symbols of stored tokens have no separator, so the keys of the address lists of two tokens never meet.\<close>

lemma stored_no_separator: "asset_inv s \<Longrightarrow> GetToken s d = Some t \<Longrightarrow> no_separator d"
  using GetToken_valid tokenSymbolRegex_no_separator(1) by (fastforce simp: token_Validate_iff)

lemma forbidden_after_lists:
  assumes inv: "asset_inv s" and sym: "GetToken s symbol = Some t" and st: "asset_store s' = f (GetForbiddenAddrStoreKey symbol) xs (asset_store s)"
    and f: "f = mark_all \<or> f = unmark_all"
  shows "GetToken s' d = GetToken s d"
    and "kv_has (asset_store s') (GetWhitelistStoreKey d a) = kv_has (asset_store s) (GetWhitelistStoreKey d a)"
    and "GetToken s d = Some u \<Longrightarrow> kv_has (asset_store s') (GetForbiddenAddrStoreKey d a) \<longleftrightarrow>
      (if d = symbol \<and> a \<in> set xs \<and> a \<noteq> [] then f = mark_all else kv_has (asset_store s) (GetForbiddenAddrStoreKey d a))"
proof -
  have "tokens_same (asset_store s) (asset_store s')" using tokens_same_lists(3,4) [OF inv] f st by auto
  from tokens_same_GetToken [OF this, of d] show "GetToken s' d = GetToken s d" by (simp add: GetToken_def)
  show "kv_has (asset_store s') (GetWhitelistStoreKey d a) = kv_has (asset_store s) (GetWhitelistStoreKey d a)"
    using f by (auto simp: st kv_has_def get_mark_all get_unmark_all)
  assume "GetToken s d = Some u"
  then have "no_separator d" "no_separator symbol" using stored_no_separator [OF inv] sym by blast+
  moreover have "mark_all \<noteq> unmark_all"
  proof
    assume "mark_all = unmark_all"
    then have "kv_get (mark_all (\<lambda>_. []) [''a''] []) [] = kv_get (unmark_all (\<lambda>_. []) [''a''] []) []" by simp
    then show False by (simp add: get_mark_all get_unmark_all)
  qed
  ultimately show "kv_has (asset_store s') (GetForbiddenAddrStoreKey d a) \<longleftrightarrow>
      (if d = symbol \<and> a \<in> set xs \<and> a \<noteq> [] then f = mark_all else kv_has (asset_store s) (GetForbiddenAddrStoreKey d a))"
    using f by (auto simp: st kv_has_def get_mark_all get_unmark_all forbidden_key_inj)
qed

text \<open>C34. After a successful message that forbids addresses, the token is forbidden for exactly the addresses for
  which it was before and the (nonempty) ones of the message, and for no other token does anything change; and a
  transfer of the token by one of the addresses fails, in whatever amounts and to whomever.\<close>

theorem forbidding_an_address_stops_its_sends:
  assumes "cosmos_ok C tot" and "supply_ok C tot" and "authx_inv C s" and "asset_Handler C (ForbidAddrMsg m) s = (Ok (), s')"
  shows "(\<forall>d a. IsForbiddenByTokenIssuer s' d a \<longleftrightarrow>
      IsForbiddenByTokenIssuer s d a \<or> d = fa_Symbol m \<and> a \<in> set (fa_Addresses m) \<and> a \<noteq> []) \<and>
    (\<forall>sm sub ctx. ms_FromAddress sm \<in> set (fa_Addresses m) \<and> ms_FromAddress sm \<noteq> [] \<and> fa_Symbol m \<in> Denom ` set (ms_Amount sm) \<longrightarrow>
      (\<exists>e. fst (bankx_Handler C sub ctx (BankxSend sm) s') = Err e))"
proof -
  let ?s = "s\<lparr>events := []\<rparr>" and ?sym = "fa_Symbol m"
  have inv: "asset_inv ?s" using assms(3) by (simp add: authx_inv_def asset_inv_def)
  have "handleMsgForbidAddr C m ?s = (Ok (), s')"
    using assms(4) by (simp add: asset_Handler_def new_event_manager_def and_then_def modify_def)
  from forbid_addr_Ok [OF inv this] obtain t where t: "GetToken ?s ?sym = Some t"
    and st: "asset_store s' = mark_all (GetForbiddenAddrStoreKey ?sym) (fa_Addresses m) (asset_store ?s)" by blast
  note after = forbidden_after_lists [where f = mark_all, OF inv t st, simplified]
  have same: "GetToken s' d = GetToken s d" for d using after(1) [of d] by (simp add: events_tokens)
  have white: "kv_has (asset_store s') (GetWhitelistStoreKey d a) = kv_has (asset_store s) (GetWhitelistStoreKey d a)" for d a
    using after(2) [of d a] by simp
  have forb: "kv_has (asset_store s') (GetForbiddenAddrStoreKey d a) \<longleftrightarrow>
      d = ?sym \<and> a \<in> set (fa_Addresses m) \<and> a \<noteq> [] \<or> kv_has (asset_store s) (GetForbiddenAddrStoreKey d a)"
    if "GetToken s d = Some u" for d u a using after(3) [of d u a] that by (auto simp: events_tokens)
  have iff: "IsForbiddenByTokenIssuer s' d a \<longleftrightarrow>
      IsForbiddenByTokenIssuer s d a \<or> d = ?sym \<and> a \<in> set (fa_Addresses m) \<and> a \<noteq> []" for d a
    unfolding IsForbiddenByTokenIssuer_def same white by (auto simp: forb split: option.split)
  have "\<exists>e. fst (bankx_Handler C sub ctx (BankxSend sm) s') = Err e"
    if sm: "ms_FromAddress sm \<in> set (fa_Addresses m)" "ms_FromAddress sm \<noteq> []" "?sym \<in> Denom ` set (ms_Amount sm)" for sm sub ctx
  proof -
    have "IsForbiddenByTokenIssuer (s'\<lparr>events := []\<rparr>) ?sym (ms_FromAddress sm)"
      using iff [of ?sym "ms_FromAddress sm"] sm(1,2) by (simp add: events_tokens)
    then have "IsSendForbidden (s'\<lparr>events := []\<rparr>) (ms_Amount sm) (ms_FromAddress sm)"
      using sm(3) by (auto simp: IsSendForbidden_def list_ex_iff)
    then show ?thesis
      by (simp add: bankx_Handler_def new_event_manager_def and_then_def modify_def handleMsgSend_def)
  qed
  with iff show ?thesis by blast
qed

definition ref_forbid :: MsgForbidAddr where
  "ref_forbid = \<lparr>fa_Symbol = ''abc'', fa_OwnerAddr = bob, fa_Addresses = [alice]\<rparr>"

theorem forbidding_an_address_stops_its_sends_witness:
  "\<exists>s'. asset_Handler ref_cosmos (ForbidAddrMsg ref_forbid) ref_state = (Ok (), s') \<and> \<not> IsForbiddenByTokenIssuer ref_state ''abc'' alice \<and>
    IsForbiddenByTokenIssuer s' ''abc'' alice \<and>
    (\<exists>e. fst (bankx_Handler ref_cosmos (\<lambda>_. False) (ref_ctx 10) (BankxSend \<lparr>ms_FromAddress = alice, ms_ToAddress = bob,
      ms_Amount = [\<lparr>Denom = ''abc'', Amount = 1\<rparr>], ms_UnlockTime = 0\<rparr>) s') = Err e)"
proof -
  define s' where "s' = snd (asset_Handler ref_cosmos (ForbidAddrMsg ref_forbid) ref_state)"
  have "fst (asset_Handler ref_cosmos (ForbidAddrMsg ref_forbid) ref_state) = Ok ()" by code_simp
  then have run: "asset_Handler ref_cosmos (ForbidAddrMsg ref_forbid) ref_state = (Ok (), s')" by (simp add: s'_def prod_eq_iff)
  have m: "fa_Symbol ref_forbid = ''abc''" "fa_Addresses ref_forbid = [alice]" "alice \<noteq> []"
    by (simp_all add: ref_forbid_def alice_def)
  have "\<not> IsForbiddenByTokenIssuer ref_state ''abc'' alice" by code_simp
  with forbidding_an_address_stops_its_sends [OF ref_cosmos_ok ref_supply_ok ref_authx_inv run] run m show ?thesis
    by (intro exI [of _ s']) simp
qed


definition ref_issue :: MsgIssueToken where
  "ref_issue = \<lparr>it_Name = ''New'', it_Symbol = ''newtoken'', it_TotalSupply = 21, it_Owner = bob, it_Mintable = True, it_Burnable = False,
     it_AddrForbiddable = True, it_TokenForbiddable = True, it_URL = [], it_Description = [], it_Identity = ''id''\<rparr>"

definition ref_state1 :: "ref_bank bankx_state" where
  "ref_state1 = ref_state\<lparr>asset_params := asset_DefaultParams\<lparr>IssueTokenFee := 100\<rparr>\<rparr>"

lemma ref_authx_inv1: "authx_inv ref_cosmos ref_state1"
  using ref_authx_inv
  by (simp add: ref_state1_def authx_inv_def asset_inv_def lock_inv_def locked_total_def send_lock_def GetToken_def
      accounts_exist_def GetAccountX_def)


end
