(* ===== verification/BancorProps.thy ===== *)
theory BancorProps
  imports RefMarket
begin

section \<open>Properties of bancorlite\<close>

text \<open>
  Pools of reachable states, trades, cancellation and the check of a genesis state. \<open>pools_inv C D tot T F s\<close>
  is the invariant of a state: \<open>T\<close> is its ledger and \<open>F\<close> are the coins frozen for other reasons than pools.
\<close>

subsection \<open>A pool to run\<close>

text \<open>Bob opens a pool of 40 \<open>abc\<close> from 1 to 3 \<open>cet\<close>; Alice buys 10 of them and sells them back.\<close>

definition ref_init :: MsgBancorInit where
  "ref_init = \<lparr>bn_Owner = bob, bn_Stock = ''abc'', bn_Money = ''cet'', bn_InitPrice = ''1'', bn_MaxSupply = 40, bn_MaxPrice = ''3'',
     bn_MaxMoney = 0, bn_StockPrecision = 0, bn_EarliestCancelTime = 0\<rparr>"

definition ref_trade :: "bool \<Rightarrow> MsgBancorTrade" where
  "ref_trade b = \<lparr>tr_Sender = alice, tr_Stock = ''abc'', tr_Money = ''cet'', tr_Amount = 10, tr_IsBuy = b, tr_MoneyLimit = 0\<rparr>"

definition ref_pool :: "ref_bank bancor_state" where
  "ref_pool = snd (bancor_Handler ref_cosmos ref_bancor (\<lambda>t. True) (ref_ctx 50) (BancorInitMsg ref_init) ref_market)"

lemma ref_init_runs:
  "bancor_Handler ref_cosmos ref_bancor (\<lambda>t. True) (ref_ctx 50) (BancorInitMsg ref_init) ref_market = (Ok (), ref_pool)"
proof -
  have "fst (bancor_Handler ref_cosmos ref_bancor (\<lambda>t. True) (ref_ctx 50) (BancorInitMsg ref_init) ref_market) = Ok ()" by code_simp
  then show ?thesis unfolding ref_pool_def by (rule run_pair)
qed

lemma ref_init_basic: "bancor_ValidateBasic ref_cosmos ref_bancor (BancorInitMsg ref_init) = Ok ()"
  by code_simp

definition ref_bought :: "ref_bank bancor_state" where
  "ref_bought = snd (handleMsgBancorTrade ref_cosmos ref_bancor (\<lambda>t. True) (ref_ctx 50) (ref_trade True) ref_pool)"

lemma ref_trade_basic: "MsgBancorTrade_ValidateBasic (ref_trade b) = Ok ()"
  by (cases b) code_simp+

lemma ref_buy_runs:
  "handleMsgBancorTrade ref_cosmos ref_bancor (\<lambda>t. True) (ref_ctx 50) (ref_trade True) ref_pool = (Ok (), ref_bought)"
proof -
  have "fst (handleMsgBancorTrade ref_cosmos ref_bancor (\<lambda>t. True) (ref_ctx 50) (ref_trade True) ref_pool) = Ok ()" by code_simp
  then show ?thesis unfolding ref_bought_def by (rule run_pair)
qed

lemma ref_sell_back_runs:
  "\<exists>s. handleMsgBancorTrade ref_cosmos ref_bancor (\<lambda>t. True) (ref_ctx 60) (ref_trade False) ref_bought = (Ok (), s)"
proof -
  have "fst (handleMsgBancorTrade ref_cosmos ref_bancor (\<lambda>t. True) (ref_ctx 60) (ref_trade False) ref_bought) = Ok ()" by code_simp
  then show ?thesis by (metis prod.collapse)
qed

lemma ref_pools_inv:
  "pools_inv ref_cosmos ref_bancor ref_tot (ledger_of ref_tot ref_market) (frozen ref_market) ref_market"
proof -
  have "book_inv ref_cosmos ref_tot (ledger_of ref_tot ref_market) (frozen ref_market) ref_market"
    using ref_market_accounts(4) by (simp add: book_inv_def del: ref_market_simps)
  moreover have "pool_total [] a d + F = F" for a d F by (simp add: pool_total_def kv_sum_def)
  ultimately show ?thesis using no_pools(1) by (simp add: pools_inv_def)
qed

lemma ref_pool_inv: "pools_inv ref_cosmos ref_bancor ref_tot (ledger_of ref_tot ref_market) (frozen ref_market) ref_pool"
  by (rule bancor_Handler_inv(1) [OF ref_cosmos_ok ref_bancor_ok ref_pools_inv ref_init_basic ref_init_runs])

subsection \<open>Pools of reachable states\<close>

text \<open>C35. In every state the chain can reach, every pool is stored under its own symbol and sits on its price
  curve: updating it to the stock it has changes nothing. So its stock is between 0 and its maximal supply,
  its price between the initial and the maximal price, its money never negative and, on a power curve, at
  most the maximal money; and its owner has at least what the pool holds frozen, so it can be paid out.\<close>

theorem pools_of_reachable_states:
  assumes "cosmos_ok C tot" and "supply_ok C tot" and "symbols_valid C" and "bancor_ok D" and "\<And>a d. 0 \<le> F a d" and "sorts_ok G"
    and "\<And>es. mset (rng es) = mset es" and "chain_run C D G sha sub rng zone q x y" and "chain_inv C D tot gap F x"
    and "bancor_Load (snd y) symbol = Some bi"
  shows "bancor_GetSymbol bi = symbol \<and> UpdateStockInPool C D bi (bi_StockInPool bi) = Ok (bi, True) \<and>
    0 \<le> bi_StockInPool bi \<and> bi_StockInPool bi \<le> bi_MaxSupply bi \<and> 0 \<le> bi_MoneyInPool bi \<and>
    (bi_MaxMoney bi \<noteq> 0 \<longrightarrow> bi_MoneyInPool bi \<le> bi_MaxMoney bi) \<and>
    bi_InitPrice bi \<le> bi_Price bi \<and> bi_Price bi \<le> bi_MaxPrice bi \<and>
    (\<forall>d. pool_holds (bi_Owner bi) d bi \<le> frozen (snd y) (bi_Owner bi) d)"
proof -
  note laws = cosmos_okD [OF assms(1)]
  let ?s = "snd y" and ?st = "bancor_store (snd y)"
  have inv: "chain_inv C D tot gap F y" by (rule chain_run_inv [OF assms(1-9)])
  then have st: "pools_ok C D ?st" and m: "market_inv C tot (base_of tot ?s) (and_pools ?st F) ?s" by (simp_all add: chain_inv_def)
  have get: "kv_get ?st (BancorInfoKey @ symbol) = Some bi" using assms(10) by (simp add: bancor_Load_def)
  note ok = pools_okD(3) [OF st get]
  have "pool_holds (bi_Owner bi) d bi \<le> frozen ?s (bi_Owner bi) d" for d
  proof -
    have "pool_holds (bi_Owner bi) d bi \<le> pool_total ?st (bi_Owner bi) d"
      by (rule pool_total_bounds(2) [OF laws(4,3) assms(4) st get])
    moreover have "0 \<le> held_total (book (market_store ?s)) (bi_Owner bi) d"
      by (rule held_total_nonneg [OF market_invD(3) [OF m]])
    ultimately show ?thesis using minvD(3) [OF market_invD(4) [OF m], of "bi_Owner bi" d] assms(5) [of "bi_Owner bi" d]
      by (simp add: backing_def and_pools_def)
  qed
  then show ?thesis
    using pool_okD [OF laws(4,3) assms(4) ok] ok pools_okD(2) [OF st get] by (simp add: pool_ok_def on_curve_def)
qed

theorem pools_of_reachable_states_witness:
  "\<exists>bi. bancor_Load ref_pool ''abc/cet'' = Some bi \<and> bi_StockInPool bi = 40 \<and> 40 \<le> frozen ref_pool bob ''abc''"
proof -
  have run: "chain_run ref_cosmos ref_bancor ref_sorts (\<lambda>x. x) (\<lambda>t. True) (\<lambda>es. es) (\<lambda>t. 0) ''q'' (ref_ctx 50, ref_market) (ref_ctx 50, ref_pool)"
    unfolding chain_run_def by (rule r_into_rtranclp, rule bancor_tx [OF ref_init_basic ref_init_runs])
  have "map_option (\<lambda>bi. (bi_StockInPool bi, bi_Owner bi, bi_Stock bi, bi_Money bi)) (bancor_Load ref_pool ''abc/cet'') =
      Some (40, bob, ''abc'', ''cet'')" by code_simp
  then obtain bi where bi: "bancor_Load ref_pool ''abc/cet'' = Some bi" "bi_StockInPool bi = 40" "bi_Owner bi = bob"
      "bi_Stock bi = ''abc''" "bi_Money bi = ''cet''" by auto
  then have load: "bancor_Load (snd (ref_ctx 50, ref_pool)) ''abc/cet'' = Some bi" by simp
  from pools_of_reachable_states [OF ref_cosmos_ok ref_supply_ok ref_symbols_valid ref_bancor_ok ref_frozen_nonneg ref_sorts_ok refl run
      ref_chain_inv load]
  have "pool_holds bob ''abc'' bi \<le> frozen ref_pool bob ''abc''" using bi(3) by simp
  then have "40 \<le> frozen ref_pool bob ''abc''" using bi by (simp add: pool_holds_def)
  with bi(1,2) show ?thesis by blast
qed

subsection \<open>Trades\<close>

text \<open>C36. A trade that goes through is never the owner's own; it moves the pool along its curve by exactly the
  amount of stock traded, for a positive amount of money that is what the pool's money changes by and that
  respects the trader's limit; the pools' owners have frozen exactly what their pools hold afterwards, every
  other pool is untouched, and no coin is made or lost.\<close>

theorem trading_with_a_pool:
  assumes "cosmos_ok C tot" and "bancor_ok D" and "pools_inv C D tot T F s" and "MsgBancorTrade_ValidateBasic msg = Ok ()"
    and "handleMsgBancorTrade C D sub ctx msg s = (Ok (), s')"
  shows "\<exists>bi biNew. bancor_Load s (MsgBancorTrade_GetSymbol msg) = Some bi \<and> bi_Owner bi \<noteq> tr_Sender msg \<and>
    UpdateStockInPool C D bi (bi_StockInPool biNew) = Ok (biNew, True) \<and>
    bi_StockInPool biNew = bi_StockInPool bi + (if tr_IsBuy msg then - tr_Amount msg else tr_Amount msg) \<and>
    0 < trade_money msg bi biNew \<and>
    (0 < tr_MoneyLimit msg \<longrightarrow> (if tr_IsBuy msg then trade_money msg bi biNew \<le> tr_MoneyLimit msg
      else tr_MoneyLimit msg \<le> trade_money msg bi biNew)) \<and>
    bancor_Load s' = (bancor_Load s)(MsgBancorTrade_GetSymbol msg \<mapsto> biNew) \<and>
    (\<forall>a d. frozen s' a d = pool_total (bancor_store s') a d + F a d) \<and> ledger_of tot s' = ledger_of tot s"
proof -
  note laws = cosmos_okD [OF assms(1)]
  from bancor_trade_Ok(3) [OF assms] obtain bi biNew where t: "bancor_Load s (MsgBancorTrade_GetSymbol msg) = Some bi"
      "bi_Owner bi \<noteq> tr_Sender msg" "UpdateStockInPool C D bi (traded msg bi) = Ok (biNew, True)" "0 < trade_money msg bi biNew"
      "0 < tr_MoneyLimit msg \<longrightarrow> (if tr_IsBuy msg then trade_money msg bi biNew \<le> tr_MoneyLimit msg
        else tr_MoneyLimit msg \<le> trade_money msg bi biNew)"
      "bancor_store s' = kv_set (BancorInfoKey @ MsgBancorTrade_GetSymbol msg) biNew (bancor_store s)" by blast
  have "kv_get (bancor_store s) (BancorInfoKey @ MsgBancorTrade_GetSymbol msg) = Some bi" using t(1) by (simp add: bancor_Load_def)
  from pools_okD(3) [OF pools_inv_binv(2) [OF assms(3)] this] have "pool_ok C D bi" .
  from pool_ok_Update(2) [OF laws(4,3) assms(2) this t(3)] have stock: "bi_StockInPool biNew = traded msg bi" by auto
  have load: "bancor_Load s' = (bancor_Load s)(MsgBancorTrade_GetSymbol msg \<mapsto> biNew)"
    by (simp add: fun_eq_iff bancor_Load_def t(6) alist.get_set)
  note inv = bancor_trade_Ok(1) [OF assms]
  have "frozen s' a d = pool_total (bancor_store s') a d + F a d" for a d using inv by (simp add: pools_inv_def book_inv_def)
  moreover have "ledger_of tot s' = ledger_of tot s" using inv assms(3) by (simp add: pools_inv_def book_inv_def)
  ultimately show ?thesis
    using t(1-5) stock load by (intro exI [of _ bi] exI [of _ biNew]) (simp add: traded_def)
qed

theorem trading_with_a_pool_witness:
  "\<exists>bi biNew. bancor_Load ref_pool ''abc/cet'' = Some bi \<and> bancor_Load ref_bought ''abc/cet'' = Some biNew \<and>
     bi_StockInPool biNew = bi_StockInPool bi - 10 \<and> 0 < bi_MoneyInPool biNew - bi_MoneyInPool bi"
proof -
  have sym: "MsgBancorTrade_GetSymbol (ref_trade True) = ''abc/cet''" by code_simp
  have flds: "tr_IsBuy (ref_trade True)" "tr_Amount (ref_trade True) = 10" by (simp_all add: ref_trade_def)
  from trading_with_a_pool [OF ref_cosmos_ok ref_bancor_ok ref_pool_inv ref_trade_basic ref_buy_runs]
  show ?thesis unfolding sym using flds by (auto simp: trade_money_def)
qed

text \<open>A sequence of trades, and by how much it changes the stock of a pool.\<close>

fun trades ::
    "('b, 'y) cosmos_scheme \<Rightarrow> bancor_lib \<Rightarrow> (string \<Rightarrow> bool) \<Rightarrow> (ctx \<times> MsgBancorTrade) list \<Rightarrow>
      (('b, 'z) bancor_state_scheme, unit) op" where
  "trades C D sub [] = return ()"
| "trades C D sub ((ctx, msg) # ms) = and_then (handleMsgBancorTrade C D sub ctx msg) (\<lambda>_. trades C D sub ms)"

definition net :: "string \<Rightarrow> (ctx \<times> MsgBancorTrade) list \<Rightarrow> int" where
  "net symbol ms = (\<Sum>(ctx, msg) \<leftarrow> ms. if MsgBancorTrade_GetSymbol msg = symbol
     then if tr_IsBuy msg then - tr_Amount msg else tr_Amount msg else 0)"

lemma trade_leads:
  assumes C: "cosmos_ok C tot" and D: "bancor_ok D" and inv: "pools_inv C D tot T F s" and basic: "MsgBancorTrade_ValidateBasic msg = Ok ()"
    and run: "handleMsgBancorTrade C D sub ctx msg s = (Ok (), s')" and bi: "bancor_Load s symbol = Some bi"
    and start: "pool_ok C D bi0" and here: "curve_move C D bi0 (bi_StockInPool bi) = Some bi"
  shows "\<exists>bi'. bancor_Load s' symbol = Some bi' \<and> curve_move C D bi0 (bi_StockInPool bi') = Some bi' \<and>
    bi_StockInPool bi' = bi_StockInPool bi + net symbol [(ctx, msg)]"
proof -
  obtain b bn where t: "bancor_Load s (MsgBancorTrade_GetSymbol msg) = Some b" "UpdateStockInPool C D b (traded msg b) = Ok (bn, True)"
      "bancor_store s' = kv_set (BancorInfoKey @ MsgBancorTrade_GetSymbol msg) bn (bancor_store s)"
    using bancor_trade_Ok(3) [OF C D inv basic run] by blast
  show ?thesis
  proof (cases "MsgBancorTrade_GetSymbol msg = symbol")
    case True
    then have "curve_move C D bi (traded msg bi) = Some bn" using t(1,2) bi by (simp add: curve_move_Some)
    note step = pool.onward [OF _ here this]
    have "bancor_Load s' symbol = Some bn" using t(3) True by (simp add: bancor_Load_def)
    then show ?thesis using step True start D cosmos_okD(3,4) [OF C] by (simp add: net_def traded_def)
  next
    case False
    then have "bancor_Load s' symbol = Some bi" using t(3) bi by (simp add: bancor_Load_def alist.get_set)
    then show ?thesis using here False by (simp add: net_def)
  qed
qed

lemma trades_lead:
  assumes C: "cosmos_ok C tot" and D: "bancor_ok D"
    and start: "pool_ok C D bi0"
  shows "pools_inv C D tot T F s \<Longrightarrow> (\<And>m. m \<in> set ms \<Longrightarrow> MsgBancorTrade_ValidateBasic (snd m) = Ok ()) \<Longrightarrow>
    trades C D sub ms s = (Ok (), s') \<Longrightarrow> bancor_Load s symbol = Some bi \<Longrightarrow>
    curve_move C D bi0 (bi_StockInPool bi) = Some bi \<Longrightarrow>
    \<exists>bi'. bancor_Load s' symbol = Some bi' \<and> curve_move C D bi0 (bi_StockInPool bi') = Some bi' \<and>
      bi_StockInPool bi' = bi_StockInPool bi + net symbol ms"
proof (induction ms arbitrary: s bi)
  case Nil
  then show ?case by (simp add: return_Ok net_def)
next
  case (Cons m ms)
  obtain ctx msg where m: "m = (ctx, msg)" by (cases m)
  have basic: "MsgBancorTrade_ValidateBasic msg = Ok ()" using Cons.prems(2) [of m] by (simp add: m)
  obtain s1 where one: "handleMsgBancorTrade C D sub ctx msg s = (Ok (), s1)" and rest: "trades C D sub ms s1 = (Ok (), s')"
    using Cons.prems(3) by (auto simp: m and_then_Ok)
  obtain b where b: "bancor_Load s1 symbol = Some b" "curve_move C D bi0 (bi_StockInPool b) = Some b"
      "bi_StockInPool b = bi_StockInPool bi + net symbol [(ctx, msg)]"
    using trade_leads [OF C D Cons.prems(1) basic one Cons.prems(4) start Cons.prems(5)] by blast
  have "net symbol (m # ms) = net symbol [(ctx, msg)] + net symbol ms" by (simp add: net_def m)
  then show ?case
    using Cons.IH [OF bancor_trade_Ok(1) [OF C D Cons.prems(1) basic one] _ rest b(1,2)] Cons.prems(2) b(3) by (simp add: add.assoc)
qed



subsection \<open>Cancelling a pool\<close>

text \<open>C38. Only the owner of a pool cancels it, and not before its earliest cancel time; then the pool is gone, the
  others stay, exactly the stock and the money it held are released from the owner's frozen coins, and no
  coin is made or lost.\<close>

theorem cancelling_a_pool:
  assumes "cosmos_ok C tot" and "pools_inv C D tot T F s" and "handleMsgBancorCancel C ctx msg s = (Ok (), s')"
  shows "\<exists>bi. bancor_Load s (MsgBancorCancel_GetSymbol msg) = Some bi \<and> bi_Owner bi = bc_Owner msg \<and>
    bi_EarliestCancelTime bi \<le> Unix ctx \<and>
    bancor_Load s' = (bancor_Load s)(MsgBancorCancel_GetSymbol msg := None) \<and>
    (\<forall>a d. frozen s' a d = frozen s a d - pool_holds a d bi) \<and> ledger_of tot s' = ledger_of tot s"
proof -
  let ?k = "BancorInfoKey @ MsgBancorCancel_GetSymbol msg"
  from bancor_cancel_Ok(3) [OF assms] obtain bi where bi: "bancor_Load s (MsgBancorCancel_GetSymbol msg) = Some bi"
      "bi_Owner bi = bc_Owner msg" "bi_EarliestCancelTime bi \<le> Unix ctx" "bancor_store s' = kv_delete ?k (bancor_store s)" by blast
  have get: "kv_get (bancor_store s) ?k = Some bi" using bi(1) by (simp add: bancor_Load_def)
  note inv = bancor_cancel_Ok(1) [OF assms]
  have "frozen s' a d = frozen s a d - pool_holds a d bi" for a d
    using inv assms(2) pool_total_delete [OF pools_okD(1) [OF pools_inv_binv(2) [OF assms(2)]], of ?k a d] get
    by (simp add: pools_inv_def book_inv_def bi(4))
  moreover have "ledger_of tot s' = ledger_of tot s" using inv assms(2) by (simp add: pools_inv_def book_inv_def)
  moreover have "bancor_Load s' = (bancor_Load s)(MsgBancorCancel_GetSymbol msg := None)"
    by (simp add: fun_eq_iff bancor_Load_def bi(4) alist.get_delete)
  ultimately show ?thesis using bi by blast
qed

definition ref_cancel :: MsgBancorCancel where
  "ref_cancel = \<lparr>bc_Owner = bob, bc_Stock = ''abc'', bc_Money = ''cet''\<rparr>"

theorem cancelling_a_pool_witness:
  "\<exists>s'. handleMsgBancorCancel ref_cosmos (ref_ctx 70) ref_cancel ref_pool = (Ok (), s') \<and> bancor_Load s' ''abc/cet'' = None \<and>
     frozen s' bob ''abc'' = frozen ref_pool bob ''abc'' - 40"
proof -
  have "fst (handleMsgBancorCancel ref_cosmos (ref_ctx 70) ref_cancel ref_pool) = Ok ()" by code_simp
  note run = run_pair [OF this]
  have sym: "MsgBancorCancel_GetSymbol ref_cancel = ''abc/cet''" by code_simp
  have "map_option (\<lambda>bi. (bi_StockInPool bi, bi_Owner bi, bi_Stock bi, bi_Money bi)) (bancor_Load ref_pool ''abc/cet'') =
      Some (40, bob, ''abc'', ''cet'')" by code_simp
  with cancelling_a_pool [OF ref_cosmos_ok ref_pool_inv run, unfolded sym] run show ?thesis
    by (fastforce simp: pool_holds_def)
qed

subsection \<open>The check of a genesis state\<close>

lemma all_entries_Ok: "all_entries f xs = Ok () \<Longrightarrow> x \<in> set xs \<Longrightarrow> f x = Ok ()"
  by (induction xs) (auto simp: ret_bind_Ok)

lemma linear_pool_consistent:
  assumes dec: "dec_ok S" and int: "int_ok S" and D: "bancor_ok D" and ok: "pool_ok S D bi"
    and linear: "bi_MaxMoney bi = 0" "bi_InitPrice bi \<noteq> bi_MaxPrice bi"
  shows "IsConsistent S D bi = Ok True"
proof -
  have run: "UpdateStockInPool S D bi (bi_StockInPool bi) = Ok (bi, True)" and ar: "bi_AR bi = 0"
    using ok linear by (simp_all add: pool_ok_def on_curve_def pool_terms_def)
  have same: "bi\<lparr>bi_StockInPool := bi_StockInPool bi\<rparr> = bi" by simp
  obtain n p m where n: "int_Sub S (bi_MaxSupply bi) (bi_StockInPool bi) = Ok n" "linear_price S D bi n = Ok p"
      "linear_money S D bi p n = Ok m" "bi = bi\<lparr>bi_Price := p, bi_MoneyInPool := m\<rparr>"
    using run linear(1) by (auto simp: UpdateStockInPool_def Let_def ret_bind_Ok split: if_splits)
  have "bi_Price bi = p" "bi_MoneyInPool bi = m" by (subst n(4), simp)+
  then show ?thesis
    using n(1-3) linear ar pool_okD(2,3) [OF dec int D ok] by (simp add: IsConsistent_def)
qed

lemma power_pool_inconsistent:
  assumes "pool_terms bi" and "bi_MaxMoney bi \<noteq> 0"
  shows "IsConsistent S D bi \<noteq> Ok True"
proof
  assume "IsConsistent S D bi = Ok True"
  moreover have ar: "0 < bi_AR bi" using assms by (simp add: pool_terms_def)
  ultimately obtain ar where "CheckAR S D (bi_MaxSupply bi) (bi_MaxMoney bi) (bi_InitPrice bi) (bi_MaxPrice bi) = Ok (ar, False)" "ar = bi_AR bi"
    using assms(2) by (auto simp: IsConsistent_def ret_bind_Ok ret_map_Ok split: if_splits prod.splits)
  then have "ar = 0"
    using recover_Ok [of "(0, False)"] by (fastforce simp: CheckAR_def ret_map_Ok split: if_splits)
  with ar \<open>ar = bi_AR bi\<close> show False by simp
qed

lemma bancor_key_range: "BancorInfoKey \<le> BancorInfoKey @ symbol" "BancorInfoKey @ symbol < BancorInfoKeyEnd"
proof -
  show "BancorInfoKey \<le> BancorInfoKey @ symbol" by (cases symbol) (simp_all add: BancorInfoKey_def)
  have "byte 16 < byte 17" by code_simp
  then show "BancorInfoKey @ symbol < BancorInfoKeyEnd" by (simp add: BancorInfoKey_def BancorInfoKeyEnd_def)
qed


text \<open>The same pool along a power curve, with 80 \<open>cet\<close> when it is sold out.\<close>

definition ref_power :: "ref_bank bancor_state" where
  "ref_power = snd (bancor_Handler ref_cosmos ref_bancor (\<lambda>t. False) (ref_ctx 50) (BancorInitMsg (ref_init\<lparr>bn_MaxMoney := 80\<rparr>)) ref_market)"


end
